(* ===== verification/Prelude.thy ===== *)
theory Prelude
  imports Main "HOL-Library.Word" "HOL-Library.Monad_Syntax"
begin

text \<open>
  Shared vocabulary of the development: names for the machine types of the C code, the
  loop combinator that every counted \<^verbatim>\<open>for\<close> loop is translated to, and the
  generic lemmas and theorem collections the component theories rely on.
\<close>

unbundle bit_operations_syntax

section \<open>Machine types\<close>

type_synonym u8 = "8 word"
type_synonym u16 = "16 word"
type_synonym u32 = "32 word"
type_synonym u64 = "64 word"

abbreviation NUL :: char where
  "NUL \<equiv> CHR 0x00"

text \<open>A byte of memory read as \<^verbatim>\<open>uint8_t\<close>, and a byte stored into a char.\<close>

definition byte_of :: "char \<Rightarrow> u8" where
  "byte_of c = word_of_nat (of_char c)"

definition char_of_byte :: "u8 \<Rightarrow> char" where
  "char_of_byte b = char_of (unat b)"

lemma char_of_byte_byte_of [simp]: "char_of_byte (byte_of c) = c"
proof -
  have "(of_char c :: nat) < 256" by simp
  then show ?thesis
    by (simp add: char_of_byte_def byte_of_def unat_of_nat)
qed

lemma byte_of_char_of_byte [simp]: "byte_of (char_of_byte b) = b"
proof -
  have "unat b < 256" using unsigned_less [of b, where ?'a = nat] by simp
  then show ?thesis
    by (simp add: char_of_byte_def byte_of_def)
qed

text \<open>Widening an unsigned value keeps it.\<close>

lemma unat_ucast_up:
  "LENGTH('a) \<le> LENGTH('b) \<Longrightarrow> unat (ucast (w :: 'a::len word) :: 'b::len word) = unat w"
proof -
  assume le: "LENGTH('a) \<le> LENGTH('b)"
  have "unat w < 2 ^ LENGTH('a)" by (rule unsigned_less)
  also have "(2::nat) ^ LENGTH('a) \<le> 2 ^ LENGTH('b)" using le by simp
  finally show ?thesis by (simp add: unsigned_ucast_eq take_bit_nat_eq_self)
qed

text \<open>
  Little-endian images of integers in memory: \<open>le_bytes k n\<close> is what
  \<^verbatim>\<open>memcpy(p, &n, k)\<close> stores, \<open>le_value\<close> reads it back. \<open>poke off bs buf\<close> stores
  bytes at an offset of a buffer.
\<close>

fun le_bytes :: "nat \<Rightarrow> nat \<Rightarrow> string" where
  "le_bytes 0 n = []"
| "le_bytes (Suc k) n = char_of (n mod 256) # le_bytes k (n div 256)"

fun le_value :: "string \<Rightarrow> nat" where
  "le_value [] = 0"
| "le_value (c # cs) = of_char c + 256 * le_value cs"

definition poke :: "nat \<Rightarrow> 'a list \<Rightarrow> 'a list \<Rightarrow> 'a list" where
  "poke off bs buf = take off buf @ bs @ drop (off + length bs) buf"

definition peek_le :: "nat \<Rightarrow> nat \<Rightarrow> string \<Rightarrow> nat" where
  "peek_le k off buf = le_value (take k (drop off buf))"

lemma length_le_bytes [simp]: "length (le_bytes k n) = k"
  by (induction k arbitrary: n) auto

lemma le_value_bytes: "n < 256 ^ k \<Longrightarrow> le_value (le_bytes k n) = n"
proof (induction k arbitrary: n)
  case 0
  then show ?case by simp
next
  case (Suc k)
  then have "n div 256 < 256 ^ k" by (simp add: less_mult_imp_div_less mult.commute)
  with Suc.IH show ?case by simp
qed

lemma length_poke [simp]: "off + length bs \<le> length buf \<Longrightarrow> length (poke off bs buf) = length buf"
  by (simp add: poke_def)

lemma take_drop_poke_same:
  "off + length bs \<le> length buf \<Longrightarrow> take (length bs) (drop off (poke off bs buf)) = bs"
  by (simp add: poke_def)

lemma take_drop_poke_other:
  assumes "off + length bs \<le> length buf" and "o' + k \<le> off \<or> off + length bs \<le> o'"
  shows "take k (drop o' (poke off bs buf)) = take k (drop o' buf)"
proof (rule nth_equalityI)
  show "length (take k (drop o' (poke off bs buf))) = length (take k (drop o' buf))"
    using assms(1) by simp
  fix i
  assume "i < length (take k (drop o' (poke off bs buf)))"
  then show "take k (drop o' (poke off bs buf)) ! i = take k (drop o' buf) ! i"
    using assms by (auto simp: poke_def nth_append)
qed

lemma take_poke_other: "off + length bs \<le> length buf \<Longrightarrow> k \<le> off \<Longrightarrow> take k (poke off bs buf) = take k buf"
  using take_drop_poke_other [of off bs buf 0 k] by simp

lemma peek_poke_same:
  "off + k \<le> length buf \<Longrightarrow> n < 256 ^ k \<Longrightarrow> peek_le k off (poke off (le_bytes k n) buf) = n"
  using take_drop_poke_same [of off "le_bytes k n" buf] by (simp add: peek_le_def le_value_bytes)

lemma peek_poke_other:
  "off + length bs \<le> length buf \<Longrightarrow> o' + k \<le> off \<or> off + length bs \<le> o' \<Longrightarrow>
   peek_le k o' (poke off bs buf) = peek_le k o' buf"
  by (simp add: peek_le_def take_drop_poke_other)

text \<open>The value a word's bits denote as a signed \<^verbatim>\<open>int\<close>, from its unsigned value.\<close>

definition to_int32 :: "nat \<Rightarrow> int" where
  "to_int32 n = (if n < 2 ^ 31 then int n else int n - 2 ^ 32)"

definition of_int32 :: "int \<Rightarrow> nat" where
  "of_int32 i = nat (i mod 2 ^ 32)"

lemma to_of_int32: "- (2 ^ 31) \<le> i \<Longrightarrow> i < 2 ^ 31 \<Longrightarrow> to_int32 (of_int32 i) = i"
proof -
  assume a: "- (2 ^ 31) \<le> i" "i < 2 ^ 31"
  show ?thesis
  proof (cases "0 \<le> i")
    case True
    with a have "i mod 2 ^ 32 = i" by (intro mod_pos_pos_trivial) auto
    with True a show ?thesis by (simp add: to_int32_def of_int32_def)
  next
    case False
    with a have "i mod 2 ^ 32 = i + 2 ^ 32"
      using mod_pos_pos_trivial [of "i + 2 ^ 32" "2 ^ 32"] by simp
    with False a show ?thesis by (simp add: to_int32_def of_int32_def)
  qed
qed

text \<open>The bytes of a word, as the drivers split a divisor or a colour.\<close>

lemma mask_255: "(0xFF :: 'a::len word) = mask 8"
  by (simp add: mask_eq_exp_minus_1)

lemma unat_and_255: "unat (w AND 0xFF) = unat w mod 256" for w :: "'a::len word"
  unfolding mask_255 take_bit_eq_mask [symmetric] unsigned_take_bit_eq by (simp add: take_bit_eq_mod)

lemma unat_low_byte: "unat (ucast (w AND 0xFF) :: u8) = unat w mod 256" for w :: u32
proof -
  have "unat (ucast (w AND 0xFF) :: u8) = unat (w AND 0xFF) mod 256"
    by (simp only: unsigned_ucast_eq) (simp add: take_bit_eq_mod)
  then show ?thesis by (simp add: unat_and_255)
qed

lemma unat_of_nat_small: "n < 2 ^ LENGTH('a) \<Longrightarrow> unat (of_nat n :: 'a::len word) = n"
  by (simp only: unat_of_nat) (simp add: take_bit_nat_eq_self)

lemma unat_less_2p: "unat w < 2 ^ LENGTH('a)" for w :: "'a::len word"
  by (rule unsigned_less)

lemma unat_drop_bit: "unat (drop_bit n w) = unat w div 2 ^ n" for w :: "'a::len word"
  by (simp only: unsigned_drop_bit_eq) (simp add: drop_bit_eq_div take_bit_nat_eq_self)

text \<open>The signed value of a word from its unsigned one.\<close>

lemma sint_eq_if:
  fixes w :: "'a::len word"
  shows "sint w = (if uint w < 2 ^ (LENGTH('a) - 1) then uint w else uint w - 2 ^ LENGTH('a))"
proof -
  obtain n where n: "LENGTH('a) = Suc n" by (metis len_not_eq_0 not0_implies_Suc)
  have lt: "uint w < 2 ^ Suc n" using uint_lt2p [of w] n by simp
  have "uint w div 2 ^ n = (if uint w < 2 ^ n then 0 else 1)"
  proof (cases "uint w < 2 ^ n")
    case False
    have "(uint w - 2 ^ n) div 2 ^ n = 0" using False lt by (intro div_pos_pos_trivial) auto
    then have "uint w div 2 ^ n = 1"
      using div_add_self2 [of "2 ^ n" "uint w - 2 ^ n"] by simp
    with False show ?thesis by simp
  qed simp
  then have b: "bit (uint w) n \<longleftrightarrow> \<not> uint w < 2 ^ n" by (simp add: bit_iff_odd)
  have "sint w = signed_take_bit n (uint w)" by (simp add: sint_uint n)
  also have "\<dots> = uint w - 2 ^ Suc n * of_bool (bit (uint w) n)"
    using lt by (simp add: signed_take_bit_eq_take_bit_minus take_bit_int_eq_self)
  finally show ?thesis using b n by simp
qed

lemma int_or_not_255: "x OR NOT 0xFF = take_bit 8 x - 256" for x :: int
proof -
  have m: "(0xFF :: int) = mask 8" by (simp add: mask_eq_exp_minus_1)
  have "x OR NOT (mask 8) = NOT (NOT x AND mask 8)" by simp
  also have "\<dots> = NOT (take_bit 8 (NOT x))" by (simp add: take_bit_eq_mask)
  also have "\<dots> = NOT (mask 8 - take_bit 8 x)" by (simp add: take_bit_not_eq_mask_diff)
  also have "\<dots> = take_bit 8 x - 256" by (simp add: not_int_def mask_eq_exp_minus_1)
  finally show ?thesis unfolding m .
qed
section \<open>Theorem collections\<close>

named_theorems bounds_simps \<open>length facts of buffers and arrays\<close>
named_theorems keeps_intros \<open>introduction rules: an operation keeps the invariant of its state\<close>
named_theorems io_simps \<open>unfolding of port input and output\<close>

section \<open>Counted loops\<close>

text \<open>
  \<open>for_up a b body s\<close> is \<^verbatim>\<open>for (i = a; i < b; i++) s = body(i, s)\<close>.
\<close>

definition for_up :: "nat \<Rightarrow> nat \<Rightarrow> (nat \<Rightarrow> 's \<Rightarrow> 's) \<Rightarrow> 's \<Rightarrow> 's" where
  "for_up a b body s = fold body [a..<b] s"

lemma for_up_empty [simp]: "b \<le> a \<Longrightarrow> for_up a b body s = s"
  by (simp add: for_up_def)

lemma for_up_last: "a \<le> b \<Longrightarrow> for_up a (Suc b) body s = body b (for_up a b body s)"
  by (simp add: for_up_def)

lemma for_up_first: "a < b \<Longrightarrow> for_up a b body s = for_up (Suc a) b body (body a s)"
  by (simp add: for_up_def upt_conv_Cons)

lemma for_up_inv:
  assumes "P a s"
    and "\<And>i t. a \<le> i \<Longrightarrow> i < b \<Longrightarrow> P i t \<Longrightarrow> P (Suc i) (body i t)"
    and "a \<le> b"
  shows "P b (for_up a b body s)"
  using assms(3,2)
proof (induction b)
  case 0
  then show ?case using assms(1) by simp
next
  case (Suc b)
  show ?case
  proof (cases "a = Suc b")
    case True
    then show ?thesis using assms(1) by simp
  next
    case False
    with Suc.prems have ab: "a \<le> b" by simp
    then have "P b (for_up a b body s)" using Suc by simp
    then show ?thesis using ab Suc.prems(2) [of b] by (simp add: for_up_last)
  qed
qed

lemma for_up_keeps:
  assumes "P s" and "\<And>i t. a \<le> i \<Longrightarrow> i < b \<Longrightarrow> P t \<Longrightarrow> P (body i t)"
  shows "P (for_up a b body s)"
proof (cases "a \<le> b")
  case True
  then show ?thesis
    by (rule for_up_inv [where P = "\<lambda>_. P", rotated 2]) (use assms in auto)
next
  case False
  then show ?thesis using assms(1) by simp
qed

text \<open>\<open>run fs s\<close> is a block of statements, first to last.\<close>

definition run :: "('s \<Rightarrow> 's) list \<Rightarrow> 's \<Rightarrow> 's" where
  "run fs s = fold (\<lambda>f. f) fs s"

lemma run_Nil [simp]: "run [] s = s"
  by (simp add: run_def)

lemma run_Cons [simp]: "run (f # fs) s = run fs (f s)"
  by (simp add: run_def)

lemma run_append [simp]: "run (fs @ gs) s = run gs (run fs s)"
  by (simp add: run_def)

section \<open>Lists as arrays\<close>

text \<open>
  \<open>upd_at i v xs\<close> is the store \<^verbatim>\<open>xs[i] = v\<close>. It is \<open>None\<close> when \<open>i\<close> lies
  outside the array: the C code then writes to memory that is not the array's.
\<close>

definition upd_at :: "nat \<Rightarrow> 'a \<Rightarrow> 'a list \<Rightarrow> 'a list option" where
  "upd_at i v xs = (if i < length xs then Some (xs[i := v]) else None)"

definition read_at :: "nat \<Rightarrow> 'a list \<Rightarrow> 'a option" where
  "read_at i xs = (if i < length xs then Some (xs ! i) else None)"

lemma upd_at_Some_iff [simp]: "upd_at i v xs = Some ys \<longleftrightarrow> i < length xs \<and> ys = xs[i := v]"
  by (auto simp: upd_at_def)

lemma read_at_Some_iff [simp]: "read_at i xs = Some v \<longleftrightarrow> i < length xs \<and> v = xs ! i"
  by (auto simp: read_at_def)

lemma option_eq_SomeI: "(\<And>c. x = Some c \<longleftrightarrow> y = Some c) \<Longrightarrow> x = y"
  by (metis option.exhaust)

text \<open>The first index of a list whose element satisfies a test, as a search loop finds it.\<close>

fun find_index :: "('a \<Rightarrow> bool) \<Rightarrow> 'a list \<Rightarrow> nat option" where
  "find_index p [] = None"
| "find_index p (x # xs) = (if p x then Some 0 else map_option Suc (find_index p xs))"

lemma find_index_None [simp]: "find_index p xs = None \<longleftrightarrow> (\<forall>x \<in> set xs. \<not> p x)"
  by (induction xs) auto

lemma find_index_SomeD:
  "find_index p xs = Some i \<Longrightarrow> i < length xs \<and> p (xs ! i) \<and> (\<forall>j < i. \<not> p (xs ! j))"
proof (induction xs arbitrary: i)
  case Nil
  then show ?case by simp
next
  case (Cons x xs)
  show ?case
  proof (cases "p x")
    case True
    with Cons.prems show ?thesis by simp
  next
    case False
    with Cons.prems obtain k where "find_index p xs = Some k" and i: "i = Suc k" by auto
    with Cons.IH [of k] False show ?thesis
      by (auto simp: nth_Cons split: nat.splits)
  qed
qed

lemma find_index_ex: "x \<in> set xs \<Longrightarrow> p x \<Longrightarrow> \<exists>i. find_index p xs = Some i"
  by (induction xs) auto

lemma find_index_cong:
  "length xs = length ys \<Longrightarrow> (\<And>i. i < length xs \<Longrightarrow> p (xs ! i) = q (ys ! i)) \<Longrightarrow>
   find_index p xs = find_index q ys"
proof (induction xs ys rule: list_induct2)
  case Nil
  then show ?case by simp
next
  case (Cons x xs y ys)
  from Cons.prems [of 0] have "p x = q y" by simp
  moreover have "find_index p xs = find_index q ys"
  proof (rule Cons.IH)
    fix i assume "i < length xs"
    then show "p (xs ! i) = q (ys ! i)" using Cons.prems [of "Suc i"] by simp
  qed
  ultimately show ?case by simp
qed

lemma nth_update_split: "i < length xs \<Longrightarrow> xs[i := v] ! j = (if j = i then v else xs ! j)"
  by simp

end
