(* ===== verification/HeapMem.thy ===== *)
theory HeapMem
  imports Prelude
begin

text \<open>
  The kernel memory manager of \<^verbatim>\<open>kernel/mm.c\<close>: a bump allocator over the largest usable
  region of the Limine memory map. The state is the record of the file's static variables and
  the memory itself as a function from addresses to bytes. Addresses and counters are 64-bit
  words and wrap as in C; the size argument of \<^verbatim>\<open>kmalloc\<close> is a 32-bit word.
\<close>

section \<open>State and operations\<close>

record mm =
  heap_ptr :: u64
  total_mem_bytes :: u64
  kmalloc_count :: u64
  kmalloc_bytes :: u64
  page_alloc_count :: u64
  heap_start_addr :: u64
  ram :: "u64 \<Rightarrow> u8"

record memmap_entry =
  e_base :: u64
  e_length :: u64
  e_type :: u64

record mem_info =
  total_memory :: u64
  used_memory :: u64
  free_memory :: u64
  heap_allocations :: u64
  page_allocations :: u64
  heap_used_bytes :: u64
  heap_start :: u64
  heap_end :: u64

definition LIMINE_MEMMAP_USABLE :: u64 where
  "LIMINE_MEMMAP_USABLE = 0"

text \<open>The loop of \<^verbatim>\<open>mm_init\<close> over the entries: total, length and base of the largest.\<close>

fun mm_scan :: "memmap_entry list \<Rightarrow> u64 \<times> u64 \<times> u64 \<Rightarrow> u64 \<times> u64 \<times> u64" where
  "mm_scan [] acc = acc"
| "mm_scan (entry # es) (tot, max_len, best_base) =
     mm_scan es
       (if e_type entry = LIMINE_MEMMAP_USABLE
        then (tot + e_length entry,
              if e_length entry > max_len then (e_length entry, e_base entry)
              else (max_len, best_base))
        else (tot, max_len, best_base))"

definition mm_init :: "memmap_entry list \<Rightarrow> u64 \<Rightarrow> u64 \<Rightarrow> mm \<Rightarrow> mm" where
  "mm_init entries hhdm_offset kernel_end m =
     (let (tot, max_len, best_base) = mm_scan entries (0, 0, 0);
          hp = (if max_len > 0 then best_base + hhdm_offset else kernel_end)
      in m\<lparr>total_mem_bytes := tot, heap_ptr := hp, heap_start_addr := hp\<rparr>)"

definition kmalloc :: "u32 \<Rightarrow> mm \<Rightarrow> u64 \<times> mm" where
  "kmalloc sz m =
     (let ptr = heap_ptr m;
          aligned_size = (sz + 15) AND NOT 15
      in (ptr, m\<lparr>heap_ptr := heap_ptr m + ucast aligned_size,
                 kmalloc_count := kmalloc_count m + 1,
                 kmalloc_bytes := kmalloc_bytes m + ucast aligned_size\<rparr>))"

definition kfree :: "u64 \<Rightarrow> mm \<Rightarrow> mm" where
  "kfree ptr m = m"

text \<open>\<^verbatim>\<open>memcpy\<close> inside the memory: byte by byte, upwards, so overlaps behave as in C.\<close>

fun ram_copy :: "u64 \<Rightarrow> u64 \<Rightarrow> nat \<Rightarrow> (u64 \<Rightarrow> u8) \<Rightarrow> (u64 \<Rightarrow> u8)" where
  "ram_copy d s 0 r = r"
| "ram_copy d s (Suc n) r = ram_copy (d + 1) (s + 1) n (r(d := r s))"

definition krealloc :: "u64 \<Rightarrow> u32 \<Rightarrow> mm \<Rightarrow> u64 \<times> mm" where
  "krealloc ptr new_size m =
     (if new_size = 0 then (0, kfree ptr m)
      else let (new_ptr, m1) = kmalloc new_size m
           in (new_ptr,
               if ptr \<noteq> 0 then m1\<lparr>ram := ram_copy new_ptr ptr (unat new_size) (ram m1)\<rparr> else m1))"

definition palloc :: "mm \<Rightarrow> u64 \<times> mm" where
  "palloc m =
     (let current = heap_ptr m;
          aligned = (current + 4095) AND NOT 4095;
          hp = aligned + 4096
      in (aligned, m\<lparr>heap_ptr := hp,
                     page_alloc_count := page_alloc_count m + 1,
                     kmalloc_bytes := kmalloc_bytes m + (hp - current)\<rparr>))"

definition mm_get_info :: "mm \<Rightarrow> mem_info" where
  "mm_get_info m =
     \<lparr>total_memory = total_mem_bytes m,
      used_memory = kmalloc_bytes m,
      free_memory = total_mem_bytes m - kmalloc_bytes m,
      heap_allocations = kmalloc_count m,
      page_allocations = page_alloc_count m,
      heap_used_bytes = kmalloc_bytes m,
      heap_start = heap_start_addr m,
      heap_end = heap_ptr m\<rparr>"

section \<open>Rounding up to a power of two\<close>

lemma and_not_mask: "a AND NOT (mask n) = a - take_bit n a" for a :: "'a::len word"
proof -
  have "NOT a AND take_bit n a = 0"
    by (rule bit_eqI) (auto simp: bit_and_iff bit_not_iff bit_take_bit_iff)
  then have "a - take_bit n a = a AND NOT (take_bit n a)"
    by (rule disjunctive_diff_eq_and_not)
  also have "\<dots> = a AND NOT (mask n)"
    by (rule bit_eqI) (auto simp: bit_and_iff bit_not_iff bit_take_bit_iff bit_mask_iff)
  finally show ?thesis by simp
qed

lemma unat_and_not_mask:
  "unat (a AND NOT (mask n)) = unat a - unat a mod 2 ^ n" for a :: "'a::len word"
proof -
  have t: "unat (take_bit n a) = unat a mod 2 ^ n"
    by (simp only: unsigned_take_bit_eq) (simp add: take_bit_eq_mod)
  then have "take_bit n a \<le> a" by (simp add: word_le_nat_alt)
  then show ?thesis by (simp add: and_not_mask unat_sub t)
qed

lemma mask_15: "(15 :: 'a::len word) = mask 4"
  by (simp add: mask_eq_exp_minus_1)

lemma mask_4095: "(4095 :: 'a::len word) = mask 12"
  by (simp add: mask_eq_exp_minus_1)

lemma round_up_nat:
  fixes n k :: nat
  assumes "0 < k"
  shows "n \<le> n + (k - 1) - (n + (k - 1)) mod k"
    and "n + (k - 1) - (n + (k - 1)) mod k < n + k"
    and "k dvd n + (k - 1) - (n + (k - 1)) mod k"
proof -
  have "(n + (k - 1)) mod k < k" using assms by simp
  then show "n \<le> n + (k - 1) - (n + (k - 1)) mod k" using assms by linarith
  show "n + (k - 1) - (n + (k - 1)) mod k < n + k" using assms by linarith
  show "k dvd n + (k - 1) - (n + (k - 1)) mod k" by (rule dvd_minus_mod)
qed

lemma kmalloc_aligned:
  assumes "unat (sz::u32) + 15 < 2 ^ 32"
  shows "unat sz \<le> unat ((sz + 15) AND NOT (15 :: u32))"
    and "unat ((sz + 15) AND NOT (15 :: u32)) < unat sz + 16"
    and "16 dvd unat ((sz + 15) AND NOT (15 :: u32))"
proof -
  have "unat (sz + 15) = unat sz + 15"
    using assms by (simp add: unat_word_ariths)
  then have eq: "unat ((sz + 15) AND NOT (15 :: u32)) = unat sz + 15 - (unat sz + 15) mod 16"
    by (simp add: mask_15 unat_and_not_mask)
  show "unat sz \<le> unat ((sz + 15) AND NOT (15 :: u32))"
    and "unat ((sz + 15) AND NOT (15 :: u32)) < unat sz + 16"
    and "16 dvd unat ((sz + 15) AND NOT (15 :: u32))"
    unfolding eq using round_up_nat [of 16 "unat sz"] by simp_all
qed

lemma palloc_aligned:
  assumes "unat (p :: u64) + 4095 < 2 ^ 64"
  shows "unat p \<le> unat ((p + 4095) AND NOT (4095 :: u64))"
    and "unat ((p + 4095) AND NOT (4095 :: u64)) < unat p + 4096"
    and "4096 dvd unat ((p + 4095) AND NOT (4095 :: u64))"
proof -
  have "unat (p + 4095) = unat p + 4095"
    using assms by (simp add: unat_word_ariths)
  then have eq: "unat ((p + 4095) AND NOT (4095 :: u64)) = unat p + 4095 - (unat p + 4095) mod 4096"
    by (simp add: mask_4095 unat_and_not_mask)
  show "unat p \<le> unat ((p + 4095) AND NOT (4095 :: u64))"
    and "unat ((p + 4095) AND NOT (4095 :: u64)) < unat p + 4096"
    and "4096 dvd unat ((p + 4095) AND NOT (4095 :: u64))"
    unfolding eq using round_up_nat [of 4096 "unat p"] by simp_all
qed

section \<open>The allocator contract\<close>

text \<open>
  What the callers of an allocator that never frees rely on: a request that has room is served
  at or above the cursor, and the cursor moves past the block. \<open>room n s\<close> says that the
  request does not run into the end of the address space.
\<close>

fun alloc_seq :: "('n \<Rightarrow> 's \<Rightarrow> u64 \<times> 's) \<Rightarrow> 'n list \<Rightarrow> 's \<Rightarrow> (u64 \<times> 'n) list" where
  "alloc_seq alloc [] s = []"
| "alloc_seq alloc (n # ns) s = (fst (alloc n s), n) # alloc_seq alloc ns (snd (alloc n s))"

fun room_seq :: "('n \<Rightarrow> 's \<Rightarrow> u64 \<times> 's) \<Rightarrow> ('n \<Rightarrow> 's \<Rightarrow> bool) \<Rightarrow> 'n list \<Rightarrow> 's \<Rightarrow> bool" where
  "room_seq alloc room [] s = True"
| "room_seq alloc room (n # ns) s = (room n s \<and> room_seq alloc room ns (snd (alloc n s)))"

definition disjoint_blocks :: "('n \<Rightarrow> nat) \<Rightarrow> u64 \<times> 'n \<Rightarrow> u64 \<times> 'n \<Rightarrow> bool" where
  "disjoint_blocks sz b c \<longleftrightarrow>
     unat (fst b) + sz (snd b) \<le> unat (fst c) \<or> unat (fst c) + sz (snd c) \<le> unat (fst b)"

locale bump_allocator =
  fixes alloc :: "'n \<Rightarrow> 's \<Rightarrow> u64 \<times> 's"
    and cursor :: "'s \<Rightarrow> nat"
    and sz :: "'n \<Rightarrow> nat"
    and room :: "'n \<Rightarrow> 's \<Rightarrow> bool"
  assumes at_cursor: "room n s \<Longrightarrow> cursor s \<le> unat (fst (alloc n s))"
    and past_block: "room n s \<Longrightarrow> unat (fst (alloc n s)) + sz n \<le> cursor (snd (alloc n s))"
begin

lemma blocks_above:
  "room_seq alloc room ns s \<Longrightarrow> b \<in> set (alloc_seq alloc ns s) \<Longrightarrow> cursor s \<le> unat (fst b)"
proof (induction ns arbitrary: s)
  case Nil
  then show ?case by simp
next
  case (Cons n ns)
  have "cursor s \<le> cursor (snd (alloc n s))"
    using at_cursor [of n s] past_block [of n s] Cons.prems by simp
  with Cons at_cursor [of n s] show ?case by fastforce
qed

lemma blocks_disjoint:
  "room_seq alloc room ns s \<Longrightarrow> sorted_wrt (disjoint_blocks sz) (alloc_seq alloc ns s)"
proof (induction ns arbitrary: s)
  case Nil
  then show ?case by simp
next
  case (Cons n ns)
  have "disjoint_blocks sz (fst (alloc n s), n) b"
    if "b \<in> set (alloc_seq alloc ns (snd (alloc n s)))" for b
    using blocks_above [OF _ that] past_block [of n s] Cons.prems
    by (auto simp: disjoint_blocks_def)
  with Cons show ?case by simp
qed

end

text \<open>The kernel's two ways to take memory, in any interleaving.\<close>

datatype mem_request = Kmalloc u32 | Palloc

fun mm_alloc :: "mem_request \<Rightarrow> mm \<Rightarrow> u64 \<times> mm" where
  "mm_alloc (Kmalloc n) m = kmalloc n m"
| "mm_alloc Palloc m = palloc m"

fun request_size :: "mem_request \<Rightarrow> nat" where
  "request_size (Kmalloc n) = unat n"
| "request_size Palloc = 4096"

fun request_room :: "mem_request \<Rightarrow> mm \<Rightarrow> bool" where
  "request_room (Kmalloc n) m \<longleftrightarrow>
     unat n + 15 < 2 ^ 32 \<and> unat (heap_ptr m) + unat n + 15 < 2 ^ 64"
| "request_room Palloc m \<longleftrightarrow> unat (heap_ptr m) + 8191 < 2 ^ 64"

lemma kmalloc_cursor:
  assumes "unat sz + 15 < 2 ^ 32" and "unat (heap_ptr m) + unat sz + 15 < 2 ^ 64"
  shows "fst (kmalloc sz m) = heap_ptr m"
    and "unat (heap_ptr m) + unat sz \<le> unat (heap_ptr (snd (kmalloc sz m)))"
proof -
  show "fst (kmalloc sz m) = heap_ptr m" by (simp add: kmalloc_def Let_def)
  let ?a = "unat ((sz + 15) AND NOT (15 :: u32))"
  have a: "unat sz \<le> ?a" "?a < unat sz + 16"
    using kmalloc_aligned [OF assms(1)] by simp_all
  have "unat (ucast ((sz + 15) AND NOT (15 :: u32)) :: u64) = ?a"
    by (rule unat_ucast_up) simp
  then have "unat (heap_ptr (snd (kmalloc sz m))) = unat (heap_ptr m) + ?a"
    using a assms(2) by (simp add: kmalloc_def Let_def unat_word_ariths)
  with a show "unat (heap_ptr m) + unat sz \<le> unat (heap_ptr (snd (kmalloc sz m)))" by simp
qed

lemma palloc_cursor:
  assumes "unat (heap_ptr m) + 8191 < 2 ^ 64"
  shows "unat (heap_ptr m) \<le> unat (fst (palloc m))"
    and "unat (fst (palloc m)) + 4096 \<le> unat (heap_ptr (snd (palloc m)))"
    and "4096 dvd unat (fst (palloc m))"
proof -
  have lt: "unat (heap_ptr m) + 4095 < 2 ^ 64" using assms by simp
  note al = palloc_aligned [OF lt]
  show "unat (heap_ptr m) \<le> unat (fst (palloc m))" and "4096 dvd unat (fst (palloc m))"
    using al by (simp_all add: palloc_def Let_def)
  have "unat ((heap_ptr m + 4095) AND NOT (4095 :: u64)) + 4096 < 2 ^ 64"
    using al(2) assms by simp
  then show "unat (fst (palloc m)) + 4096 \<le> unat (heap_ptr (snd (palloc m)))"
    by (simp add: palloc_def Let_def unat_word_ariths)
qed

interpretation heap: bump_allocator mm_alloc "\<lambda>m. unat (heap_ptr m)" request_size request_room
proof unfold_locales
  fix n m
  assume r: "request_room n m"
  show "unat (heap_ptr m) \<le> unat (fst (mm_alloc n m))"
    using r kmalloc_cursor(1) palloc_cursor(1) by (cases n) auto
  show "unat (fst (mm_alloc n m)) + request_size n \<le> unat (heap_ptr (snd (mm_alloc n m)))"
    using r kmalloc_cursor palloc_cursor(2) by (cases n) auto
qed

section \<open>Properties\<close>

definition heap_accounted :: "mm \<Rightarrow> bool" where
  "heap_accounted m \<longleftrightarrow> kmalloc_bytes m = heap_ptr m - heap_start_addr m"

lemma mm_alloc_accounted:
  "heap_accounted m \<Longrightarrow> heap_accounted (snd (mm_alloc n m))"
  by (cases n) (auto simp: heap_accounted_def kmalloc_def palloc_def Let_def)

lemma krealloc_accounted: "heap_accounted m \<Longrightarrow> heap_accounted (snd (krealloc p n m))"
  by (simp add: krealloc_def heap_accounted_def kmalloc_def kfree_def Let_def)

fun mm_run :: "mem_request list \<Rightarrow> mm \<Rightarrow> mm" where
  "mm_run [] m = m"
| "mm_run (n # ns) m = mm_run ns (snd (mm_alloc n m))"

lemma mm_run_accounted: "heap_accounted m \<Longrightarrow> heap_accounted (mm_run ns m)"
  by (induction ns arbitrary: m) (auto intro: mm_alloc_accounted)

lemma mm_init_accounted: "kmalloc_bytes m = 0 \<Longrightarrow> heap_accounted (mm_init es off ke m)"
  by (simp add: mm_init_def heap_accounted_def Let_def split: prod.splits)

lemma mm_alloc_start [simp]: "heap_start_addr (snd (mm_alloc n m)) = heap_start_addr m"
  by (cases n) (auto simp: kmalloc_def palloc_def Let_def)

lemma mm_run_start [simp]: "heap_start_addr (mm_run ns m) = heap_start_addr m"
  by (induction ns arbitrary: m) auto

text \<open>C3 (mm_blocks_disjoint): any interleaving of \<^verbatim>\<open>kmalloc\<close> and \<^verbatim>\<open>palloc\<close> calls that does
  not run into the end of the address space returns pairwise disjoint blocks.\<close>

theorem mm_blocks_disjoint:
  assumes "room_seq mm_alloc request_room ns m"
  shows "sorted_wrt (disjoint_blocks request_size) (alloc_seq mm_alloc ns m)"
  using assms by (rule heap.blocks_disjoint)

theorem mm_blocks_disjoint_witness:
  "room_seq mm_alloc request_room [Kmalloc 24, Palloc, Kmalloc 5]
     \<lparr>heap_ptr = 0x100010, total_mem_bytes = 0, kmalloc_count = 0, kmalloc_bytes = 0,
      page_alloc_count = 0, heap_start_addr = 0x100010, ram = (\<lambda>_. 0)\<rparr> \<and>
   sorted_wrt (disjoint_blocks request_size) (alloc_seq mm_alloc [Kmalloc 24, Palloc, Kmalloc 5]
     \<lparr>heap_ptr = 0x100010, total_mem_bytes = 0, kmalloc_count = 0, kmalloc_bytes = 0,
      page_alloc_count = 0, heap_start_addr = 0x100010, ram = (\<lambda>_. 0)\<rparr>)"
proof -
  let ?m = "\<lparr>heap_ptr = 0x100010, total_mem_bytes = 0, kmalloc_count = 0, kmalloc_bytes = 0,
      page_alloc_count = 0, heap_start_addr = 0x100010, ram = (\<lambda>_. 0)\<rparr> :: mm"
  have h: "room_seq mm_alloc request_room [Kmalloc 24, Palloc, Kmalloc 5] ?m"
    by (simp add: kmalloc_def palloc_def Let_def)
  show ?thesis using h mm_blocks_disjoint [OF h] by simp
qed

text \<open>The fact \<open>mm_info_accounts\<close>: after \<^verbatim>\<open>mm_init\<close> and any sequence of allocations, the bytes that
  \<^verbatim>\<open>mm_get_info\<close> reports as used are exactly the distance from the heap's start to its end,
  and used and free memory add up to the total, all modulo \<open>2 ^ 64\<close>.\<close>

theorem mm_info_accounts:
  assumes "kmalloc_bytes m = 0"
  shows "let info = mm_get_info (mm_run ns (mm_init es off ke m)) in
         heap_used_bytes info = heap_end info - heap_start info
       \<and> used_memory info + free_memory info = total_memory info"
proof -
  have "heap_accounted (mm_run ns (mm_init es off ke m))"
    using assms by (intro mm_run_accounted mm_init_accounted)
  then show ?thesis
    by (simp add: mm_get_info_def heap_accounted_def Let_def del: mm_run_start)
qed

definition mm_boot :: mm where
  "mm_boot = \<lparr>heap_ptr = 0, total_mem_bytes = 0, kmalloc_count = 0, kmalloc_bytes = 0,
              page_alloc_count = 0, heap_start_addr = 0, ram = (\<lambda>_. 0)\<rparr>"

theorem mm_info_accounts_witness:
  "kmalloc_bytes mm_boot = 0 \<and>
   (let info = mm_get_info (mm_run [Kmalloc 7] (mm_init [] 0 0x200000 mm_boot)) in
      heap_used_bytes info = heap_end info - heap_start info
    \<and> used_memory info + free_memory info = total_memory info)"
proof -
  have h: "kmalloc_bytes mm_boot = 0" by (simp add: mm_boot_def)
  show ?thesis using h mm_info_accounts [OF h] by blast
qed

text \<open>The scan of the memory map: the largest usable entry, the first one among equals.\<close>

definition usable :: "memmap_entry \<Rightarrow> bool" where
  "usable e \<longleftrightarrow> e_type e = LIMINE_MEMMAP_USABLE"

lemma mm_scan_total:
  "fst (mm_scan es (tot, ml, b)) = tot + sum_list (map e_length (filter usable es))"
proof (induction es arbitrary: tot ml b)
  case Nil
  then show ?case by simp
next
  case (Cons e es)
  then show ?case by (auto simp: usable_def ac_simps)
qed

lemma mm_scan_max:
  "mm_scan es (tot, ml, b) = (t', ml', b') \<Longrightarrow>
   ml \<le> ml' \<and> (\<forall>e \<in> set es. usable e \<longrightarrow> e_length e \<le> ml') \<and>
   (ml' = ml \<and> b' = b \<or> (\<exists>e \<in> set es. usable e \<and> e_length e = ml' \<and> e_base e = b'))"
proof (induction es arbitrary: tot ml b)
  case Nil
  then show ?case by simp
next
  case (Cons e es)
  show ?case
  proof (cases "usable e \<and> e_length e > ml")
    case True
    with Cons.prems have "mm_scan es (tot + e_length e, e_length e, e_base e) = (t', ml', b')"
      by (simp add: usable_def)
    from Cons.IH [OF this] True show ?thesis by auto
  next
    case False
    then obtain tot' where "mm_scan es (tot', ml, b) = (t', ml', b')"
      using Cons.prems by (auto simp: usable_def split: if_splits)
    from Cons.IH [OF this] False show ?thesis by (auto simp: not_less)
  qed
qed

text \<open>The fact \<open>mm_init_largest\<close>: \<^verbatim>\<open>mm_init\<close> puts the heap at the higher-half address of a usable entry of
  the memory map that no usable entry exceeds in length (at the end of the kernel image when
  no usable entry has a positive length), and sets the total to the sum of the usable lengths.\<close>

theorem mm_init_largest:
  "(if \<exists>e \<in> set es. usable e \<and> 0 < e_length e
    then \<exists>e \<in> set es. usable e \<and> heap_ptr (mm_init es off ke m) = e_base e + off \<and>
           (\<forall>e' \<in> set es. \<not> (usable e' \<and> e_length e < e_length e'))
    else heap_ptr (mm_init es off ke m) = ke)
   \<and> total_mem_bytes (mm_init es off ke m) = sum_list (map e_length (filter usable es))"
proof -
  obtain t' ml' b' where scan: "mm_scan es (0, 0, 0) = (t', ml', b')" by (cases "mm_scan es (0, 0, 0)")
  note mx = mm_scan_max [OF scan]
  have tot: "t' = sum_list (map e_length (filter usable es))"
    using mm_scan_total [of es 0 0 0] scan by simp
  show ?thesis
  proof (cases "ml' = 0")
    case True
    then have "\<not> (\<exists>e \<in> set es. usable e \<and> 0 < e_length e)"
      using mx by (meson leD)
    with True tot show ?thesis by (auto simp: mm_init_def scan)
  next
    case False
    with mx obtain e where e: "e \<in> set es" "usable e" "e_length e = ml'" "e_base e = b'" by auto
    with mx False have "\<exists>e \<in> set es. usable e \<and> 0 < e_length e"
      by (auto simp: word_neq_0_conv intro!: bexI [of _ e])
    with False tot mx e show ?thesis
      by (auto simp: mm_init_def scan Let_def word_neq_0_conv leD intro!: bexI [of _ e])
  qed
qed

theorem mm_init_largest_witness:
  "heap_ptr (mm_init [\<lparr>e_base = 0x1000, e_length = 0x9000, e_type = 0\<rparr>,
      \<lparr>e_base = 0x100000, e_length = 0x7000, e_type = 1\<rparr>] 0xFFFF800000000000 7 mm_boot) = 0xFFFF80000000A000 - 0x9000
   \<and> total_mem_bytes (mm_init [\<lparr>e_base = 0x1000, e_length = 0x9000, e_type = 0\<rparr>,
      \<lparr>e_base = 0x100000, e_length = 0x7000, e_type = 1\<rparr>] 0xFFFF800000000000 7 mm_boot) = 0x9000"
  using mm_init_largest [of "[\<lparr>e_base = 0x1000, e_length = 0x9000, e_type = 0\<rparr>,
      \<lparr>e_base = 0x100000, e_length = 0x7000, e_type = 1\<rparr>]" "0xFFFF800000000000" 7 mm_boot]
  by (simp add: usable_def LIMINE_MEMMAP_USABLE_def)

text \<open>A size within 15 of \<open>2 ^ 32\<close> wraps around to zero in the rounding, so
  \<^verbatim>\<open>kmalloc\<close> hands out the block without moving the heap pointer and the next allocation
  returns the same address.\<close>

theorem kmalloc_wraps:
  assumes "2 ^ 32 \<le> unat sz + 15"
  shows "heap_ptr (snd (kmalloc sz m)) = heap_ptr m
       \<and> fst (kmalloc sz' (snd (kmalloc sz m))) = fst (kmalloc sz m)"
proof -
  have "unat sz < 2 ^ 32" using unsigned_less [of sz, where ?'a = nat] by simp
  then have "unat (sz + 15) = unat sz + 15 - 2 ^ 32"
    using assms by (simp add: unat_word_ariths mod_if)
  then have lt: "unat (sz + 15) < 15"
    using \<open>unat sz < 2 ^ 32\<close> by simp
  have "unat ((sz + 15) AND NOT (mask 4)) = 0"
    unfolding unat_and_not_mask using lt by simp
  then have "(sz + 15) AND NOT 15 = (0 :: u32)"
    unfolding mask_15 using unat_eq_zero by blast
  then show ?thesis by (simp add: kmalloc_def Let_def)
qed

theorem kmalloc_wraps_witness:
  "heap_ptr (snd (kmalloc 0xFFFFFFF8 mm_boot)) = heap_ptr mm_boot
   \<and> fst (kmalloc 64 (snd (kmalloc 0xFFFFFFF8 mm_boot))) = fst (kmalloc 0xFFFFFFF8 mm_boot)"
proof -
  have h: "2 ^ 32 \<le> unat (0xFFFFFFF8 :: u32) + 15" by simp
  show ?thesis by (rule kmalloc_wraps [OF h])
qed

section \<open>Reallocation\<close>

lemma ram_copy_frame:
  "(\<And>j. j < n \<Longrightarrow> a \<noteq> d + of_nat j) \<Longrightarrow> ram_copy d s n r a = r a"
proof (induction n arbitrary: d s r)
  case 0
  then show ?case by simp
next
  case (Suc n)
  have "a \<noteq> d" using Suc.prems [of 0] by simp
  moreover have "a \<noteq> (d + 1) + of_nat j" if "j < n" for j
    using Suc.prems [of "Suc j"] that by (simp add: ac_simps)
  ultimately show ?case using Suc.IH by simp
qed

lemma add_of_nat_inj:
  assumes "d + of_nat i = d + (of_nat j :: 'a::len word)" and "i < 2 ^ LENGTH('a)" and "j < 2 ^ LENGTH('a)"
  shows "i = j"
proof -
  have "unat (of_nat i :: 'a word) = unat (of_nat j :: 'a word)" using assms(1) by simp
  then show ?thesis using assms(2,3) by (simp add: unat_of_nat)
qed

lemma ram_copy_at:
  "i < n \<Longrightarrow> n \<le> 2 ^ 64 \<Longrightarrow> (\<And>j k. j \<le> i \<Longrightarrow> k < n \<Longrightarrow> s + of_nat j \<noteq> d + of_nat k) \<Longrightarrow>
   ram_copy d s n r (d + of_nat i) = r (s + of_nat i)"
proof (induction n arbitrary: d s r i)
  case 0
  then show ?case by simp
next
  case (Suc n)
  show ?case
  proof (cases i)
    case 0
    have "d \<noteq> (d + 1) + of_nat j" if "j < n" for j
    proof
      assume "d = d + 1 + of_nat j"
      then have "d + of_nat 0 = d + of_nat (Suc j)" by (simp add: add.assoc)
      then have "0 = Suc j"
        by (rule add_of_nat_inj) (use that Suc.prems(2) in auto)
      then show False by simp
    qed
    then show ?thesis using 0 by (simp add: ram_copy_frame)
  next
    case (Suc i')
    have neq: "s + of_nat i \<noteq> d" using Suc.prems(3) [of i 0] by simp
    have "ram_copy (d + 1) (s + 1) n (r(d := r s)) ((d + 1) + of_nat i')
        = (r(d := r s)) ((s + 1) + of_nat i')"
    proof (rule Suc.IH)
      show "i' < n" and "n \<le> 2 ^ 64" using Suc.prems Suc by simp_all
      fix j k assume "j \<le> i'" "k < n"
      then show "s + 1 + of_nat j \<noteq> d + 1 + of_nat k"
        using Suc.prems(3) [of "Suc j" "Suc k"] Suc by (simp add: ac_simps)
    qed
    then show ?thesis using Suc neq by (simp add: ac_simps)
  qed
qed

text \<open>The fact \<open>krealloc_keeps\<close>: \<^verbatim>\<open>krealloc\<close> to a positive size returns a fresh block that begins with the
  bytes of the old block, as far as both reach, although the allocator does not know the old
  size and copies \<open>new_size\<close> bytes.\<close>

theorem krealloc_keeps:
  assumes "p \<noteq> 0" and "unat p + old \<le> unat (heap_ptr m)"
    and "unat (heap_ptr m) + unat n \<le> 2 ^ 64" and "i < old" and "i < unat n"
  shows "fst (krealloc p n m) = heap_ptr m
       \<and> ram (snd (krealloc p n m)) (heap_ptr m + of_nat i) = ram m (p + of_nat i)"
proof -
  let ?d = "heap_ptr m"
  have n0: "n \<noteq> 0" using assms(5) by auto
  have hp: "unat ?d < 2 ^ 64" using unsigned_less [of ?d, where ?'a = nat] by simp
  have sep: "p + of_nat j \<noteq> ?d + of_nat k" if "j \<le> i" "k < unat n" for j k
  proof -
    have jb: "unat p + j < unat ?d" using that assms(2,4) by simp
    have "unat (p + of_nat j) = unat p + j"
      using jb hp by (simp add: unat_word_ariths unat_of_nat)
    moreover have "unat (?d + of_nat k) = unat ?d + k"
      using that assms(3) by (simp add: unat_word_ariths unat_of_nat)
    ultimately show ?thesis using jb by auto
  qed
  have "ram_copy ?d p (unat n) (ram m) (?d + of_nat i) = ram m (p + of_nat i)"
    using assms(3,5) sep by (intro ram_copy_at) auto
  then show ?thesis
    using n0 assms(1) by (simp add: krealloc_def kmalloc_def Let_def)
qed

theorem krealloc_keeps_witness:
  "fst (krealloc 0x1000 32 (mm_boot\<lparr>heap_ptr := 0x1010, ram := (\<lambda>a. ucast a)\<rparr>)) = 0x1010
   \<and> ram (snd (krealloc 0x1000 32 (mm_boot\<lparr>heap_ptr := 0x1010, ram := (\<lambda>a. ucast a)\<rparr>))) 0x1015 = 5"
proof -
  let ?m = "mm_boot\<lparr>heap_ptr := 0x1010, ram := (\<lambda>a. ucast a)\<rparr>"
  have "fst (krealloc 0x1000 32 ?m) = heap_ptr ?m
      \<and> ram (snd (krealloc 0x1000 32 ?m)) (heap_ptr ?m + of_nat 5) = ram ?m (0x1000 + of_nat 5)"
    by (rule krealloc_keeps [of _ 16]) simp_all
  then show ?thesis by simp
qed

end
