(* ===== verification/CString.thy ===== *)
theory CString
  imports Prelude
begin

text \<open>
  The string routines of \<^verbatim>\<open>kernel/string.c\<close>.

  Memory is a list of characters that starts where the C pointer points. A string argument
  is terminated by its first NUL character or, as a string literal is, by the end of the
  list. A write that would leave the destination array makes the routine return \<open>None\<close>:
  the C code has undefined behaviour there.
\<close>

section \<open>The routines\<close>

definition cstr :: "string \<Rightarrow> string" where
  "cstr s = takeWhile (\<lambda>c. c \<noteq> NUL) s"

fun memset :: "char list \<Rightarrow> int \<Rightarrow> nat \<Rightarrow> char list option" where
  "memset ds val 0 = Some ds"
| "memset [] val (Suc len) = None"
| "memset (d # ds) val (Suc len) = map_option ((#) (char_of val)) (memset ds val len)"

fun strcmp :: "string \<Rightarrow> string \<Rightarrow> int" where
  "strcmp [] [] = 0"
| "strcmp [] (d # ds) = - of_char d"
| "strcmp (c # cs) [] = of_char c"
| "strcmp (c # cs) (d # ds) =
     (if c \<noteq> NUL \<and> c = d then strcmp cs ds else of_char c - of_char d)"

fun strlen :: "string \<Rightarrow> nat" where
  "strlen [] = 0"
| "strlen (c # cs) = (if c = NUL then 0 else Suc (strlen cs))"

fun memcpy :: "'a list \<Rightarrow> 'a list \<Rightarrow> nat \<Rightarrow> 'a list option" where
  "memcpy ds ss 0 = Some ds"
| "memcpy (d # ds) (s # ss) (Suc n) = map_option ((#) s) (memcpy ds ss n)"
| "memcpy _ _ (Suc n) = None"

fun strncpy :: "char list \<Rightarrow> string \<Rightarrow> nat \<Rightarrow> char list option" where
  "strncpy ds ss 0 = Some ds"
| "strncpy [] ss (Suc n) = None"
| "strncpy (d # ds) [] (Suc n) = map_option ((#) NUL) (strncpy ds [] n)"
| "strncpy (d # ds) (s # ss) (Suc n) =
     (if s = NUL then map_option ((#) NUL) (strncpy ds [] n)
      else map_option ((#) s) (strncpy ds ss n))"

text \<open>
  \<open>strncat\<close> appends at most \<open>n\<close> characters and then a terminator. \<open>n\<close> does not bound
  the destination, so the terminated result must fit.
\<close>

definition strncat :: "char list \<Rightarrow> string \<Rightarrow> nat \<Rightarrow> char list option" where
  "strncat dest src n =
     (let dest_len = strlen dest; app = take n (cstr src)
      in if dest_len + length app < length dest
         then Some (take dest_len dest @ app @ [NUL] @ drop (dest_len + length app + 1) dest)
         else None)"

fun strchr :: "string \<Rightarrow> char \<Rightarrow> string option" where
  "strchr [] c = None"
| "strchr (s # ss) c = (if s = NUL then None else if s = c then Some (s # ss) else strchr ss c)"

fun strncmp :: "string \<Rightarrow> string \<Rightarrow> nat \<Rightarrow> int" where
  "strncmp s1 s2 0 = 0"
| "strncmp [] [] (Suc n) = 0"
| "strncmp [] (d # ds) (Suc n) = - of_char d"
| "strncmp (c # cs) [] (Suc n) = of_char c"
| "strncmp (c # cs) (d # ds) (Suc n) =
     (if c \<noteq> NUL \<and> c = d then strncmp cs ds n else of_char c - of_char d)"

text \<open>
  \<open>strtok\<close> keeps where it stopped in the static variable \<open>last_strtok\<close>. The token it
  returns is cut off by the NUL it writes over the delimiter, so the characters of the token
  are never written again and the token is returned as a value; the saved pointer is the
  text behind the delimiter.
\<close>

definition is_delim :: "string \<Rightarrow> char \<Rightarrow> bool" where
  "is_delim delim c \<longleftrightarrow> strchr delim c \<noteq> None"

definition strtok :: "string option \<Rightarrow> string \<Rightarrow> string option \<Rightarrow> string option \<times> string option" where
  "strtok s delim last_strtok =
     (case (if s = None then last_strtok else s) of
        None \<Rightarrow> (None, last_strtok)
      | Some p \<Rightarrow>
          (let q = dropWhile (is_delim delim) (cstr p) in
           if q = [] then (None, None)
           else let token = takeWhile (\<lambda>c. \<not> is_delim delim c) q;
                    rest = dropWhile (\<lambda>c. \<not> is_delim delim c) q
                in (Some token, if rest = [] then None else Some (tl rest))))"

section \<open>Formatted output\<close>

text \<open>
  \<open>xsprintf\<close> takes a format and the list of its variable arguments. Reading an argument of
  the wrong kind, or a format that ends right after a percent sign (the C loop then steps over
  the terminator), is undefined and gives \<open>None\<close>; so does negating the least \<^verbatim>\<open>int\<close>.
\<close>

datatype carg = AStr string | AInt int

fun digits_rev :: "nat \<Rightarrow> string" where
  "digits_rev n = (if n = 0 then [] else char_of (48 + n mod 10) # digits_rev (n div 10))"

declare digits_rev.simps [simp del]

definition decimal :: "nat \<Rightarrow> string" where
  "decimal n = (if n = 0 then ''0'' else rev (digits_rev n))"

definition fmt_s :: "bool \<Rightarrow> int \<Rightarrow> string \<Rightarrow> string" where
  "fmt_s align_left width s =
     (let t = cstr s; pad = nat (width - int (length t))
      in if align_left then t @ replicate pad (CHR 0x20) else replicate pad (CHR 0x20) @ t)"

definition fmt_d :: "bool \<Rightarrow> int \<Rightarrow> int \<Rightarrow> string option" where
  "fmt_d pad_zero width val =
     (if val = - (2 ^ 31) then None
      else let num = decimal (nat \<bar>val\<bar>); pad = nat (width - int (length num))
           in Some ((if val < 0 then ''-'' else []) @
                    replicate pad (if pad_zero then CHR ''0'' else CHR 0x20) @ num))"

fun parse_width :: "int \<Rightarrow> string \<Rightarrow> int \<times> string" where
  "parse_width w [] = (w, [])"
| "parse_width w (c # cs) =
     (if 48 \<le> (of_char c :: int) \<and> (of_char c :: int) \<le> 57
      then parse_width (w * 10 + (of_char c - 48)) cs else (w, c # cs))"

definition eat :: "char \<Rightarrow> string \<Rightarrow> bool \<times> string" where
  "eat c cs = (if cs \<noteq> [] \<and> hd cs = c then (True, tl cs) else (False, cs))"

lemma parse_width_length: "length (snd (parse_width w cs)) \<le> length cs"
  by (induction w cs rule: parse_width.induct) auto

lemma eat_length: "length (snd (eat c cs)) \<le> length cs"
  by (simp add: eat_def)

text \<open>The flags, the width and the rest of a conversion, behind its percent sign.\<close>

definition parse_spec :: "string \<Rightarrow> bool \<times> bool \<times> int \<times> string" where
  "parse_spec cs =
     (let (align_left, cs1) = eat (CHR ''-'') cs;
          (pad_zero, cs2) = eat (CHR ''0'') cs1;
          (width, cs3) = parse_width 0 cs2
      in (align_left, pad_zero, width, cs3))"

lemma parse_spec_length:
  "parse_spec cs = (al, pz, w, d # rest) \<Longrightarrow> length rest < length cs"
  using parse_width_length [of 0 "snd (eat (CHR ''0'') (snd (eat (CHR ''-'') cs)))"]
    eat_length [of "CHR ''0''" "snd (eat (CHR ''-'') cs)"] eat_length [of "CHR ''-''" cs]
  by (auto simp: parse_spec_def split: prod.splits)

function xfmt :: "string \<Rightarrow> carg list \<Rightarrow> string option" where
  "xfmt [] args = Some []"
| "xfmt (c # cs) args =
     (if c \<noteq> CHR ''%'' then map_option ((#) c) (xfmt cs args)
      else case parse_spec cs of
        (align_left, pad_zero, width, []) \<Rightarrow> None
      | (align_left, pad_zero, width, d # rest) \<Rightarrow>
          if d = CHR ''s'' then
            (case args of
               AStr s # as \<Rightarrow> map_option ((@) (fmt_s align_left width s)) (xfmt rest as)
             | _ \<Rightarrow> None)
          else if d = CHR ''d'' then
            (case args of
               AInt val # as \<Rightarrow>
                 (case fmt_d pad_zero width val of
                    None \<Rightarrow> None
                  | Some out \<Rightarrow> map_option ((@) out) (xfmt rest as))
             | _ \<Rightarrow> None)
          else if d = CHR ''c'' then
            (case args of
               AInt val # as \<Rightarrow> map_option ((#) (char_of val)) (xfmt rest as)
             | _ \<Rightarrow> None)
          else map_option ((@) [CHR ''%'', d]) (xfmt rest args))"
  by pat_completeness auto
termination
  by (relation "measure (length o fst)") (auto dest!: parse_spec_length [OF sym] less_SucI)

text \<open>
  The output is stored at \<open>str\<close> with a terminator behind it. \<open>sprint n\<close> is a call on
  a local array \<^verbatim>\<open>char buf[n]\<close> whose text is used afterwards: the text, or \<open>None\<close> when
  it does not fit the array.
\<close>

definition xsprintf :: "char list \<Rightarrow> string \<Rightarrow> carg list \<Rightarrow> (char list \<times> nat) option" where
  "xsprintf str fmt args =
     (case xfmt (cstr fmt) args of
        None \<Rightarrow> None
      | Some out \<Rightarrow>
          if length out < length str
          then Some (out @ [NUL] @ drop (length out + 1) str, length out) else None)"

definition sprint :: "nat \<Rightarrow> string \<Rightarrow> carg list \<Rightarrow> string option" where
  "sprint n fmt args =
     (case xsprintf (replicate n NUL) fmt args of
        None \<Rightarrow> None
      | Some (str, written) \<Rightarrow> Some (cstr str))"

section \<open>What they compute\<close>

lemma cstr_Nil [simp]: "cstr [] = []"
  by (simp add: cstr_def)

lemma cstr_Cons [simp]: "cstr (c # cs) = (if c = NUL then [] else c # cstr cs)"
  by (simp add: cstr_def)

lemma cstr_idem [simp]: "cstr (cstr s) = cstr s"
  by (induction s) auto

lemma strlen_cstr: "strlen s = length (cstr s)"
  by (induction s) auto

lemma cstr_no_NUL: "NUL \<notin> set s \<Longrightarrow> cstr s = s"
  by (induction s) auto

lemma NUL_notin_cstr [simp]: "NUL \<notin> set (cstr s)"
  by (induction s) auto

lemma cstr_append: "cstr (xs @ ys) = (if NUL \<in> set xs then cstr xs else xs @ cstr ys)"
  by (induction xs) auto

lemma length_cstr_le: "length (cstr s) \<le> length s"
  by (simp add: cstr_def length_takeWhile_le)

lemma length_cstr_terminated:
  assumes "i < length b" and "b ! i = NUL"
  shows "length (cstr b) \<le> i"
proof (rule ccontr)
  assume "\<not> length (cstr b) \<le> i"
  then have lt: "i < length (cstr b)" by simp
  then have "cstr b ! i = b ! i" by (simp add: cstr_def takeWhile_nth)
  then have "NUL \<in> set (cstr b)" using lt assms(2) nth_mem by fastforce
  then show False by simp
qed

lemma cstr_replicate_NUL [simp]: "cstr (replicate n NUL) = []"
  by (cases n) auto

lemma memset_eq:
  "memset ds val n = (if n \<le> length ds then Some (replicate n (char_of val) @ drop n ds) else None)"
  by (induction ds val n rule: memset.induct) auto

lemma memcpy_eq:
  "memcpy ds ss n = (if n \<le> length ds \<and> n \<le> length ss then Some (take n ss @ drop n ds) else None)"
  by (induction ds ss n rule: memcpy.induct) auto

lemma strncpy_eq:
  "strncpy ds ss n =
     (if n \<le> length ds then Some (take n (cstr ss @ replicate n NUL) @ drop n ds) else None)"
proof (induction ds ss n rule: strncpy.induct)
  case (3 d ds n)
  then show ?case by simp
next
  case (4 d ds s ss n)
  have "take k (NUL # replicate n NUL) = replicate (min k (Suc n)) NUL" for k
    using take_replicate [of k "Suc n" NUL] by simp
  with 4 show ?case by (auto simp: min_def replicate_append_same)
qed auto

lemma of_char_int_0_iff [simp]: "of_char c = (0::int) \<longleftrightarrow> c = NUL"
  using of_char_eq_iff [of c NUL, where ?'a = int] by simp

lemma strcmp_zero_iff: "strcmp s t = 0 \<longleftrightarrow> cstr s = cstr t"
proof (induction s t rule: strcmp.induct)
  case (4 c cs d ds)
  then show ?case by auto
qed auto

text \<open>
  Comparing the first \<open>strlen t\<close> characters tests for a prefix: the search by title, the
  completion of a word and the test for an extension rest on it.
\<close>

lemma strncmp_prefix_iff: "strncmp s t (length t) = 0 \<longleftrightarrow> take (length t) s = t"
  if "NUL \<notin> set t"
  using that
proof (induction t arbitrary: s)
  case Nil
  then show ?case by simp
next
  case (Cons c t)
  show ?case
  proof (cases s)
    case Nil
    with Cons.prems show ?thesis by auto
  next
    case (Cons d ds)
    with Cons.IH [of ds] Cons.prems show ?thesis by auto
  qed
qed

lemma strncpy_Some: "n \<le> length ds \<Longrightarrow> \<exists>ds'. strncpy ds ss n = Some ds' \<and> length ds' = length ds"
  by (simp add: strncpy_eq)

text \<open>
  The idiom \<^verbatim>\<open>strncpy(d, s, n - 1); d[n - 1] = 0\<close> on an array of \<open>n\<close> characters.
\<close>

definition strncpy_term :: "char list \<Rightarrow> string \<Rightarrow> nat \<Rightarrow> char list option" where
  "strncpy_term dest src n =
     (case strncpy dest src n of None \<Rightarrow> None | Some d \<Rightarrow> upd_at n NUL d)"

lemma strncpy_term_eq:
  assumes "length dest = Suc n"
  shows "strncpy_term dest src n = Some (take n (cstr src @ replicate n NUL) @ [NUL])"
proof -
  let ?t = "take n (cstr src @ replicate n NUL)"
  have "drop n dest = [dest ! n]"
    using assms Cons_nth_drop_Suc [of n dest] by simp
  then have "strncpy dest src n = Some (?t @ [dest ! n])"
    using assms by (simp add: strncpy_eq)
  moreover have "length ?t = n" by simp
  ultimately show ?thesis
    by (simp add: strncpy_term_def upd_at_def list_update_append del: take_append length_take)
qed

lemma cstr_take_pad: "cstr (take n (cstr s @ replicate n NUL) @ NUL # r) = take n (cstr s)"
proof -
  have nn: "NUL \<notin> set (take n (cstr s))" by (meson NUL_notin_cstr in_set_takeD)
  show ?thesis
  proof (cases "n \<le> length (cstr s)")
    case True
    then show ?thesis using nn by (simp add: cstr_append)
  next
    case False
    then show ?thesis by (simp add: cstr_append cstr_no_NUL Suc_diff_le [symmetric])
  qed
qed

lemma cstr_strncpy_term:
  assumes "length dest = Suc n" and "strncpy_term dest src n = Some d"
  shows "cstr d = take n (cstr src)" and "length d = Suc n" and "d ! n = NUL"
  using assms cstr_take_pad [of n src "[]"]
  by (auto simp: strncpy_term_eq nth_append simp del: take_append)

section \<open>Tokens\<close>

lemma is_delim_Nil [simp]: "is_delim [] c = False"
  by (simp add: is_delim_def)

lemma is_delim_space [simp]: "is_delim '' '' c \<longleftrightarrow> c = CHR 0x20"
  by (auto simp: is_delim_def)

text \<open>A token is not empty, holds no delimiter, and what follows it was in the text.\<close>

lemma strtok_token:
  assumes "strtok (Some p) delim prev = (Some token, rest)"
  shows "token \<noteq> [] \<and> (\<forall>c \<in> set token. \<not> is_delim delim c \<and> c \<in> set (cstr p))"
proof -
  let ?q = "dropWhile (is_delim delim) (cstr p)"
  from assms have q: "?q \<noteq> []" and t: "token = takeWhile (\<lambda>c. \<not> is_delim delim c) ?q"
    by (auto simp: strtok_def Let_def split: if_splits)
  from q have "\<not> is_delim delim (hd ?q)" by (rule hd_dropWhile)
  with q t have "token \<noteq> []" by (cases ?q) auto
  moreover have "\<forall>c \<in> set token. \<not> is_delim delim c \<and> c \<in> set (cstr p)"
    using t by (auto dest!: set_takeWhileD set_dropWhileD)
  ultimately show ?thesis by simp
qed

lemma strtok_length:
  assumes "strtok (Some p) delim prev = (Some token, rest)"
  shows "length token + (case rest of None \<Rightarrow> 0 | Some r \<Rightarrow> Suc (length r)) \<le> length (cstr p)"
proof -
  let ?q = "dropWhile (is_delim delim) (cstr p)"
  from assms have t: "token = takeWhile (\<lambda>c. \<not> is_delim delim c) ?q"
    and r: "rest = (let r = dropWhile (\<lambda>c. \<not> is_delim delim c) ?q in if r = [] then None else Some (tl r))"
    by (auto simp: strtok_def Let_def split: if_splits)
  have "length token + length (dropWhile (\<lambda>c. \<not> is_delim delim c) ?q) = length ?q"
    unfolding t by (metis length_append takeWhile_dropWhile_id)
  moreover have "length ?q \<le> length (cstr p)" by (rule length_dropWhile_le)
  ultimately show ?thesis
    using r by (cases "dropWhile (\<lambda>c. \<not> is_delim delim c) ?q") (auto simp: Let_def)
qed

section \<open>Decimal output\<close>

text \<open>The value of a string of digits, most significant first.\<close>

definition dec_value :: "string \<Rightarrow> nat" where
  "dec_value s = foldl (\<lambda>v c. 10 * v + (of_char c - 48)) 0 s"

lemma digits_rev_value:
  "foldr (\<lambda>c v. 10 * v + (of_char c - 48)) (digits_rev n) 0 = (n::nat)"
proof (induction n rule: digits_rev.induct)
  case (1 n)
  show ?case
  proof (cases "n = 0")
    case True
    then show ?thesis by (simp add: digits_rev.simps)
  next
    case False
    have "of_char (char_of (48 + n mod 10)) - (48::nat) = n mod 10" by simp
    with False 1 show ?thesis by (subst digits_rev.simps) simp
  qed
qed

lemma dec_value_decimal [simp]: "dec_value (decimal n) = n"
  by (simp add: dec_value_def decimal_def foldl_conv_foldr digits_rev_value)

lemma digits_rev_length: "0 < k \<Longrightarrow> n < 10 ^ k \<Longrightarrow> length (digits_rev n) \<le> k"
proof (induction n arbitrary: k rule: digits_rev.induct)
  case (1 n)
  show ?case
  proof (cases "n = 0")
    case True
    then show ?thesis by (simp add: digits_rev.simps)
  next
    case False
    show ?thesis
    proof (cases "n div 10 = 0")
      case True
      then have "digits_rev (n div 10) = []" by (simp add: digits_rev.simps)
      with False 1(2) show ?thesis by (subst digits_rev.simps) simp
    next
      case hi: False
      with 1(3) obtain j where k: "k = Suc j" "0 < j"
        by (cases k; cases "k - 1") auto
      with 1(3) have "n div 10 < 10 ^ j" by (simp add: less_mult_imp_div_less mult.commute)
      with 1(1) [OF False k(2)] k show ?thesis by (subst digits_rev.simps) simp
    qed
  qed
qed

lemma decimal_length: "0 < k \<Longrightarrow> n < 10 ^ k \<Longrightarrow> length (decimal n) \<le> k"
  by (simp add: decimal_def digits_rev_length)

lemma decimal_no_NUL: "NUL \<notin> set (decimal n)"
proof -
  have "NUL \<notin> set (digits_rev n)"
  proof (induction n rule: digits_rev.induct)
    case (1 n)
    have "(of_char (char_of (48 + n mod 10)) :: nat) \<noteq> of_char NUL" by simp
    then have "char_of (48 + n mod 10) \<noteq> NUL" by (metis of_char_eq_iff)
    with 1 show ?case by (subst digits_rev.simps) auto
  qed
  then show ?thesis by (simp add: decimal_def)
qed

text \<open>An \<^verbatim>\<open>int\<close> prints in at most ten digits and a sign.\<close>

lemma fmt_d_length:
  assumes "fmt_d pz w v = Some out" and "\<bar>v\<bar> < 2 ^ 31"
  shows "length out \<le> 1 + max 10 (nat w)"
proof -
  from assms(2) have "nat \<bar>v\<bar> < 10 ^ 10" by simp
  then have "length (decimal (nat \<bar>v\<bar>)) \<le> 10" by (intro decimal_length) auto
  with assms(1) show ?thesis
    by (auto simp: fmt_d_def Let_def split: if_splits)
qed

section \<open>Formats without a conversion\<close>

lemma xfmt_plain: "CHR ''%'' \<notin> set f \<Longrightarrow> xfmt f args = Some f"
  by (induction f) auto

lemma sprint_eq:
  "sprint n fmt args =
     (case xfmt (cstr fmt) args of
        None \<Rightarrow> None | Some out \<Rightarrow> if length out < n then Some (cstr out) else None)"
  by (auto simp: sprint_def xsprintf_def cstr_append cstr_no_NUL split: option.splits)

lemma sprint_length: "sprint n fmt args = Some s \<Longrightarrow> length s < n"
  by (auto simp: sprint_eq split: option.splits if_splits
      intro: le_less_trans [OF length_cstr_le])

section \<open>The conversions without flags\<close>

definition dec_text :: "int \<Rightarrow> string" where
  "dec_text v = (if v < 0 then ''-'' else []) @ decimal (nat \<bar>v\<bar>)"

lemma xfmt_s [simp]:
  "xfmt (CHR ''%'' # CHR ''s'' # rest) (AStr s # as) = map_option ((@) (cstr s)) (xfmt rest as)"
  by (simp add: parse_spec_def eat_def fmt_s_def)

lemma xfmt_d [simp]:
  "xfmt (CHR ''%'' # CHR ''d'' # rest) (AInt v # as) =
     (if v = - (2 ^ 31) then None else map_option ((@) (dec_text v)) (xfmt rest as))"
  by (simp add: parse_spec_def eat_def fmt_d_def dec_text_def)

lemma xfmt_char [simp]: "c \<noteq> CHR ''%'' \<Longrightarrow> xfmt (c # cs) args = map_option ((#) c) (xfmt cs args)"
  by simp

lemmas xfmt_conversion = xfmt.simps(2) [of "CHR ''%''"]

declare xfmt.simps(2) [simp del]

lemma dec_text_length: "\<bar>v\<bar> < 2 ^ 31 \<Longrightarrow> length (dec_text v) \<le> 11"
proof -
  assume a: "\<bar>v\<bar> < 2 ^ 31"
  then have "nat \<bar>v\<bar> < 10 ^ 10" by simp
  then have "length (decimal (nat \<bar>v\<bar>)) \<le> 10" by (intro decimal_length) auto
  then show ?thesis by (auto simp: dec_text_def)
qed

lemma dec_text_length_nat: "0 < k \<Longrightarrow> 0 \<le> v \<Longrightarrow> v < 10 ^ k \<Longrightarrow> length (dec_text v) \<le> k"
  using decimal_length [of k "nat v"] by (simp add: dec_text_def nat_less_iff)

lemma dec_text_no_NUL: "NUL \<notin> set (dec_text v)"
  by (simp add: dec_text_def decimal_no_NUL)

text \<open>A formatted text that fits its array.\<close>

lemma xsprintf_Some:
  "xfmt (cstr fmt) args = Some out \<Longrightarrow> length out < length str \<Longrightarrow>
   xsprintf str fmt args = Some (out @ [NUL] @ drop (length out + 1) str, length out)"
  by (simp add: xsprintf_def)

lemma sprint_Some: "xfmt (cstr fmt) args = Some out \<Longrightarrow> length out < n \<Longrightarrow> sprint n fmt args = Some (cstr out)"
  by (simp add: sprint_eq)

end
