(* ===== verification/RamFS.thy ===== *)
theory RamFS
  imports CString
begin

text \<open>
  The RAM-disk file system of \<^verbatim>\<open>kernel/fs.c\<close>: a table of 64 slots. A pointer into the table
  is the index of its slot; \<^verbatim>\<open>NULL\<close> is \<open>None\<close>. Operations that copy bytes return \<open>None\<close>
  where the copy would leave an array.
\<close>

section \<open>State\<close>

definition MAX_FILES :: nat where
  "MAX_FILES = 64"

definition MAX_FILE_SIZE :: nat where
  "MAX_FILE_SIZE = 16384"

record vfs_file =
  f_name :: "char list"
  f_data :: "char list"
  f_size :: nat
  f_used :: bool

type_synonym vfs = "vfs_file list"

section \<open>Operations\<close>

definition vfs_get_by_index :: "int \<Rightarrow> vfs \<Rightarrow> nat option" where
  "vfs_get_by_index idx files =
     (if 0 \<le> idx \<and> idx < int MAX_FILES
      then if f_used (files ! nat idx) then Some (nat idx) else None
      else None)"

definition vfs_open :: "string \<Rightarrow> vfs \<Rightarrow> nat option" where
  "vfs_open name files = find_index (\<lambda>f. f_used f \<and> strcmp (f_name f) name = 0) files"

definition vfs_create :: "string \<Rightarrow> vfs \<Rightarrow> (int \<times> vfs) option" where
  "vfs_create name files =
     (case find_index (\<lambda>f. f_used f \<and> strcmp (f_name f) name = 0) files of
        Some i \<Rightarrow> Some (0, files)
      | None \<Rightarrow>
          (case find_index (\<lambda>f. \<not> f_used f) files of
             Some i \<Rightarrow>
               (case strncpy_term (f_name (files ! i)) name 31 of
                  None \<Rightarrow> None
                | Some nm \<Rightarrow>
                    Some (0, files[i := (files ! i)\<lparr>f_name := nm, f_used := True, f_size := 0\<rparr>]))
           | None \<Rightarrow> Some (-1, files)))"

definition vfs_write :: "string \<Rightarrow> string \<Rightarrow> nat \<Rightarrow> vfs \<Rightarrow> (int \<times> vfs) option" where
  "vfs_write name data len files =
     (case vfs_open name files of
        None \<Rightarrow> Some (-1, files)
      | Some i \<Rightarrow>
          (let len = (if len > MAX_FILE_SIZE then MAX_FILE_SIZE else len) in
           case memcpy (f_data (files ! i)) data len of
             None \<Rightarrow> None
           | Some d \<Rightarrow> Some (0, files[i := (files ! i)\<lparr>f_data := d, f_size := len\<rparr>])))"

definition vfs_read :: "string \<Rightarrow> char list \<Rightarrow> nat \<Rightarrow> vfs \<Rightarrow> (int \<times> char list) option" where
  "vfs_read name buf max_len files =
     (case vfs_open name files of
        None \<Rightarrow> Some (-1, buf)
      | Some i \<Rightarrow>
          (let to_copy = f_size (files ! i);
               to_copy = (if to_copy > max_len then max_len else to_copy) in
           case memcpy buf (f_data (files ! i)) to_copy of
             None \<Rightarrow> None
           | Some b \<Rightarrow> Some (int to_copy, b)))"

definition vfs_list :: "(string \<Rightarrow> 's \<Rightarrow> 's) \<Rightarrow> vfs \<Rightarrow> 's \<Rightarrow> 's" where
  "vfs_list print_fn files s = fold (\<lambda>f t. if f_used f then print_fn (f_name f) t else t) files s"

definition vfs_remove :: "string \<Rightarrow> vfs \<Rightarrow> int \<times> vfs" where
  "vfs_remove name files =
     (case find_index (\<lambda>f. f_used f \<and> strcmp (f_name f) name = 0) files of
        Some i \<Rightarrow> (0, files[i := (files ! i)\<lparr>f_used := False\<rparr>])
      | None \<Rightarrow> (-1, files))"

section \<open>The demo image\<close>

definition bmp_row_padding :: "int \<Rightarrow> nat" where
  "bmp_row_padding w = nat ((4 - (w * 3) mod 4) mod 4)"

definition bmp_pixel_bytes :: "int \<Rightarrow> int \<Rightarrow> nat" where
  "bmp_pixel_bytes w h = (nat (w * 3) + bmp_row_padding w) * nat h"

definition bmp_header :: "int \<Rightarrow> int \<Rightarrow> string" where
  "bmp_header w h =
     fold (\<lambda>(off, bs) header. poke off bs header)
       [(0, ''BM''),
        (2, le_bytes 4 (54 + bmp_pixel_bytes w h)),
        (10, le_bytes 4 54),
        (14, le_bytes 4 40),
        (18, le_bytes 4 (of_int32 w)),
        (22, le_bytes 4 (of_int32 h)),
        (26, le_bytes 2 1),
        (28, le_bytes 2 24),
        (34, le_bytes 4 (bmp_pixel_bytes w h))]
       (replicate 54 NUL)"

text \<open>One pixel, as the three bytes blue, green, red; the casts to \<^verbatim>\<open>uint8_t\<close> cut to a byte.\<close>

definition demo_pixel :: "int \<Rightarrow> int \<Rightarrow> int \<Rightarrow> int \<Rightarrow> string" where
  "demo_pixel w h y x =
     (let cx = w div 2; cy = h div 2; dx = x - cx; dy = y - cy;
          r = 0x20 + y * 0x80 div h;
          g = 0x08 + y * 0x30 div h;
          b = 0x60 - y * 0x40 div h;
          dist = dx * dx + dy * dy;
          sun_r = w div 3;
          (r, g, b) =
            (if dist < sun_r * sun_r
             then if y mod 6 < 2 \<and> y > cy then (0x80, 0x40, 0x00) else (0xFF, 0xB3, 0x00)
             else if dist < (w div 2) * (w div 2) then (0xCC, 0x55, 0x22)
             else (r, g, b))
      in [char_of b, char_of g, char_of r])"

definition demo_row :: "int \<Rightarrow> int \<Rightarrow> nat \<Rightarrow> string" where
  "demo_row w h y =
     concat (map (\<lambda>x. demo_pixel w h (int y) (int x)) [0..<nat w]) @ replicate (bmp_row_padding w) NUL"

definition create_demo_bmp :: "string \<Rightarrow> int \<Rightarrow> int \<Rightarrow> vfs \<Rightarrow> vfs option" where
  "create_demo_bmp name w h files =
     (if 54 + bmp_pixel_bytes w h > MAX_FILE_SIZE then Some files
      else do {
        (r, files) \<leftarrow> vfs_create name files;
        (case vfs_open name files of
           None \<Rightarrow> Some files
         | Some i \<Rightarrow>
             (let bytes = bmp_header w h @ concat (map (demo_row w h) [0..<nat h]) in do {
                d \<leftarrow> memcpy (f_data (files ! i)) bytes (length bytes);
                Some (files[i := (files ! i)\<lparr>f_data := d, f_size := length bytes\<rparr>])
              }))
      })"

section \<open>The initial contents\<close>

definition readme_text :: string where
  "readme_text =
     concat (map (\<lambda>l. l @ [CHR 0x0A])
     [''========================================='',
      ''         WELCOME TO ONKEN OS v3.0        '',
      ''========================================='',
      [],
      ''Onken OS is a freestanding modular x86_64'',
      ''operating system written in C and ASM.'',
      [],
      ''Core Capabilities:'',
      '' - Retro Amiga/AROS Window Compositor'',
      '' - Dynamic Application Registry'',
      '' - PS/2 Keyboard & Mouse Drivers'',
      '' - PIT-driven Preemptive Scheduler'',
      '' - PCI Bus Enumeration'',
      '' - CMOS Real-Time Clock'',
      '' - PC Speaker Sound Driver'',
      '' - BMP Image Viewer'',
      '' - RAM Disk VFS Storage'',
      [],
      ''Double-click files in Explorer to open!'',
      ''Made by Ayham & Mason.''])"

definition limine_conf :: string where
  "limine_conf =
     concat (map (\<lambda>l. l @ [CHR 0x0A])
     [''TIMEOUT=5'',
      ''INTERFACE_RESOLUTION=1280x720x32'',
      [],
      '':Onken OS'',
      ''PROTOCOL=limine'',
      ''KERNEL_PATH=boot:///oneko.bin''])"

definition makefile_content :: string where
  "makefile_content =
     concat (map (\<lambda>l. l @ [CHR 0x0A])
     [''CC = gcc'',
      ''CFLAGS = -m64 -ffreestanding -O2 -Wall'',
      ''LDFLAGS = -nostdlib -static'',
      [],
      ''all: oneko.iso'',
      [CHR 0x09] @ ''@echo '' @ [CHR 0x27] @ ''Build finished!'' @ [CHR 0x27]])"

definition hello_c :: string where
  "hello_c =
     concat (map (\<lambda>l. l @ [CHR 0x0A])
     [''#include <stdint.h>'',
      [],
      ''void main(void) {'',
      ''    // Hello from Onken OS!'',
      ''    volatile char* vga = (char*)0xB8000;'',
      ''    vga[0] = '' @ [CHR 0x27] @ ''H'' @ [CHR 0x27] @ '';'',
      ''    vga[1] = 0x0F;'',
      ''}''])"

definition notes_text :: string where
  "notes_text =
     concat (map (\<lambda>l. l @ [CHR 0x0A])
     [''--- Dev Notes ---'',
      ''TODO: Implement FAT32 disk driver'',
      ''TODO: Add AC97 audio support'',
      ''TODO: Ring 3 userland processes'',
      ''DONE: PCI bus enumeration'',
      ''DONE: RTC real-time clock'',
      ''DONE: PC Speaker sound''])"

definition logo_png :: string where
  "logo_png = map char_of ([
      137, 80, 78, 71, 13, 10, 26, 10, 0, 0, 0, 13, 73, 72, 68, 82,
      0, 0, 0, 64, 0, 0, 0, 64, 8, 2, 0, 0, 0, 37, 11, 230,
      137, 0, 0, 0, 111, 73, 68, 65, 84, 120, 156, 237, 207, 1, 9, 0,
      0, 12, 132, 192, 239, 95, 122, 139, 33, 130, 112, 1, 116, 183, 169, 241,
      5, 13, 200, 241, 5, 13, 200, 241, 5, 13, 200, 241, 5, 13, 200, 241,
      5, 13, 200, 241, 5, 13, 200, 241, 5, 13, 200, 241, 5, 13, 200, 241,
      5, 13, 200, 241, 5, 13, 200, 241, 5, 13, 200, 241, 5, 13, 200, 241,
      5, 13, 200, 241, 5, 13, 200, 241, 5, 13, 200, 241, 5, 13, 200, 241,
      5, 13, 200, 241, 5, 13, 200, 241, 5, 13, 200, 241, 5, 13, 200, 241,
      5, 13, 200, 61, 169, 220, 240, 226, 195, 66, 43, 113, 0, 0, 0, 0,
      73, 69, 78, 68, 174, 66, 96, 130] :: nat list)"

definition vfs_zero :: vfs where
  "vfs_zero = replicate MAX_FILES
     \<lparr>f_name = replicate 32 NUL, f_data = replicate MAX_FILE_SIZE NUL, f_size = 0, f_used = False\<rparr>"

definition vfs_add :: "string \<Rightarrow> string \<Rightarrow> vfs \<Rightarrow> vfs option" where
  "vfs_add name text files = do {
     (_, files) \<leftarrow> vfs_create name files;
     (_, files) \<leftarrow> vfs_write name text (length text) files;
     Some files
   }"

definition vfs_init :: "vfs option" where
  "vfs_init = do {
     files \<leftarrow> vfs_add ''readme.txt'' readme_text vfs_zero;
     files \<leftarrow> vfs_add ''limine.conf'' limine_conf files;
     files \<leftarrow> vfs_add ''Makefile'' makefile_content files;
     files \<leftarrow> vfs_add ''hello.c'' hello_c files;
     files \<leftarrow> vfs_add ''notes.txt'' notes_text files;
     files \<leftarrow> create_demo_bmp ''sunset.bmp'' 48 48 files;
     vfs_add ''logo.png'' logo_png files
   }"

section \<open>The invariant of the table\<close>

definition file_ok :: "vfs_file \<Rightarrow> bool" where
  "file_ok f \<longleftrightarrow> length (f_name f) = 32 \<and> f_name f ! 31 = NUL \<and>
     length (f_data f) = MAX_FILE_SIZE \<and> f_size f \<le> MAX_FILE_SIZE"

definition names_unique :: "vfs \<Rightarrow> bool" where
  "names_unique files \<longleftrightarrow>
     (\<forall>i < length files. \<forall>j < length files.
        f_used (files ! i) \<and> f_used (files ! j) \<and> cstr (f_name (files ! i)) = cstr (f_name (files ! j))
        \<longrightarrow> i = j)"

definition vfs_ok :: "vfs \<Rightarrow> bool" where
  "vfs_ok files \<longleftrightarrow> length files = MAX_FILES \<and> (\<forall>f \<in> set files. file_ok f) \<and> names_unique files"

text \<open>The abstraction: the contents by name.\<close>

definition file_contents :: "vfs_file \<Rightarrow> string" where
  "file_contents f = take (f_size f) (f_data f)"

definition vfs_lookup :: "vfs \<Rightarrow> string \<Rightarrow> string option" where
  "vfs_lookup files name = map_option (\<lambda>i. file_contents (files ! i)) (vfs_open name files)"

definition short_name :: "string \<Rightarrow> bool" where
  "short_name n \<longleftrightarrow> length (cstr n) \<le> 31"

lemma vfs_ok_file: "vfs_ok files \<Longrightarrow> i < length files \<Longrightarrow> file_ok (files ! i)"
  by (simp add: vfs_ok_def)

lemma vfs_ok_length: "vfs_ok files \<Longrightarrow> length files = MAX_FILES"
  by (simp add: vfs_ok_def)

lemma vfs_open_SomeD:
  "vfs_open n files = Some i \<Longrightarrow>
   i < length files \<and> f_used (files ! i) \<and> cstr (f_name (files ! i)) = cstr n"
  using find_index_SomeD [of _ files i] by (auto simp: vfs_open_def strcmp_zero_iff)

lemma vfs_open_None_iff:
  "vfs_open n files = None \<longleftrightarrow> (\<forall>i < length files. f_used (files ! i) \<longrightarrow> cstr (f_name (files ! i)) \<noteq> cstr n)"
  by (auto simp: vfs_open_def strcmp_zero_iff all_set_conv_all_nth)

lemma vfs_open_iff:
  assumes "names_unique files"
  shows "vfs_open n files = Some i \<longleftrightarrow>
    i < length files \<and> f_used (files ! i) \<and> cstr (f_name (files ! i)) = cstr n"
proof
  assume "i < length files \<and> f_used (files ! i) \<and> cstr (f_name (files ! i)) = cstr n"
  moreover from this obtain j where j: "vfs_open n files = Some j"
    using vfs_open_None_iff [of n files] by (cases "vfs_open n files") auto
  ultimately show "vfs_open n files = Some i"
    using vfs_open_SomeD [OF j] assms j unfolding names_unique_def by metis
qed (rule vfs_open_SomeD)

lemma vfs_lookup_cong: "cstr m = cstr n \<Longrightarrow> vfs_lookup files m = vfs_lookup files n"
  by (simp add: vfs_lookup_def vfs_open_def strcmp_zero_iff)

lemma vfs_create_unfold:
  "vfs_create name files =
     (case vfs_open name files of
        Some i \<Rightarrow> Some (0, files)
      | None \<Rightarrow>
          (case find_index (\<lambda>f. \<not> f_used f) files of
             Some i \<Rightarrow>
               (case strncpy_term (f_name (files ! i)) name 31 of
                  None \<Rightarrow> None
                | Some nm \<Rightarrow>
                    Some (0, files[i := (files ! i)\<lparr>f_name := nm, f_used := True, f_size := 0\<rparr>]))
           | None \<Rightarrow> Some (-1, files)))"
  by (simp add: vfs_create_def vfs_open_def)

text \<open>The three ways a creation can go; none of them writes outside the table.\<close>

lemma vfs_create_cases:
  assumes "vfs_ok files"
  obtains (old) i where "vfs_open name files = Some i" "vfs_create name files = Some (0, files)"
  | (new) i nm where "vfs_open name files = None" "i < length files" "\<not> f_used (files ! i)"
      "length nm = 32" "nm ! 31 = NUL" "cstr nm = take 31 (cstr name)"
      "vfs_create name files =
         Some (0, files[i := (files ! i)\<lparr>f_name := nm, f_used := True, f_size := 0\<rparr>])"
  | (full) "vfs_open name files = None" "\<forall>i < length files. f_used (files ! i)"
      "vfs_create name files = Some (-1, files)"
proof (cases "vfs_open name files")
  case (Some i)
  then show ?thesis by (intro old) (simp_all add: vfs_create_unfold)
next
  case None
  show ?thesis
  proof (cases "find_index (\<lambda>f. \<not> f_used f) files")
    case n: None
    then have "\<forall>i < length files. f_used (files ! i)" by (auto simp: all_set_conv_all_nth)
    moreover have "vfs_create name files = Some (-1, files)"
      by (simp only: vfs_create_unfold None n option.case)
    ultimately show ?thesis using None by (intro full)
  next
    case (Some i)
    then have i: "i < length files" "\<not> f_used (files ! i)"
      using find_index_SomeD [of _ files i] by auto
    then have len: "length (f_name (files ! i)) = Suc 31"
      using vfs_ok_file [OF assms, of i] by (simp add: file_ok_def)
    then obtain nm where nm: "strncpy_term (f_name (files ! i)) name 31 = Some nm"
      by (simp add: strncpy_term_eq)
    show ?thesis
      using None Some i nm cstr_strncpy_term [OF len nm]
      by (intro new [of i nm]) (simp_all add: vfs_create_unfold)
  qed
qed

lemma names_unique_update:
  assumes "names_unique files" and "i < length files"
    and "f_used f \<longrightarrow> (\<forall>j < length files. f_used (files ! j) \<and> j \<noteq> i \<longrightarrow>
           cstr (f_name (files ! j)) \<noteq> cstr (f_name f))"
  shows "names_unique (files[i := f])"
  unfolding names_unique_def
proof (intro allI impI)
  fix a b
  assume ab: "a < length (files[i := f])" "b < length (files[i := f])"
    and h: "f_used (files[i := f] ! a) \<and> f_used (files[i := f] ! b) \<and>
      cstr (f_name (files[i := f] ! a)) = cstr (f_name (files[i := f] ! b))"
  consider "a = i" "b = i" | "a = i" "b \<noteq> i" | "a \<noteq> i" "b = i" | "a \<noteq> i" "b \<noteq> i" by blast
  then show "a = b"
  proof cases
    case 4
    then show ?thesis using ab h assms(1) by (auto simp: names_unique_def)
  qed (use ab h assms in auto)
qed

lemma vfs_ok_update:
  assumes "vfs_ok files" and "i < length files" and "file_ok f"
    and "f_used f \<longrightarrow> (\<forall>j < length files. f_used (files ! j) \<and> j \<noteq> i \<longrightarrow>
           cstr (f_name (files ! j)) \<noteq> cstr (f_name f))"
  shows "vfs_ok (files[i := f])"
  using assms names_unique_update [of files i f]
  by (auto simp: vfs_ok_def dest!: set_update_subset_insert [THEN subsetD])

text \<open>Looking a name up after the slot \<open>i\<close> was rewritten.\<close>

lemma vfs_lookup_iff:
  "names_unique files \<Longrightarrow> vfs_lookup files n = Some c \<longleftrightarrow>
   (\<exists>i < length files. f_used (files ! i) \<and> cstr (f_name (files ! i)) = cstr n \<and> c = file_contents (files ! i))"
  by (auto simp: vfs_lookup_def vfs_open_iff)

lemma vfs_lookup_None_iff: "vfs_lookup files n = None \<longleftrightarrow> vfs_open n files = None"
  by (simp add: vfs_lookup_def)

lemma vfs_lookup_update:
  assumes "vfs_ok files" and "i < length files" and "vfs_ok (files[i := f])"
    and "f_used (files ! i) \<longrightarrow> f_used f \<and> f_name f = f_name (files ! i)"
    and "f_used f"
  shows "vfs_lookup (files[i := f]) n =
    (if cstr n = cstr (f_name f) then Some (file_contents f) else vfs_lookup files n)"
proof (rule option_eq_SomeI)
  fix c
  have u: "names_unique files" "names_unique (files[i := f])"
    using assms(1,3) by (simp_all add: vfs_ok_def)
  show "vfs_lookup (files[i := f]) n = Some c \<longleftrightarrow>
    (if cstr n = cstr (f_name f) then Some (file_contents f) else vfs_lookup files n) = Some c"
  proof (cases "cstr n = cstr (f_name f)")
    case True
    have "vfs_lookup (files[i := f]) n = Some (file_contents f)"
      using True assms(2,5) by (subst vfs_lookup_iff [OF u(2)]) (auto intro!: exI [of _ i])
    with True show ?thesis by simp
  next
    case False
    have nth: "files[i := f] ! j = (if j = i then f else files ! j)" if "j < length files" for j
      using assms(2) by simp
    have "f_used (files ! i) \<Longrightarrow> cstr (f_name (files ! i)) \<noteq> cstr n"
      using False assms(4) by metis
    then have "(\<exists>j < length files. f_used (files[i := f] ! j) \<and> cstr (f_name (files[i := f] ! j)) = cstr n
             \<and> c = file_contents (files[i := f] ! j)) \<longleftrightarrow>
          (\<exists>j < length files. f_used (files ! j) \<and> cstr (f_name (files ! j)) = cstr n
             \<and> c = file_contents (files ! j))"
      using False nth by (metis (full_types))
    with False show ?thesis by (simp add: vfs_lookup_iff [OF u(1)] vfs_lookup_iff [OF u(2)])
  qed
qed

section \<open>The contract of the file store\<close>

text \<open>
  What the editor and the shell rely on: contents by name, where names are compared up to
  their terminator. \<open>cap\<close> is the largest file, \<open>short\<close> the names the store can keep.
\<close>

definition store_save ::
  "('s \<Rightarrow> string \<Rightarrow> string option) \<Rightarrow> (string \<Rightarrow> 's \<Rightarrow> (int \<times> 's) option) \<Rightarrow>
   (string \<Rightarrow> string \<Rightarrow> nat \<Rightarrow> 's \<Rightarrow> (int \<times> 's) option) \<Rightarrow> string \<Rightarrow> string \<Rightarrow> nat \<Rightarrow> 's \<Rightarrow> (int \<times> 's) option" where
  "store_save lookup creat wr n d len s = do {
     (_, s) \<leftarrow> (if lookup s n = None then creat n s else Some (0, s));
     wr n d len s
   }"

locale file_store =
  fixes lookup :: "'s \<Rightarrow> string \<Rightarrow> string option"
    and creat :: "string \<Rightarrow> 's \<Rightarrow> (int \<times> 's) option"
    and wr :: "string \<Rightarrow> string \<Rightarrow> nat \<Rightarrow> 's \<Rightarrow> (int \<times> 's) option"
    and remove :: "string \<Rightarrow> 's \<Rightarrow> int \<times> 's"
    and inv :: "'s \<Rightarrow> bool"
    and short :: "string \<Rightarrow> bool"
    and cap :: nat
  assumes create_law: "inv s \<Longrightarrow> short n \<Longrightarrow>
      \<exists>r s'. creat n s = Some (r, s') \<and> inv s' \<and>
        (if r = 0
         then lookup s' = (\<lambda>m. if cstr m = cstr n
                then Some (case lookup s n of None \<Rightarrow> [] | Some c \<Rightarrow> c) else lookup s m)
         else r = -1 \<and> s' = s \<and> lookup s n = None)"
    and write_law: "inv s \<Longrightarrow> len \<le> length d \<Longrightarrow>
      \<exists>r s'. wr n d len s = Some (r, s') \<and> inv s' \<and>
        (if lookup s n = None then r = -1 \<and> s' = s
         else r = 0 \<and> lookup s' = (\<lambda>m. if cstr m = cstr n
                then Some (take (min len cap) d) else lookup s m))"
    and remove_law: "inv s \<Longrightarrow> inv (snd (remove n s)) \<and>
        (if lookup s n = None then remove n s = (-1, s)
         else fst (remove n s) = 0 \<and>
              lookup (snd (remove n s)) = (\<lambda>m. if cstr m = cstr n then None else lookup s m))"
begin

lemma save_law:
  assumes "inv s" and "short n" and "len \<le> length d"
  shows "\<exists>r s'. store_save lookup creat wr n d len s = Some (r, s') \<and> inv s' \<and>
    (if r = 0
     then lookup s' = (\<lambda>m. if cstr m = cstr n then Some (take (min len cap) d) else lookup s m)
     else r = -1 \<and> s' = s \<and> lookup s n = None)"
proof (cases "lookup s n = None")
  case False
  then show ?thesis using write_law [OF assms(1,3), of n] by (auto simp: store_save_def)
next
  case True
  from create_law [OF assms(1,2)] obtain r1 s1 where c: "creat n s = Some (r1, s1)" "inv s1"
    and r1: "if r1 = 0
         then lookup s1 = (\<lambda>m. if cstr m = cstr n
                then Some (case lookup s n of None \<Rightarrow> [] | Some c \<Rightarrow> c) else lookup s m)
         else r1 = -1 \<and> s1 = s \<and> lookup s n = None" by blast
  from write_law [OF c(2) assms(3), of n] obtain r2 s2 where w: "wr n d len s1 = Some (r2, s2)" "inv s2"
    and r2: "if lookup s1 n = None then r2 = -1 \<and> s2 = s1
         else r2 = 0 \<and> lookup s2 = (\<lambda>m. if cstr m = cstr n
                then Some (take (min len cap) d) else lookup s1 m)" by blast
  have "store_save lookup creat wr n d len s = Some (r2, s2)"
    using True c w by (simp add: store_save_def)
  moreover have "if r2 = 0
     then lookup s2 = (\<lambda>m. if cstr m = cstr n then Some (take (min len cap) d) else lookup s m)
     else r2 = -1 \<and> s2 = s \<and> lookup s n = None"
    using r1 r2 True by (cases "r1 = 0") (auto simp: fun_eq_iff)
  ultimately show ?thesis using w by blast
qed

lemma save_then_lookup:
  assumes "inv s" and "short n" and "len \<le> length d"
    and "store_save lookup creat wr n d len s = Some (0, s')"
  shows "lookup s' n = Some (take (min len cap) d)"
  using save_law [OF assms(1-3)] assms(4) by auto

end

section \<open>The table satisfies the contract\<close>

lemma vfs_create_law:
  assumes "vfs_ok s" and "short_name n"
  shows "\<exists>r s'. vfs_create n s = Some (r, s') \<and> vfs_ok s' \<and>
    (if r = 0
     then vfs_lookup s' = (\<lambda>m. if cstr m = cstr n
            then Some (case vfs_lookup s n of None \<Rightarrow> [] | Some c \<Rightarrow> c) else vfs_lookup s m)
     else r = -1 \<and> s' = s \<and> vfs_lookup s n = None)"
  using assms(1)
proof (cases rule: vfs_create_cases [where name = n])
  case (old i)
  have "vfs_lookup s m = vfs_lookup s n" if "cstr m = cstr n" for m
    using that by (simp add: vfs_lookup_def vfs_open_def strcmp_zero_iff)
  then show ?thesis using old assms(1) by (auto simp: vfs_lookup_def fun_eq_iff)
next
  case (new i nm)
  let ?f = "(s ! i)\<lparr>f_name := nm, f_used := True, f_size := 0\<rparr>"
  have nm: "cstr nm = cstr n" using new assms(2) by (simp add: short_name_def)
  have ok: "vfs_ok (s[i := ?f])"
  proof (rule vfs_ok_update [OF assms(1) new(2)])
    show "file_ok ?f" using new vfs_ok_file [OF assms(1) new(2)] by (simp add: file_ok_def)
    show "f_used ?f \<longrightarrow> (\<forall>j < length s. f_used (s ! j) \<and> j \<noteq> i \<longrightarrow> cstr (f_name (s ! j)) \<noteq> cstr (f_name ?f))"
      using new(1) nm by (simp add: vfs_open_None_iff)
  qed
  have "vfs_lookup (s[i := ?f]) m = (if cstr m = cstr n then Some [] else vfs_lookup s m)" for m
    using vfs_lookup_update [OF assms(1) new(2) ok] new(3) nm by (simp add: file_contents_def)
  then show ?thesis using new ok by (auto simp: vfs_lookup_def fun_eq_iff)
next
  case full
  then show ?thesis using assms(1) by (simp add: vfs_lookup_def)
qed

lemma vfs_write_law:
  assumes "vfs_ok s" and "len \<le> length d"
  shows "\<exists>r s'. vfs_write n d len s = Some (r, s') \<and> vfs_ok s' \<and>
    (if vfs_lookup s n = None then r = -1 \<and> s' = s
     else r = 0 \<and> vfs_lookup s' = (\<lambda>m. if cstr m = cstr n
            then Some (take (min len MAX_FILE_SIZE) d) else vfs_lookup s m))"
proof (cases "vfs_open n s")
  case None
  then show ?thesis using assms(1) by (simp add: vfs_write_def vfs_lookup_def)
next
  case (Some i)
  note o = vfs_open_SomeD [OF Some]
  note f = vfs_ok_file [OF assms(1), of i, unfolded file_ok_def]
  let ?len = "min len MAX_FILE_SIZE"
  let ?f = "(s ! i)\<lparr>f_data := take ?len d @ drop ?len (f_data (s ! i)), f_size := ?len\<rparr>"
  have w: "vfs_write n d len s = Some (0, s[i := ?f])"
    using o f assms(2) by (auto simp: vfs_write_def Some memcpy_eq Let_def min_def)
  have ok: "vfs_ok (s[i := ?f])"
  proof (rule vfs_ok_update [OF assms(1)])
    show "i < length s" using o by simp
    show "file_ok ?f" using o f assms(2) by (simp add: file_ok_def)
    show "f_used ?f \<longrightarrow> (\<forall>j < length s. f_used (s ! j) \<and> j \<noteq> i \<longrightarrow> cstr (f_name (s ! j)) \<noteq> cstr (f_name ?f))"
      using o assms(1) by (auto simp: vfs_ok_def names_unique_def)
  qed
  have "vfs_lookup (s[i := ?f]) m = (if cstr m = cstr n then Some (take ?len d) else vfs_lookup s m)" for m
    using vfs_lookup_update [OF assms(1) _ ok] o assms(2) by (simp add: file_contents_def)
  then show ?thesis using w ok Some by (auto simp: vfs_lookup_def fun_eq_iff)
qed

lemma vfs_remove_unfold:
  "vfs_remove name files =
     (case vfs_open name files of
        Some i \<Rightarrow> (0, files[i := (files ! i)\<lparr>f_used := False\<rparr>])
      | None \<Rightarrow> (-1, files))"
  by (simp add: vfs_remove_def vfs_open_def)

lemma vfs_remove_law:
  assumes "vfs_ok s"
  shows "vfs_ok (snd (vfs_remove n s)) \<and>
    (if vfs_lookup s n = None then vfs_remove n s = (-1, s)
     else fst (vfs_remove n s) = 0 \<and>
          vfs_lookup (snd (vfs_remove n s)) = (\<lambda>m. if cstr m = cstr n then None else vfs_lookup s m))"
proof (cases "vfs_open n s")
  case None
  then show ?thesis using assms by (simp add: vfs_remove_unfold vfs_lookup_def)
next
  case (Some i)
  note o = vfs_open_SomeD [OF Some]
  let ?f = "(s ! i)\<lparr>f_used := False\<rparr>"
  have ok: "vfs_ok (s[i := ?f])"
    using vfs_ok_file [OF assms, of i] o by (intro vfs_ok_update [OF assms]) (auto simp: file_ok_def)
  have u: "names_unique s" "names_unique (s[i := ?f])" using assms ok by (simp_all add: vfs_ok_def)
  have "vfs_lookup (s[i := ?f]) m = (if cstr m = cstr n then None else vfs_lookup s m)" for m
  proof (rule option_eq_SomeI)
    fix c
    have nth: "s[i := ?f] ! j = (if j = i then ?f else s ! j)" if "j < length s" for j
      using o by simp
    have only: "cstr (f_name (s ! j)) = cstr n \<Longrightarrow> f_used (s ! j) \<Longrightarrow> j < length s \<Longrightarrow> j = i" for j
      using o u(1) unfolding names_unique_def by metis
    have off: "\<not> f_used ?f" by simp
    have "(\<exists>j < length s. f_used (s[i := ?f] ! j) \<and> cstr (f_name (s[i := ?f] ! j)) = cstr m
             \<and> c = file_contents (s[i := ?f] ! j)) \<longleftrightarrow>
          cstr m \<noteq> cstr n \<and> (\<exists>j < length s. f_used (s ! j) \<and> cstr (f_name (s ! j)) = cstr m
             \<and> c = file_contents (s ! j))"
      using o only nth off by metis
    then show "vfs_lookup (s[i := ?f]) m = Some c \<longleftrightarrow>
        (if cstr m = cstr n then None else vfs_lookup s m) = Some c"
      by (simp add: vfs_lookup_iff [OF u(1)] vfs_lookup_iff [OF u(2)])
  qed
  then show ?thesis using Some ok by (auto simp: vfs_remove_unfold vfs_lookup_def fun_eq_iff)
qed

interpretation ramdisk: file_store vfs_lookup vfs_create vfs_write vfs_remove vfs_ok short_name MAX_FILE_SIZE
proof (unfold_locales, goal_cases)
  case (1 s n)
  then show ?case by (rule vfs_create_law)
next
  case (2 s len d n)
  then show ?case by (rule vfs_write_law)
next
  case (3 s n)
  then show ?case by (rule vfs_remove_law)
qed

text \<open>The code the editor and the shell run to save a file.\<close>

definition vfs_save :: "string \<Rightarrow> string \<Rightarrow> nat \<Rightarrow> vfs \<Rightarrow> (int \<times> vfs) option" where
  "vfs_save name data len files = do {
     (_, files) \<leftarrow> (if vfs_open name files = None then vfs_create name files else Some (0, files));
     vfs_write name data len files
   }"

lemma vfs_save_store: "vfs_save = store_save vfs_lookup vfs_create vfs_write"
  by (simp add: fun_eq_iff vfs_save_def store_save_def vfs_lookup_None_iff)

lemma vfs_save_ok:
  "vfs_ok s \<Longrightarrow> short_name n \<Longrightarrow> len \<le> length d \<Longrightarrow>
   \<exists>r s'. vfs_save n d len s = Some (r, s') \<and> vfs_ok s'"
  using ramdisk.save_law [of s n len d] by (auto simp: vfs_save_store)

lemma vfs_read_eq:
  assumes "vfs_ok s" and "vfs_lookup s n = Some c" and "min (length c) mx \<le> length buf"
  shows "vfs_read n buf mx s =
    Some (int (min (length c) mx), take mx c @ drop (min (length c) mx) buf)"
proof -
  from assms(2) obtain i where i: "vfs_open n s = Some i" and c: "c = file_contents (s ! i)"
    by (auto simp: vfs_lookup_def)
  note f = vfs_ok_file [OF assms(1), of i, unfolded file_ok_def]
  have sz: "length c = f_size (s ! i)" and "f_size (s ! i) \<le> length (f_data (s ! i))"
    using f vfs_open_SomeD [OF i] c by (simp_all add: file_contents_def)
  moreover have "take mx c = take (min (length c) mx) (f_data (s ! i))"
    using c sz by (simp add: file_contents_def min.commute)
  ultimately show ?thesis
    using i assms(3) by (auto simp: vfs_read_def memcpy_eq Let_def min_def)
qed

section \<open>Properties\<close>

text \<open>Every operation of the table, as one request.\<close>

datatype vfs_op = VCreate string | VWrite string string | VRemove string

fun vfs_step :: "vfs_op \<Rightarrow> vfs \<Rightarrow> (int \<times> vfs) option" where
  "vfs_step (VCreate n) s = vfs_create n s"
| "vfs_step (VWrite n d) s = vfs_write n d (length d) s"
| "vfs_step (VRemove n) s = Some (vfs_remove n s)"

fun vfs_run :: "vfs_op list \<Rightarrow> vfs \<Rightarrow> vfs option" where
  "vfs_run [] s = Some s"
| "vfs_run (x # xs) s = do { (_, s) \<leftarrow> vfs_step x s; vfs_run xs s }"

fun op_short :: "vfs_op \<Rightarrow> bool" where
  "op_short (VCreate n) = short_name n"
| "op_short _ = True"

lemma vfs_step_ok:
  assumes "vfs_ok s" and "op_short x"
  shows "\<exists>r s'. vfs_step x s = Some (r, s') \<and> vfs_ok s'"
proof (cases x)
  case (VCreate n)
  then show ?thesis using vfs_create_law [OF assms(1), of n] assms(2) by auto
next
  case (VWrite n d)
  then show ?thesis using vfs_write_law [OF assms(1), of "length d" d n] by auto
next
  case (VRemove n)
  then show ?thesis using vfs_remove_law [OF assms(1), of n] by (cases "vfs_remove n s") auto
qed

lemma vfs_zero_ok: "vfs_ok vfs_zero"
proof -
  have "names_unique vfs_zero" by (simp add: names_unique_def vfs_zero_def)
  then show ?thesis by (simp add: vfs_ok_def file_ok_def vfs_zero_def)
qed

text \<open>C12 (vfs_run_safe): any sequence of creations of names of at most 31 characters, writes and
  removals, from a well-formed table, stays inside the table's arrays and keeps every name
  terminated and unique among the used slots and every size within the slot.\<close>

theorem vfs_run_safe:
  assumes "vfs_ok s" and "\<forall>x \<in> set xs. op_short x"
  shows "\<exists>s'. vfs_run xs s = Some s' \<and> vfs_ok s'"
  using assms
proof (induction xs arbitrary: s)
  case Nil
  then show ?case by simp
next
  case (Cons x xs)
  from vfs_step_ok [OF Cons.prems(1), of x] Cons.prems(2)
  obtain r s1 where "vfs_step x s = Some (r, s1)" "vfs_ok s1" by auto
  with Cons.IH [of s1] Cons.prems(2) show ?case by auto
qed

theorem vfs_run_safe_witness:
  "\<exists>s'. vfs_run [VCreate ''a'', VWrite ''a'' ''text'', VRemove ''a''] vfs_zero = Some s' \<and> vfs_ok s'"
  by (rule vfs_run_safe [OF vfs_zero_ok]) (simp add: short_name_def)

text \<open>A name can be saved when it exists already or when a slot is free.\<close>

definition save_room :: "vfs \<Rightarrow> string \<Rightarrow> bool" where
  "save_room s n \<longleftrightarrow> vfs_lookup s n \<noteq> None \<or> (\<exists>f \<in> set s. \<not> f_used f)"

lemma vfs_create_room:
  assumes "vfs_ok s" and "vfs_lookup s n = None" and "vfs_create n s = Some (r, s')"
  shows "r = (if save_room s n then 0 else -1)"
  using assms(1)
proof (cases rule: vfs_create_cases [where name = n])
  case (old i)
  then show ?thesis using assms(2) by (simp add: vfs_lookup_None_iff)
next
  case (new i nm)
  then have "save_room s n" by (auto simp: save_room_def intro!: bexI [of _ "s ! i"])
  then show ?thesis using new assms(3) by simp
next
  case full
  then have "\<not> save_room s n" using assms(2) by (auto simp: save_room_def in_set_conv_nth)
  then show ?thesis using full assms(3) by simp
qed

lemma vfs_save_room:
  assumes "vfs_ok s" and "short_name n" and "len \<le> length d"
  shows "\<exists>s'. vfs_save n d len s = Some (if save_room s n then 0 else -1, s') \<and> vfs_ok s' \<and>
    (if save_room s n
     then vfs_lookup s' = (\<lambda>m. if cstr m = cstr n then Some (take (min len MAX_FILE_SIZE) d) else vfs_lookup s m)
     else s' = s)"
proof -
  from ramdisk.save_law [OF assms] obtain r s' where
    sv: "vfs_save n d len s = Some (r, s')" "vfs_ok s'" and
    c: "if r = 0
     then vfs_lookup s' = (\<lambda>m. if cstr m = cstr n then Some (take (min len MAX_FILE_SIZE) d) else vfs_lookup s m)
     else r = -1 \<and> s' = s \<and> vfs_lookup s n = None"
    by (auto simp: vfs_save_store)
  have "r = 0 \<longleftrightarrow> save_room s n"
  proof (cases "vfs_lookup s n = None")
    case False
    then show ?thesis using c by (auto simp: save_room_def split: if_splits)
  next
    case True
    from vfs_create_law [OF assms(1,2)] obtain r1 s1 where cr: "vfs_create n s = Some (r1, s1)" "vfs_ok s1"
      and l: "if r1 = 0
         then vfs_lookup s1 = (\<lambda>m. if cstr m = cstr n
            then Some (case vfs_lookup s n of None \<Rightarrow> [] | Some c \<Rightarrow> c) else vfs_lookup s m)
         else r1 = -1 \<and> s1 = s \<and> vfs_lookup s n = None" by blast
    note r1 = vfs_create_room [OF assms(1) True cr(1)]
    have "vfs_write n d len s1 = Some (r, s')"
      using sv(1) cr(1) True by (simp add: vfs_save_def vfs_lookup_None_iff)
    then have w: "if vfs_lookup s1 n = None then r = -1 else r = 0"
      using vfs_write_law [OF cr(2) assms(3), of n] by (auto split: if_splits)
    have "vfs_lookup s1 n = None \<longleftrightarrow> r1 \<noteq> 0" using l True by (cases "r1 = 0") simp_all
    then show ?thesis using w r1 by (cases "save_room s n") simp_all
  qed
  then show ?thesis using sv c by (cases "r = 0") simp_all
qed

text \<open>C4 (vfs_save_reads_back): saving a text under a name of at most 31 characters succeeds exactly when the name exists or
  one of the slots is free; then reading the name back returns the text cut to the largest file size, and no
  other file changes. Otherwise, the table being full and the name new, the result is -1 and the table is unchanged.\<close>

theorem vfs_save_reads_back:
  assumes "vfs_ok s" and "short_name n"
  defines "room \<equiv> vfs_lookup s n \<noteq> None \<or> (\<exists>f \<in> set s. \<not> f_used f)"
  shows "\<exists>s'. vfs_save n d (length d) s = Some (if room then 0 else -1, s') \<and> vfs_ok s' \<and>
    (if room
     then vfs_read n buf (length buf) s' =
            (let c = take MAX_FILE_SIZE d in
             Some (int (min (length c) (length buf)),
                   take (length buf) c @ drop (min (length c) (length buf)) buf))
        \<and> (\<forall>m. cstr m \<noteq> cstr n \<longrightarrow> vfs_lookup s' m = vfs_lookup s m)
     else s' = s)"
proof -
  have room: "room = save_room s n" by (simp add: room_def save_room_def)
  from vfs_save_room [OF assms(1,2), of "length d" d] obtain s' where
    sv: "vfs_save n d (length d) s = Some (if room then 0 else -1, s')" "vfs_ok s'" and
    c: "if room
     then vfs_lookup s' = (\<lambda>m. if cstr m = cstr n then Some (take (min (length d) MAX_FILE_SIZE) d)
            else vfs_lookup s m)
     else s' = s"
    unfolding room by auto
  show ?thesis
  proof (cases room)
    case True
    then have "vfs_lookup s' n = Some (take MAX_FILE_SIZE d)" using c by (simp add: min_def)
    from vfs_read_eq [OF sv(2) this, of "length buf" buf] show ?thesis
      using sv c True by (auto simp: Let_def)
  next
    case False
    then show ?thesis using sv c by auto
  qed
qed

theorem vfs_save_reads_back_witness:
  "\<exists>s'. vfs_save ''a'' ''hello'' (length ''hello'') vfs_zero = Some (0, s') \<and> vfs_ok s' \<and>
     vfs_read ''a'' ''........'' (length ''........'') s' = Some (5, ''hello...'')"
proof -
  have n: "short_name ''a''" by (simp add: short_name_def)
  have "\<exists>f \<in> set vfs_zero. \<not> f_used f" by (simp add: vfs_zero_def MAX_FILES_def)
  then show ?thesis
    using vfs_save_reads_back [OF vfs_zero_ok n, of "''hello''" "''........''"] by (auto simp: MAX_FILE_SIZE_def)
qed

text \<open>The fact \<open>vfs_create_long_name\<close>: a name longer than 31 characters is cut when it is stored, so it is
  never found again: a second creation of the same name takes another slot, and a write to
  the name just created fails with -1.\<close>

theorem vfs_create_long_name:
  assumes "vfs_ok s" and "length (cstr n) > 31" and "\<not> f_used (s ! i)" and "i < length s"
  shows "\<exists>s'. vfs_create n s = Some (0, s') \<and> vfs_open n s' = None \<and>
    vfs_write n d len s' = Some (-1, s')"
proof -
  have notfound: "vfs_open n s = None"
  proof (rule ccontr)
    assume "vfs_open n s \<noteq> None"
    then obtain j where j: "vfs_open n s = Some j" by auto
    note o = vfs_open_SomeD [OF j]
    have "length (f_name (s ! j)) = 32" "f_name (s ! j) ! 31 = NUL"
      using vfs_ok_file [OF assms(1)] o by (simp_all add: file_ok_def)
    then have "length (cstr (f_name (s ! j))) \<le> 31" by (intro length_cstr_terminated) simp_all
    then show False using o assms(2) by simp
  qed
  from assms(1) show ?thesis
  proof (cases rule: vfs_create_cases [where name = n])
    case (old k)
    then show ?thesis using notfound by simp
  next
    case (new k nm)
    let ?s = "s[k := (s ! k)\<lparr>f_name := nm, f_used := True, f_size := 0\<rparr>]"
    have "cstr nm \<noteq> cstr n" using new(6) assms(2)
      by (metis length_take min.absorb2 less_imp_le less_irrefl)
    then have "vfs_open n ?s = None"
      using notfound new(2) by (auto simp: vfs_open_None_iff nth_list_update)
    then show ?thesis using new(7) by (simp add: vfs_write_def)
  next
    case full
    then show ?thesis using assms(3,4) by auto
  qed
qed

theorem vfs_create_long_name_witness:
  "length (cstr (replicate 40 (CHR ''a''))) > 31 \<and>
   (\<exists>s'. vfs_create (replicate 40 (CHR ''a'')) vfs_zero = Some (0, s') \<and>
      vfs_open (replicate 40 (CHR ''a'')) s' = None \<and>
      vfs_write (replicate 40 (CHR ''a'')) ''data'' 4 s' = Some (-1, s'))"
proof -
  have "length (cstr (replicate 40 (CHR ''a''))) > 31"
    by (subst cstr_no_NUL) simp_all
  moreover have "\<not> f_used (vfs_zero ! 0)" "0 < length vfs_zero"
    by (simp_all add: vfs_zero_def MAX_FILES_def)
  ultimately show ?thesis using vfs_create_long_name [OF vfs_zero_ok] by blast
qed

section \<open>The initial contents\<close>

definition used_count :: "vfs \<Rightarrow> nat" where
  "used_count s = length (filter f_used s)"

lemma used_count_free: "used_count s < length s \<Longrightarrow> \<exists>i < length s. \<not> f_used (s ! i)"
  unfolding used_count_def
  by (metis filter_True in_set_conv_nth less_irrefl)

lemma used_count_update:
  "i < length s \<Longrightarrow> used_count (s[i := f]) \<le> Suc (used_count s)"
proof (induction s arbitrary: i)
  case Nil
  then show ?case by simp
next
  case (Cons x xs)
  then show ?case by (cases i) (auto simp: used_count_def split: if_splits)
qed

lemma used_count_write:
  assumes "vfs_write n d len s = Some (r, s')"
  shows "used_count s' = used_count s"
proof (cases "vfs_open n s")
  case None
  then show ?thesis using assms by (simp add: vfs_write_def)
next
  case (Some i)
  have "filter f_used (s[i := f]) = (filter f_used s)[length (filter f_used (take i s)) := f]"
    if "f_used f" "i < length s" "f_used (s ! i)" for f
    using that by (induction s arbitrary: i) (auto split: nat.splits)
  then show ?thesis
    using assms Some vfs_open_SomeD [OF Some]
    by (auto simp: vfs_write_def used_count_def Let_def split: option.splits if_splits)
qed

lemma vfs_create_free:
  assumes "vfs_ok s" and "short_name n" and "used_count s < MAX_FILES"
  shows "\<exists>s'. vfs_create n s = Some (0, s') \<and> vfs_ok s' \<and> used_count s' \<le> Suc (used_count s) \<and>
    vfs_lookup s' = (\<lambda>m. if cstr m = cstr n
      then Some (case vfs_lookup s n of None \<Rightarrow> [] | Some c \<Rightarrow> c) else vfs_lookup s m)"
proof -
  from vfs_create_law [OF assms(1,2)] obtain r s' where c: "vfs_create n s = Some (r, s')" "vfs_ok s'"
    and l: "if r = 0 then vfs_lookup s' = (\<lambda>m. if cstr m = cstr n
         then Some (case vfs_lookup s n of None \<Rightarrow> [] | Some c \<Rightarrow> c) else vfs_lookup s m)
      else r = -1 \<and> s' = s \<and> vfs_lookup s n = None" by blast
  obtain k where k: "k < length s" "\<not> f_used (s ! k)"
    using used_count_free [of s] assms(1,3) by (auto simp: vfs_ok_def)
  have "r = 0 \<and> used_count s' \<le> Suc (used_count s)"
    using assms(1)
  proof (cases rule: vfs_create_cases [where name = n])
    case (old i)
    then show ?thesis using c by simp
  next
    case (new i nm)
    then show ?thesis using c used_count_update by auto
  next
    case full
    then show ?thesis using k by auto
  qed
  then show ?thesis using c l by auto
qed

lemma vfs_add_law:
  assumes "vfs_ok s" and "short_name n" and "used_count s < MAX_FILES" and "length t \<le> MAX_FILE_SIZE"
  shows "\<exists>s'. vfs_add n t s = Some s' \<and> vfs_ok s' \<and> used_count s' \<le> Suc (used_count s) \<and>
    vfs_lookup s' = (\<lambda>m. if cstr m = cstr n then Some t else vfs_lookup s m)"
proof -
  from vfs_create_free [OF assms(1-3)] obtain s1 where c: "vfs_create n s = Some (0, s1)" "vfs_ok s1"
    "used_count s1 \<le> Suc (used_count s)"
    and l: "vfs_lookup s1 = (\<lambda>m. if cstr m = cstr n
      then Some (case vfs_lookup s n of None \<Rightarrow> [] | Some c \<Rightarrow> c) else vfs_lookup s m)" by blast
  from vfs_write_law [OF c(2), of "length t" t n] obtain s2 where
    w: "vfs_write n t (length t) s1 = Some (0, s2)" "vfs_ok s2"
    and l2: "vfs_lookup s2 = (\<lambda>m. if cstr m = cstr n then Some (take (min (length t) MAX_FILE_SIZE) t)
            else vfs_lookup s1 m)"
    using l by auto
  have "used_count s2 \<le> Suc (used_count s)" using used_count_write [OF w(1)] c(3) by simp
  then show ?thesis using c w l l2 assms(4) by (auto simp: vfs_add_def min_def fun_eq_iff)
qed

lemma length_demo_row [simp]: "length (demo_row w h y) = nat (w * 3) + bmp_row_padding w"
proof -
  have "length (demo_pixel w h (int y) (int x)) = 3" for x
    by (simp add: demo_pixel_def Let_def split: prod.splits)
  then have "length (concat (map (\<lambda>x. demo_pixel w h (int y) (int x)) [0..<nat w])) = 3 * nat w"
    by (simp add: length_concat o_def sum_list_triv)
  then show ?thesis by (simp add: demo_row_def nat_mult_distrib)
qed

lemma length_bmp_header [simp]: "length (bmp_header w h) = 54"
  by (simp add: bmp_header_def)

lemma length_demo_image:
  "length (bmp_header w h @ concat (map (demo_row w h) [0..<nat h])) = 54 + bmp_pixel_bytes w h"
  by (simp add: length_concat o_def sum_list_triv bmp_pixel_bytes_def mult.commute)

lemma create_demo_bmp_law:
  assumes "vfs_ok s" and "short_name n" and "used_count s < MAX_FILES"
    and "54 + bmp_pixel_bytes w h \<le> MAX_FILE_SIZE"
  shows "\<exists>s'. create_demo_bmp n w h s = Some s' \<and> vfs_ok s' \<and> used_count s' \<le> Suc (used_count s) \<and>
    vfs_lookup s' = (\<lambda>m. if cstr m = cstr n
      then Some (bmp_header w h @ concat (map (demo_row w h) [0..<nat h])) else vfs_lookup s m)"
proof -
  let ?b = "bmp_header w h @ concat (map (demo_row w h) [0..<nat h])"
  have lb: "length ?b = 54 + bmp_pixel_bytes w h" by (rule length_demo_image)
  then have le: "length ?b \<le> MAX_FILE_SIZE" using assms(4) by simp
  have "create_demo_bmp n w h s = vfs_add n ?b s"
  proof -
    from vfs_create_free [OF assms(1-3)] obtain s1 where c: "vfs_create n s = Some (0, s1)" "vfs_ok s1"
      and l: "vfs_lookup s1 n \<noteq> None" by fastforce
    then obtain i where i: "vfs_open n s1 = Some i" by (auto simp: vfs_lookup_None_iff)
    show ?thesis
      using c i le assms(4) unfolding create_demo_bmp_def vfs_add_def
      by (simp add: vfs_write_def Let_def lb del: length_append split: option.splits)
  qed
  then show ?thesis using vfs_add_law [OF assms(1-3) le] by simp
qed

lemma used_count_zero: "used_count vfs_zero = 0"
  by (simp add: used_count_def vfs_zero_def)

lemma vfs_lookup_zero: "vfs_lookup vfs_zero m = None"
  by (simp add: vfs_lookup_None_iff vfs_open_None_iff vfs_zero_def)

lemma initial_texts_fit:
  "length readme_text \<le> MAX_FILE_SIZE" "length limine_conf \<le> MAX_FILE_SIZE"
  "length makefile_content \<le> MAX_FILE_SIZE" "length hello_c \<le> MAX_FILE_SIZE"
  "length notes_text \<le> MAX_FILE_SIZE" "length logo_png \<le> MAX_FILE_SIZE"
  by (simp_all add: readme_text_def limine_conf_def makefile_content_def hello_c_def notes_text_def
      logo_png_def MAX_FILE_SIZE_def)

lemma demo_image_fits: "54 + bmp_pixel_bytes 48 48 \<le> MAX_FILE_SIZE"
  by (simp add: bmp_pixel_bytes_def bmp_row_padding_def MAX_FILE_SIZE_def)

lemma vfs_init_law:
  "\<exists>s. vfs_init = Some s \<and> vfs_ok s \<and>
     (\<forall>m. vfs_lookup s m =
       (if cstr m = ''logo.png'' then Some logo_png
        else if cstr m = ''sunset.bmp''
          then Some (bmp_header 48 48 @ concat (map (demo_row 48 48) [0..<48]))
        else if cstr m = ''notes.txt'' then Some notes_text
        else if cstr m = ''hello.c'' then Some hello_c
        else if cstr m = ''Makefile'' then Some makefile_content
        else if cstr m = ''limine.conf'' then Some limine_conf
        else if cstr m = ''readme.txt'' then Some readme_text
        else None))"
proof -
  have short: "short_name ''readme.txt''" "short_name ''limine.conf''" "short_name ''Makefile''"
    "short_name ''hello.c''" "short_name ''notes.txt''" "short_name ''sunset.bmp''" "short_name ''logo.png''"
    by (simp_all add: short_name_def)
  note add = vfs_add_law [OF _ _ le_less_trans]
  have M: "MAX_FILES = 64" by (simp add: MAX_FILES_def)
  obtain s1 where s1: "vfs_add ''readme.txt'' readme_text vfs_zero = Some s1" "vfs_ok s1"
    "used_count s1 \<le> 1"
    "vfs_lookup s1 = (\<lambda>m. if cstr m = ''readme.txt'' then Some readme_text else vfs_lookup vfs_zero m)"
    using vfs_add_law [OF vfs_zero_ok short(1) _ initial_texts_fit(1)] by (auto simp: used_count_zero M)
  obtain s2 where s2: "vfs_add ''limine.conf'' limine_conf s1 = Some s2" "vfs_ok s2" "used_count s2 \<le> 2"
    "vfs_lookup s2 = (\<lambda>m. if cstr m = ''limine.conf'' then Some limine_conf else vfs_lookup s1 m)"
    using vfs_add_law [OF s1(2) short(2) _ initial_texts_fit(2)] s1(3) by (auto simp: M)
  obtain s3 where s3: "vfs_add ''Makefile'' makefile_content s2 = Some s3" "vfs_ok s3" "used_count s3 \<le> 3"
    "vfs_lookup s3 = (\<lambda>m. if cstr m = ''Makefile'' then Some makefile_content else vfs_lookup s2 m)"
    using vfs_add_law [OF s2(2) short(3) _ initial_texts_fit(3)] s2(3) by (auto simp: M)
  obtain s4 where s4: "vfs_add ''hello.c'' hello_c s3 = Some s4" "vfs_ok s4" "used_count s4 \<le> 4"
    "vfs_lookup s4 = (\<lambda>m. if cstr m = ''hello.c'' then Some hello_c else vfs_lookup s3 m)"
    using vfs_add_law [OF s3(2) short(4) _ initial_texts_fit(4)] s3(3) by (auto simp: M)
  obtain s5 where s5: "vfs_add ''notes.txt'' notes_text s4 = Some s5" "vfs_ok s5" "used_count s5 \<le> 5"
    "vfs_lookup s5 = (\<lambda>m. if cstr m = ''notes.txt'' then Some notes_text else vfs_lookup s4 m)"
    using vfs_add_law [OF s4(2) short(5) _ initial_texts_fit(5)] s4(3) by (auto simp: M)
  obtain s6 where s6: "create_demo_bmp ''sunset.bmp'' 48 48 s5 = Some s6" "vfs_ok s6" "used_count s6 \<le> 6"
    "vfs_lookup s6 = (\<lambda>m. if cstr m = ''sunset.bmp''
       then Some (bmp_header 48 48 @ concat (map (demo_row 48 48) [0..<nat 48])) else vfs_lookup s5 m)"
    using create_demo_bmp_law [OF s5(2) short(6) _ demo_image_fits] s5(3) by (auto simp: M simp del: nat_numeral)
  obtain s7 where s7: "vfs_add ''logo.png'' logo_png s6 = Some s7" "vfs_ok s7"
    "vfs_lookup s7 = (\<lambda>m. if cstr m = ''logo.png'' then Some logo_png else vfs_lookup s6 m)"
    using vfs_add_law [OF s6(2) short(7) _ initial_texts_fit(6)] s6(3) by (auto simp: M)
  have "vfs_init = Some s7"
    by (simp add: vfs_init_def s1 s2 s3 s4 s5 s6 s7)
  then show ?thesis
    by (intro exI [of _ s7] conjI allI)
      (simp_all only: s7(2,3) s6(4) s5(4) s4(4) s3(4) s2(4) s1(4) vfs_lookup_zero nat_numeral)
qed

text \<open>The fact \<open>vfs_init_contents\<close>: \<^verbatim>\<open>vfs_init\<close> succeeds from the zeroed table and leaves a well-formed
  table that holds exactly the five texts, the 48 by 48 demo image and the logo.\<close>

theorem vfs_init_contents:
  "\<exists>s. vfs_init = Some s \<and> vfs_ok s \<and>
     (\<forall>m. vfs_lookup s m =
       (if cstr m = ''logo.png'' then Some logo_png
        else if cstr m = ''sunset.bmp''
          then Some (bmp_header 48 48 @ concat (map (demo_row 48 48) [0..<48]))
        else if cstr m = ''notes.txt'' then Some notes_text
        else if cstr m = ''hello.c'' then Some hello_c
        else if cstr m = ''Makefile'' then Some makefile_content
        else if cstr m = ''limine.conf'' then Some limine_conf
        else if cstr m = ''readme.txt'' then Some readme_text
        else None))"
  by (rule vfs_init_law)

text \<open>The header that \<^verbatim>\<open>create_demo_bmp\<close> writes carries, at the offsets a BMP
  reader takes them from, the signature, the file size, the offset of the pixels, the width,
  the height and 24 bits per pixel.\<close>

theorem demo_bmp_header:
  assumes "54 + bmp_pixel_bytes w h < 2 ^ 32"
  shows "take 2 (bmp_header w h) = ''BM''
       \<and> peek_le 4 2 (bmp_header w h) = length (bmp_header w h @ concat (map (demo_row w h) [0..<nat h]))
       \<and> peek_le 4 10 (bmp_header w h) = length (bmp_header w h)
       \<and> peek_le 4 18 (bmp_header w h) = of_int32 w
       \<and> peek_le 4 22 (bmp_header w h) = of_int32 h
       \<and> peek_le 2 28 (bmp_header w h) = 24"
proof -
  have i32: "of_int32 i < 256 ^ 4" for i
    using pos_mod_bound [of "2 ^ 32" i] by (simp add: of_int32_def nat_less_iff)
  have "54 + bmp_pixel_bytes w h < 256 ^ 4" using assms by simp
  then show ?thesis
    unfolding length_demo_image length_bmp_header
    using take_drop_poke_same [of 0 "''BM''" "replicate 54 NUL"]
    by (simp add: bmp_header_def take_poke_other peek_poke_same peek_poke_other i32 [simplified] numeral_2_eq_2 [symmetric])
qed

theorem demo_bmp_header_witness:
  "54 + bmp_pixel_bytes 2 2 < 2 ^ 32 \<and> peek_le 4 18 (bmp_header 2 2) = of_int32 2"
proof -
  have h: "54 + bmp_pixel_bytes 2 2 < 2 ^ 32" by (simp add: bmp_pixel_bytes_def bmp_row_padding_def)
  show ?thesis using h demo_bmp_header [OF h] by simp
qed

end
