(* ===== verification/Framebuf.thy ===== *)
theory Framebuf
  imports Complex_Main HeapMem CString RamFS
begin

text \<open>
  The software frame buffer (\<^verbatim>\<open>gui/fb.c\<close>, \<^verbatim>\<open>gui/font.h\<close>). Each buffer is a list of pixels;
  coordinates and indices are 32-bit words, with the wrap-around of \<^verbatim>\<open>uint32_t\<close>. The operations
  are total: an access outside a buffer sets the flag \<open>fb_fault\<close>, which stands for the memory
  error of the C code and is never cleared. The invariant \<open>fb_ok\<close> includes that it is not set.
\<close>

section \<open>State\<close>

record fb =
  fb_screen :: "u32 list"
  fb_width :: u32
  fb_height :: u32
  fb_pitch :: u32
  back_buffer :: "u32 list"
  wallpaper_cache :: "u32 list"
  desktop_buffer :: "u32 list"
  front_buffer_copy :: "u32 list"
  cursor_backup :: "u32 list"
  backup_x :: int
  backup_y :: int
  backup_w :: u32
  backup_h :: u32
  fb_fault :: bool

definition fb_boot :: fb where
  "fb_boot = \<lparr>fb_screen = [], fb_width = 0, fb_height = 0, fb_pitch = 0, back_buffer = [],
     wallpaper_cache = [], desktop_buffer = [], front_buffer_copy = [],
     cursor_backup = replicate (32 * 32) 0, backup_x = -1, backup_y = -1, backup_w = 0, backup_h = 0,
     fb_fault = False\<rparr>"

definition raise_fault :: "fb \<Rightarrow> fb" where
  "raise_fault s = s\<lparr>fb_fault := True\<rparr>"

text \<open>The font of 8 by 8 glyphs.\<close>

definition font8x8 :: "u8 list list" where
  "font8x8 = [
    [0, 0, 0, 0, 0, 0, 0, 0], [0, 0, 0, 0, 0, 0, 0, 0], [0, 0, 0, 0, 0, 0, 0, 0], [0, 0, 0, 0, 0, 0, 0, 0],
    [0, 0, 0, 0, 0, 0, 0, 0], [0, 0, 0, 0, 0, 0, 0, 0], [0, 0, 0, 0, 0, 0, 0, 0], [0, 0, 0, 0, 0, 0, 0, 0],
    [0, 0, 0, 0, 0, 0, 0, 0], [0, 0, 0, 0, 0, 0, 0, 0], [0, 0, 0, 0, 0, 0, 0, 0], [0, 0, 0, 0, 0, 0, 0, 0],
    [0, 0, 0, 0, 0, 0, 0, 0], [0, 0, 0, 0, 0, 0, 0, 0], [0, 0, 0, 0, 0, 0, 0, 0], [0, 0, 0, 0, 0, 0, 0, 0],
    [0, 0, 0, 0, 0, 0, 0, 0], [0, 0, 0, 0, 0, 0, 0, 0], [0, 0, 0, 0, 0, 0, 0, 0], [0, 0, 0, 0, 0, 0, 0, 0],
    [0, 0, 0, 0, 0, 0, 0, 0], [0, 0, 0, 0, 0, 0, 0, 0], [0, 0, 0, 0, 0, 0, 0, 0], [0, 0, 0, 0, 0, 0, 0, 0],
    [0, 0, 0, 0, 0, 0, 0, 0], [0, 0, 0, 0, 0, 0, 0, 0], [0, 0, 0, 0, 0, 0, 0, 0], [0, 0, 0, 0, 0, 0, 0, 0],
    [0, 0, 0, 0, 0, 0, 0, 0], [0, 0, 0, 0, 0, 0, 0, 0], [0, 0, 0, 0, 0, 0, 0, 0], [0, 0, 0, 0, 0, 0, 0, 0],
    [0, 0, 0, 0, 0, 0, 0, 0], [0x18, 0x3C, 0x3C, 0x18, 0x18, 0, 0x18, 0], [0x66, 0x66, 0x24, 0, 0, 0, 0, 0], [0x6C, 0x6C, 0xFE, 0x6C, 0xFE, 0x6C, 0x6C, 0],
    [0x18, 0x3E, 0x60, 0x3C, 0x06, 0x7C, 0x18, 0], [0, 0xC6, 0xCC, 0x18, 0x30, 0x66, 0xC6, 0], [0x38, 0x6C, 0x6C, 0x38, 0x6D, 0x66, 0x3B, 0], [0x18, 0x18, 0x30, 0, 0, 0, 0, 0],
    [0x0C, 0x18, 0x30, 0x30, 0x30, 0x18, 0x0C, 0], [0x30, 0x18, 0x0C, 0x0C, 0x0C, 0x18, 0x30, 0], [0, 0x66, 0x3C, 0xFF, 0x3C, 0x66, 0, 0], [0, 0x18, 0x18, 0x7E, 0x18, 0x18, 0, 0],
    [0, 0, 0, 0, 0, 0x18, 0x18, 0x30], [0, 0, 0, 0x7E, 0, 0, 0, 0], [0, 0, 0, 0, 0, 0x18, 0x18, 0], [0x06, 0x0C, 0x18, 0x30, 0x60, 0xC0, 0x80, 0],
    [0x3C, 0x66, 0x6E, 0x76, 0x66, 0x66, 0x3C, 0], [0x18, 0x38, 0x18, 0x18, 0x18, 0x18, 0x7E, 0], [0x3C, 0x66, 0x06, 0x1C, 0x30, 0x66, 0x7E, 0], [0x3C, 0x66, 0x06, 0x1C, 0x06, 0x66, 0x3C, 0],
    [0x1C, 0x3C, 0x6C, 0xCC, 0xFE, 0x0C, 0x1E, 0], [0x7E, 0x60, 0x7C, 0x06, 0x06, 0x66, 0x3C, 0], [0x1C, 0x30, 0x60, 0x7C, 0x66, 0x66, 0x3C, 0], [0x7E, 0x66, 0x06, 0x0C, 0x18, 0x18, 0x18, 0],
    [0x3C, 0x66, 0x66, 0x3C, 0x66, 0x66, 0x3C, 0], [0x3C, 0x66, 0x66, 0x3E, 0x06, 0x0C, 0x38, 0], [0, 0x18, 0x18, 0, 0, 0x18, 0x18, 0], [0, 0x18, 0x18, 0, 0, 0x18, 0x18, 0x30],
    [0x0C, 0x18, 0x30, 0x60, 0x30, 0x18, 0x0C, 0], [0, 0, 0x7E, 0, 0x7E, 0, 0, 0], [0x30, 0x18, 0x0C, 0x06, 0x0C, 0x18, 0x30, 0], [0x3C, 0x66, 0x0C, 0x18, 0x18, 0, 0x18, 0],
    [0x3C, 0x66, 0x6E, 0x6E, 0x60, 0x66, 0x3C, 0], [0x18, 0x3C, 0x66, 0x66, 0x7E, 0x66, 0x66, 0], [0x7C, 0x66, 0x66, 0x7C, 0x66, 0x66, 0x7C, 0], [0x3C, 0x66, 0x60, 0x60, 0x60, 0x66, 0x3C, 0],
    [0x78, 0x6C, 0x66, 0x66, 0x66, 0x6C, 0x78, 0], [0x7E, 0x60, 0x60, 0x7C, 0x60, 0x60, 0x7E, 0], [0x7E, 0x60, 0x60, 0x7C, 0x60, 0x60, 0x60, 0], [0x3C, 0x66, 0x60, 0x6E, 0x66, 0x66, 0x3E, 0],
    [0x66, 0x66, 0x66, 0x7E, 0x66, 0x66, 0x66, 0], [0x3C, 0x18, 0x18, 0x18, 0x18, 0x18, 0x3C, 0], [0x0E, 0x06, 0x06, 0x06, 0x06, 0x66, 0x3C, 0], [0x66, 0x6C, 0x78, 0x70, 0x78, 0x6C, 0x66, 0],
    [0x60, 0x60, 0x60, 0x60, 0x60, 0x60, 0x7E, 0], [0x63, 0x77, 0x7F, 0x6B, 0x63, 0x63, 0x63, 0], [0x66, 0x76, 0x7E, 0x7E, 0x6E, 0x66, 0x66, 0], [0x3C, 0x66, 0x66, 0x66, 0x66, 0x66, 0x3C, 0],
    [0x7C, 0x66, 0x66, 0x7C, 0x60, 0x60, 0x60, 0], [0x3C, 0x66, 0x66, 0x66, 0x6A, 0x6C, 0x36, 0], [0x7C, 0x66, 0x66, 0x7C, 0x6C, 0x66, 0x66, 0], [0x3C, 0x66, 0x60, 0x3C, 0x06, 0x66, 0x3C, 0],
    [0x7E, 0x18, 0x18, 0x18, 0x18, 0x18, 0x18, 0], [0x66, 0x66, 0x66, 0x66, 0x66, 0x66, 0x3C, 0], [0x66, 0x66, 0x66, 0x66, 0x66, 0x3C, 0x18, 0], [0x63, 0x63, 0x63, 0x6B, 0x7F, 0x77, 0x63, 0],
    [0x66, 0x66, 0x3C, 0x18, 0x3C, 0x66, 0x66, 0], [0x66, 0x66, 0x66, 0x3C, 0x18, 0x18, 0x18, 0], [0x7E, 0x06, 0x0C, 0x18, 0x30, 0x60, 0x7E, 0], [0x3C, 0x30, 0x30, 0x30, 0x30, 0x30, 0x3C, 0],
    [0x80, 0xC0, 0x60, 0x30, 0x18, 0x0C, 0x06, 0], [0x3C, 0x0C, 0x0C, 0x0C, 0x0C, 0x0C, 0x3C, 0], [0x18, 0x3C, 0x66, 0, 0, 0, 0, 0], [0, 0, 0, 0, 0, 0, 0, 0xFF],
    [0x30, 0x18, 0, 0, 0, 0, 0, 0], [0, 0, 0x3C, 0x06, 0x3E, 0x66, 0x3E, 0], [0x60, 0x60, 0x7C, 0x66, 0x66, 0x66, 0x7C, 0], [0, 0, 0x3C, 0x60, 0x60, 0x60, 0x3C, 0],
    [0x06, 0x06, 0x3E, 0x66, 0x66, 0x66, 0x3E, 0], [0, 0, 0x3C, 0x66, 0x7E, 0x60, 0x3C, 0], [0x1C, 0x30, 0x7C, 0x30, 0x30, 0x30, 0x30, 0], [0, 0, 0x3E, 0x66, 0x66, 0x3E, 0x06, 0x3C],
    [0x60, 0x60, 0x7C, 0x66, 0x66, 0x66, 0x66, 0], [0x18, 0, 0x38, 0x18, 0x18, 0x18, 0x3C, 0], [0x18, 0, 0x38, 0x18, 0x18, 0x18, 0x18, 0x70], [0x60, 0x60, 0x66, 0x6C, 0x78, 0x6C, 0x66, 0],
    [0x38, 0x18, 0x18, 0x18, 0x18, 0x18, 0x3C, 0], [0, 0, 0x66, 0x7F, 0x7F, 0x6B, 0x63, 0], [0, 0, 0x7C, 0x66, 0x66, 0x66, 0x66, 0], [0, 0, 0x3C, 0x66, 0x66, 0x66, 0x3C, 0],
    [0, 0, 0x7C, 0x66, 0x66, 0x7C, 0x60, 0x60], [0, 0, 0x3E, 0x66, 0x66, 0x3E, 0x06, 0x06], [0, 0, 0x7C, 0x60, 0x60, 0x60, 0x60, 0], [0, 0, 0x3E, 0x60, 0x3C, 0x06, 0x3C, 0],
    [0x30, 0x30, 0x7C, 0x30, 0x30, 0x30, 0x1C, 0], [0, 0, 0x66, 0x66, 0x66, 0x66, 0x3E, 0], [0, 0, 0x66, 0x66, 0x66, 0x3C, 0x18, 0], [0, 0, 0x63, 0x6B, 0x7F, 0x3E, 0x36, 0],
    [0, 0, 0x66, 0x3C, 0x18, 0x3C, 0x66, 0], [0, 0, 0x66, 0x66, 0x66, 0x3E, 0x06, 0x3C], [0, 0, 0x7E, 0x0C, 0x18, 0x30, 0x7E, 0], [0x0E, 0x18, 0x18, 0x70, 0x18, 0x18, 0x0E, 0],
    [0x18, 0x18, 0x18, 0x18, 0x18, 0x18, 0x18, 0x18], [0x70, 0x18, 0x18, 0x0E, 0x18, 0x18, 0x70, 0], [0x76, 0xDC, 0, 0, 0, 0, 0, 0], [0, 0x10, 0x38, 0x6C, 0xC6, 0xC6, 0xFE, 0]]"

section \<open>Set-up and whole buffers\<close>

definition memcpy32 :: "nat \<Rightarrow> nat \<Rightarrow> u32 \<Rightarrow> u32 list \<Rightarrow> u32 list \<Rightarrow> u32 list option" where
  "memcpy32 d s n dest src =
     (let count = unat (n div 4) in
      if d \<le> length dest \<and> s \<le> length src
      then map_option ((@) (take d dest)) (memcpy (drop d dest) (drop s src) count) else None)"

text \<open>\<open>screen\<close> is the memory behind the address that the boot loader reports.\<close>

definition fb_init_raw :: "u32 list \<Rightarrow> u32 \<Rightarrow> u32 \<Rightarrow> u32 \<Rightarrow> fb \<Rightarrow> fb" where
  "fb_init_raw screen w h pitch s =
     s\<lparr>fb_screen := screen, fb_width := w, fb_height := h, fb_pitch := pitch\<rparr>"

text \<open>The pixels that lie in freshly allocated memory.\<close>

definition ram_pixels :: "u64 \<Rightarrow> nat \<Rightarrow> mm \<Rightarrow> u32 list" where
  "ram_pixels p n m =
     map (\<lambda>i. of_nat (le_value (map (\<lambda>k. char_of_byte (ram m (p + of_nat (4 * i + k)))) [0..<4]))) [0..<n]"

definition fb_alloc_buffers :: "mm \<times> fb \<Rightarrow> mm \<times> fb" where
  "fb_alloc_buffers st =
     (let (m, s) = st;
          bytes = fb_width s * fb_height s * 4;
          n = unat bytes div 4;
          (p1, m) = kmalloc bytes m;
          s = s\<lparr>back_buffer := ram_pixels p1 n m\<rparr>;
          (p2, m) = kmalloc bytes m;
          s = s\<lparr>wallpaper_cache := ram_pixels p2 n m\<rparr>;
          (p3, m) = kmalloc bytes m;
          s = s\<lparr>desktop_buffer := ram_pixels p3 n m\<rparr>;
          (p4, m) = kmalloc bytes m
      in (m, s\<lparr>front_buffer_copy := replicate n 0\<rparr>))"

text \<open>One row of the scan of \<^verbatim>\<open>fb_swap\<close>: the first and the last pixel that differ.\<close>

definition diff_step :: "fb \<Rightarrow> u32 \<Rightarrow> nat \<Rightarrow> u32 \<times> u32 \<times> bool \<Rightarrow> u32 \<times> u32 \<times> bool" where
  "diff_step s row_offset x acc =
     (let (first_diff, last_diff, fault) = acc; i = unat (row_offset + of_nat x) in
      if i < length (back_buffer s) \<and> i < length (front_buffer_copy s) then
        (if back_buffer s ! i \<noteq> front_buffer_copy s ! i
         then (if first_diff = fb_width s then of_nat x else first_diff, of_nat x, fault)
         else acc)
      else (first_diff, last_diff, True))"

definition fb_swap_row :: "nat \<Rightarrow> fb \<Rightarrow> fb" where
  "fb_swap_row y s =
     (let row_offset = of_nat y * (fb_pitch s div 4);
          (first_diff, last_diff, fault) =
            for_up 0 (unat (fb_width s)) (diff_step s row_offset) (fb_width s, 0, False);
          s = (if fault then raise_fault s else s)
      in if first_diff < fb_width s then
           (let count = last_diff - first_diff + 1;
                start_idx = unat (row_offset + first_diff)
            in case memcpy32 start_idx start_idx (count * 4) (fb_screen s) (back_buffer s) of
                 None \<Rightarrow> raise_fault s
               | Some screen \<Rightarrow>
                   (case memcpy32 start_idx start_idx (count * 4) (front_buffer_copy s) (back_buffer s) of
                      None \<Rightarrow> raise_fault s
                    | Some front \<Rightarrow> s\<lparr>fb_screen := screen, front_buffer_copy := front\<rparr>))
         else s)"

definition fb_swap :: "fb \<Rightarrow> fb" where
  "fb_swap s = for_up 0 (unat (fb_height s)) fb_swap_row s"

definition fb_commit_desktop :: "fb \<Rightarrow> fb" where
  "fb_commit_desktop s =
     (case memcpy32 0 0 (fb_width s * fb_height s * 4) (desktop_buffer s) (back_buffer s) of
        None \<Rightarrow> raise_fault s
      | Some d \<Rightarrow> s\<lparr>desktop_buffer := d\<rparr>)"

definition restore_row :: "u32 \<Rightarrow> u32 \<Rightarrow> nat \<Rightarrow> fb \<Rightarrow> fb" where
  "restore_row x w iy s =
     (let offset = unat (of_nat iy * (fb_pitch s div 4) + x) in
      case memcpy32 offset offset (w * 4) (back_buffer s) (desktop_buffer s) of
        None \<Rightarrow> raise_fault s
      | Some b \<Rightarrow> s\<lparr>back_buffer := b\<rparr>)"

definition fb_restore_desktop_rect :: "u32 \<Rightarrow> u32 \<Rightarrow> u32 \<Rightarrow> u32 \<Rightarrow> fb \<Rightarrow> fb" where
  "fb_restore_desktop_rect x y w h s =
     (if x \<ge> fb_width s \<or> y \<ge> fb_height s then s
      else (let w = (if x + w > fb_width s then fb_width s - x else w);
                h = (if y + h > fb_height s then fb_height s - y else h)
            in for_up (unat y) (unat (y + h)) (restore_row x w) s))"

definition fb_clear_to_wallpaper :: "fb \<Rightarrow> fb" where
  "fb_clear_to_wallpaper s =
     (case memcpy32 0 0 (fb_width s * fb_height s * 4) (back_buffer s) (wallpaper_cache s) of
        None \<Rightarrow> raise_fault s
      | Some b \<Rightarrow> s\<lparr>back_buffer := b\<rparr>)"

section \<open>Drawing\<close>

definition px_index :: "fb \<Rightarrow> u32 \<Rightarrow> u32 \<Rightarrow> nat" where
  "px_index s x y = unat (y * (fb_pitch s div 4) + x)"

definition store_px :: "nat \<Rightarrow> u32 \<Rightarrow> fb \<Rightarrow> fb" where
  "store_px i color s =
     (if i < length (back_buffer s) then s\<lparr>back_buffer := (back_buffer s)[i := color]\<rparr>
      else raise_fault s)"

definition fb_plot :: "u32 \<Rightarrow> u32 \<Rightarrow> u32 \<Rightarrow> fb \<Rightarrow> fb" where
  "fb_plot x y color s =
     (if x < fb_width s \<and> y < fb_height s then store_px (px_index s x y) color s else s)"

definition fb_get_pixel :: "u32 \<Rightarrow> u32 \<Rightarrow> fb \<Rightarrow> u32 \<times> fb" where
  "fb_get_pixel x y s =
     (if x < fb_width s \<and> y < fb_height s
      then (if px_index s x y < length (back_buffer s) then (back_buffer s ! px_index s x y, s)
            else (0, raise_fault s))
      else (0, s))"

definition fb_clear :: "u32 \<Rightarrow> fb \<Rightarrow> fb" where
  "fb_clear color s =
     for_up 0 (unat (fb_height s)) (\<lambda>y.
       for_up 0 (unat (fb_width s)) (\<lambda>x t. store_px (px_index t (of_nat x) (of_nat y)) color t)) s"

definition fb_rect :: "u32 \<Rightarrow> u32 \<Rightarrow> u32 \<Rightarrow> u32 \<Rightarrow> u32 \<Rightarrow> fb \<Rightarrow> fb" where
  "fb_rect x y w h color s =
     (if x \<ge> fb_width s \<or> y \<ge> fb_height s then s
      else (let w = (if x + w > fb_width s then fb_width s - x else w);
                h = (if y + h > fb_height s then fb_height s - y else h)
            in for_up (unat y) (unat (y + h)) (\<lambda>iy.
                 for_up 0 (unat w) (\<lambda>ix t.
                   store_px (unat (of_nat iy * (fb_pitch t div 4) + x + of_nat ix)) color t)) s))"

text \<open>The signed division and multiplication of one colour channel of \<^verbatim>\<open>fb_gradient\<close>.\<close>

definition c_div :: "int \<Rightarrow> int \<Rightarrow> int" where
  "c_div a b = sgn a * sgn b * (\<bar>a\<bar> div \<bar>b\<bar>)"

definition blend :: "u32 \<Rightarrow> u32 \<Rightarrow> u32 \<Rightarrow> u32 \<Rightarrow> u32" where
  "blend v1 v2 j h = v1 + of_int (c_div (sint (v2 - v1) * sint j) (sint h))"

definition gradient_color :: "u32 \<Rightarrow> u32 \<Rightarrow> u32 \<Rightarrow> u32 \<Rightarrow> u32" where
  "gradient_color c1 c2 j h =
     (let r1 = drop_bit 16 c1 AND 0xFF; g1 = drop_bit 8 c1 AND 0xFF; b1 = c1 AND 0xFF;
          r2 = drop_bit 16 c2 AND 0xFF; g2 = drop_bit 8 c2 AND 0xFF; b2 = c2 AND 0xFF;
          r = blend r1 r2 j h; g = blend g1 g2 j h; b = blend b1 b2 j h
      in push_bit 16 r OR push_bit 8 g OR b)"

definition fb_gradient :: "u32 \<Rightarrow> u32 \<Rightarrow> u32 \<Rightarrow> u32 \<Rightarrow> u32 \<Rightarrow> u32 \<Rightarrow> fb \<Rightarrow> fb" where
  "fb_gradient x y w h c1 c2 s =
     for_up 0 (unat h) (\<lambda>j.
       for_up 0 (unat w) (\<lambda>i.
         fb_plot (x + of_nat i) (y + of_nat j) (gradient_color c1 c2 (of_nat j) h))) s"

text \<open>The wallpaper is drawn with \<^verbatim>\<open>back_buffer\<close> pointing to the cache.\<close>

definition star :: "nat \<Rightarrow> fb \<Rightarrow> fb" where
  "star i s =
     (if fb_width s = 0 \<or> fb_height s = 0 then raise_fault s
      else (let rx = ucast ((123456789 :: u64) * (of_nat i + 1) mod ucast (fb_width s));
                ry = ucast ((987654321 :: u64) * (of_nat i + 1) mod ucast (fb_height s))
            in fb_plot rx ry 0x444466 s))"

definition fb_render_wallpaper :: "int \<Rightarrow> fb \<Rightarrow> fb" where
  "fb_render_wallpaper wallpaper_mode s =
     (let old_back = back_buffer s;
          s = s\<lparr>back_buffer := wallpaper_cache s\<rparr>;
          s = (if wallpaper_mode = 1 then fb_rect 0 0 (fb_width s) (fb_height s) 0x3B6790 s
               else if wallpaper_mode = 0 then
                 for_up 0 200 star
                   (fb_gradient 0 0 (fb_width s) (fb_height s) 0x1A1A2E 0x16213E s)
               else fb_rect 0 0 (fb_width s) (fb_height s) 0x111111 s)
      in s\<lparr>wallpaper_cache := back_buffer s, back_buffer := old_back\<rparr>)"

section \<open>Text\<close>

definition fb_putc :: "char \<Rightarrow> u32 \<Rightarrow> u32 \<Rightarrow> u32 \<Rightarrow> u32 \<Rightarrow> fb \<Rightarrow> fb" where
  "fb_putc c x y fg bg s =
     (let u = byte_of c;
          u = (if u \<ge> 128 then byte_of (CHR ''?'') else u);
          glyph = font8x8 ! unat u
      in for_up 0 8 (\<lambda>row.
           for_up 0 8 (\<lambda>col.
             fb_plot (x + of_nat col) (y + of_nat row)
               (if glyph ! row AND push_bit (7 - col) 1 \<noteq> 0 then fg else bg))) s)"

fun print_from :: "u32 \<Rightarrow> string \<Rightarrow> u32 \<Rightarrow> u32 \<Rightarrow> u32 \<Rightarrow> u32 \<Rightarrow> fb \<Rightarrow> fb" where
  "print_from x [] cx cy fg bg s = s"
| "print_from x (c # cs) cx cy fg bg s =
     (if c = CHR 0x0A then print_from x cs x (cy + 10) fg bg s
      else print_from x cs (cx + 8) cy fg bg (fb_putc c cx cy fg bg s))"

definition fb_print :: "string \<Rightarrow> u32 \<Rightarrow> u32 \<Rightarrow> u32 \<Rightarrow> u32 \<Rightarrow> fb \<Rightarrow> fb" where
  "fb_print str x y fg bg s = print_from x (cstr str) x y fg bg s"

section \<open>The mouse cursor\<close>

definition fb_reset_cursor_backup :: "fb \<Rightarrow> fb" where
  "fb_reset_cursor_backup s = s\<lparr>backup_x := -1\<rparr>"

definition cursor_index :: "fb \<Rightarrow> nat \<Rightarrow> nat \<Rightarrow> nat" where
  "cursor_index s y x =
     unat ((of_int (backup_y s) + of_nat y) * (fb_pitch s div 4) + (of_int (backup_x s) + of_nat x))"

definition unbackup_pixel :: "nat \<Rightarrow> nat \<Rightarrow> fb \<Rightarrow> fb" where
  "unbackup_pixel y x s =
     (if y * 32 + x < length (cursor_backup s)
      then store_px (cursor_index s y x) (cursor_backup s ! (y * 32 + x)) s else raise_fault s)"

definition fb_hide_cursor :: "fb \<Rightarrow> fb" where
  "fb_hide_cursor s =
     (if backup_x s = -1 then s
      else (let s = for_up 0 (unat (backup_h s)) (\<lambda>y. for_up 0 (unat (backup_w s)) (unbackup_pixel y)) s
            in s\<lparr>backup_x := -1\<rparr>))"

definition backup_pixel :: "nat \<Rightarrow> nat \<Rightarrow> fb \<Rightarrow> fb" where
  "backup_pixel cy cx s =
     (let i = cursor_index s cy cx in
      if i < length (back_buffer s) \<and> cy * 32 + cx < length (cursor_backup s)
      then s\<lparr>cursor_backup := (cursor_backup s)[cy * 32 + cx := back_buffer s ! i]\<rparr>
      else raise_fault s)"

definition plot_int :: "int \<Rightarrow> int \<Rightarrow> u32 \<Rightarrow> fb \<Rightarrow> fb" where
  "plot_int x y = fb_plot (of_int x) (of_int y)"

definition cursor_tail :: "(int \<times> int \<times> u32) list" where
  "cursor_tail =
     [(5, 12, 0x000000), (6, 12, 0x000000), (7, 12, 0x000000),
      (6, 13, 0xFFFFFF), (7, 13, 0xFFFFFF), (8, 13, 0x000000),
      (7, 14, 0xFFFFFF), (8, 14, 0xFFFFFF), (9, 14, 0x000000),
      (8, 15, 0x000000), (9, 15, 0x000000), (10, 15, 0x000000)]"

text \<open>
  \<^verbatim>\<open>fb_show_cursor\<close> in its three parts: place the saved rectangle, save the pixels under it,
  draw the arrow.
\<close>

definition place_backup :: "int \<Rightarrow> int \<Rightarrow> fb \<Rightarrow> fb" where
  "place_backup x y s =
     (let s = s\<lparr>backup_x := x, backup_y := y, backup_w := 32, backup_h := 32\<rparr>;
          s = (if backup_x s < 0 then s\<lparr>backup_x := 0\<rparr> else s);
          s = (if backup_y s < 0 then s\<lparr>backup_y := 0\<rparr> else s);
          s = (if backup_x s + sint (backup_w s) > sint (fb_width s)
               then s\<lparr>backup_w := fb_width s - of_int (backup_x s)\<rparr> else s)
      in if backup_y s + sint (backup_h s) > sint (fb_height s)
         then s\<lparr>backup_h := fb_height s - of_int (backup_y s)\<rparr> else s)"

definition save_backup :: "fb \<Rightarrow> fb" where
  "save_backup s =
     for_up 0 (unat (backup_h s)) (\<lambda>cy. for_up 0 (unat (backup_w s)) (backup_pixel cy)) s"

definition draw_arrow :: "int \<Rightarrow> int \<Rightarrow> fb \<Rightarrow> fb" where
  "draw_arrow x y s =
     for_up 0 12 (\<lambda>cy. for_up 0 (Suc cy) (\<lambda>cx t.
       if x + int cx < sint (fb_width t) \<and> y + int cy < sint (fb_height t)
       then plot_int (x + int cx) (y + int cy)
              (if cx = 0 \<or> cy = 11 \<or> cx = cy then 0x000000 else 0xFFFFFF) t
       else t)) s"

definition draw_tail :: "int \<Rightarrow> int \<Rightarrow> fb \<Rightarrow> fb" where
  "draw_tail x y s =
     (if x + 10 < sint (fb_width s) \<and> y + 15 < sint (fb_height s)
      then fold (\<lambda>(dx, dy, c). plot_int (x + dx) (y + dy) c) cursor_tail s
      else s)"

definition fb_show_cursor :: "int \<Rightarrow> int \<Rightarrow> fb \<Rightarrow> fb" where
  "fb_show_cursor x y s =
     draw_tail x y (draw_arrow x y (save_backup (place_backup x y (fb_hide_cursor s))))"

section \<open>Images\<close>

text \<open>
  \<^verbatim>\<open>draw_bmp_to_fb\<close>. The rows are counted from the first one in the file, \<open>r = h - 1 - y\<close>. The
  \<^verbatim>\<open>break\<close> leaves a row when the data ends; every later row then ends at once too, since the
  data index no longer moves.
\<close>

definition bmp_draw_pixel ::
    "string \<Rightarrow> nat \<Rightarrow> int \<Rightarrow> int \<Rightarrow> int \<Rightarrow> int \<Rightarrow> nat \<Rightarrow> nat \<Rightarrow> nat \<times> fb \<Rightarrow> nat \<times> fb" where
  "bmp_draw_pixel data n screen_x screen_y max_w max_h r x st =
     (let (i, s) = st in
      if i + 3 > n then st
      else if i + 3 > length data then (i + 3, raise_fault s)
      else (let b = ucast (byte_of (data ! i)); g = ucast (byte_of (data ! (i + 1)));
                rd = ucast (byte_of (data ! (i + 2)));
                color = push_bit 16 rd OR push_bit 8 g OR b
            in if int x < max_w \<and> int r < max_h
               then (i + 3, plot_int (screen_x + int x) (screen_y + int r) color s)
               else (i + 3, s)))"

definition draw_bmp_to_fb :: "string \<Rightarrow> nat \<Rightarrow> int \<Rightarrow> int \<Rightarrow> int \<Rightarrow> int \<Rightarrow> fb \<Rightarrow> fb" where
  "draw_bmp_to_fb data n screen_x screen_y max_w max_h s =
     (if n < 54 then s
      else if length data < 54 then raise_fault s
      else if data ! 0 \<noteq> CHR ''B'' \<or> data ! 1 \<noteq> CHR ''M'' then s
      else
        (let w = to_int32 (peek_le 4 18 data); h = to_int32 (peek_le 4 22 data);
             bpp = peek_le 2 28 data; offset = peek_le 4 10 data in
         if bpp \<noteq> 24 then s
         else snd (for_up 0 (nat h) (\<lambda>r. for_up 0 (nat w)
                (bmp_draw_pixel data n screen_x screen_y max_w max_h r)) (offset, s))))"

text \<open>
  The tile positions \<open>0, step, 2 * step, ...\<close> below the limit. The fuel is the limit, which
  is enough as long as the position does not wrap around.
\<close>

fun tile_starts :: "nat \<Rightarrow> u32 \<Rightarrow> u32 \<Rightarrow> u32 \<Rightarrow> u32 list" where
  "tile_starts 0 pos step limit = []"
| "tile_starts (Suc fuel) pos step limit =
     (if pos < limit then pos # tile_starts fuel (pos + step) step limit else [])"

definition fb_wallpaper :: "vfs \<Rightarrow> fb \<Rightarrow> fb" where
  "fb_wallpaper fs s =
     (case vfs_open ''sunset.bmp'' fs of
        Some i \<Rightarrow>
          (let f = fs ! i; w = to_int32 (peek_le 4 18 (f_data f)); h = to_int32 (peek_le 4 22 (f_data f));
               (w, h) = (if w \<le> 0 \<or> h \<le> 0 then (64, 64) else (w, h))
           in fold (\<lambda>ty. fold (\<lambda>tx. draw_bmp_to_fb (f_data f) (f_size f) (sint tx) (sint ty) w h)
                      (tile_starts (unat (fb_width s)) 0 (of_int w) (fb_width s)))
                (tile_starts (unat (fb_height s)) 0 (of_int h) (fb_height s)) s)
      | None \<Rightarrow> fb_gradient 0 0 (fb_width s) (fb_height s) 0x1a2a6c 0x0a0a0a s)"

text \<open>
  Single-precision arithmetic on positive numbers, as the scaling of \<^verbatim>\<open>fb_draw_image\<close> uses it:
  the exact rational result is rounded to 24 significant bits, ties to even.
\<close>

function bit_count :: "int \<Rightarrow> int" where
  "bit_count n = (if n \<le> 0 then 0 else 1 + bit_count (n div 2))"
  by pat_completeness auto
termination
  by (relation "measure nat") auto

declare bit_count.simps [simp del]

definition round_even :: "rat \<Rightarrow> int" where
  "round_even q =
     (let r = \<lfloor>q\<rfloor>; d = q - of_int r
      in if d > 1 / 2 \<or> (d = 1 / 2 \<and> odd r) then r + 1 else r)"

definition f32_round :: "rat \<Rightarrow> rat" where
  "f32_round q =
     (if q \<le> 0 then 0
      else (let (n, d) = quotient_of q;
                e = bit_count n - bit_count d - 24;
                e = (if q \<ge> 2 ^ 24 * 2 powi e then e + 1 else e)
            in of_int (round_even (q / 2 powi e)) * 2 powi e))"

definition fit_scale :: "int \<Rightarrow> int \<Rightarrow> int \<Rightarrow> int \<Rightarrow> int \<times> int" where
  "fit_scale w h max_w max_h =
     (let fw = f32_round (of_int w); fh = f32_round (of_int h);
          scale_w = f32_round (f32_round (of_int max_w) / fw);
          scale_h = f32_round (f32_round (of_int max_h) / fh);
          scale = (if scale_w < scale_h then scale_w else scale_h)
      in (\<lfloor>f32_round (fw * scale)\<rfloor>, \<lfloor>f32_round (fh * scale)\<rfloor>))"

text \<open>
  The decoder of \<^verbatim>\<open>stb_image.h\<close> is a parameter: width, height and four bytes per pixel, or
  \<open>None\<close>; it allocates from the kernel heap.
\<close>

type_synonym image_decoder = "string \<Rightarrow> mm \<Rightarrow> (int \<times> int \<times> u8 list) option \<times> mm"

definition image_pixel ::
    "u8 list \<Rightarrow> int \<Rightarrow> int \<Rightarrow> int \<Rightarrow> int \<Rightarrow> int \<Rightarrow> int \<Rightarrow> int \<Rightarrow> int \<Rightarrow> fb \<Rightarrow> fb" where
  "image_pixel img w h draw_w draw_h off_x off_y y x s =
     (let src_y = (y * h) div draw_h;
          src_x = (x * w) div draw_w;
          src_idx = nat ((src_y * w + src_x) * 4)
      in if src_idx + 3 < length img then
           (let r = ucast (img ! src_idx); g = ucast (img ! (src_idx + 1)); b = ucast (img ! (src_idx + 2));
                a = img ! (src_idx + 3)
            in if a > 128 then plot_int (off_x + x) (off_y + y) (push_bit 16 r OR push_bit 8 g OR b) s else s)
         else raise_fault s)"

definition fb_draw_image ::
    "image_decoder \<Rightarrow> string \<Rightarrow> nat \<Rightarrow> int \<Rightarrow> int \<Rightarrow> int \<Rightarrow> int \<Rightarrow> mm \<times> fb \<Rightarrow> mm \<times> fb" where
  "fb_draw_image stbi data n screen_x screen_y max_w max_h st =
     (let (m, s) = st in
      case stbi (take n data) m of
        (None, m) \<Rightarrow>
          (m, fb_print ''Unsupported image format.'' (of_int (screen_x + 10)) (of_int (screen_y + 10))
                0xFF5555 0x222222 s)
      | (Some (w, h, img), m) \<Rightarrow>
          (let (draw_w, draw_h) = (if w > max_w \<or> h > max_h then fit_scale w h max_w max_h else (w, h));
               off_x = screen_x + c_div (max_w - draw_w) 2;
               off_y = screen_y + c_div (max_h - draw_h) 2
           in (m, for_up 0 (nat draw_h) (\<lambda>y. for_up 0 (nat draw_w) (\<lambda>x.
                    image_pixel img w h draw_w draw_h off_x off_y (int y) (int x))) s)))"

end
