(* ===== verification/Pixels.thy ===== *)
theory Pixels
  imports Framebuf
begin

text \<open>
  The laws of the frame buffer: the invariant \<open>fb_ok\<close> that no operation leaves the buffers,
  the pixels a rectangle changes, the screen after a swap, and the desktop under the cursor.
  The boot loader's pitch may exceed four times the width; the buffers are allocated for the
  width only, so the invariant asks for a pitch of exactly four times the width.
\<close>

section \<open>The invariant\<close>

definition fb_ok :: "u32 \<Rightarrow> u32 \<Rightarrow> fb \<Rightarrow> bool" where
  "fb_ok w h s \<longleftrightarrow> fb_width s = w \<and> fb_height s = h \<and> fb_pitch s div 4 = w \<and>
     0 < unat w \<and> 0 < unat h \<and> unat w * unat h * 4 < 2 ^ 32 \<and>
     length (fb_screen s) = unat w * unat h \<and> length (back_buffer s) = unat w * unat h \<and>
     length (wallpaper_cache s) = unat w * unat h \<and> length (desktop_buffer s) = unat w * unat h \<and>
     length (front_buffer_copy s) = unat w * unat h \<and> length (cursor_backup s) = 1024 \<and>
     \<not> fb_fault s"

lemma fb_ok_simps:
  assumes "fb_ok w h s"
  shows "fb_width s = w" "fb_height s = h" "fb_pitch s div 4 = w" "length (back_buffer s) = unat w * unat h"
    "length (fb_screen s) = unat w * unat h" "length (front_buffer_copy s) = unat w * unat h"
    "length (desktop_buffer s) = unat w * unat h" "length (wallpaper_cache s) = unat w * unat h"
    "length (cursor_backup s) = 1024" "\<not> fb_fault s"
  using assms by (simp_all add: fb_ok_def)

lemma grid_less: "a < H \<Longrightarrow> b < W \<Longrightarrow> a * W + b < W * H" for a b W H :: nat
proof -
  assume "a < H" "b < W"
  then have "a * W + b < Suc a * W" by simp
  also have "\<dots> \<le> H * W" using \<open>a < H\<close> by (intro mult_le_mono1) simp
  finally show ?thesis by (simp add: mult.commute)
qed

lemma grid_inj:
  fixes a a' b b' W :: nat
  assumes "b < W" "b' < W" "a * W + b = a' * W + b'"
  shows "a = a' \<and> b = b'"
proof -
  have "(a * W + b) div W = a" "(a' * W + b') div W = a'" using assms(1,2) by simp_all
  with assms(3) show ?thesis by auto
qed

lemma screen_size:
  assumes "fb_ok w h s"
  shows "unat w * unat h < 2 ^ 30" "unat w < 2 ^ 30" "unat h < 2 ^ 30"
proof -
  from assms have "unat w * unat h * 4 < 2 ^ 32" by (simp only: fb_ok_def)
  moreover have "2 ^ 32 = (2 :: nat) ^ 30 * 4" by simp
  ultimately show a: "unat w * unat h < 2 ^ 30" by (metis mult_less_cancel2)
  from assms have pos: "1 \<le> unat w" "1 \<le> unat h" unfolding fb_ok_def by linarith+
  have "unat w * 1 \<le> unat w * unat h" "1 * unat h \<le> unat w * unat h"
    by (rule mult_le_mono2 [OF pos(2)], rule mult_le_mono1 [OF pos(1)])
  with a show "unat w < 2 ^ 30" "unat h < 2 ^ 30" by (simp_all only: mult_1 mult_1_right)
qed

text \<open>The word index of a pixel on the screen is its place in the row-major buffer.\<close>

lemma word_index:
  assumes "fb_ok w h s" "a < unat h" "b < unat w"
  shows "unat (of_nat a * w + of_nat b :: u32) = a * unat w + b"
    and "a * unat w + b < unat w * unat h"
proof -
  show l: "a * unat w + b < unat w * unat h" using assms by (intro grid_less)
  have e: "of_nat a * w + of_nat b = (of_nat (a * unat w + b) :: u32)" by simp
  have "a * unat w + b < 2 ^ 32" using l screen_size(1) [OF assms(1)] by simp
  then show "unat (of_nat a * w + of_nat b :: u32) = a * unat w + b"
    unfolding e by (simp only: unat_of_nat) (simp add: take_bit_nat_eq_self)
qed

lemma px_index_eq:
  assumes "fb_ok w h s" "x < w" "y < h"
  shows "px_index s x y = unat y * unat w + unat x" and "px_index s x y < unat w * unat h"
  using word_index [OF assms(1), of "unat y" "unat x"] assms(2,3)
  by (simp_all add: px_index_def fb_ok_simps [OF assms(1)] word_less_nat_alt)

section \<open>Drawing keeps the invariant\<close>

lemma for_up_ok [keeps_intros]:
  "fb_ok w h s \<Longrightarrow> (\<And>i t. a \<le> i \<Longrightarrow> i < b \<Longrightarrow> fb_ok w h t \<Longrightarrow> fb_ok w h (body i t)) \<Longrightarrow>
   fb_ok w h (for_up a b body s)"
  by (rule for_up_keeps)

lemma store_px_ok: "fb_ok w h s \<Longrightarrow> i < unat w * unat h \<Longrightarrow> fb_ok w h (store_px i c s)"
  by (simp add: store_px_def fb_ok_def)

lemma fb_plot_ok [keeps_intros]: "fb_ok w h s \<Longrightarrow> fb_ok w h (fb_plot x y c s)"
proof -
  assume ok: "fb_ok w h s"
  show ?thesis
    unfolding fb_plot_def fb_ok_simps(1,2) [OF ok]
    using px_index_eq(2) [OF ok] store_px_ok [OF ok] ok by simp
qed

lemma plot_int_ok [keeps_intros]: "fb_ok w h s \<Longrightarrow> fb_ok w h (plot_int x y c s)"
  by (simp add: plot_int_def fb_plot_ok)

lemma fb_gradient_ok [keeps_intros]: "fb_ok w h s \<Longrightarrow> fb_ok w h (fb_gradient x y a b c1 c2 s)"
  unfolding fb_gradient_def by (intro for_up_ok fb_plot_ok)

lemma fb_putc_ok [keeps_intros]: "fb_ok w h s \<Longrightarrow> fb_ok w h (fb_putc c x y fg bg s)"
  unfolding fb_putc_def Let_def by (intro for_up_ok fb_plot_ok)

lemma print_from_ok: "fb_ok w h s \<Longrightarrow> fb_ok w h (print_from x cs cx cy fg bg s)"
  by (induction x cs cx cy fg bg s rule: print_from.induct) (simp_all add: fb_putc_ok)

lemma fb_print_ok [keeps_intros]: "fb_ok w h s \<Longrightarrow> fb_ok w h (fb_print str x y fg bg s)"
  by (simp add: fb_print_def print_from_ok)

lemma fb_clear_ok [keeps_intros]:
  assumes "fb_ok w h s"
  shows "fb_ok w h (fb_clear c s)"
proof -
  have "fb_ok w h (store_px (px_index t (of_nat x) (of_nat y)) c t)"
    if "x < unat w" "y < unat h" "fb_ok w h t" for x y t
    unfolding px_index_def fb_ok_simps(3) [OF that(3)] word_index(1) [OF that(3,2,1)]
    by (rule store_px_ok [OF that(3) word_index(2) [OF that(3,2,1)]])
  then show ?thesis
    unfolding fb_clear_def fb_ok_simps(1,2) [OF assms] by (intro for_up_ok assms) auto
qed

text \<open>A rectangle clips to the screen unless the sum of its left edge and its width wraps.\<close>

definition rect_fits :: "u32 \<Rightarrow> u32 \<Rightarrow> bool" where
  "rect_fits x a \<longleftrightarrow> unat x + unat a < 2 ^ 32"

definition clip :: "u32 \<Rightarrow> u32 \<Rightarrow> u32 \<Rightarrow> u32" where
  "clip limit x a = (if x + a > limit then limit - x else a)"

lemma unat_clip:
  assumes "x < limit" and "rect_fits x a"
  shows "unat (clip limit x a) = min (unat a) (unat limit - unat x)"
    and "unat (x + clip limit x a) = min (unat x + unat a) (unat limit)"
proof -
  have xl: "unat x < unat limit" "x \<le> limit" using assms(1) by (simp_all add: word_less_nat_alt word_le_nat_alt)
  have s: "unat (x + a) = unat x + unat a"
    using assms(2) unat_add_lem [of x a] by (simp add: rect_fits_def)
  show 1: "unat (clip limit x a) = min (unat a) (unat limit - unat x)"
    using s xl by (auto simp: clip_def word_less_nat_alt unat_sub)
  have "unat x + unat (clip limit x a) \<le> unat limit" using 1 xl by simp
  then have "unat x + unat (clip limit x a) < 2 ^ LENGTH(32)"
    using unsigned_less [of limit, where ?'a = nat] by simp
  then have "unat (x + clip limit x a) = unat x + unat (clip limit x a)"
    by (rule unat_add_lem [THEN iffD1])
  with 1 xl show "unat (x + clip limit x a) = min (unat x + unat a) (unat limit)" by simp
qed

lemma fb_rect_clip:
  "fb_ok w h s \<Longrightarrow> fb_rect x y a b color s =
     (if x \<ge> w \<or> y \<ge> h then s
      else for_up (unat y) (unat (y + clip h y b)) (\<lambda>iy.
             for_up 0 (unat (clip w x a)) (\<lambda>ix t.
               store_px (unat (of_nat iy * (fb_pitch t div 4) + x + of_nat ix)) color t)) s)"
  unfolding fb_rect_def clip_def Let_def by (simp add: fb_ok_def)

lemma rect_index:
  assumes "fb_ok w h t" "iy < unat h" "ix < unat (clip w x a)" "x < w" "rect_fits x a"
  shows "unat (of_nat iy * (fb_pitch t div 4) + x + of_nat ix) = iy * unat w + (unat x + ix)"
    and "iy * unat w + (unat x + ix) < unat w * unat h"
proof -
  have xi: "unat x + ix < unat w"
    using assms(3) unat_clip(1) [OF assms(4,5)] assms(4) unfolding word_less_nat_alt by linarith
  have "of_nat iy * (fb_pitch t div 4) + x + of_nat ix = of_nat iy * w + of_nat (unat x + ix)"
    using fb_ok_simps(3) [OF assms(1)] by (simp add: ac_simps)
  then show "unat (of_nat iy * (fb_pitch t div 4) + x + of_nat ix) = iy * unat w + (unat x + ix)"
    by (simp only: word_index(1) [OF assms(1,2) xi])
  show "iy * unat w + (unat x + ix) < unat w * unat h" by (rule word_index(2) [OF assms(1,2) xi])
qed

lemma row_bound: "y < h \<Longrightarrow> iy < unat (y + clip h y b) \<Longrightarrow> iy < unat h"
  by (auto simp: clip_def not_less word_le_nat_alt split: if_splits)

lemma fb_rect_ok [keeps_intros]:
  assumes "fb_ok w h s" and "x < w \<Longrightarrow> y < h \<Longrightarrow> rect_fits x a"
  shows "fb_ok w h (fb_rect x y a b color s)"
proof (cases "x \<ge> w \<or> y \<ge> h")
  case True
  then show ?thesis using assms(1) by (simp add: fb_rect_clip)
next
  case False
  then have xy: "x < w" "y < h" by auto
  note fits = assms(2) [OF xy]
  have "fb_ok w h (store_px (unat (of_nat iy * (fb_pitch t div 4) + x + of_nat ix)) color t)"
    if "fb_ok w h t" "iy < unat (y + clip h y b)" "ix < unat (clip w x a)" for t iy ix
    unfolding rect_index(1) [OF that(1) row_bound [OF xy(2) that(2)] that(3) xy(1) fits]
    by (rule store_px_ok [OF that(1) rect_index(2) [OF that(1) row_bound [OF xy(2) that(2)] that(3) xy(1) fits]])
  then show ?thesis
    using False unfolding fb_rect_clip [OF assms(1)] by (simp only: if_False) (intro for_up_ok assms(1))
qed

lemma star_ok: "fb_ok w h s \<Longrightarrow> fb_ok w h (star i s)"
proof -
  assume ok: "fb_ok w h s"
  then have "fb_width s \<noteq> 0" "fb_height s \<noteq> 0" by (auto simp: fb_ok_def)
  then show ?thesis by (simp add: star_def Let_def fb_plot_ok [OF ok])
qed

lemma fb_render_wallpaper_ok [keeps_intros]:
  assumes "fb_ok w h s"
  shows "fb_ok w h (fb_render_wallpaper mode s)"
proof -
  let ?s = "s\<lparr>back_buffer := wallpaper_cache s\<rparr>"
  have ok: "fb_ok w h ?s" using assms by (simp add: fb_ok_def)
  have fit: "rect_fits 0 v" for v using unsigned_less [of v, where ?'a = nat] by (simp add: rect_fits_def)
  have "fb_ok w h t \<Longrightarrow> fb_ok w h (t\<lparr>wallpaper_cache := back_buffer t, back_buffer := back_buffer s\<rparr>)" for t
    using assms by (simp add: fb_ok_def)
  moreover have "fb_ok w h (if mode = 1 then fb_rect 0 0 (fb_width ?s) (fb_height ?s) 0x3B6790 ?s
      else if mode = 0 then for_up 0 200 star (fb_gradient 0 0 (fb_width ?s) (fb_height ?s) 0x1A1A2E 0x16213E ?s)
      else fb_rect 0 0 (fb_width ?s) (fb_height ?s) 0x111111 ?s)"
    by (simp only: split: if_split) (intro conjI impI for_up_ok star_ok fb_gradient_ok fb_rect_ok ok fit)
  ultimately show ?thesis
    unfolding fb_render_wallpaper_def Let_def by blast
qed

section \<open>Stores as a list\<close>

text \<open>A drawing loop is a list of stores into the back buffer.\<close>

definition store_all :: "(nat \<times> 'a) list \<Rightarrow> 'a list \<Rightarrow> 'a list" where
  "store_all ps b = fold (\<lambda>(i, v) b. b[i := v]) ps b"

lemma length_store_all [simp]: "length (store_all ps b) = length b"
  unfolding store_all_def by (induction ps arbitrary: b) auto

lemma store_all_append: "store_all (ps @ qs) b = store_all qs (store_all ps b)"
  by (simp add: store_all_def)

lemma store_all_nth:
  assumes "\<And>i v. (i, v) \<in> set ps \<Longrightarrow> v = g i" and "k < length b"
  shows "store_all ps b ! k = (if k \<in> fst ` set ps then g k else b ! k)"
  using assms
proof (induction ps arbitrary: b)
  case Nil
  then show ?case by (simp add: store_all_def)
next
  case (Cons p ps)
  obtain i v where p: "p = (i, v)" by (cases p)
  have "store_all (p # ps) b = store_all ps (b[i := v])" by (simp add: store_all_def p)
  moreover have v: "v = g i" by (rule Cons.prems(1)) (simp add: p)
  moreover have "store_all ps (b[i := v]) ! k = (if k \<in> fst ` set ps then g k else b[i := v] ! k)"
  proof (rule Cons.IH)
    show "w = g j" if "(j, w) \<in> set ps" for j w using that by (intro Cons.prems(1)) simp
    show "k < length (b[i := v])" using Cons.prems(2) by simp
  qed
  ultimately show ?case
    using Cons.prems(2) by (simp add: p nth_list_update)
qed

lemma store_all_restores:
  assumes "\<And>i v. (i, v) \<in> set ps \<Longrightarrow> v = B ! i" and "length b = length B"
    and "\<And>i. i < length B \<Longrightarrow> i \<notin> fst ` set ps \<Longrightarrow> b ! i = B ! i"
  shows "store_all ps b = B"
proof (rule nth_equalityI)
  show "length (store_all ps b) = length B" using assms(2) by simp
  fix i
  assume "i < length (store_all ps b)"
  then have i: "i < length b" "i < length B" using assms(2) by simp_all
  have "store_all ps b ! i = (if i \<in> fst ` set ps then B ! i else b ! i)"
    by (rule store_all_nth [OF assms(1) i(1)])
  then show "store_all ps b ! i = B ! i" using assms(3) [OF i(2)] by simp
qed

definition draw_stores :: "(nat \<times> u32) list \<Rightarrow> fb \<Rightarrow> fb" where
  "draw_stores ps s = s\<lparr>back_buffer := store_all ps (back_buffer s)\<rparr>"

lemma draw_stores_ok: "fb_ok w h s \<Longrightarrow> fb_ok w h (draw_stores ps s)"
  by (simp add: draw_stores_def fb_ok_def)

lemma draw_stores_frame:
  "backup_x (draw_stores ps s) = backup_x s" "backup_y (draw_stores ps s) = backup_y s"
  "backup_w (draw_stores ps s) = backup_w s" "backup_h (draw_stores ps s) = backup_h s"
  "cursor_backup (draw_stores ps s) = cursor_backup s"
  by (simp_all add: draw_stores_def)

lemma draw_stores_append: "draw_stores qs (draw_stores ps s) = draw_stores (ps @ qs) s"
  by (simp add: draw_stores_def store_all_append)

lemma draw_stores_Nil [simp]: "draw_stores [] s = s"
  by (simp add: draw_stores_def store_all_def)

lemma store_px_stores: "fb_ok w h s \<Longrightarrow> i < unat w * unat h \<Longrightarrow> store_px i c s = draw_stores [(i, c)] s"
  by (simp add: store_px_def fb_ok_def draw_stores_def store_all_def)

text \<open>
  The contract behind every drawing loop: effects are recorded as lists, lists compose, and an
  invariant survives them. Then a counted loop whose bodies are effects is one effect.
\<close>

locale effect_log =
  fixes put :: "'p list \<Rightarrow> 's \<Rightarrow> 's"
    and inv :: "'s \<Rightarrow> bool"
  assumes put_Nil: "put [] s = s"
    and put_append: "put qs (put ps s) = put (ps @ qs) s"
    and put_inv: "inv s \<Longrightarrow> inv (put ps s)"
begin

lemma loop:
  assumes "inv s" and "\<And>i t. a \<le> i \<Longrightarrow> i < b \<Longrightarrow> inv t \<Longrightarrow> body i t = put (ps i) t"
  shows "for_up a b body s = put (concat (map ps [a..<b])) s"
proof (cases "a \<le> b")
  case False
  then show ?thesis by (simp add: put_Nil)
next
  case True
  then show ?thesis using assms(2)
  proof (induction b rule: dec_induct)
    case base
    then show ?case by (simp add: put_Nil)
  next
    case (step b)
    have "for_up a b body s = put (concat (map ps [a..<b])) s" using step by simp
    moreover have "body b t = put (ps b) t" if "inv t" for t
      using step.prems [of b t] step.hyps that by simp
    ultimately show ?case
      using step.hyps put_inv [OF assms(1)] by (simp add: for_up_last put_append)
  qed
qed

lemma nested_loop:
  assumes "inv s" and "\<And>i j t. a \<le> i \<Longrightarrow> i < b \<Longrightarrow> j < n \<Longrightarrow> inv t \<Longrightarrow> body i j t = put [p i j] t"
  shows "for_up a b (\<lambda>i. for_up 0 n (body i)) s = put (concat (map (\<lambda>i. map (p i) [0..<n]) [a..<b])) s"
proof (rule loop [OF assms(1)])
  fix i t
  assume "a \<le> i" "i < b" "inv t"
  then show "for_up 0 n (body i) t = put (map (p i) [0..<n]) t"
    using loop [of t 0 n "body i" "\<lambda>j. [p i j]"] assms(2) by simp
qed

end

interpretation drawn: effect_log draw_stores "fb_ok w h"
  by unfold_locales (simp_all add: draw_stores_append draw_stores_ok)

definition rect_stores :: "u32 \<Rightarrow> nat \<Rightarrow> nat \<Rightarrow> nat \<Rightarrow> nat \<Rightarrow> u32 \<Rightarrow> (nat \<times> u32) list" where
  "rect_stores w x y x' y' c = concat (map (\<lambda>iy. map (\<lambda>ix. (iy * unat w + (x + ix), c)) [0..<x' - x]) [y..<y'])"

lemma fb_rect_stores:
  assumes "fb_ok w h s" "x < w" "y < h" "rect_fits x a" "rect_fits y b"
  shows "fb_rect x y a b c s =
    draw_stores (rect_stores w (unat x) (unat y) (min (unat x + unat a) (unat w)) (min (unat y + unat b) (unat h)) c) s"
proof -
  let ?x' = "min (unat x + unat a) (unat w)"
  have cw: "unat (clip w x a) = ?x' - unat x"
    using unat_clip(1) [OF assms(2,4)] by simp
  note ch = unat_clip(2) [OF assms(3,5)]
  let ?idx = "\<lambda>iy ix. iy * unat w + (unat x + ix)"
  have one: "store_px (unat (of_nat iy * (fb_pitch t div 4) + x + of_nat ix)) c t = draw_stores [(?idx iy ix, c)] t"
    if "fb_ok w h t" "iy < unat (y + clip h y b)" "ix < unat (clip w x a)" for iy ix t
    unfolding rect_index(1) [OF that(1) row_bound [OF assms(3) that(2)] that(3) assms(2,4)]
    by (rule store_px_stores [OF that(1) rect_index(2) [OF that(1) row_bound [OF assms(3) that(2)] that(3) assms(2,4)]])
  have inside: "\<not> (w \<le> x \<or> h \<le> y)" using assms(2,3) by auto
  have "fb_rect x y a b c s = draw_stores (concat (map (\<lambda>iy. map (\<lambda>ix. (?idx iy ix, c)) [0..<unat (clip w x a)])
      [unat y..<unat (y + clip h y b)])) s"
    unfolding fb_rect_clip [OF assms(1)] if_not_P [OF inside] by (rule drawn.nested_loop [OF assms(1) one])
  then show ?thesis by (simp only: cw ch rect_stores_def)
qed

lemma get_pixel_eq:
  "fb_ok w h s \<Longrightarrow> fst (fb_get_pixel px py s) =
     (if px < w \<and> py < h then back_buffer s ! (unat py * unat w + unat px) else 0)"
proof -
  assume ok: "fb_ok w h s"
  show ?thesis
    unfolding fb_get_pixel_def fb_ok_simps(1,2,4) [OF ok] using px_index_eq [OF ok] by simp
qed

text \<open>The fact \<open>fb_rect_pixels\<close>: a rectangle whose edges do not wrap changes exactly the pixels of the screen
  that lie inside it, to its colour, wherever it is placed.\<close>

theorem fb_rect_pixels:
  assumes "fb_ok w h s" "rect_fits x a" "rect_fits y b" "px < w" "py < h"
  shows "fst (fb_get_pixel px py (fb_rect x y a b c s)) =
    (if x \<le> px \<and> unat px < unat x + unat a \<and> y \<le> py \<and> unat py < unat y + unat b then c
     else fst (fb_get_pixel px py s))"
proof (cases "x < w \<and> y < h")
  case False
  then have "fb_rect x y a b c s = s" using fb_rect_clip [OF assms(1)] by (auto simp: not_less)
  moreover have "\<not> (x \<le> px \<and> y \<le> py)" using False assms(4,5) by auto
  ultimately show ?thesis by auto
next
  case True
  let ?x' = "min (unat x + unat a) (unat w)" and ?y' = "min (unat y + unat b) (unat h)"
  let ?ps = "rect_stores w (unat x) (unat y) ?x' ?y' c"
  let ?k = "unat py * unat w + unat px"
  have p: "unat px < unat w" "unat py < unat h" using assms(4,5) by (simp_all add: word_less_nat_alt)
  have k: "?k < length (back_buffer s)"
    unfolding fb_ok_simps(4) [OF assms(1)] by (rule word_index(2) [OF assms(1) p(2,1)])
  have e: "fb_rect x y a b c s = draw_stores ?ps s"
    using True by (intro fb_rect_stores assms) auto
  have "?k \<in> fst ` set ?ps \<longleftrightarrow> unat x \<le> unat px \<and> unat px < ?x' \<and> unat y \<le> unat py \<and> unat py < ?y'"
  proof
    assume "?k \<in> fst ` set ?ps"
    then obtain iy ix where i: "unat y \<le> iy" "iy < ?y'" "ix < ?x' - unat x" "?k = iy * unat w + (unat x + ix)"
      by (auto simp: rect_stores_def)
    from i(3) have "unat x + ix < unat w" by linarith
    from grid_inj [OF p(1) this i(4)] i show "unat x \<le> unat px \<and> unat px < ?x' \<and> unat y \<le> unat py \<and> unat py < ?y'"
      by linarith
  next
    assume a: "unat x \<le> unat px \<and> unat px < ?x' \<and> unat y \<le> unat py \<and> unat py < ?y'"
    then have "?k = unat py * unat w + (unat x + (unat px - unat x))" "unat px - unat x < ?x' - unat x" by auto
    with a show "?k \<in> fst ` set ?ps"
      unfolding rect_stores_def by (force simp: image_iff)
  qed
  moreover have "store_all ?ps (back_buffer s) ! ?k = (if ?k \<in> fst ` set ?ps then c else back_buffer s ! ?k)"
    by (rule store_all_nth [OF _ k]) (auto simp: rect_stores_def)
  moreover have "fst (fb_get_pixel px py (draw_stores ?ps s)) = store_all ?ps (back_buffer s) ! ?k"
    using get_pixel_eq [OF draw_stores_ok [OF assms(1)]] assms(4,5) by (simp add: draw_stores_def)
  moreover have "fst (fb_get_pixel px py s) = back_buffer s ! ?k"
    using get_pixel_eq [OF assms(1)] assms(4,5) by simp
  ultimately show ?thesis
    unfolding e using p by (auto simp: word_le_nat_alt)
qed

text \<open>
  The clipping test of \<^verbatim>\<open>fb_rect\<close> is made on a wrapped sum. A width that makes the sum wrap is
  not clipped, and the rectangle is written far behind its row.
\<close>

lemma store_px_fault: "fb_fault s \<Longrightarrow> fb_fault (store_px i c s)"
  by (simp add: store_px_def raise_fault_def)

text \<open>A rectangle on the screen whose left edge and width add up to zero
  modulo \<open>2 ^ 32\<close> is not clipped and writes outside the back buffer.\<close>

theorem fb_rect_wrap_faults:
  assumes "fb_ok w h s" and "x < w" and "y < h" and "0 < x" and "rect_fits y b" and "0 < b"
  shows "fb_fault (fb_rect x y (- x) b c s)"
proof -
  have pos: "0 < unat x" "unat x < unat w" "unat y < unat h" "0 < unat b"
    using assms by (simp_all add: word_less_nat_alt)
  let ?m = "2 ^ 32 - unat x"
  have xl: "unat x < 2 ^ 32" using unsigned_less [of x, where ?'a = nat] by simp
  have "(of_nat ?m :: u32) + x = of_nat (?m + unat x)" by (simp only: of_nat_add) simp
  also have "\<dots> = of_nat (2 ^ 32)" using xl by (simp only: le_add_diff_inverse2 less_imp_le)
  also have "\<dots> = 0" by simp
  finally have "- x = of_nat ?m" by (metis add.commute neg_eq_iff_add_eq_0)
  moreover have "?m < 2 ^ 32" using pos by simp
  ultimately have um: "unat (- x) = ?m"
    by (simp only: unat_of_nat) (simp add: take_bit_nat_eq_self)
  define ix where "ix = unat w * unat h - unat y * unat w - unat x"
  have yx: "unat y * unat w + unat x < unat w * unat h" by (rule grid_less [OF pos(3,2)])
  have big: "ix < unat (- x)"
  proof -
    have "(2 :: nat) ^ 30 < 2 ^ 32" by simp
    then show ?thesis unfolding um ix_def using screen_size(1) [OF assms(1)] yx pos by linarith
  qed
  have nclip: "clip w x (- x) = - x" by (simp add: clip_def)
  have rows: "unat y < unat (y + clip h y b)"
    using unat_clip(2) [OF assms(3,5)] pos by simp
  let ?n = "unat (- x)"
  let ?cell = "\<lambda>iy ix t. store_px (unat (of_nat iy * (fb_pitch t div 4) + x + of_nat ix)) c t"
  have nrect: "fb_rect x y (- x) b c s =
      for_up (unat y) (unat (y + clip h y b)) (\<lambda>iy. for_up 0 ?n (?cell iy)) s"
    using assms(2,3) by (simp add: fb_rect_clip [OF assms(1)] nclip not_le [symmetric])
  have keep: "fb_fault t \<Longrightarrow> fb_fault (for_up p q (?cell iy) t)" for iy p q t
    by (rule for_up_keeps) (simp_all add: store_px_fault)
  have keep2: "fb_fault t \<Longrightarrow> fb_fault (for_up p q (\<lambda>iy. for_up 0 ?n (?cell iy)) t)" for p q t
    by (rule for_up_keeps) (simp_all add: keep)
  have e: "of_nat (unat y) * w + x + of_nat ix = (of_nat (unat w * unat h) :: u32)"
  proof -
    have "of_nat (unat y) * w + x + of_nat ix = (of_nat (unat y * unat w + unat x + ix) :: u32)" by simp
    also have "unat y * unat w + unat x + ix = unat w * unat h" unfolding ix_def using yx by linarith
    finally show ?thesis .
  qed
  have hit: "unat (of_nat (unat y) * w + x + of_nat ix) = unat w * unat h"
    unfolding e using screen_size(1) [OF assms(1)]
    by (simp only: unat_of_nat) (simp add: take_bit_nat_eq_self)
  let ?P = "\<lambda>i t. length (back_buffer t) = unat w * unat h \<and> fb_pitch t div 4 = w \<and> (ix < i \<longrightarrow> fb_fault t)"
  have "?P ?n (for_up 0 ?n (?cell (unat y)) s)"
  proof (rule for_up_inv [where P = ?P])
    show "?P 0 s" by (simp add: fb_ok_simps [OF assms(1)])
    fix i and t :: fb
    assume "?P i t"
    then show "?P (Suc i) (?cell (unat y) i t)"
      using hit by (cases "i = ix") (auto simp: store_px_def raise_fault_def)
  qed simp
  then have "fb_fault (for_up 0 ?n (?cell (unat y)) s)" using big by blast
  then show ?thesis
    unfolding nrect for_up_first [OF rows] by (rule keep2)
qed

theorem fb_rect_wrap_faults_witness:
  "fb_fault (fb_rect 1 0 (- 1) 1 0xFFFFFF
     \<lparr>fb_screen = [0, 0, 0, 0], fb_width = 2, fb_height = 2, fb_pitch = 8, back_buffer = [0, 0, 0, 0],
      wallpaper_cache = [0, 0, 0, 0], desktop_buffer = [0, 0, 0, 0], front_buffer_copy = [0, 0, 0, 0],
      cursor_backup = replicate 1024 0, backup_x = -1, backup_y = -1, backup_w = 0, backup_h = 0,
      fb_fault = False\<rparr>)"
  by (rule fb_rect_wrap_faults [where w = 2 and h = 2]) (simp_all add: fb_ok_def rect_fits_def)

section \<open>The swap shows the back buffer\<close>

lemma poke_segment_nth:
  assumes "st + n \<le> length dst" "st + n \<le> length src" "i < length dst"
  shows "poke st (take n (drop st src)) dst ! i = (if st \<le> i \<and> i < st + n then src ! i else dst ! i)"
  using assms by (auto simp: poke_def nth_append min_def)

lemma memcpy32_segment:
  assumes "st + n \<le> length dst" "st + n \<le> length src" "n < 2 ^ 30"
  shows "memcpy32 st st (of_nat n * 4) dst src = Some (poke st (take n (drop st src)) dst)"
proof -
  have e: "of_nat n * 4 = (of_nat (n * 4) :: u32)" by simp
  have "n * 4 < 2 ^ 32" using assms(3) by simp
  then have "unat (of_nat n * 4 :: u32) = n * 4"
    unfolding e by (simp only: unat_of_nat) (simp add: take_bit_nat_eq_self)
  then have "unat ((of_nat n * 4 :: u32) div 4) = n" by (simp add: unat_div)
  moreover have "n \<le> length dst - st" "n \<le> length src - st" using assms(1,2) by linarith+
  ultimately show ?thesis
    using assms(1,2) by (simp add: memcpy32_def memcpy_eq poke_def add.commute)
qed

text \<open>What the scan of a row has found after \<open>n\<close> pixels.\<close>

definition scan_ok :: "u32 \<Rightarrow> (nat \<Rightarrow> bool) \<Rightarrow> nat \<Rightarrow> u32 \<times> u32 \<times> bool \<Rightarrow> bool" where
  "scan_ok w same n acc \<longleftrightarrow>
     (case acc of (f, l, fault) \<Rightarrow>
        \<not> fault \<and>
        ((f = w \<and> (\<forall>x < n. same x)) \<or>
         (\<exists>a b. f = of_nat a \<and> l = of_nat b \<and> a \<le> b \<and> b < n \<and> (\<forall>x < n. x < a \<or> b < x \<longrightarrow> same x))))"

lemma of_nat_ne_width: "fb_ok w h s \<Longrightarrow> a < unat w \<Longrightarrow> of_nat a \<noteq> w"
  using unat_of_nat_small [where 'a = 32, of a] unat_less_2p [of w] by fastforce

lemma row_scan:
  assumes "fb_ok w h s" "y < unat h"
  defines "same \<equiv> \<lambda>x. back_buffer s ! (y * unat w + x) = front_buffer_copy s ! (y * unat w + x)"
  shows "scan_ok w same (unat w) (for_up 0 (unat w) (diff_step s (of_nat y * (fb_pitch s div 4))) (w, 0, False))"
proof (rule for_up_inv [where P = "scan_ok w same"])
  show "scan_ok w same 0 (w, 0, False)" by (simp add: scan_ok_def)
  fix x and acc :: "u32 \<times> u32 \<times> bool"
  assume x: "x < unat w" and ok: "scan_ok w same x acc"
  obtain f l ft where acc: "acc = (f, l, ft)" by (cases acc)
  have i: "unat (of_nat y * (fb_pitch s div 4) + of_nat x) = y * unat w + x"
    unfolding fb_ok_simps(3) [OF assms(1)] by (rule word_index(1) [OF assms(1,2) x])
  have r: "y * unat w + x < length (back_buffer s)" "y * unat w + x < length (front_buffer_copy s)"
    unfolding fb_ok_simps(4,6) [OF assms(1)] by (rule word_index(2) [OF assms(1,2) x])+
  have step: "diff_step s (of_nat y * (fb_pitch s div 4)) x acc =
      (if same x then acc else (if f = w then of_nat x else f, of_nat x, ft))"
    using r fb_ok_simps(1) [OF assms(1)] by (simp add: diff_step_def acc i same_def)
  show "scan_ok w same (Suc x) (diff_step s (of_nat y * (fb_pitch s div 4)) x acc)"
  proof (cases "same x")
    case True
    then show ?thesis
      unfolding step using ok by (fastforce simp: scan_ok_def acc less_Suc_eq)
  next
    case False
    have ft: "\<not> ft" using ok by (simp add: scan_ok_def acc)
    show ?thesis
    proof (cases "f = w")
      case True
      have "\<forall>z < x. same z"
      proof (rule ccontr)
        assume "\<not> (\<forall>z < x. same z)"
        with ok obtain a where "f = of_nat a" "a < x" by (auto simp: scan_ok_def acc)
        then show False using of_nat_ne_width [OF assms(1), of a] True x by simp
      qed
      then show ?thesis
        unfolding step using False True ft
        by (auto simp: scan_ok_def less_Suc_eq intro!: disjI2 exI [of _ x])
    next
      case nw: False
      with ok obtain a b where "f = of_nat a" "a \<le> b" "b < x" "\<forall>z < x. z < a \<or> b < z \<longrightarrow> same z"
        by (auto simp: scan_ok_def acc)
      then have "a \<le> x \<and> (\<forall>z < Suc x. z < a \<or> x < z \<longrightarrow> same z)" by (auto simp: less_Suc_eq)
      then have "scan_ok w same (Suc x) (f, of_nat x, ft)"
        unfolding scan_ok_def prod.case using ft \<open>f = of_nat a\<close>
        by (intro conjI disjI2) (simp, rule exI [where x = a], rule exI [where x = x], simp)
      with False nw show ?thesis unfolding step by simp
    qed
  qed
qed simp

text \<open>A row of the swap copies the row of the back buffer over the other two.\<close>

definition copy_row :: "nat \<Rightarrow> nat \<Rightarrow> 'a list \<Rightarrow> 'a list \<Rightarrow> 'a list" where
  "copy_row w y src dst = poke (y * w) (take w (drop (y * w) src)) dst"

lemma fb_swap_row_eq:
  assumes ok: "fb_ok w h s" and y: "y < unat h" and sync: "fb_screen s = front_buffer_copy s"
  shows "fb_swap_row y s =
    s\<lparr>fb_screen := copy_row (unat w) y (back_buffer s) (fb_screen s),
      front_buffer_copy := copy_row (unat w) y (back_buffer s) (front_buffer_copy s)\<rparr>"
proof -
  let ?W = "unat w" and ?B = "back_buffer s" and ?F = "front_buffer_copy s"
  note len = fb_ok_simps [OF ok]
  obtain f l ft where scan: "for_up 0 ?W (diff_step s (of_nat y * (fb_pitch s div 4))) (w, 0, False) = (f, l, ft)"
    by (cases "for_up 0 ?W (diff_step s (of_nat y * (fb_pitch s div 4))) (w, 0, False)")
  have so: "scan_ok w (\<lambda>x. ?B ! (y * ?W + x) = ?F ! (y * ?W + x)) ?W (f, l, ft)"
    using row_scan [OF ok y] scan by simp
  then have ft: "\<not> ft" by (simp add: scan_ok_def)
  have row_end: "y * ?W + ?W \<le> ?W * unat h"
    using mult_le_mono1 [of "Suc y" "unat h" ?W] y by (simp add: mult.commute add.commute)
  have copy: "copy_row ?W y ?B ?F ! i = (if y * ?W \<le> i \<and> i < y * ?W + ?W then ?B ! i else ?F ! i)"
    if "i < length ?F" for i
    unfolding copy_row_def using row_end that len by (intro poke_segment_nth) simp_all
  have lcopy: "length (copy_row ?W y ?B ?F) = length ?F"
    unfolding copy_row_def using row_end len by (intro length_poke) simp
  consider (eq) "f = w" "\<forall>x < ?W. ?B ! (y * ?W + x) = ?F ! (y * ?W + x)"
    | (diff) a b where "f = of_nat a" "l = of_nat b" "a \<le> b" "b < ?W"
        "\<forall>x < ?W. x < a \<or> b < x \<longrightarrow> ?B ! (y * ?W + x) = ?F ! (y * ?W + x)"
    using so by (auto simp: scan_ok_def)
  then show ?thesis
  proof cases
    case eq
    have "copy_row ?W y ?B ?F = ?F"
    proof (rule nth_equalityI [OF lcopy])
      fix i assume "i < length (copy_row ?W y ?B ?F)"
      then show "copy_row ?W y ?B ?F ! i = ?F ! i"
        using eq(2) [rule_format, of "i - y * ?W"] copy [of i] lcopy by auto
    qed
    then show ?thesis
      unfolding fb_swap_row_def Let_def len(1) scan prod.case using eq(1) ft sync by (simp add: len)
  next
    case diff
    have small: "a < 2 ^ 32" "b < 2 ^ 32" using diff(3,4) unsigned_less [of w, where ?'a = nat] by simp_all
    have ua: "unat f = a" using small(1) by (simp only: diff(1) unat_of_nat) (simp add: take_bit_nat_eq_self)
    have fw: "f < w" using ua diff(3,4) by (simp add: word_less_nat_alt)
    let ?n = "b - a + 1"
    have cnt: "l - f + 1 = of_nat ?n" using diff(1-3) by (simp add: of_nat_diff)
    have idx: "unat (of_nat y * (fb_pitch s div 4) + f) = y * ?W + a"
      unfolding len(3) diff(1) using word_index(1) [OF ok y] diff(3,4) by simp
    have seg: "y * ?W + a + ?n \<le> ?W * unat h" using row_end diff(3,4) by linarith
    have n30: "?n < 2 ^ 30" using screen_size(2) [OF ok] diff(3,4) by linarith
    have cp: "memcpy32 (y * ?W + a) (y * ?W + a) (of_nat ?n * 4) ?F ?B =
        Some (poke (y * ?W + a) (take ?n (drop (y * ?W + a) ?B)) ?F)"
      using seg n30 len by (intro memcpy32_segment) simp_all
    have same: "poke (y * ?W + a) (take ?n (drop (y * ?W + a) ?B)) ?F = copy_row ?W y ?B ?F"
    proof (rule nth_equalityI)
      show "length (poke (y * ?W + a) (take ?n (drop (y * ?W + a) ?B)) ?F) = length (copy_row ?W y ?B ?F)"
        unfolding lcopy using seg len by (intro length_poke) simp
      fix i assume "i < length (poke (y * ?W + a) (take ?n (drop (y * ?W + a) ?B)) ?F)"
      then have i: "i < length ?F" using seg len by simp
      have "poke (y * ?W + a) (take ?n (drop (y * ?W + a) ?B)) ?F ! i =
          (if y * ?W + a \<le> i \<and> i < y * ?W + a + ?n then ?B ! i else ?F ! i)"
        using seg len i by (intro poke_segment_nth) simp_all
      also have "\<dots> = copy_row ?W y ?B ?F ! i"
      proof (cases "y * ?W \<le> i \<and> i < y * ?W + ?W")
        case True
        then have x: "i - y * ?W < ?W" "y * ?W + (i - y * ?W) = i" by auto
        have "i - y * ?W < a \<or> b < i - y * ?W \<Longrightarrow> ?B ! i = ?F ! i"
          using diff(5) x by metis
        moreover have "\<not> (y * ?W + a \<le> i \<and> i < y * ?W + a + ?n) \<Longrightarrow> i - y * ?W < a \<or> b < i - y * ?W"
          using True diff(3) by linarith
        ultimately show ?thesis using copy [OF i] True by presburger
      next
        case False
        then show ?thesis using copy [OF i] diff(3,4) by auto
      qed
      finally show "poke (y * ?W + a) (take ?n (drop (y * ?W + a) ?B)) ?F ! i = copy_row ?W y ?B ?F ! i" .
    qed
    show ?thesis
      unfolding fb_swap_row_def Let_def len(1) scan prod.case if_not_P [OF ft]
      unfolding len(1) if_P [OF fw] idx cnt sync cp option.case same by (rule refl)
  qed
qed

text \<open>C18 (fb_swap_shows): when the copy of the front buffer agrees with the screen, a swap leaves on the
  screen exactly the back buffer, and the copy agrees with the screen again: copying only the
  span of the changed pixels of each row is as good as copying everything.\<close>

theorem fb_swap_shows:
  assumes "fb_ok w h s" and "fb_screen s = front_buffer_copy s"
  shows "fb_swap s = s\<lparr>fb_screen := back_buffer s, front_buffer_copy := back_buffer s\<rparr>"
proof -
  let ?W = "unat w" and ?B = "back_buffer s"
  let ?front = "\<lambda>y. take (y * ?W) ?B @ drop (y * ?W) (front_buffer_copy s)"
  let ?at = "\<lambda>y. s\<lparr>fb_screen := ?front y, front_buffer_copy := ?front y\<rparr>"
  note len = fb_ok_simps [OF assms(1)]
  have "for_up 0 (unat h) fb_swap_row s = ?at (unat h)"
  proof (rule for_up_inv [where P = "\<lambda>y t. t = ?at y"])
    show "s = ?at 0" using assms(2) by simp
    fix y and t :: fb
    assume y: "y < unat h" and t: "t = ?at y"
    have row_end: "y * ?W + ?W \<le> ?W * unat h"
      using mult_le_mono1 [of "Suc y" "unat h" ?W] y by (simp add: mult.commute add.commute)
    then have lf: "length (?front y) = ?W * unat h" using len by simp
    have fr: "?front z ! i = (if i < z * ?W then ?B ! i else front_buffer_copy s ! i)"
      if "z * ?W \<le> ?W * unat h" "i < ?W * unat h" for z i
      using that len by (simp add: nth_append min_absorb2)
    have okt: "fb_ok w h t" using assms(1) lf by (simp add: t fb_ok_def)
    have "copy_row ?W y ?B (?front y) = ?front (Suc y)"
    proof (rule nth_equalityI)
      show "length (copy_row ?W y ?B (?front y)) = length (?front (Suc y))"
        unfolding copy_row_def using row_end len lf by (subst length_poke) simp_all
      fix i assume "i < length (copy_row ?W y ?B (?front y))"
      then have i: "i < ?W * unat h"
        unfolding copy_row_def using row_end len lf by (subst (asm) length_poke) simp_all
      have "copy_row ?W y ?B (?front y) ! i =
          (if y * ?W \<le> i \<and> i < y * ?W + ?W then ?B ! i else ?front y ! i)"
        unfolding copy_row_def
        by (rule poke_segment_nth) (simp_all only: lf len i row_end)
      also have "\<dots> = (if i < Suc y * ?W then ?B ! i else front_buffer_copy s ! i)"
        using fr [OF _ i, of y] y by auto
      also have "\<dots> = ?front (Suc y) ! i"
        by (rule fr [symmetric]) (use row_end i in simp_all)
      finally show "copy_row ?W y ?B (?front y) ! i = ?front (Suc y) ! i" .
    qed
    then show "fb_swap_row y t = ?at (Suc y)"
      using fb_swap_row_eq [OF okt y] by (simp add: t)
  qed simp
  moreover have "?front (unat h) = ?B" using len by (simp add: mult.commute)
  ultimately show ?thesis by (simp add: fb_swap_def len)
qed

definition grey_screen :: fb where
  "grey_screen = \<lparr>fb_screen = [7, 7, 7, 7], fb_width = 2, fb_height = 2, fb_pitch = 8,
     back_buffer = [7, 9, 7, 8], wallpaper_cache = [0, 0, 0, 0], desktop_buffer = [0, 0, 0, 0],
     front_buffer_copy = [7, 7, 7, 7], cursor_backup = replicate 1024 0, backup_x = -1, backup_y = -1,
     backup_w = 0, backup_h = 0, fb_fault = False\<rparr>"

lemma grey_screen_ok: "fb_ok 2 2 grey_screen"
  by (simp add: fb_ok_def grey_screen_def)

theorem fb_swap_shows_witness: "fb_screen (fb_swap grey_screen) = [7, 9, 7, 8]"
  using fb_swap_shows [OF grey_screen_ok] by (simp add: grey_screen_def)

theorem fb_rect_pixels_witness:
  "fst (fb_get_pixel 1 1 (fb_rect 1 0 5 9 0xAA grey_screen)) = 0xAA \<and>
   fst (fb_get_pixel 0 1 (fb_rect 1 0 5 9 0xAA grey_screen)) = 7"
  using fb_rect_pixels [OF grey_screen_ok, of 1 5 0 9 1 1 "0xAA"]
    fb_rect_pixels [OF grey_screen_ok, of 1 5 0 9 0 1 "0xAA"]
  by (simp add: rect_fits_def fb_get_pixel_def px_index_def grey_screen_def)

text \<open>
  The first frame: the copy starts out black, whatever the boot loader left on the screen, so
  a black pixel of the first frame is not copied.
\<close>

lemma first_frame_row:
  assumes "fb_ok w h s" "y < unat h" "front_buffer_copy s = back_buffer s"
  shows "fb_swap_row y s = s"
proof -
  obtain f l ft where scan: "for_up 0 (unat w) (diff_step s (of_nat y * (fb_pitch s div 4))) (w, 0, False) = (f, l, ft)"
    by (cases "for_up 0 (unat w) (diff_step s (of_nat y * (fb_pitch s div 4))) (w, 0, False)")
  have step: "diff_step s (of_nat y * (fb_pitch s div 4)) x acc = acc" if "x < unat w" for x acc
    using that word_index [OF assms(1,2) that]
    by (cases acc) (simp add: diff_step_def fb_ok_simps [OF assms(1)] assms(3))
  have "for_up 0 (unat w) (diff_step s (of_nat y * (fb_pitch s div 4))) (w, 0, False) = (w, 0, False)"
    by (rule for_up_keeps [where P = "\<lambda>a. a = (w, 0, False)"]) (simp_all add: step)
  then show ?thesis
    unfolding fb_swap_row_def by (simp add: fb_ok_simps [OF assms(1)])
qed

text \<open>A first frame that is black everywhere leaves the screen as the boot
  loader left it, although the front copy is cleared so that "the first frame is drawn
  entirely".\<close>

theorem black_frame_not_shown:
  assumes "fb_ok w h s" and "front_buffer_copy s = replicate (unat w * unat h) 0"
    and "back_buffer s = replicate (unat w * unat h) 0"
  shows "fb_screen (fb_swap s) = fb_screen s"
proof -
  have "fb_swap s = s"
    unfolding fb_swap_def fb_ok_simps(2) [OF assms(1)]
    by (rule for_up_keeps [where P = "\<lambda>t. t = s"])
      (use first_frame_row [OF assms(1)] assms(2,3) in auto)
  then show ?thesis by simp
qed

theorem black_frame_not_shown_witness:
  "fb_screen (fb_swap (grey_screen\<lparr>back_buffer := [0, 0, 0, 0], front_buffer_copy := [0, 0, 0, 0]\<rparr>)) =
   [7, 7, 7, 7]"
proof -
  have r: "replicate 4 (0 :: u32) = [0, 0, 0, 0]" by (simp add: numeral_eq_Suc)
  show ?thesis
    by (subst black_frame_not_shown [where w = 2 and h = 2])
      (simp_all add: fb_ok_def grey_screen_def r)
qed

section \<open>The cursor leaves no trail\<close>

text \<open>A saved rectangle lies on the screen and within the 32 by 32 backup.\<close>

definition backup_ok :: "u32 \<Rightarrow> u32 \<Rightarrow> fb \<Rightarrow> bool" where
  "backup_ok w h s \<longleftrightarrow> fb_ok w h s \<and>
     (backup_x s = -1 \<or>
      0 \<le> backup_x s \<and> 0 \<le> backup_y s \<and> unat (backup_w s) \<le> 32 \<and> unat (backup_h s) \<le> 32 \<and>
      nat (backup_x s) + unat (backup_w s) \<le> unat w \<and> nat (backup_y s) + unat (backup_h s) \<le> unat h)"

definition saved_at :: "int \<Rightarrow> int \<Rightarrow> u32 \<Rightarrow> u32 \<Rightarrow> u32 \<Rightarrow> u32 \<Rightarrow> fb \<Rightarrow> bool" where
  "saved_at rx ry bw bh w h t \<longleftrightarrow> fb_ok w h t \<and> backup_x t = rx \<and> backup_y t = ry \<and>
     backup_w t = bw \<and> backup_h t = bh"

definition save_index :: "int \<Rightarrow> int \<Rightarrow> nat \<Rightarrow> nat \<Rightarrow> nat \<Rightarrow> nat" where
  "save_index rx ry W y x = (nat ry + y) * W + (nat rx + x)"

lemma cursor_index_eq:
  assumes "saved_at rx ry bw bh w h t" "0 \<le> rx" "0 \<le> ry" "nat rx + x < unat w" "nat ry + y < unat h"
  shows "cursor_index t y x = save_index rx ry (unat w) y x"
    and "save_index rx ry (unat w) y x < unat w * unat h"
proof -
  have ok: "fb_ok w h t" using assms(1) by (simp add: saved_at_def)
  have c: "of_int ry + of_nat y = (of_nat (nat ry + y) :: u32)" "of_int rx + of_nat x = (of_nat (nat rx + x) :: u32)"
    using assms(2,3) by (simp_all add: of_nat_nat)
  have "cursor_index t y x = unat (of_nat (nat ry + y) * w + of_nat (nat rx + x) :: u32)"
    using assms(1) by (simp only: cursor_index_def c saved_at_def fb_ok_simps(3) [OF ok])
  then show "cursor_index t y x = save_index rx ry (unat w) y x"
    by (simp only: word_index(1) [OF ok assms(5,4)] save_index_def)
  show "save_index rx ry (unat w) y x < unat w * unat h"
    unfolding save_index_def by (rule word_index(2) [OF ok assms(5,4)])
qed

text \<open>The two loops over the rectangle as lists of stores.\<close>

definition save_stores :: "(nat \<times> u32) list \<Rightarrow> fb \<Rightarrow> fb" where
  "save_stores ps s = s\<lparr>cursor_backup := store_all ps (cursor_backup s)\<rparr>"

lemma store_all_Nil [simp]: "store_all [] b = b"
  by (simp add: store_all_def)

interpretation saved: effect_log save_stores
    "\<lambda>t. saved_at rx ry bw bh w h t \<and> back_buffer t = B"
  by unfold_locales
    (auto simp: save_stores_def store_all_append saved_at_def fb_ok_def)

interpretation unsaved: effect_log draw_stores
    "\<lambda>t. saved_at rx ry bw bh w h t \<and> cursor_backup t = C"
  by unfold_locales (auto simp: draw_stores_append draw_stores_ok saved_at_def draw_stores_frame)

definition rect_pairs :: "u32 \<Rightarrow> u32 \<Rightarrow> (nat \<Rightarrow> nat \<Rightarrow> 'a) \<Rightarrow> 'a list" where
  "rect_pairs bw bh p = concat (map (\<lambda>y. map (p y) [0..<unat bw]) [0..<unat bh])"

lemma set_rect_pairs: "set (rect_pairs bw bh p) = {p y x | y x. y < unat bh \<and> x < unat bw}"
  by (force simp: rect_pairs_def)

lemma backup_loop:
  assumes "saved_at rx ry bw bh w h s" "0 \<le> rx" "0 \<le> ry" "unat bw \<le> 32" "unat bh \<le> 32"
    "nat rx + unat bw \<le> unat w" "nat ry + unat bh \<le> unat h"
  shows "for_up 0 (unat bh) (\<lambda>y. for_up 0 (unat bw) (backup_pixel y)) s =
    save_stores (rect_pairs bw bh (\<lambda>y x. (y * 32 + x, back_buffer s ! save_index rx ry (unat w) y x))) s"
  unfolding rect_pairs_def
proof (rule saved.nested_loop [where rx = rx and ry = ry and bw = bw and bh = bh and w = w and h = h
      and B = "back_buffer s"])
  show "saved_at rx ry bw bh w h s \<and> back_buffer s = back_buffer s" using assms(1) by simp
  fix y x t
  assume yx: "y < unat bh" "x < unat bw" and t: "saved_at rx ry bw bh w h t \<and> back_buffer t = back_buffer s"
  have r: "nat rx + x < unat w" "nat ry + y < unat h" using yx assms(6,7) by linarith+
  note ci = cursor_index_eq [OF conjunct1 [OF t] assms(2,3) r]
  have ok: "fb_ok w h t" using t by (simp add: saved_at_def)
  have "y * 32 + x < 1024" using yx assms(4,5) by linarith
  then have lt: "save_index rx ry (unat w) y x < length (back_buffer t) \<and> y * 32 + x < length (cursor_backup t)"
    unfolding fb_ok_simps(4,9) [OF ok] using ci(2) by simp
  show "backup_pixel y x t = save_stores [(y * 32 + x, back_buffer s ! save_index rx ry (unat w) y x)] t"
    unfolding backup_pixel_def Let_def ci(1) if_P [OF lt] using t by (simp add: save_stores_def store_all_def)
qed

lemma unbackup_loop:
  assumes "saved_at rx ry bw bh w h s" "0 \<le> rx" "0 \<le> ry" "unat bw \<le> 32" "unat bh \<le> 32"
    "nat rx + unat bw \<le> unat w" "nat ry + unat bh \<le> unat h"
  shows "for_up 0 (unat bh) (\<lambda>y. for_up 0 (unat bw) (unbackup_pixel y)) s =
    draw_stores (rect_pairs bw bh (\<lambda>y x. (save_index rx ry (unat w) y x, cursor_backup s ! (y * 32 + x)))) s"
  unfolding rect_pairs_def
proof (rule unsaved.nested_loop [where rx = rx and ry = ry and bw = bw and bh = bh and w = w and h = h
      and C = "cursor_backup s"])
  show "saved_at rx ry bw bh w h s \<and> cursor_backup s = cursor_backup s" using assms(1) by simp
  fix y x t
  assume yx: "y < unat bh" "x < unat bw" and t: "saved_at rx ry bw bh w h t \<and> cursor_backup t = cursor_backup s"
  have r: "nat rx + x < unat w" "nat ry + y < unat h" using yx assms(6,7) by linarith+
  note ci = cursor_index_eq [OF conjunct1 [OF t] assms(2,3) r]
  have ok: "fb_ok w h t" using t by (simp add: saved_at_def)
  have "y * 32 + x < 1024" using yx assms(4,5) by linarith
  then have lt: "y * 32 + x < length (cursor_backup t)" unfolding fb_ok_simps(9) [OF ok] .
  show "unbackup_pixel y x t = draw_stores [(save_index rx ry (unat w) y x, cursor_backup s ! (y * 32 + x))] t"
    unfolding unbackup_pixel_def if_P [OF lt] ci(1) store_px_stores [OF ok ci(2)] using t by simp
qed

lemma saved_atI: "fb_ok w h s \<Longrightarrow> saved_at (backup_x s) (backup_y s) (backup_w s) (backup_h s) w h s"
  by (simp add: saved_at_def)

lemma hide_ok:
  assumes "backup_ok w h s"
  shows "fb_ok w h (fb_hide_cursor s)" and "backup_x (fb_hide_cursor s) = -1"
proof -
  have upd: "fb_ok w h t \<Longrightarrow> fb_ok w h (t\<lparr>backup_x := v\<rparr>)" for t v by (simp add: fb_ok_def)
  show "backup_x (fb_hide_cursor s) = -1" by (simp add: fb_hide_cursor_def Let_def)
  show "fb_ok w h (fb_hide_cursor s)"
  proof (cases "backup_x s = -1")
    case True
    then show ?thesis using assms by (simp add: fb_hide_cursor_def backup_ok_def)
  next
    case False
    with assms have ok: "fb_ok w h s" and r: "0 \<le> backup_x s" "0 \<le> backup_y s"
      "unat (backup_w s) \<le> 32" "unat (backup_h s) \<le> 32"
      "nat (backup_x s) + unat (backup_w s) \<le> unat w" "nat (backup_y s) + unat (backup_h s) \<le> unat h"
      unfolding backup_ok_def by blast+
    show ?thesis
      unfolding fb_hide_cursor_def Let_def if_not_P [OF False] unbackup_loop [OF saved_atI [OF ok] r]
      by (rule upd [OF draw_stores_ok [OF ok]])
  qed
qed

text \<open>The pixels of the saved rectangle, and the state in which only they may differ from \<open>B\<close>.\<close>

definition save_region :: "int \<Rightarrow> int \<Rightarrow> u32 \<Rightarrow> u32 \<Rightarrow> nat \<Rightarrow> nat set" where
  "save_region rx ry bw bh W = {save_index rx ry W y x | y x. y < unat bh \<and> x < unat bw}"

definition under_cursor :: "int \<Rightarrow> int \<Rightarrow> u32 \<Rightarrow> u32 \<Rightarrow> u32 \<Rightarrow> u32 \<Rightarrow> u32 list \<Rightarrow> fb \<Rightarrow> bool" where
  "under_cursor rx ry bw bh w h B t \<longleftrightarrow> saved_at rx ry bw bh w h t \<and>
     (\<forall>y < unat bh. \<forall>x < unat bw. cursor_backup t ! (y * 32 + x) = B ! save_index rx ry (unat w) y x) \<and>
     (\<forall>i < unat w * unat h. i \<notin> save_region rx ry bw bh (unat w) \<longrightarrow> back_buffer t ! i = B ! i)"

lemma unat_of_int: "0 \<le> k \<Longrightarrow> k < 2 ^ 32 \<Longrightarrow> unat (of_int k :: u32) = nat k"
  using unat_of_nat_small [where 'a = 32, of "nat k"] by (simp add: nat_less_iff)

lemma under_cursor_plot:
  assumes u: "under_cursor rx ry bw bh w h B t" and r: "0 \<le> rx" "0 \<le> ry" "nat rx < unat w" "nat ry < unat h"
    and bw: "unat bw = min 32 (unat w - nat rx)" and bh: "unat bh = min 32 (unat h - nat ry)"
    and d: "0 \<le> dx" "dx < 32" "0 \<le> dy" "dy < 32"
  shows "under_cursor rx ry bw bh w h B (plot_int (rx + dx) (ry + dy) c t)"
proof -
  have ok: "fb_ok w h t" using u by (simp add: under_cursor_def saved_at_def)
  let ?x = "of_int (rx + dx) :: u32" and ?y = "of_int (ry + dy) :: u32"
  have small: "unat w < 2 ^ 30" "unat h < 2 ^ 30" using screen_size [OF ok] by simp_all
  have ux: "unat ?x = nat rx + nat dx" and uy: "unat ?y = nat ry + nat dy"
    using small r d by (subst unat_of_int; simp add: nat_add_distrib)+
  show ?thesis
  proof (cases "?x < w \<and> ?y < h")
    case False
    have "plot_int (rx + dx) (ry + dy) c t = t"
      unfolding plot_int_def fb_plot_def fb_ok_simps(1,2) [OF ok] if_not_P [OF False] by (rule refl)
    then show ?thesis using u by simp
  next
    case True
    note pi = px_index_eq [OF ok conjunct1 [OF True] conjunct2 [OF True]]
    have idx: "px_index t ?x ?y = save_index rx ry (unat w) (nat dy) (nat dx)"
      unfolding pi(1) ux uy save_index_def by simp
    have "nat rx + nat dx < unat w" "nat ry + nat dy < unat h"
      using True ux uy unfolding word_less_nat_alt by simp_all
    then have "nat dx < unat bw" "nat dy < unat bh" unfolding bw bh using d by linarith+
    then have reg: "px_index t ?x ?y \<in> save_region rx ry bw bh (unat w)"
      unfolding idx save_region_def by blast
    have upd: "(back_buffer t)[px_index t ?x ?y := c] ! i = back_buffer t ! i"
      if "i \<notin> save_region rx ry bw bh (unat w)" for i
      using reg that by (metis nth_list_update_neq)
    have "plot_int (rx + dx) (ry + dy) c t = draw_stores [(px_index t ?x ?y, c)] t"
      unfolding plot_int_def fb_plot_def fb_ok_simps(1,2) [OF ok] if_P [OF True] by (rule store_px_stores [OF ok pi(2)])
    moreover have "under_cursor rx ry bw bh w h B (draw_stores [(px_index t ?x ?y, c)] t)"
      using u upd unfolding under_cursor_def saved_at_def
      by (simp add: draw_stores_ok draw_stores_frame) (simp add: draw_stores_def store_all_def)
    ultimately show ?thesis by simp
  qed
qed

definition save_extent :: "u32 \<Rightarrow> int \<Rightarrow> u32" where
  "save_extent limit x = (if x + 32 > sint limit then limit - of_int x else 32)"

lemma save_extent:
  assumes "unat limit < 2 ^ 30" "0 \<le> x" "nat x < unat limit"
  shows "unat (save_extent limit x) = min 32 (unat limit - nat x)"
proof -
  have u: "uint limit = int (unat limit)" by (rule uint_nat)
  have "int (unat limit) < int (2 ^ 30)" using assms(1) by (simp only: of_nat_less_iff)
  then have "uint limit < 2 ^ (LENGTH(32) - 1)" unfolding u by (rule less_trans) simp
  then have s: "sint limit = int (unat limit)" unfolding sint_eq_if by (simp only: if_True u)
  have ux: "unat (of_int x :: u32) = nat x" using assms by (intro unat_of_int) auto
  have "of_int x \<le> limit" using ux assms(3) by (simp add: word_le_nat_alt)
  then have "unat (limit - of_int x) = unat limit - nat x" by (simp add: unat_sub ux)
  note sub = this
  have c: "x + 32 > sint limit \<longleftrightarrow> unat limit < nat x + 32" unfolding s using assms(2) by linarith
  show ?thesis
  proof (cases "unat limit < nat x + 32")
    case True
    then show ?thesis unfolding save_extent_def c if_P [OF True] sub by linarith
  next
    case False
    then show ?thesis unfolding save_extent_def c if_not_P [OF False] by simp
  qed
qed

lemma show_cursor_under:
  assumes "backup_ok w h s" "0 \<le> x" "nat x < unat w" "0 \<le> y" "nat y < unat h"
  shows "under_cursor x y (save_extent w x) (save_extent h y) w h (back_buffer (fb_hide_cursor s)) (fb_show_cursor x y s)"
proof -
  let ?s0 = "fb_hide_cursor s" and ?bw = "save_extent w x" and ?bh = "save_extent h y"
  let ?s1 = "?s0\<lparr>backup_x := x, backup_y := y, backup_w := ?bw, backup_h := ?bh\<rparr>"
  let ?B = "back_buffer ?s0"
  have ok0: "fb_ok w h ?s0" by (rule hide_ok(1) [OF assms(1)])
  have small: "unat w < 2 ^ 30" "unat h < 2 ^ 30" using screen_size [OF ok0] by simp_all
  note bw = save_extent [OF small(1) assms(2,3)] and bh = save_extent [OF small(2) assms(4,5)]
  have sa: "saved_at x y ?bw ?bh w h ?s1" using ok0 by (simp add: saved_at_def fb_ok_def)
  have fits: "unat ?bw \<le> 32" "unat ?bh \<le> 32" "nat x + unat ?bw \<le> unat w" "nat y + unat ?bh \<le> unat h"
    unfolding bw bh using assms(3,5) by linarith+
  let ?s2 = "for_up 0 (unat ?bh) (\<lambda>cy. for_up 0 (unat ?bw) (backup_pixel cy)) ?s1"
  let ?pairs = "rect_pairs ?bw ?bh (\<lambda>cy cx. (cy * 32 + cx, ?B ! save_index x y (unat w) cy cx))"
  have s2: "?s2 = save_stores ?pairs ?s1"
    using backup_loop [OF sa assms(2,4) fits] by simp
  have saved: "cursor_backup ?s2 ! (cy * 32 + cx) = ?B ! save_index x y (unat w) cy cx"
    if "cy < unat ?bh" "cx < unat ?bw" for cy cx
  proof -
    let ?g = "\<lambda>k. ?B ! save_index x y (unat w) (k div 32) (k mod 32)"
    have g: "v = ?g k" if "(k, v) \<in> set ?pairs" for k v
      using that fits(1) by (auto simp: set_rect_pairs)
    have k: "cy * 32 + cx < length (cursor_backup ?s1)"
      using that fits(1,2) fb_ok_simps(9) [OF ok0] by simp
    have "cy * 32 + cx \<in> fst ` set ?pairs" using that by (force simp: set_rect_pairs image_iff)
    then show ?thesis
      using store_all_nth [of ?pairs ?g, OF g k] that fits(1) unfolding s2 by (simp add: save_stores_def)
  qed
  have "saved_at x y ?bw ?bh w h ?s2" "back_buffer ?s2 = ?B"
    using sa unfolding s2 by (simp_all add: save_stores_def saved_at_def fb_ok_def)
  then have u2: "under_cursor x y ?bw ?bh w h ?B ?s2"
    using saved by (simp add: under_cursor_def)
  note plot = under_cursor_plot [OF _ assms(2,4,3,5) bw bh]
  have u3: "under_cursor x y ?bw ?bh w h ?B (draw_arrow x y ?s2)"
    unfolding draw_arrow_def
  proof (rule for_up_keeps [where P = "under_cursor x y ?bw ?bh w h ?B", OF u2], rule for_up_keeps, assumption)
    fix cy cx and t t' :: fb
    assume c: "cy < 12" "cx < Suc cy" and u: "under_cursor x y ?bw ?bh w h ?B t'"
    have "0 \<le> int cx" "int cx < 32" "0 \<le> int cy" "int cy < 32" using c by simp_all
    note plot [OF u this]
    then show "under_cursor x y ?bw ?bh w h ?B
        (if x + int cx < sint (fb_width t') \<and> y + int cy < sint (fb_height t')
         then plot_int (x + int cx) (y + int cy) (if cx = 0 \<or> cy = 11 \<or> cx = cy then 0x000000 else 0xFFFFFF) t'
         else t')"
      using u by simp
  qed
  have tail: "under_cursor x y ?bw ?bh w h ?B (fold (\<lambda>(dx, dy, c). plot_int (x + dx) (y + dy) c) ps t)"
    if "under_cursor x y ?bw ?bh w h ?B t" "\<forall>(dx, dy, c) \<in> set ps. 0 \<le> dx \<and> dx < 32 \<and> 0 \<le> dy \<and> dy < 32" for ps t
    using that
  proof (induction ps arbitrary: t)
    case Nil
    then show ?case by simp
  next
    case (Cons p ps)
    then show ?case by (cases p) (simp add: plot)
  qed
  have ct: "\<forall>(dx, dy, c) \<in> set cursor_tail. 0 \<le> dx \<and> dx < 32 \<and> 0 \<le> dy \<and> dy < 32"
    by (simp add: cursor_tail_def)
  have "place_backup x y ?s0 = ?s1"
    using fb_ok_simps(1,2) [OF ok0] assms(2,4) by (simp add: place_backup_def Let_def save_extent_def)
  moreover have "save_backup ?s1 = ?s2" by (simp add: save_backup_def)
  ultimately have e: "fb_show_cursor x y s = draw_tail x y (draw_arrow x y ?s2)"
    by (simp only: fb_show_cursor_def)
  show ?thesis unfolding e draw_tail_def using u3 tail [OF u3 ct] by simp
qed

lemma hide_under:
  assumes "under_cursor x y bw bh w h B t" "0 \<le> x" "0 \<le> y" "unat bw \<le> 32" "unat bh \<le> 32"
    "nat x + unat bw \<le> unat w" "nat y + unat bh \<le> unat h" "length B = unat w * unat h"
  shows "back_buffer (fb_hide_cursor t) = B" and "backup_ok w h t"
proof -
  have sa: "saved_at x y bw bh w h t" using assms(1) by (simp add: under_cursor_def)
  then show "backup_ok w h t" using assms(2-7) by (auto simp: backup_ok_def saved_at_def)
  have bt: "backup_x t = x" "backup_w t = bw" "backup_h t = bh" and ok: "fb_ok w h t"
    using sa by (simp_all add: saved_at_def)
  let ?pairs = "rect_pairs bw bh (\<lambda>cy cx. (save_index x y (unat w) cy cx, cursor_backup t ! (cy * 32 + cx)))"
  have nx: "backup_x t \<noteq> -1" using bt assms(2) by simp
  have "fb_hide_cursor t = (draw_stores ?pairs t)\<lparr>backup_x := -1\<rparr>"
    unfolding fb_hide_cursor_def Let_def if_not_P [OF nx] unfolding bt unbackup_loop [OF sa assms(2-7)] ..
  then have "back_buffer (fb_hide_cursor t) = store_all ?pairs (back_buffer t)"
    by (simp add: draw_stores_def)
  also have "\<dots> = B"
  proof (rule store_all_restores)
    show "v = B ! i" if "(i, v) \<in> set ?pairs" for i v
      using that assms(1) by (auto simp: set_rect_pairs under_cursor_def)
    show "length (back_buffer t) = length B" using fb_ok_simps(4) [OF ok] assms(8) by simp
    show "back_buffer t ! i = B ! i" if "i < length B" "i \<notin> fst ` set ?pairs" for i
    proof -
      have "fst ` set ?pairs = save_region x y bw bh (unat w)"
        by (force simp: set_rect_pairs save_region_def image_iff)
      then show ?thesis using that assms(1,8) by (simp add: under_cursor_def)
    qed
  qed
  finally show "back_buffer (fb_hide_cursor t) = B" .
qed

text \<open>C14 (cursor_no_trail): moving the cursor along any path on the screen and hiding it leaves the
  back buffer exactly as it was, also where the cursor was clipped at the edges.\<close>

theorem cursor_no_trail:
  assumes "fb_ok w h s" "backup_x s = -1"
    and "\<forall>(x, y) \<in> set path. 0 \<le> x \<and> nat x < unat w \<and> 0 \<le> y \<and> nat y < unat h"
  shows "back_buffer (fb_hide_cursor (fold (\<lambda>(x, y). fb_show_cursor x y) path s)) = back_buffer s"
proof -
  have "backup_ok w h (fold (\<lambda>(x, y). fb_show_cursor x y) path t) \<and>
      back_buffer (fb_hide_cursor (fold (\<lambda>(x, y). fb_show_cursor x y) path t)) = back_buffer (fb_hide_cursor t)"
    if "backup_ok w h t" for t
    using that assms(3)
  proof (induction path arbitrary: t)
    case Nil
    then show ?case by simp
  next
    case (Cons p path)
    obtain x y where p: "p = (x, y)" by (cases p)
    from Cons.prems p have xy: "0 \<le> x" "nat x < unat w" "0 \<le> y" "nat y < unat h" by simp_all
    have ok: "fb_ok w h (fb_hide_cursor t)" by (rule hide_ok(1) [OF Cons.prems(1)])
    have small: "unat w < 2 ^ 30" "unat h < 2 ^ 30" using screen_size [OF ok] by simp_all
    note ext = save_extent [OF small(1) xy(1,2)] save_extent [OF small(2) xy(3,4)]
    have fits: "unat (save_extent w x) \<le> 32" "unat (save_extent h y) \<le> 32"
      "nat x + unat (save_extent w x) \<le> unat w" "nat y + unat (save_extent h y) \<le> unat h"
      unfolding ext using xy(2,4) by linarith+
    note u = hide_under [OF show_cursor_under [OF Cons.prems(1) xy] xy(1,3) fits fb_ok_simps(4) [OF ok]]
    from Cons.IH [OF u(2)] Cons.prems(2) u(1) show ?case by (simp add: p)
  qed
  moreover have "backup_ok w h s" using assms(1,2) by (simp add: backup_ok_def)
  ultimately show ?thesis using assms(2) by (simp add: fb_hide_cursor_def)
qed

theorem cursor_no_trail_witness:
  "back_buffer (fb_hide_cursor (fold (\<lambda>(x, y). fb_show_cursor x y) [(0, 0), (1, 1), (1, 0)] grey_screen)) =
   [7, 9, 7, 8]"
  using cursor_no_trail [OF grey_screen_ok, of "[(0, 0), (1, 1), (1, 0)]"]
  by (simp add: grey_screen_def)

end
