(* ===== verification/Windows.thy ===== *)
theory Windows
  imports Pixels "HOL-Library.Multiset"
begin

text \<open>
  The window manager (\<^verbatim>\<open>gui/window.c\<close>): the array of 16 windows in drawing order, the active
  window as an index into it, the gadgets and the dragging of the title bar. A window's title is
  a literal or the editor's title buffer; its contents are drawn by one of the applications.
\<close>

section \<open>State\<close>

record theme_t =
  border_light :: u32
  border_dark :: u32
  border_mid :: u32
  titlebar_active :: u32
  titlebar_active_grad :: u32
  titlebar_inactive :: u32
  titlebar_inactive_grad :: u32
  bg_desktop :: u32
  text_active :: u32
  text_inactive :: u32

definition current_theme :: theme_t where
  "current_theme = \<lparr>border_light = 0xFFFFFF, border_dark = 0x555555, border_mid = 0xC0C0C0,
     titlebar_active = 0x0055AA, titlebar_active_grad = 0x3A6CA3, titlebar_inactive = 0x555555,
     titlebar_inactive_grad = 0x888888, bg_desktop = 0x3B6790, text_active = 0xFFFFFF,
     text_inactive = 0xCCCCCC\<rparr>"

text \<open>The pointers a window holds: to its title, and to the function that draws its contents.\<close>

datatype title_ref = Title string | YanoTitle

datatype draw_fn = DrawHtop | DrawYano | DrawSysinfo | DrawBrowser | DrawFiles | DrawSettings
  | DrawTerminal | DrawPlayer | DrawImageviewer

record window =
  win_x :: u32
  win_y :: u32
  win_w :: u32
  win_h :: u32
  win_title :: title_ref
  win_color :: u32
  win_active :: bool
  win_closed :: bool
  win_minimized :: bool
  win_draw :: "draw_fn option"

definition MAX_WINDOWS :: nat where
  "MAX_WINDOWS = 16"

record wm =
  wm_windows :: "window list"
  window_count :: nat
  active_window :: "nat option"
  dragging_window_idx :: int
  drag_off_x :: int
  drag_off_y :: int

definition wm_boot :: wm where
  "wm_boot = \<lparr>wm_windows = replicate MAX_WINDOWS
       \<lparr>win_x = 0, win_y = 0, win_w = 0, win_h = 0, win_title = Title [], win_color = 0,
        win_active = False, win_closed = False, win_minimized = False, win_draw = None\<rparr>,
     window_count = 0, active_window = None, dragging_window_idx = -1, drag_off_x = 0, drag_off_y = 0\<rparr>"

section \<open>Operations\<close>

definition wm_init :: "wm \<Rightarrow> wm" where
  "wm_init s = s\<lparr>window_count := 0, active_window := None\<rparr>"

definition wm_get_windows :: "wm \<Rightarrow> window list" where
  "wm_get_windows s = take (window_count s) (wm_windows s)"

definition wm_get_active :: "wm \<Rightarrow> nat option" where
  "wm_get_active s = active_window s"

definition upd_window :: "nat \<Rightarrow> (window \<Rightarrow> window) \<Rightarrow> wm \<Rightarrow> wm" where
  "upd_window i f s = s\<lparr>wm_windows := (wm_windows s)[i := f (wm_windows s ! i)]\<rparr>"

definition set_active_flag :: "bool \<Rightarrow> nat option \<Rightarrow> wm \<Rightarrow> wm" where
  "set_active_flag b p s = (case p of None \<Rightarrow> s | Some i \<Rightarrow> upd_window i (\<lambda>w. w\<lparr>win_active := b\<rparr>) s)"

text \<open>The loop \<^verbatim>\<open>for (i = idx; i > 0; i--) windows[i] = windows[i-1]; windows[0] = temp;\<close>\<close>

fun shift_up :: "nat \<Rightarrow> 'a list \<Rightarrow> 'a list" where
  "shift_up 0 ws = ws"
| "shift_up (Suc i) ws = shift_up i (ws[Suc i := ws ! i])"

definition move_to_front :: "nat \<Rightarrow> 'a list \<Rightarrow> 'a list" where
  "move_to_front idx ws = (let temp = ws ! idx in (shift_up idx ws)[0 := temp])"

definition wm_focus_window :: "nat \<Rightarrow> wm \<Rightarrow> wm" where
  "wm_focus_window idx s =
     (if win_closed (wm_windows s ! idx) then s
      else (let s = set_active_flag False (active_window s) s;
                s = s\<lparr>wm_windows := move_to_front idx (wm_windows s)\<rparr>;
                s = s\<lparr>active_window := Some 0\<rparr>
            in set_active_flag True (Some 0) s))"

definition wm_add_window ::
    "u32 \<Rightarrow> u32 \<Rightarrow> u32 \<Rightarrow> u32 \<Rightarrow> title_ref \<Rightarrow> draw_fn option \<Rightarrow> wm \<Rightarrow> wm" where
  "wm_add_window x y w h title draw s =
     (if window_count s \<ge> MAX_WINDOWS then s
      else (let s = s\<lparr>wm_windows := (wm_windows s)[window_count s :=
                    \<lparr>win_x = x, win_y = y, win_w = w, win_h = h, win_title = title, win_color = 0xC0C0C0,
                     win_active = True, win_closed = False, win_minimized = False, win_draw = draw\<rparr>]\<rparr>;
                s = set_active_flag False (active_window s) s
            in s\<lparr>active_window := Some (window_count s), window_count := window_count s + 1\<rparr>))"

text \<open>\<^verbatim>\<open>for (i = count - 1; i >= 0; i--) if (!windows[i].closed) ...\<close>\<close>

fun top_open :: "nat \<Rightarrow> window list \<Rightarrow> nat option" where
  "top_open 0 ws = None"
| "top_open (Suc i) ws = (if \<not> win_closed (ws ! i) then Some i else top_open i ws)"

definition activate_top :: "wm \<Rightarrow> wm" where
  "activate_top s =
     (let s = s\<lparr>active_window := None\<rparr> in
      case top_open (window_count s) (wm_windows s) of
        None \<Rightarrow> s
      | Some i \<Rightarrow> set_active_flag True (Some i) (s\<lparr>active_window := Some i\<rparr>))"

definition wm_cycle_depth :: "wm \<Rightarrow> wm" where
  "wm_cycle_depth s =
     (case active_window s of
        None \<Rightarrow> s
      | Some a \<Rightarrow>
          if window_count s \<le> 1 then s
          else if a \<ge> window_count s then s
          else (let s = s\<lparr>wm_windows := move_to_front a (wm_windows s)\<rparr>;
                    s = set_active_flag False (Some a) s
                in activate_top s))"

section \<open>The mouse\<close>

definition in_box :: "int \<Rightarrow> int \<Rightarrow> int \<Rightarrow> int \<Rightarrow> int \<Rightarrow> int \<Rightarrow> bool" where
  "in_box mx my x0 x1 y0 y1 \<longleftrightarrow> mx \<ge> x0 \<and> mx \<le> x1 \<and> my \<ge> y0 \<and> my \<le> y1"

text \<open>A press on the title bar of the active window; \<open>None\<close> when it is not hit.\<close>

definition click_active :: "int \<Rightarrow> int \<Rightarrow> wm \<Rightarrow> wm option" where
  "click_active mx my s =
     (case active_window s of
        None \<Rightarrow> None
      | Some a \<Rightarrow>
          (let w = wm_windows s ! a in
           if win_closed w then None
           else
             (let wx = sint (win_x w); wy = sint (win_y w); ww = sint (win_w w) in
              if in_box mx my wx (wx + ww) wy (wy + 24) then
                (if in_box mx my (wx + 6) (wx + 20) (wy + 6) (wy + 20) then
                   Some (activate_top (upd_window a (\<lambda>w. w\<lparr>win_closed := True\<rparr>) s))
                 else if in_box mx my (wx + ww - 20) (wx + ww - 6) (wy + 6) (wy + 20) then
                   Some (wm_cycle_depth s)
                 else if in_box mx my (wx + ww - 38) (wx + ww - 24) (wy + 6) (wy + 20) then
                   Some (upd_window a (\<lambda>w. w\<lparr>win_minimized := \<not> win_minimized w\<rparr>) s)
                 else Some (s\<lparr>dragging_window_idx := int a, drag_off_x := mx - wx, drag_off_y := my - wy\<rparr>))
              else None)))"

definition hits :: "int \<Rightarrow> int \<Rightarrow> window \<Rightarrow> bool" where
  "hits mx my w =
     (let click_h = (if win_minimized w then 24 else win_h w)
      in in_box mx my (sint (win_x w)) (sint (win_x w + win_w w))
           (sint (win_y w)) (sint (win_y w + click_h)))"

text \<open>The topmost other window under the pointer.\<close>

fun top_hit :: "int \<Rightarrow> int \<Rightarrow> nat option \<Rightarrow> window list \<Rightarrow> nat \<Rightarrow> nat option" where
  "top_hit mx my act ws 0 = None"
| "top_hit mx my act ws (Suc i) =
     (if win_closed (ws ! i) \<or> act = Some i then top_hit mx my act ws i
      else if hits mx my (ws ! i) then Some i else top_hit mx my act ws i)"

definition click_other :: "int \<Rightarrow> int \<Rightarrow> nat \<Rightarrow> wm \<Rightarrow> wm" where
  "click_other mx my i s =
     (let s = set_active_flag False (active_window s) s;
          s = set_active_flag True (Some i) s;
          s = s\<lparr>active_window := Some i\<rparr>;
          w = wm_windows s ! i
      in if my \<le> sint (win_y w) + 24
         then s\<lparr>dragging_window_idx := int i,
                drag_off_x := sint (of_int mx - win_x w), drag_off_y := sint (of_int my - win_y w)\<rparr>
         else s)"

definition wm_handle_mouse :: "int \<Rightarrow> int \<Rightarrow> bool \<Rightarrow> wm \<Rightarrow> wm" where
  "wm_handle_mouse mx my left_click s =
     (if \<not> left_click then s\<lparr>dragging_window_idx := -1\<rparr>
      else if dragging_window_idx s \<noteq> -1 then
        upd_window (nat (dragging_window_idx s))
          (\<lambda>w. w\<lparr>win_x := of_int (mx - drag_off_x s), win_y := of_int (my - drag_off_y s)\<rparr>) s
      else
        (case click_active mx my s of
           Some s' \<Rightarrow> s'
         | None \<Rightarrow>
             (case top_hit mx my (active_window s) (wm_windows s) (window_count s) of
                None \<Rightarrow> s
              | Some i \<Rightarrow> click_other mx my i s)))"

section \<open>Drawing\<close>

definition draw_retro_3d_panel :: "u32 \<Rightarrow> u32 \<Rightarrow> u32 \<Rightarrow> u32 \<Rightarrow> bool \<Rightarrow> fb \<Rightarrow> fb" where
  "draw_retro_3d_panel x y w h sunken =
     (let l = (if sunken then border_dark current_theme else border_light current_theme);
          d = (if sunken then border_light current_theme else border_dark current_theme);
          m = border_mid current_theme;
          il = (if sunken then 0x222222 else 0xDFDFDF);
          id = (if sunken then 0xDFDFDF else 0x808080)
      in run [
        fb_rect (x + 2) (y + 2) (w - 4) (h - 4) m,
        fb_rect x y w 1 l,
        fb_rect x y 1 h l,
        fb_rect (x + w - 1) y 1 h d,
        fb_rect x (y + h - 1) w 1 d,
        fb_rect (x + 1) (y + 1) (w - 2) 1 il,
        fb_rect (x + 1) (y + 1) 1 (h - 2) il,
        fb_rect (x + w - 2) (y + 1) 1 (h - 2) id,
        fb_rect (x + 1) (y + h - 2) (w - 2) 1 id])"

text \<open>\<open>title\<close> is the text the window's title pointer leads to.\<close>

definition draw_window_frame :: "window \<Rightarrow> bool \<Rightarrow> string \<Rightarrow> fb \<Rightarrow> fb" where
  "draw_window_frame w is_active title =
     (let t_c1 = (if is_active then titlebar_active current_theme else titlebar_inactive current_theme);
          t_c2 = (if is_active then titlebar_active_grad current_theme
                  else titlebar_inactive_grad current_theme);
          text_col = (if is_active then text_active current_theme else text_inactive current_theme);
          border_h = (if win_minimized w then 26 else win_h w);
          x = win_x w; y = win_y w; mid = border_mid current_theme
      in run ([
        draw_retro_3d_panel x y (win_w w) border_h False,
        fb_gradient (x + 4) (y + 4) (win_w w - 8) 18 t_c1 t_c2,
        fb_print title (x + 26) (y + 9) text_col t_c1,
        draw_retro_3d_panel (x + 6) (y + 6) 14 14 True,
        fb_print ''x'' (x + 10) (y + 9) 0x000000 mid,
        draw_retro_3d_panel (x + win_w w - 20) (y + 6) 14 14 False,
        fb_rect (x + win_w w - 17) (y + 9) 6 6 0x555555,
        fb_rect (x + win_w w - 14) (y + 12) 6 6 0xFFFFFF,
        draw_retro_3d_panel (x + win_w w - 38) (y + 6) 14 14 False,
        fb_print (if win_minimized w then ''+'' else ''-'') (x + win_w w - 34) (y + 9) 0x000000 mid] @
        (if win_minimized w then []
         else [draw_retro_3d_panel (x + 4) (y + 24) (win_w w - 8) (win_h w - 28) True])))"

section \<open>The array operations\<close>

lemma length_shift_up [simp]: "length (shift_up i ws) = length ws"
  by (induction i arbitrary: ws) simp_all

lemma shift_up_nth:
  "i < length ws \<Longrightarrow> k < length ws \<Longrightarrow>
   shift_up i ws ! k = (if k = 0 \<or> i < k then ws ! k else ws ! (k - 1))"
proof (induction i arbitrary: ws)
  case 0
  then show ?case by simp
next
  case (Suc i)
  then show ?case by (cases "k = Suc i") (auto simp: nth_list_update)
qed

lemma length_move_to_front [simp]: "length (move_to_front idx ws) = length ws"
  by (simp add: move_to_front_def Let_def)

lemma move_to_front_nth:
  "idx < length ws \<Longrightarrow> k < length ws \<Longrightarrow>
   move_to_front idx ws ! k = (if k = 0 then ws ! idx else if k \<le> idx then ws ! (k - 1) else ws ! k)"
  by (auto simp: move_to_front_def Let_def nth_list_update shift_up_nth)

lemma move_to_front_eq:
  assumes "idx < length ws"
  shows "move_to_front idx ws = ws ! idx # take idx ws @ drop (Suc idx) ws"
proof (rule nth_equalityI)
  show "length (move_to_front idx ws) = length (ws ! idx # take idx ws @ drop (Suc idx) ws)"
    using assms by simp
  fix k
  assume "k < length (move_to_front idx ws)"
  then show "move_to_front idx ws ! k = (ws ! idx # take idx ws @ drop (Suc idx) ws) ! k"
    using assms by (auto simp: move_to_front_nth nth_Cons nth_append split: nat.splits)
qed

lemma move_to_front_take:
  "idx < n \<Longrightarrow> n \<le> length ws \<Longrightarrow> mset (take n (move_to_front idx ws)) = mset (take n ws)"
proof -
  assume a: "idx < n" "n \<le> length ws"
  then have idx: "idx < length ws" by simp
  obtain m where n: "n = Suc m" using a by (cases n) auto
  have "take n ws = take idx ws @ take (n - idx) (drop idx ws)"
    using a by (metis le_add_diff_inverse less_imp_le take_add)
  also have "drop idx ws = ws ! idx # drop (Suc idx) ws" by (rule Cons_nth_drop_Suc [OF idx, symmetric])
  finally have 1: "mset (take n ws) = mset (take idx ws) + mset (take (n - idx) (ws ! idx # drop (Suc idx) ws))"
    by simp
  have "n - idx = Suc (m - idx)" using a n by simp
  then have 2: "mset (take n ws) = mset (ws ! idx # take idx ws @ take (m - idx) (drop (Suc idx) ws))"
    using 1 by simp
  have "take n (move_to_front idx ws) = ws ! idx # take idx ws @ take (m - idx) (drop (Suc idx) ws)"
    using a n idx by (cases "m = idx") (simp_all add: move_to_front_eq min_def)
  with 2 show ?thesis by simp
qed

lemma top_open_Some: "top_open n ws = Some i \<Longrightarrow> i < n \<and> \<not> win_closed (ws ! i)"
  by (induction n) (auto split: if_splits simp: less_Suc_eq)

lemma top_hit_Some: "top_hit mx my act ws n = Some i \<Longrightarrow> i < n \<and> \<not> win_closed (ws ! i)"
  by (induction n) (auto split: if_splits simp: less_Suc_eq)

section \<open>Memory safety and the windows themselves\<close>

text \<open>What identifies a window: its title, its contents and its size.\<close>

definition win_id :: "window \<Rightarrow> title_ref \<times> draw_fn option \<times> u32 \<times> u32" where
  "win_id w = (win_title w, win_draw w, win_w w, win_h w)"

definition wm_ids :: "wm \<Rightarrow> (title_ref \<times> draw_fn option \<times> u32 \<times> u32) multiset" where
  "wm_ids s = mset (map win_id (wm_get_windows s))"

definition wm_ok :: "wm \<Rightarrow> bool" where
  "wm_ok s \<longleftrightarrow> length (wm_windows s) = MAX_WINDOWS \<and> window_count s \<le> MAX_WINDOWS \<and>
     (\<forall>a. active_window s = Some a \<longrightarrow> a < window_count s) \<and>
     -1 \<le> dragging_window_idx s \<and> dragging_window_idx s < int (window_count s)"

text \<open>\<open>wm_steps s t\<close>: \<open>t\<close> is well-formed and holds the same windows as \<open>s\<close>.\<close>

definition wm_keeps :: "wm \<Rightarrow> wm \<Rightarrow> bool" where
  "wm_keeps s t \<longleftrightarrow> wm_ok t \<and> window_count t = window_count s \<and> wm_ids t = wm_ids s"

lemma wm_keeps_refl: "wm_ok s \<Longrightarrow> wm_keeps s s"
  by (simp add: wm_keeps_def)

lemma wm_keeps_trans: "wm_keeps s t \<Longrightarrow> wm_keeps t u \<Longrightarrow> wm_keeps s u"
  by (simp add: wm_keeps_def)

lemma map_id_update:
  "win_id (f (ws ! i)) = win_id (ws ! i) \<Longrightarrow> map win_id (take n (ws[i := f (ws ! i)])) = map win_id (take n ws)"
proof -
  assume a: "win_id (f (ws ! i)) = win_id (ws ! i)"
  show ?thesis
  proof (rule nth_equalityI)
    fix k
    assume "k < length (map win_id (take n (ws[i := f (ws ! i)])))"
    then show "map win_id (take n (ws[i := f (ws ! i)])) ! k = map win_id (take n ws) ! k"
      by (cases "k = i") (simp_all add: a)
  qed simp
qed

lemma upd_window_keeps:
  "wm_ok s \<Longrightarrow> (\<And>w. win_id (f w) = win_id w) \<Longrightarrow> wm_keeps s (upd_window i f s)"
  by (simp add: wm_keeps_def upd_window_def wm_ok_def wm_ids_def wm_get_windows_def map_id_update
      split: option.splits)

lemma set_active_flag_keeps: "wm_ok s \<Longrightarrow> wm_keeps s (set_active_flag b p s)"
  by (auto simp: set_active_flag_def win_id_def intro!: wm_keeps_refl upd_window_keeps split: option.splits)

lemma wm_ids_fields [simp]:
  "wm_ids (t\<lparr>active_window := p\<rparr>) = wm_ids t" "wm_ids (t\<lparr>dragging_window_idx := d\<rparr>) = wm_ids t"
  "wm_ids (t\<lparr>drag_off_x := u\<rparr>) = wm_ids t" "wm_ids (t\<lparr>drag_off_y := u\<rparr>) = wm_ids t"
  by (simp_all add: wm_ids_def wm_get_windows_def)

lemma point_active_keeps: "wm_keeps s t \<Longrightarrow> i < window_count t \<Longrightarrow> wm_keeps s (t\<lparr>active_window := Some i\<rparr>)"
  by (simp add: wm_keeps_def wm_ok_def)

lemma move_keeps:
  assumes "wm_keeps s t" and "i < window_count t"
  shows "wm_keeps s (t\<lparr>wm_windows := move_to_front i (wm_windows t)\<rparr>)"
proof -
  have ok: "wm_ok t" using assms(1) by (simp add: wm_keeps_def)
  then have "window_count t \<le> length (wm_windows t)" by (simp add: wm_ok_def)
  then have "mset (take (window_count t) (move_to_front i (wm_windows t))) = mset (take (window_count t) (wm_windows t))"
    by (rule move_to_front_take [OF assms(2)])
  then have "wm_ids (t\<lparr>wm_windows := move_to_front i (wm_windows t)\<rparr>) = wm_ids t"
    by (simp add: wm_ids_def wm_get_windows_def)
  then show ?thesis
    using assms(1) ok by (simp add: wm_keeps_def wm_ok_def split: option.splits)
qed

lemma activate_top_keeps:
  assumes "wm_ok s"
  shows "wm_keeps s (activate_top s)"
proof -
  have n: "wm_keeps s (s\<lparr>active_window := None\<rparr>)"
    using assms by (simp add: wm_keeps_def wm_ok_def wm_ids_def wm_get_windows_def)
  show ?thesis
  proof (cases "top_open (window_count s) (wm_windows s)")
    case None
    then show ?thesis using n by (simp add: activate_top_def)
  next
    case (Some i)
    let ?t = "s\<lparr>active_window := Some i\<rparr>"
    have t: "wm_keeps s ?t"
      using point_active_keeps [OF n, of i] top_open_Some [OF Some] by simp
    then have "wm_keeps ?t (set_active_flag True (Some i) ?t)"
      by (intro set_active_flag_keeps) (simp add: wm_keeps_def)
    then show ?thesis using Some wm_keeps_trans [OF t] by (simp add: activate_top_def)
  qed
qed

lemma wm_focus_keeps:
  assumes "wm_ok s" "idx < window_count s"
  shows "wm_keeps s (wm_focus_window idx s)"
proof (cases "win_closed (wm_windows s ! idx)")
  case True
  then show ?thesis using assms(1) by (simp add: wm_focus_window_def wm_keeps_refl)
next
  case False
  let ?s1 = "set_active_flag False (active_window s) s"
  let ?s2 = "?s1\<lparr>wm_windows := move_to_front idx (wm_windows ?s1)\<rparr>"
  let ?s3 = "?s2\<lparr>active_window := Some 0\<rparr>"
  have 1: "wm_keeps s ?s1" by (rule set_active_flag_keeps [OF assms(1)])
  then have c: "window_count ?s1 = window_count s" by (simp add: wm_keeps_def)
  have 2: "wm_keeps s ?s2" by (rule move_keeps [OF 1]) (simp add: c assms(2))
  have 3: "wm_keeps s ?s3" by (rule point_active_keeps [OF 2]) (use c assms(2) in simp)
  have "wm_keeps s (set_active_flag True (Some 0) ?s3)"
    by (rule wm_keeps_trans [OF 3 set_active_flag_keeps]) (use 3 in \<open>simp add: wm_keeps_def\<close>)
  with False show ?thesis by (simp add: wm_focus_window_def Let_def)
qed

lemma wm_cycle_keeps:
  assumes "wm_ok s"
  shows "wm_keeps s (wm_cycle_depth s)"
proof (cases "active_window s")
  case None
  then show ?thesis using assms by (simp add: wm_cycle_depth_def wm_keeps_refl)
next
  case (Some a)
  have a: "a < window_count s" using assms Some by (simp add: wm_ok_def)
  let ?s1 = "s\<lparr>wm_windows := move_to_front a (wm_windows s)\<rparr>"
  have 1: "wm_keeps s ?s1" by (rule move_keeps [OF wm_keeps_refl [OF assms] a])
  have 2: "wm_keeps s (set_active_flag False (Some a) ?s1)"
    by (rule wm_keeps_trans [OF 1 set_active_flag_keeps]) (use 1 in \<open>simp add: wm_keeps_def\<close>)
  have 3: "wm_keeps s (activate_top (set_active_flag False (Some a) ?s1))"
    by (rule wm_keeps_trans [OF 2 activate_top_keeps]) (use 2 in \<open>simp add: wm_keeps_def\<close>)
  then show ?thesis
    using assms Some a by (simp add: wm_cycle_depth_def Let_def wm_keeps_refl)
qed

lemma click_active_keeps:
  assumes "wm_ok s" "click_active mx my s = Some t"
  shows "wm_keeps s t"
proof -
  from assms(2) obtain a where a: "active_window s = Some a"
    by (auto simp: click_active_def split: option.splits)
  have ac: "a < window_count s" using assms(1) a by (simp add: wm_ok_def)
  have close: "wm_keeps s (activate_top (upd_window a (\<lambda>w. w\<lparr>win_closed := True\<rparr>) s))"
  proof (rule wm_keeps_trans)
    show 1: "wm_keeps s (upd_window a (\<lambda>w. w\<lparr>win_closed := True\<rparr>) s)"
      by (rule upd_window_keeps [OF assms(1)]) (simp add: win_id_def)
    show "wm_keeps (upd_window a (\<lambda>w. w\<lparr>win_closed := True\<rparr>) s)
        (activate_top (upd_window a (\<lambda>w. w\<lparr>win_closed := True\<rparr>) s))"
      by (rule activate_top_keeps) (use 1 in \<open>simp add: wm_keeps_def\<close>)
  qed
  have mini: "wm_keeps s (upd_window a (\<lambda>w. w\<lparr>win_minimized := \<not> win_minimized w\<rparr>) s)"
    by (rule upd_window_keeps [OF assms(1)]) (simp add: win_id_def)
  have drag: "wm_keeps s (s\<lparr>dragging_window_idx := int a, drag_off_x := u, drag_off_y := v\<rparr>)" for u v
    using assms(1) ac by (simp add: wm_keeps_def wm_ok_def wm_ids_def wm_get_windows_def)
  show ?thesis
    using assms(2) a close mini drag wm_cycle_keeps [OF assms(1)]
    by (auto simp: click_active_def Let_def split: if_splits)
qed

lemma wm_handle_mouse_keeps:
  assumes "wm_ok s"
  shows "wm_keeps s (wm_handle_mouse mx my b s)"
proof -
  have rel: "wm_keeps s (s\<lparr>dragging_window_idx := -1\<rparr>)"
    using assms by (simp add: wm_keeps_def wm_ok_def wm_ids_def wm_get_windows_def)
  have drag: "wm_keeps s (upd_window i (\<lambda>w. w\<lparr>win_x := u, win_y := v\<rparr>) s)" for i u v
    by (rule upd_window_keeps [OF assms]) (simp add: win_id_def)
  have click: "wm_keeps s (click_other mx my i s)"
    if i: "i < window_count s" for i
  proof -
    let ?s1 = "set_active_flag False (active_window s) s"
    let ?s2 = "set_active_flag True (Some i) ?s1"
    have 1: "wm_keeps s ?s1" by (rule set_active_flag_keeps [OF assms])
    have 2: "wm_keeps s ?s2"
      by (rule wm_keeps_trans [OF 1 set_active_flag_keeps]) (use 1 in \<open>simp add: wm_keeps_def\<close>)
    then have c: "window_count ?s2 = window_count s" by (simp add: wm_keeps_def)
    have 3: "wm_keeps s (?s2\<lparr>active_window := Some i\<rparr>)" by (rule point_active_keeps [OF 2]) (simp add: c i)
    then have "wm_keeps s (?s2\<lparr>active_window := Some i, dragging_window_idx := int i, drag_off_x := u, drag_off_y := v\<rparr>)"
      for u v using c i by (simp add: wm_keeps_def wm_ok_def wm_ids_def wm_get_windows_def)
    with 3 show ?thesis by (simp add: click_other_def Let_def)
  qed
  show ?thesis
    using rel drag click click_active_keeps [OF assms] wm_keeps_refl [OF assms]
    by (auto simp: wm_handle_mouse_def dest: top_hit_Some split: option.splits)
qed

datatype wm_event = Mouse int int bool | Cycle | Focus nat

fun wm_event_step :: "wm_event \<Rightarrow> wm \<Rightarrow> wm" where
  "wm_event_step (Mouse mx my b) s = wm_handle_mouse mx my b s"
| "wm_event_step Cycle s = wm_cycle_depth s"
| "wm_event_step (Focus i) s = (if i < window_count s then wm_focus_window i s else s)"

text \<open>C15 (wm_events_keep_windows): whatever the mouse does, and whatever windows are cycled or focused
  from the taskbar, every index the window manager keeps stays within the windows in use, and the
  windows themselves are only permuted: none is lost, duplicated, resized or given another title
  or contents.\<close>

theorem wm_events_keep_windows:
  assumes "wm_ok s"
  shows "wm_ok (fold wm_event_step es s) \<and> window_count (fold wm_event_step es s) = window_count s \<and>
    wm_ids (fold wm_event_step es s) = wm_ids s"
proof -
  have "wm_keeps t (wm_event_step e t)" if "wm_ok t" for e t
    using that wm_handle_mouse_keeps wm_cycle_keeps wm_focus_keeps wm_keeps_refl by (cases e) auto
  then have "wm_ok t \<Longrightarrow> wm_keeps t (fold wm_event_step es t)" for t
  proof (induction es arbitrary: t)
    case Nil
    then show ?case by (simp add: wm_keeps_refl)
  next
    case (Cons e es)
    have 1: "wm_keeps t (wm_event_step e t)" by (rule Cons.prems(2)) (rule Cons.prems(1))
    then have "wm_ok (wm_event_step e t)" by (simp add: wm_keeps_def)
    from wm_keeps_trans [OF 1 Cons.IH [OF this Cons.prems(2)]] show ?case by simp
  qed
  from this [OF assms] show ?thesis by (simp add: wm_keeps_def)
qed

definition two_windows :: wm where
  "two_windows = wm_add_window 300 200 400 300 (Title ''B'') (Some DrawFiles)
     (wm_add_window 100 100 400 300 (Title ''A'') (Some DrawHtop) wm_boot)"

lemma two_windows_eq:
  "window_count two_windows = 2" "active_window two_windows = Some 1" "dragging_window_idx two_windows = -1"
  "length (wm_windows two_windows) = 16"
  by (simp_all add: two_windows_def wm_add_window_def wm_boot_def set_active_flag_def upd_window_def MAX_WINDOWS_def)

lemma two_windows_ok: "wm_ok two_windows"
  by (simp add: wm_ok_def two_windows_eq MAX_WINDOWS_def)

theorem wm_events_keep_windows_witness:
  "wm_ok (fold wm_event_step [Mouse 310 205 True, Mouse 500 400 True, Mouse 500 400 False, Cycle, Focus 1] two_windows)"
  using wm_events_keep_windows [OF two_windows_ok] by blast

text \<open>The fact \<open>wm_drag_follows\<close>: pressing the active window's title bar between its gadgets and moving the
  pointer while the button is held moves the window by exactly the pointer's displacement; releasing
  the button ends the drag.\<close>

theorem wm_drag_follows:
  assumes "wm_ok s" "active_window s = Some a" "dragging_window_idx s = -1"
  defines "w \<equiv> wm_windows s ! a"
  assumes "\<not> win_closed w" and "sint (win_x w) + 20 < mx" "mx < sint (win_x w) + sint (win_w w) - 38"
    and "sint (win_y w) \<le> my" "my \<le> sint (win_y w) + 24" and "path \<noteq> []"
  defines "t \<equiv> fold (\<lambda>(x, y). wm_handle_mouse x y True) path (wm_handle_mouse mx my True s)"
  shows "win_x (wm_windows t ! a) = win_x w + of_int (fst (last path) - mx) \<and>
    win_y (wm_windows t ! a) = win_y w + of_int (snd (last path) - my) \<and>
    dragging_window_idx (wm_handle_mouse x y False t) = -1"
proof -
  let ?s1 = "s\<lparr>dragging_window_idx := int a, drag_off_x := mx - sint (win_x w), drag_off_y := my - sint (win_y w)\<rparr>"
  have la: "a < length (wm_windows s)" using assms(1,2) by (simp add: wm_ok_def)
  have press: "wm_handle_mouse mx my True s = ?s1"
    using assms(2,3,5-9) by (simp add: wm_handle_mouse_def click_active_def Let_def in_box_def w_def [symmetric])
  have drag: "wm_handle_mouse x y True u = upd_window a
      (\<lambda>w'. w'\<lparr>win_x := win_x w + of_int (x - mx), win_y := win_y w + of_int (y - my)\<rparr>) u"
    if "dragging_window_idx u = int a" "drag_off_x u = mx - sint (win_x w)" "drag_off_y u = my - sint (win_y w)"
    for x y u
  proof -
    have "of_int (x - (mx - sint (win_x w))) = win_x w + of_int (x - mx)"
      "of_int (y - (my - sint (win_y w))) = win_y w + of_int (y - my)" by simp_all
    then show ?thesis using that by (simp only: wm_handle_mouse_def) simp
  qed
  define P where "P u xy \<longleftrightarrow> dragging_window_idx u = int a \<and> drag_off_x u = mx - sint (win_x w) \<and>
      drag_off_y u = my - sint (win_y w) \<and> length (wm_windows u) = length (wm_windows s) \<and>
      win_x (wm_windows u ! a) = win_x w + of_int (fst xy - mx) \<and>
      win_y (wm_windows u ! a) = win_y w + of_int (snd xy - my)" for u :: wm and xy :: "int \<times> int"
  have "P (fold (\<lambda>(x, y). wm_handle_mouse x y True) path u) (last (xy # path))" if "P u xy" for u xy
    using that
  proof (induction path arbitrary: u xy)
    case Nil
    then show ?case by simp
  next
    case (Cons q path)
    obtain x y where q: "q = (x, y)" by (cases q)
    have "P (wm_handle_mouse x y True u) (x, y)"
      using Cons.prems la drag [of u x y] by (simp add: P_def upd_window_def)
    from Cons.IH [OF this] show ?case by (simp add: q)
  qed
  moreover have "P ?s1 (mx, my)" by (simp add: P_def w_def)
  ultimately have "P t (last ((mx, my) # path))" unfolding t_def press by blast
  then show ?thesis
    using assms(10) by (simp add: P_def wm_handle_mouse_def)
qed

theorem wm_drag_follows_witness:
  "win_x (wm_windows (fold (\<lambda>(x, y). wm_handle_mouse x y True) [(500, 300), (360, 190)]
     (wm_handle_mouse 350 210 True two_windows)) ! 1) = 310"
proof -
  have w: "wm_windows two_windows ! Suc 0 = \<lparr>win_x = 300, win_y = 200, win_w = 400, win_h = 300, win_title = Title ''B'',
      win_color = 0xC0C0C0, win_active = True, win_closed = False, win_minimized = False, win_draw = Some DrawFiles\<rparr>"
    by (simp add: two_windows_def wm_add_window_def wm_boot_def set_active_flag_def upd_window_def MAX_WINDOWS_def)
  show ?thesis
    using wm_drag_follows [OF two_windows_ok two_windows_eq(2,3), of 350 210 "[(500, 300), (360, 190)]"]
    by (simp add: w)
qed

text \<open>Sending the active window to the back clears the \<^verbatim>\<open>active\<close> flag of the
  window that took its slot, not its own: when the topmost window is another one, two windows carry
  the flag afterwards.\<close>

theorem wm_cycle_two_active:
  assumes "wm_ok s" "active_window s = Some a" "0 < a" "win_active (wm_windows s ! a)"
    and "\<not> win_closed (move_to_front a (wm_windows s) ! (window_count s - 1))"
  shows "active_window (wm_cycle_depth s) = Some (window_count s - 1) \<and>
    win_active (wm_windows (wm_cycle_depth s) ! (window_count s - 1)) \<and>
    0 < window_count s - 1 \<and> win_active (wm_windows (wm_cycle_depth s) ! 0) \<and>
    win_id (wm_windows (wm_cycle_depth s) ! 0) = win_id (wm_windows s ! a)"
proof -
  have a: "a < window_count s" "window_count s \<le> length (wm_windows s)"
    using assms(1,2) by (simp_all add: wm_ok_def)
  let ?n = "window_count s - 1" and ?ws = "move_to_front a (wm_windows s)"
  let ?ws' = "?ws[a := (?ws ! a)\<lparr>win_active := False\<rparr>]"
  have n: "window_count s = Suc ?n" "0 < ?n" "a \<le> ?n" using a assms(3) by simp_all
  have "\<not> win_closed (?ws' ! ?n)" using assms(5) a by (cases "a = ?n") simp_all
  then have top: "top_open (window_count s) ?ws' = Some ?n" by (subst n(1)) simp
  have len: "a < length (wm_windows s)" "?n < length (wm_windows s)" using a n by linarith+
  have "wm_cycle_depth s = s\<lparr>wm_windows := ?ws'[?n := (?ws' ! ?n)\<lparr>win_active := True\<rparr>], active_window := Some ?n\<rparr>"
    using assms(2) a n top
    by (simp add: wm_cycle_depth_def activate_top_def set_active_flag_def upd_window_def Let_def)
  moreover have "?ws' ! 0 = wm_windows s ! a"
    using assms(3) len(1) move_to_front_nth [OF len(1), of 0] by (cases "wm_windows s") simp_all
  ultimately show ?thesis
    using n(2) len assms(4) by (simp add: move_to_front_nth)
qed

theorem wm_cycle_two_active_witness:
  "win_active (wm_windows (wm_cycle_depth two_windows) ! 0) \<and>
   win_active (wm_windows (wm_cycle_depth two_windows) ! 1)"
proof -
  have "win_active (wm_windows two_windows ! 1)" "\<not> win_closed (move_to_front 1 (wm_windows two_windows) ! 1)"
    by (simp_all add: two_windows_def wm_add_window_def wm_boot_def set_active_flag_def upd_window_def
        MAX_WINDOWS_def move_to_front_nth)
  with wm_cycle_two_active [OF two_windows_ok two_windows_eq(2)] show ?thesis
    by (simp add: two_windows_eq)
qed

section \<open>Frames stay inside the frame buffer\<close>

lemma fb_rect_small:
  assumes "fb_ok W H s" "unat a < 2 ^ 31"
  shows "fb_ok W H (fb_rect x y a b c s)"
proof (rule fb_rect_ok [OF assms(1)])
  assume "x < W"
  then have "unat x < 2 ^ 30" using screen_size(2) [OF assms(1)] by (simp add: word_less_nat_alt)
  then show "rect_fits x a" using assms(2) by (simp add: rect_fits_def)
qed

lemma unat_shrink: "unat k \<le> unat w \<Longrightarrow> unat w < 2 ^ 31 \<Longrightarrow> unat (w - k) < 2 ^ 31" for w k :: u32
  by (simp add: unat_sub word_le_nat_alt)

lemma panel_ok [keeps_intros]:
  assumes "fb_ok W H s" "4 \<le> unat w" "unat w < 2 ^ 31"
  shows "fb_ok W H (draw_retro_3d_panel x y w h sunken s)"
proof -
  have "unat (w - 4) < 2 ^ 31" "unat (w - 2) < 2 ^ 31" using assms(2,3) by (intro unat_shrink; simp)+
  then show ?thesis
    unfolding draw_retro_3d_panel_def Let_def run_Cons run_Nil
    by (intro fb_rect_small assms) simp_all
qed

text \<open>The fact \<open>frame_in_bounds\<close>: drawing a window's frame, wherever the window has been dragged to and
  however high it is, stays inside the back buffer, for widths from 12 pixels up.\<close>

theorem frame_in_bounds:
  assumes "fb_ok W H s" "12 \<le> unat (win_w w)" "unat (win_w w) < 2 ^ 31"
  shows "fb_ok W H (draw_window_frame w active title s)"
proof -
  have "unat (win_w w - 8) = unat (win_w w) - 8" using assms(2) by (simp add: unat_sub word_le_nat_alt)
  then have i: "4 \<le> unat (win_w w - 8)" "unat (win_w w - 8) < 2 ^ 31" using assms(2,3) by linarith+
  have o4: "4 \<le> unat (win_w w)" using assms(2) by simp
  show ?thesis
    unfolding draw_window_frame_def Let_def run_append run_Cons run_Nil
    by (cases "win_minimized w")
      (simp_all only: if_True if_False run_Nil run_Cons,
        (intro panel_ok fb_gradient_ok fb_print_ok fb_rect_small i o4 assms; simp)+)
qed

theorem frame_in_bounds_witness:
  "fb_ok 2 2 (draw_window_frame (wm_windows two_windows ! 1) True ''B'' grey_screen)"
  by (rule frame_in_bounds [OF grey_screen_ok])
    (simp_all add: two_windows_def wm_add_window_def wm_boot_def set_active_flag_def upd_window_def MAX_WINDOWS_def)

end
