(* ===== verification/Sched.thy ===== *)
theory Sched
  imports HeapMem CString
begin

text \<open>
  The task list of \<^verbatim>\<open>kernel/scheduler/scheduler.c\<close>. Task structures live in a store of
  cells, one per \<^verbatim>\<open>kmalloc\<close> in order of allocation; a \<^verbatim>\<open>task_t*\<close> is the index of its cell
  and \<^verbatim>\<open>NULL\<close> is \<open>None\<close>. The walks along the \<^verbatim>\<open>next\<close> pointers carry fuel: they return
  \<open>None\<close> when they would go round a cycle, and the invariant below shows that they never do.
\<close>

section \<open>State\<close>

datatype task_state = TASK_RUNNING | TASK_SLEEPING | TASK_BLOCKED | TASK_ZOMBIE

record task =
  t_pid :: u32
  t_name :: "char list"
  t_state :: task_state
  t_runtime_ticks :: u64
  t_stack_pointer :: u64
  t_is_kernel :: u8
  t_next :: "nat option"

record sched =
  cells :: "task list"
  task_list :: "nat option"
  current_task :: "nat option"
  next_pid :: u32

definition sched_boot :: sched where
  "sched_boot = \<lparr>cells = [], task_list = None, current_task = None, next_pid = 1\<rparr>"

section \<open>Operations\<close>

text \<open>The size of \<^verbatim>\<open>task_t\<close> with the padding of the x86-64 ABI, and the offset of its name.\<close>

definition task_t_size :: u32 where
  "task_t_size = 72"

text \<open>\<^verbatim>\<open>while (curr->next) curr = curr->next\<close>\<close>

fun last_cell :: "nat \<Rightarrow> task list \<Rightarrow> nat \<Rightarrow> nat option" where
  "last_cell 0 cs i = None"
| "last_cell (Suc fuel) cs i =
     (case t_next (cs ! i) of None \<Rightarrow> Some i | Some j \<Rightarrow> last_cell fuel cs j)"

text \<open>
  \<^verbatim>\<open>kmalloc\<close> does not clear memory, so the name array starts with the bytes that lie there;
  \<^verbatim>\<open>strncpy\<close> then writes 31 of its 32 characters.
\<close>

definition fresh_name :: "u64 \<Rightarrow> mm \<Rightarrow> char list" where
  "fresh_name p m = map (\<lambda>k. char_of_byte (ram m (p + 4 + of_nat k))) [0..<32]"

definition task_create :: "string \<Rightarrow> u8 \<Rightarrow> mm \<times> sched \<Rightarrow> (nat \<times> mm \<times> sched) option" where
  "task_create name is_kernel st =
     (let (m, s) = st;
          (p, m) = kmalloc task_t_size m;
          i = length (cells s)
      in case strncpy (fresh_name p m) name 31 of
           None \<Rightarrow> None
         | Some nm \<Rightarrow>
             (let t = \<lparr>t_pid = next_pid s, t_name = nm, t_state = TASK_RUNNING, t_runtime_ticks = 0,
                       t_stack_pointer = 0, t_is_kernel = is_kernel, t_next = None\<rparr>;
                  s = s\<lparr>cells := cells s @ [t], next_pid := next_pid s + 1\<rparr>
              in case task_list s of
                   None \<Rightarrow> Some (i, m, s\<lparr>task_list := Some i\<rparr>)
                 | Some h \<Rightarrow>
                     (case last_cell (length (cells s)) (cells s) h of
                        None \<Rightarrow> None
                      | Some l \<Rightarrow>
                          Some (i, m, s\<lparr>cells := (cells s)[l := (cells s ! l)\<lparr>t_next := Some i\<rparr>]\<rparr>))))"

definition scheduler_init :: "mm \<times> sched \<Rightarrow> (mm \<times> sched) option" where
  "scheduler_init st = do {
     let (m, s) = st;
     (init, m, s) \<leftarrow> task_create ''init'' 1 (m, s\<lparr>task_list := None\<rparr>);
     (_, m, s) \<leftarrow> task_create ''window_manager'' 1 (m, s);
     (_, m, s) \<leftarrow> task_create ''terminal'' 1 (m, s);
     Some (m, s\<lparr>current_task := Some init\<rparr>)
   }"

text \<open>The walk of \<^verbatim>\<open>task_destroy\<close> behind the head: unlink the first cell with the pid.\<close>

fun destroy_after :: "nat \<Rightarrow> u32 \<Rightarrow> task list \<Rightarrow> nat \<Rightarrow> task list option" where
  "destroy_after 0 pid cs i = None"
| "destroy_after (Suc fuel) pid cs i =
     (case t_next (cs ! i) of
        None \<Rightarrow> Some cs
      | Some j \<Rightarrow>
          if t_pid (cs ! j) = pid
          then (let cs = cs[i := (cs ! i)\<lparr>t_next := t_next (cs ! j)\<rparr>]
                in Some (cs[j := (cs ! j)\<lparr>t_state := TASK_ZOMBIE\<rparr>]))
          else destroy_after fuel pid cs j)"

definition task_destroy :: "u32 \<Rightarrow> sched \<Rightarrow> sched option" where
  "task_destroy pid s =
     (case task_list s of
        None \<Rightarrow> Some s
      | Some h \<Rightarrow>
          if t_pid (cells s ! h) = pid
          then Some (s\<lparr>task_list := t_next (cells s ! h),
                       cells := (cells s)[h := (cells s ! h)\<lparr>t_state := TASK_ZOMBIE\<rparr>]\<rparr>)
          else (case destroy_after (length (cells s)) pid (cells s) h of
                  None \<Rightarrow> None
                | Some cs \<Rightarrow> Some (s\<lparr>cells := cs\<rparr>)))"

definition task_get_list :: "sched \<Rightarrow> nat option" where
  "task_get_list s = task_list s"

fun count_from :: "nat \<Rightarrow> task list \<Rightarrow> nat option \<Rightarrow> nat option" where
  "count_from fuel cs None = Some 0"
| "count_from 0 cs (Some i) = None"
| "count_from (Suc fuel) cs (Some i) =
     map_option (\<lambda>n. if t_state (cs ! i) \<noteq> TASK_ZOMBIE then Suc n else n)
       (count_from fuel cs (t_next (cs ! i)))"

definition task_get_count :: "sched \<Rightarrow> nat option" where
  "task_get_count s = count_from (length (cells s)) (cells s) (task_list s)"

definition task_get_current :: "sched \<Rightarrow> nat option" where
  "task_get_current s = current_task s"

text \<open>
  \<^verbatim>\<open>scheduler_tick\<close> counts a tick for the current task, and for the idle counter when the
  current task is named \<^verbatim>\<open>init\<close>.
\<close>

definition scheduler_tick :: "sched \<times> u64 \<Rightarrow> sched \<times> u64" where
  "scheduler_tick st =
     (let (s, idle_ticks) = st in
      case current_task s of
        None \<Rightarrow> (s, idle_ticks)
      | Some i \<Rightarrow>
          (let t = cells s ! i;
               t' = t\<lparr>t_runtime_ticks := t_runtime_ticks t + 1\<rparr>;
               s = s\<lparr>cells := (cells s)[i := t']\<rparr>
           in (s, if strcmp (t_name t') ''init'' = 0 then idle_ticks + 1 else idle_ticks)))"

text \<open>
  \<^verbatim>\<open>sys_get_tasks\<close> of \<^verbatim>\<open>kernel/syscalls/syscall.c\<close>: copies at most \<open>max_tasks\<close> tasks and
  clears the copied links. It terminates without fuel, on the count.
\<close>

fun get_tasks_from :: "nat \<Rightarrow> task list \<Rightarrow> nat option \<Rightarrow> task list" where
  "get_tasks_from 0 cs p = []"
| "get_tasks_from (Suc n) cs None = []"
| "get_tasks_from (Suc n) cs (Some i) =
     (cs ! i)\<lparr>t_next := None\<rparr> # get_tasks_from n cs (t_next (cs ! i))"

definition sys_get_tasks :: "nat \<Rightarrow> sched \<Rightarrow> task list" where
  "sys_get_tasks max_tasks s = get_tasks_from max_tasks (cells s) (task_get_list s)"

section \<open>The list behind the pointers\<close>

fun links :: "task list \<Rightarrow> nat option \<Rightarrow> nat list \<Rightarrow> bool" where
  "links cs p [] \<longleftrightarrow> p = None"
| "links cs p (i # is) \<longleftrightarrow> p = Some i \<and> i < length cs \<and> links cs (t_next (cs ! i)) is"

abbreviation unlinked :: "task \<Rightarrow> task" where
  "unlinked t \<equiv> t\<lparr>t_next := None\<rparr>"

definition sched_chain :: "sched \<Rightarrow> nat list \<Rightarrow> bool" where
  "sched_chain s is \<longleftrightarrow> links (cells s) (task_list s) is \<and> distinct is \<and>
     (\<forall>i \<in> set is. t_state (cells s ! i) \<noteq> TASK_ZOMBIE) \<and>
     (\<forall>i. current_task s = Some i \<longrightarrow> i < length (cells s))"

definition sched_ok :: "sched \<Rightarrow> bool" where
  "sched_ok s \<longleftrightarrow> (\<exists>is. sched_chain s is)"

text \<open>The abstraction: the pids in list order.\<close>

definition task_pids :: "sched \<Rightarrow> u32 list" where
  "task_pids s = map t_pid (sys_get_tasks (length (cells s)) s)"

lemma links_range: "links cs p is \<Longrightarrow> i \<in> set is \<Longrightarrow> i < length cs"
  by (induction "is" arbitrary: p) auto

lemma links_length:
  assumes "links cs p is" and "distinct is"
  shows "length is \<le> length cs"
proof -
  have "set is \<subseteq> {..<length cs}" using links_range [OF assms(1)] by auto
  then have "card (set is) \<le> card {..<length cs}" by (rule card_mono [rotated]) simp
  then show ?thesis using assms(2) by (simp add: distinct_card)
qed

lemma links_frame:
  "links cs p is \<Longrightarrow> length cs \<le> length cs' \<Longrightarrow> (\<And>i. i \<in> set is \<Longrightarrow> cs' ! i = cs ! i) \<Longrightarrow> links cs' p is"
  by (induction "is" arbitrary: p) auto

lemma links_snoc:
  assumes "links cs p is" and "distinct is" and "is \<noteq> []" and "n < length cs" and "n \<notin> set is"
    and "t_next (cs ! n) = None"
  shows "links (cs[last is := (cs ! last is)\<lparr>t_next := Some n\<rparr>]) p (is @ [n])"
  using assms(1-3,5)
proof (induction "is" arbitrary: p)
  case Nil
  then show ?case by simp
next
  case (Cons i js)
  show ?case
  proof (cases "js = []")
    case True
    with Cons.prems assms(4,6) show ?thesis by auto
  next
    case False
    with Cons have "links (cs[last js := (cs ! last js)\<lparr>t_next := Some n\<rparr>]) (t_next (cs ! i)) (js @ [n])"
      by simp
    moreover have "last js \<noteq> i" using Cons.prems(2) False by auto
    ultimately show ?thesis using Cons.prems False by simp
  qed
qed

lemma last_cell_links:
  "links cs (Some h) is \<Longrightarrow> length is \<le> fuel \<Longrightarrow> last_cell fuel cs h = Some (last is)"
proof (induction fuel arbitrary: h "is")
  case 0
  then show ?case by simp
next
  case (Suc fuel)
  then obtain js where js: "is = h # js" "links cs (t_next (cs ! h)) js" "length js \<le> fuel"
    by (cases "is") auto
  then show ?case
    using Suc.IH [of "hd js" js] by (cases js) auto
qed

lemma get_tasks_links:
  "links cs p is \<Longrightarrow> get_tasks_from n cs p = take n (map (\<lambda>i. unlinked (cs ! i)) is)"
proof (induction n cs p arbitrary: "is" rule: get_tasks_from.induct)
  case (2 n cs)
  then show ?case by (cases "is") auto
next
  case (3 n cs i)
  then show ?case by (cases "is") auto
qed simp

lemma count_from_links:
  "links cs p is \<Longrightarrow> length is \<le> fuel \<Longrightarrow> (\<And>i. i \<in> set is \<Longrightarrow> t_state (cs ! i) \<noteq> TASK_ZOMBIE) \<Longrightarrow>
   count_from fuel cs p = Some (length is)"
proof (induction fuel cs p arbitrary: "is" rule: count_from.induct)
  case (1 fuel cs)
  then show ?case by (cases "is") auto
next
  case (2 cs i)
  then show ?case by (cases "is") auto
next
  case (3 fuel cs i)
  then obtain js where js: "is = i # js" "links cs (t_next (cs ! i)) js" "length js \<le> fuel"
    by (cases "is") auto
  have "count_from fuel cs (t_next (cs ! i)) = Some (length js)"
    using 3 js by (intro "3.IH") auto
  then show ?case using 3(4) js(1) by simp
qed

lemma sys_get_tasks_chain:
  assumes "sched_chain s is"
  shows "sys_get_tasks n s = take n (map (\<lambda>i. unlinked (cells s ! i)) is)"
  using assms by (simp add: sys_get_tasks_def task_get_list_def sched_chain_def get_tasks_links)

lemma task_pids_chain:
  assumes "sched_chain s is"
  shows "task_pids s = map (\<lambda>i. t_pid (cells s ! i)) is"
proof -
  have "length is \<le> length (cells s)" using assms links_length by (auto simp: sched_chain_def)
  then show ?thesis by (simp add: task_pids_def sys_get_tasks_chain [OF assms])
qed

section \<open>Creation\<close>

lemma length_fresh_name [simp]: "length (fresh_name p m) = 32"
  by (simp add: fresh_name_def)

lemma task_create_chain:
  assumes "sched_chain s is"
  shows "\<exists>m' s'. task_create name k (m, s) = Some (length (cells s), m', s') \<and>
    m' = snd (kmalloc task_t_size m) \<and>
    sched_chain s' (is @ [length (cells s)]) \<and> next_pid s' = next_pid s + 1 \<and>
    current_task s' = current_task s \<and> length (cells s') = Suc (length (cells s)) \<and>
    t_pid (cells s' ! length (cells s)) = next_pid s \<and>
    take 31 (t_name (cells s' ! length (cells s))) = take 31 (cstr name @ replicate 31 NUL) \<and>
    (\<forall>i < length (cells s). unlinked (cells s' ! i) = unlinked (cells s ! i))"
proof -
  obtain p m1 where k: "kmalloc task_t_size m = (p, m1)" by (cases "kmalloc task_t_size m")
  let ?n = "length (cells s)"
  obtain nm where nm: "strncpy (fresh_name p m1) name 31 = Some nm"
      "take 31 nm = take 31 (cstr name @ replicate 31 NUL)"
    by (simp add: strncpy_eq)
  let ?t = "\<lparr>t_pid = next_pid s, t_name = nm, t_state = TASK_RUNNING, t_runtime_ticks = 0,
             t_stack_pointer = 0, t_is_kernel = k, t_next = None\<rparr>"
  let ?cs = "cells s @ [?t]"
  let ?s = "s\<lparr>cells := ?cs, next_pid := next_pid s + 1\<rparr>"
  have ch: "links (cells s) (task_list s) is" "distinct is"
    "\<forall>i \<in> set is. t_state (cells s ! i) \<noteq> TASK_ZOMBIE"
    "\<forall>i. current_task s = Some i \<longrightarrow> i < ?n"
    using assms by (simp_all add: sched_chain_def)
  have lt: "i \<in> set is \<Longrightarrow> i < ?n" for i using links_range [OF ch(1)] by simp
  have l: "links ?cs (task_list s) is"
    using ch(1) by (rule links_frame) (auto simp: nth_append dest: lt)
  show ?thesis
  proof (cases "task_list s")
    case None
    then have "is = []" using ch(1) by (cases "is") auto
    then show ?thesis
      using None nm k ch
      by (auto simp: task_create_def sched_chain_def nth_append Let_def less_SucI)
  next
    case (Some h)
    then have ne: "is \<noteq> []" using ch(1) by (cases "is") auto
    have "length is \<le> length ?cs" using links_length [OF ch(1,2)] by simp
    moreover have "links ?cs (Some h) is" using l Some by simp
    ultimately have lc: "last_cell (length ?cs) ?cs h = Some (last is)"
      by (rule last_cell_links [rotated])
    let ?s' = "?s\<lparr>cells := ?cs[last is := (?cs ! last is)\<lparr>t_next := Some ?n\<rparr>]\<rparr>"
    have "?n \<notin> set is" using lt by blast
    then have "links (cells ?s') (task_list ?s') (is @ [?n])"
      using links_snoc [OF l ch(2) ne, of ?n] by simp
    moreover have "last is < ?n" using lt ne by simp
    ultimately have "sched_chain ?s' (is @ [?n])"
      using ch lt \<open>?n \<notin> set is\<close> by (auto simp: sched_chain_def nth_append nth_list_update)
    moreover have "task_create name k (m, s) = Some (?n, m1, ?s')"
      using Some nm k lc by (simp add: task_create_def Let_def del: length_append last_cell.simps)
    ultimately show ?thesis
      using nm k \<open>last is < ?n\<close> by (auto simp: nth_append nth_list_update)
  qed
qed

section \<open>Destruction\<close>

fun drop_pid :: "u32 \<Rightarrow> task list \<Rightarrow> nat list \<Rightarrow> nat list" where
  "drop_pid pid cs [] = []"
| "drop_pid pid cs (i # is) = (if t_pid (cs ! i) = pid then is else i # drop_pid pid cs is)"

lemma drop_pid_subset: "set (drop_pid pid cs is) \<subseteq> set is"
  by (induction "is") auto

lemma distinct_drop_pid: "distinct is \<Longrightarrow> distinct (drop_pid pid cs is)"
  using drop_pid_subset by (induction "is") auto

lemma map_drop_pid:
  "map (\<lambda>i. t_pid (cs ! i)) (drop_pid pid cs is) = remove1 pid (map (\<lambda>i. t_pid (cs ! i)) is)"
  by (induction "is") auto

lemma destroy_after_links:
  "links cs (Some h) (h # is) \<Longrightarrow> distinct (h # is) \<Longrightarrow> length (h # is) \<le> fuel \<Longrightarrow>
   \<exists>cs'. destroy_after fuel pid cs h = Some cs' \<and> length cs' = length cs \<and>
     links cs' (Some h) (h # drop_pid pid cs is) \<and>
     (\<forall>k. k \<notin> set (h # is) \<longrightarrow> cs' ! k = cs ! k) \<and>
     (\<forall>k \<in> set (h # drop_pid pid cs is). unlinked (cs' ! k) = unlinked (cs ! k))"
proof (induction fuel arbitrary: h "is")
  case 0
  then show ?case by simp
next
  case (Suc fuel)
  show ?case
  proof (cases "is")
    case Nil
    with Suc.prems show ?thesis by auto
  next
    case (Cons j js)
    from Suc.prems Cons have hj: "t_next (cs ! h) = Some j" "j < length cs" "h < length cs"
      "links cs (t_next (cs ! j)) js" "h \<noteq> j" "h \<notin> set js" "j \<notin> set js" "distinct js" by auto
    show ?thesis
    proof (cases "t_pid (cs ! j) = pid")
      case True
      let ?cs = "cs[h := (cs ! h)\<lparr>t_next := t_next (cs ! j)\<rparr>]"
      let ?cs' = "?cs[j := (?cs ! j)\<lparr>t_state := TASK_ZOMBIE\<rparr>]"
      have "destroy_after (Suc fuel) pid cs h = Some ?cs'"
        using hj True by (simp add: Let_def)
      moreover have "links ?cs' (t_next (cs ! j)) js"
        using hj(4) by (rule links_frame) (simp, metis hj(6,7) nth_list_update_neq)
      moreover have "\<forall>k \<in> set js. ?cs' ! k = cs ! k"
        using hj(6,7) by (metis nth_list_update_neq)
      ultimately show ?thesis using hj True Cons by auto
    next
      case False
      have lj: "links cs (Some j) (j # js)" "distinct (j # js)" "length (j # js) \<le> fuel"
        using Suc.prems Cons hj by auto
      from Suc.IH [OF lj] obtain cs' where c: "destroy_after fuel pid cs j = Some cs'"
        "length cs' = length cs" "links cs' (Some j) (j # drop_pid pid cs js)"
        "\<forall>k. k \<notin> set (j # js) \<longrightarrow> cs' ! k = cs ! k"
        "\<forall>k \<in> set (j # drop_pid pid cs js). unlinked (cs' ! k) = unlinked (cs ! k)" by blast
      have "cs' ! h = cs ! h" using c(4) hj by auto
      then show ?thesis using c hj False Cons by auto
    qed
  qed
qed

lemma unlinked_eqD: "unlinked t = unlinked u \<Longrightarrow> t_pid t = t_pid u \<and> t_state t = t_state u"
  by (metis task.select_convs(1,3) task.surjective task.update_convs(7))

lemma task_destroy_chain:
  assumes "sched_chain s is"
  shows "\<exists>s'. task_destroy pid s = Some s' \<and> sched_chain s' (drop_pid pid (cells s) is) \<and>
    task_pids s' = remove1 pid (task_pids s) \<and> next_pid s' = next_pid s \<and>
    current_task s' = current_task s"
proof -
  have ch: "links (cells s) (task_list s) is" "distinct is"
    "\<forall>i \<in> set is. t_state (cells s ! i) \<noteq> TASK_ZOMBIE"
    "\<forall>i. current_task s = Some i \<longrightarrow> i < length (cells s)"
    using assms by (simp_all add: sched_chain_def)
  show ?thesis
  proof (cases "task_list s")
    case None
    then have "is = []" using ch(1) by (cases "is") auto
    then show ?thesis using None assms by (simp add: task_destroy_def task_pids_chain [OF assms])
  next
    case (Some h)
    then obtain js where js: "is = h # js" using ch(1) by (cases "is") auto
    have h: "h < length (cells s)" "links (cells s) (t_next (cells s ! h)) js" "h \<notin> set js" "distinct js"
      using ch js Some by auto
    show ?thesis
    proof (cases "t_pid (cells s ! h) = pid")
      case True
      let ?s = "s\<lparr>task_list := t_next (cells s ! h),
                  cells := (cells s)[h := (cells s ! h)\<lparr>t_state := TASK_ZOMBIE\<rparr>]\<rparr>"
      have "links (cells ?s) (t_next (cells s ! h)) js"
        using h(2) by (rule links_frame) (simp_all, metis h(3) nth_list_update_neq)
      then have c: "sched_chain ?s js"
        using ch js h by (auto simp: sched_chain_def nth_list_update)
      have "task_pids ?s = map (\<lambda>i. t_pid (cells s ! i)) js"
        using h by (auto simp: task_pids_chain [OF c] nth_list_update)
      then show ?thesis
        using Some True c js by (simp add: task_destroy_def task_pids_chain [OF assms])
    next
      case False
      have "length (h # js) \<le> length (cells s)" using links_length [OF ch(1,2)] js by simp
      from destroy_after_links [of "cells s" h js "length (cells s)" pid, OF _ _ this]
      obtain cs' where c: "destroy_after (length (cells s)) pid (cells s) h = Some cs'"
        "length cs' = length (cells s)" "links cs' (Some h) (h # drop_pid pid (cells s) js)"
        "\<forall>k \<in> set (h # drop_pid pid (cells s) js). unlinked (cs' ! k) = unlinked (cells s ! k)"
        using ch js Some by auto
      let ?s = "s\<lparr>cells := cs'\<rparr>" and ?is = "h # drop_pid pid (cells s) js"
      have same: "t_pid (cs' ! k) = t_pid (cells s ! k) \<and> t_state (cs' ! k) = t_state (cells s ! k)"
        if "k \<in> set ?is" for k
        using c(4) that unlinked_eqD by blast
      have sub: "set ?is \<subseteq> set is" using drop_pid_subset js by auto
      have d: "distinct ?is" using h distinct_drop_pid drop_pid_subset by fastforce
      have cc: "sched_chain ?s ?is"
        using ch c d sub same Some by (auto simp: sched_chain_def)
      have "task_pids ?s = map (\<lambda>i. t_pid (cells s ! i)) ?is"
        using same by (simp add: task_pids_chain [OF cc])
      then show ?thesis
        using Some False c cc js map_drop_pid [of "cells s" pid js]
        by (simp add: task_destroy_def task_pids_chain [OF assms])
    qed
  qed
qed

section \<open>The process table contract\<close>

text \<open>
  The list of pids is what the task manager and the shell see. \<open>spawn\<close> adds a pid at the end,
  \<open>kill\<close> removes the first occurrence of one, and neither gets lost in the pointers.
\<close>

locale process_table =
  fixes pids :: "'s \<Rightarrow> u32 list"
    and fresh :: "'s \<Rightarrow> u32"
    and spawn :: "string \<Rightarrow> 's \<Rightarrow> 's option"
    and kill :: "u32 \<Rightarrow> 's \<Rightarrow> 's option"
    and inv :: "'s \<Rightarrow> bool"
  assumes spawn_law: "inv s \<Longrightarrow> \<exists>s'. spawn n s = Some s' \<and> inv s' \<and>
      pids s' = pids s @ [fresh s] \<and> fresh s' = fresh s + 1"
    and kill_law: "inv s \<Longrightarrow> \<exists>s'. kill p s = Some s' \<and> inv s' \<and>
      pids s' = remove1 p (pids s) \<and> fresh s' = fresh s"
begin

lemma spawn_then_kill:
  assumes "inv s" and "fresh s \<notin> set (pids s)"
  shows "\<exists>s1 s2. spawn n s = Some s1 \<and> kill (fresh s) s1 = Some s2 \<and> inv s2 \<and> pids s2 = pids s"
proof -
  from spawn_law [OF assms(1)] obtain s1 where s1: "spawn n s = Some s1" "inv s1"
    "pids s1 = pids s @ [fresh s]" by blast
  from kill_law [OF s1(2)] obtain s2 where "kill (fresh s) s1 = Some s2" "inv s2"
    "pids s2 = remove1 (fresh s) (pids s1)" by blast
  with s1 assms(2) show ?thesis by (auto simp: remove1_append)
qed

end

definition spawn_task :: "string \<Rightarrow> mm \<times> sched \<Rightarrow> (mm \<times> sched) option" where
  "spawn_task n st = map_option snd (task_create n 1 st)"

definition kill_task :: "u32 \<Rightarrow> mm \<times> sched \<Rightarrow> (mm \<times> sched) option" where
  "kill_task p st = map_option (Pair (fst st)) (task_destroy p (snd st))"

lemma task_create_refines:
  assumes "sched_ok s"
  shows "\<exists>i m' s'. task_create n k (m, s) = Some (i, m', s') \<and> sched_ok s' \<and>
    task_pids s' = task_pids s @ [next_pid s] \<and> next_pid s' = next_pid s + 1"
proof -
  from assms obtain "is" where ch: "sched_chain s is" by (auto simp: sched_ok_def)
  from task_create_chain [OF ch, of n k m] obtain m' s' where
    c: "task_create n k (m, s) = Some (length (cells s), m', s')"
       "sched_chain s' (is @ [length (cells s)])" "next_pid s' = next_pid s + 1"
       "t_pid (cells s' ! length (cells s)) = next_pid s"
       "\<forall>i < length (cells s). unlinked (cells s' ! i) = unlinked (cells s ! i)" by blast
  have lt: "i \<in> set is \<Longrightarrow> i < length (cells s)" for i
    using ch links_range by (auto simp: sched_chain_def)
  have "t_pid (cells s' ! i) = t_pid (cells s ! i)" if "i \<in> set is" for i
    using c(5) lt [OF that] unlinked_eqD by blast
  then have "map (\<lambda>i. t_pid (cells s' ! i)) is = map (\<lambda>i. t_pid (cells s ! i)) is" by simp
  then have "task_pids s' = task_pids s @ [next_pid s]"
    using c(4) by (simp add: task_pids_chain [OF ch] task_pids_chain [OF c(2)])
  with c show ?thesis by (auto simp: sched_ok_def)
qed

interpretation tasks: process_table "\<lambda>st. task_pids (snd st)" "\<lambda>st. next_pid (snd st)"
  spawn_task kill_task "\<lambda>st. sched_ok (snd st)"
proof (unfold_locales, goal_cases)
  case (1 s n)
  then show ?case
    using task_create_refines [of "snd s" n 1 "fst s"] by (auto simp: spawn_task_def)
next
  case (2 s p)
  then obtain "is" where "sched_chain (snd s) is" by (auto simp: sched_ok_def)
  from task_destroy_chain [OF this, of p] show ?case
    by (auto simp: kill_task_def sched_ok_def)
qed

section \<open>Properties\<close>

lemma sched_boot_ok: "sched_ok sched_boot"
proof -
  have "sched_chain sched_boot []" by (simp add: sched_chain_def sched_boot_def)
  then show ?thesis by (auto simp: sched_ok_def)
qed

text \<open>C6 (task_list_refines): the pointer list implements a list of pids: creation never gets lost on
  its walk to the tail and appends the next pid, destruction removes the first task with
  the pid and leaves the list alone when there is none; both keep the list well formed.\<close>

theorem task_list_refines:
  assumes "sched_ok s"
  shows "(\<exists>i m' s'. task_create n k (m, s) = Some (i, m', s') \<and> sched_ok s' \<and>
            task_pids s' = task_pids s @ [next_pid s])
       \<and> (\<exists>s'. task_destroy p s = Some s' \<and> sched_ok s' \<and> task_pids s' = remove1 p (task_pids s))"
proof
  show "\<exists>i m' s'. task_create n k (m, s) = Some (i, m', s') \<and> sched_ok s' \<and>
            task_pids s' = task_pids s @ [next_pid s]"
    using task_create_refines [OF assms, of n k m] by blast
  from assms obtain "is" where "sched_chain s is" by (auto simp: sched_ok_def)
  from task_destroy_chain [OF this, of p]
  show "\<exists>s'. task_destroy p s = Some s' \<and> sched_ok s' \<and> task_pids s' = remove1 p (task_pids s)"
    by (auto simp: sched_ok_def)
qed

theorem task_list_refines_witness:
  "sched_ok sched_boot \<and>
   (\<exists>i m' s'. task_create ''init'' 1 (mm_boot, sched_boot) = Some (i, m', s') \<and> sched_ok s' \<and>
      task_pids s' = task_pids sched_boot @ [next_pid sched_boot])"
  using task_list_refines [OF sched_boot_ok] sched_boot_ok by blast

text \<open>The fact \<open>spawn_kill_restores\<close>: creating a task and destroying it by its pid leaves the list of
  pids as it was, as long as the pid counter has not come round to a pid in use.\<close>

theorem spawn_kill_restores:
  assumes "sched_ok s" and "next_pid s \<notin> set (task_pids s)"
  shows "\<exists>i m' s' s''. task_create n 1 (m, s) = Some (i, m', s') \<and>
    task_destroy (next_pid s) s' = Some s'' \<and> sched_ok s'' \<and> task_pids s'' = task_pids s"
  using tasks.spawn_then_kill [of "(m, s)" n] assms
  by (fastforce simp: spawn_task_def kill_task_def)

theorem spawn_kill_restores_witness:
  "next_pid sched_boot \<notin> set (task_pids sched_boot) \<and>
   (\<exists>i m' s' s''. task_create ''yano'' 1 (mm_boot, sched_boot) = Some (i, m', s') \<and>
     task_destroy (next_pid sched_boot) s' = Some s'' \<and> sched_ok s'' \<and>
     task_pids s'' = task_pids sched_boot)"
proof -
  have h: "next_pid sched_boot \<notin> set (task_pids sched_boot)"
    by (simp add: task_pids_def sched_boot_def sys_get_tasks_def task_get_list_def)
  show ?thesis using h spawn_kill_restores [OF sched_boot_ok h] by blast
qed

text \<open>The fact \<open>task_views_agree\<close>: the task counter, and the copy that \<^verbatim>\<open>sys_get_tasks\<close> hands to the task
  manager, agree with the list: the count is its length, and the copy is its first
  \<open>max_tasks\<close> entries in order.\<close>

theorem task_views_agree:
  assumes "sched_ok s"
  shows "task_get_count s = Some (length (task_pids s))
       \<and> map t_pid (sys_get_tasks max_tasks s) = take max_tasks (task_pids s)"
proof -
  from assms obtain "is" where ch: "sched_chain s is" by (auto simp: sched_ok_def)
  then have l: "links (cells s) (task_list s) is" "length is \<le> length (cells s)"
    using links_length by (auto simp: sched_chain_def)
  have "task_get_count s = Some (length is)"
    unfolding task_get_count_def using ch l
    by (intro count_from_links) (auto simp: sched_chain_def)
  then show ?thesis
    by (simp add: sys_get_tasks_chain [OF ch] task_pids_chain [OF ch] take_map)
qed

theorem task_views_agree_witness:
  "task_get_count sched_boot = Some (length (task_pids sched_boot))
   \<and> map t_pid (sys_get_tasks 12 sched_boot) = take 12 (task_pids sched_boot)"
  by (rule task_views_agree [OF sched_boot_ok])

text \<open>A tick keeps the list, the current task and everything but one counter.\<close>

lemma scheduler_tick_chain:
  assumes "sched_chain s is"
  shows "sched_chain (fst (scheduler_tick (s, n))) is"
proof (cases "current_task s")
  case None
  then show ?thesis using assms by (simp add: scheduler_tick_def)
next
  case (Some c)
  then have c: "c < length (cells s)" using assms by (simp add: sched_chain_def)
  let ?cs = "(cells s)[c := (cells s ! c)\<lparr>t_runtime_ticks := t_runtime_ticks (cells s ! c) + 1\<rparr>]"
  have nx: "t_next (?cs ! i) = t_next (cells s ! i)" "t_state (?cs ! i) = t_state (cells s ! i)" for i
    using c by (cases "i = c"; simp)+
  have "links cs p is = links ?cs p is" if "cs = cells s" for cs p
    unfolding that by (induction "is" arbitrary: p) (simp_all add: nx)
  then show ?thesis using assms Some nx(2) by (simp add: scheduler_tick_def sched_chain_def Let_def)
qed

lemma scheduler_tick_current [simp]: "current_task (fst (scheduler_tick (s, n))) = current_task s"
  by (simp add: scheduler_tick_def Let_def split: option.splits)

end
