(* ===== verification/PortIO.thy ===== *)
theory PortIO
  imports CString
begin

text \<open>
  Port input and output (\<^verbatim>\<open>kernel/kernel.h\<close>), the serial log of \<^verbatim>\<open>kernel/kernel.c\<close>, and the
  interrupt tables of \<^verbatim>\<open>kernel/interrupts/idt.c\<close>.

  The devices are a parameter: \<open>hw_inb hw tr p\<close> is the byte that port \<open>p\<close> delivers after
  the events \<open>tr\<close>, the trace of all port accesses so far, oldest first. The code's effect
  on the hardware is the trace it leaves.
\<close>

section \<open>Ports\<close>

datatype io_event =
    OutB u16 u8
  | OutW u16 u16
  | OutL u16 u32
  | InB u16 u8
  | InL u16 u32

type_synonym trace = "io_event list"

record hardware =
  hw_inb :: "trace \<Rightarrow> u16 \<Rightarrow> u8"
  hw_inl :: "trace \<Rightarrow> u16 \<Rightarrow> u32"

definition outb :: "u16 \<Rightarrow> u8 \<Rightarrow> trace \<Rightarrow> trace" where
  "outb port val tr = tr @ [OutB port val]"

definition outw :: "u16 \<Rightarrow> u16 \<Rightarrow> trace \<Rightarrow> trace" where
  "outw port val tr = tr @ [OutW port val]"

definition outl :: "u16 \<Rightarrow> u32 \<Rightarrow> trace \<Rightarrow> trace" where
  "outl port val tr = tr @ [OutL port val]"

definition inb :: "hardware \<Rightarrow> u16 \<Rightarrow> trace \<Rightarrow> u8 \<times> trace" where
  "inb hw port tr = (let ret = hw_inb hw tr port in (ret, tr @ [InB port ret]))"

definition inl :: "hardware \<Rightarrow> u16 \<Rightarrow> trace \<Rightarrow> u32 \<times> trace" where
  "inl hw port tr = (let ret = hw_inl hw tr port in (ret, tr @ [InL port ret]))"

lemmas port_defs [io_simps] = outb_def outw_def outl_def inb_def inl_def

section \<open>The serial log\<close>

text \<open>
  \<open>serial_wait\<close> is the busy loop of \<^verbatim>\<open>serial_putc\<close>: it ends when the line status register
  reports an empty transmitter, and is \<open>None\<close> on hardware that never does.
\<close>

partial_function (option) serial_wait :: "hardware \<Rightarrow> trace \<Rightarrow> trace option" where
  "serial_wait hw tr =
     (let (st, tr) = inb hw (0x3F8 + 5) tr in
      if st AND 0x20 = 0 then serial_wait hw tr else Some tr)"

definition serial_putc :: "hardware \<Rightarrow> char \<Rightarrow> trace \<Rightarrow> trace option" where
  "serial_putc hw c tr =
     (case serial_wait hw tr of None \<Rightarrow> None | Some tr \<Rightarrow> Some (outb 0x3F8 (byte_of c) tr))"

fun serial_put_all :: "hardware \<Rightarrow> string \<Rightarrow> trace \<Rightarrow> trace option" where
  "serial_put_all hw [] tr = Some tr"
| "serial_put_all hw (c # cs) tr = do { tr \<leftarrow> serial_putc hw c tr; serial_put_all hw cs tr }"

definition serial_write :: "hardware \<Rightarrow> string \<Rightarrow> trace \<Rightarrow> trace option" where
  "serial_write hw str tr = serial_put_all hw (cstr str) tr"

definition log_ok :: "hardware \<Rightarrow> string \<Rightarrow> trace \<Rightarrow> trace option" where
  "log_ok hw msg tr = do {
     tr \<leftarrow> serial_write hw ''[  OK  ] '' tr;
     tr \<leftarrow> serial_write hw msg tr;
     serial_write hw [CHR 0x0A] tr
   }"

definition log_info :: "hardware \<Rightarrow> string \<Rightarrow> trace \<Rightarrow> trace option" where
  "log_info hw msg tr = do {
     tr \<leftarrow> serial_write hw ''[ INFO ] '' tr;
     tr \<leftarrow> serial_write hw msg tr;
     serial_write hw [CHR 0x0A] tr
   }"

text \<open>The set-up of the serial port at the start of \<^verbatim>\<open>kernel_main\<close>.\<close>

definition serial_setup :: "trace \<Rightarrow> trace" where
  "serial_setup tr =
     (let tr = outb (0x3F8 + 1) 0x00 tr;
          tr = outb (0x3F8 + 3) 0x80 tr;
          tr = outb (0x3F8 + 0) 0x03 tr;
          tr = outb (0x3F8 + 1) 0x00 tr;
          tr = outb (0x3F8 + 3) 0x03 tr;
          tr = outb (0x3F8 + 2) 0xC7 tr
      in outb (0x3F8 + 4) 0x0B tr)"

section \<open>The interrupt controller\<close>

definition pic_remap :: "trace \<Rightarrow> trace" where
  "pic_remap tr =
     (let tr = outb 0x20 0x11 tr;
          tr = outb 0xA0 0x11 tr;
          tr = outb 0x21 0x20 tr;
          tr = outb 0xA1 0x28 tr;
          tr = outb 0x21 0x04 tr;
          tr = outb 0xA1 0x02 tr;
          tr = outb 0x21 0x01 tr;
          tr = outb 0xA1 0x01 tr;
          tr = outb 0x21 0xF8 tr
      in outb 0xA1 0xEF tr)"

definition pic_send_eoi :: "u8 \<Rightarrow> trace \<Rightarrow> trace" where
  "pic_send_eoi irq tr =
     (let tr = (if irq \<ge> 8 then outb 0xA0 0x20 tr else tr) in outb 0x20 0x20 tr)"

section \<open>The interrupt descriptor table\<close>

record idt_entry =
  isr_low :: u16
  kernel_cs :: u16
  ist :: u8
  idt_attributes :: u8
  isr_mid :: u16
  isr_high :: u32
  idt_reserved :: u32

type_synonym idt = "idt_entry list"

definition idt_set_gate :: "u8 \<Rightarrow> u64 \<Rightarrow> u16 \<Rightarrow> u8 \<Rightarrow> idt \<Rightarrow> idt" where
  "idt_set_gate num base sel flags idt =
     idt[unat num :=
       \<lparr>isr_low = ucast (base AND 0xFFFF),
        kernel_cs = sel,
        ist = 0,
        idt_attributes = flags,
        isr_mid = ucast (drop_bit 16 base AND 0xFFFF),
        isr_high = ucast (drop_bit 32 base AND 0xFFFFFFFF),
        idt_reserved = 0\<rparr>]"

text \<open>
  \<^verbatim>\<open>idt_init\<close>: the addresses of the assembly stubs and the code segment are parameters. The
  loop index is an \<^verbatim>\<open>int\<close> that the call converts to \<^verbatim>\<open>uint8_t\<close>.
\<close>

definition idt_init :: "u64 \<Rightarrow> u64 \<Rightarrow> u64 \<Rightarrow> u16 \<Rightarrow> idt \<times> trace \<Rightarrow> idt \<times> trace" where
  "idt_init irq0_stub irq1_stub irq12_stub cs st =
     (let (idt, tr) = st;
          idt = for_up 0 256 (\<lambda>i. idt_set_gate (of_nat i) 0 0 0) idt;
          tr = pic_remap tr;
          idt = idt_set_gate 32 irq0_stub cs 0x8E idt;
          idt = idt_set_gate 33 irq1_stub cs 0x8E idt;
          idt = idt_set_gate 44 irq12_stub cs 0x8E idt
      in (idt, tr))"

text \<open>The address an entry points to, as the processor assembles it.\<close>

definition gate_target :: "idt_entry \<Rightarrow> u64" where
  "gate_target e =
     ucast (isr_low e) OR push_bit 16 (ucast (isr_mid e)) OR push_bit 32 (ucast (isr_high e))"

lemma gate_target_split:
  "gate_target
     \<lparr>isr_low = ucast (base AND 0xFFFF), kernel_cs = sel, ist = i, idt_attributes = f,
      isr_mid = ucast (drop_bit 16 base AND 0xFFFF),
      isr_high = ucast (drop_bit 32 base AND 0xFFFFFFFF), idt_reserved = r\<rparr> = (base :: u64)"
proof -
  have m16: "(0xFFFF :: u64) = mask 16" and m32: "(0xFFFFFFFF :: u64) = mask 32"
    by (simp_all add: mask_eq_exp_minus_1)
  show ?thesis
    unfolding gate_target_def m16 m32 idt_entry.simps
  proof (rule bit_word_eqI)
    fix n
    assume "n < LENGTH(64)"
    consider "n < 16" | "16 \<le> n" "n < 32" | "32 \<le> n" by linarith
    then show "bit (ucast (ucast (base AND mask 16) :: u16) OR
          push_bit 16 (ucast (ucast (drop_bit 16 base AND mask 16) :: u16)) OR
          push_bit 32 (ucast (ucast (drop_bit 32 base AND mask 32) :: u32)) :: u64) n = bit base n"
      using \<open>n < LENGTH(64)\<close>
      by cases (auto simp: bit_or_iff bit_and_iff bit_push_bit_iff bit_ucast_iff bit_drop_bit_eq bit_mask_iff)
  qed
qed

lemma length_idt_set_gate [simp]: "length (idt_set_gate n b s f idt) = length idt"
  by (simp add: idt_set_gate_def)

lemma idt_clear_loop:
  fixes idt :: idt
  assumes "length idt = 256" and "k \<le> 256"
  shows "length (for_up 0 k (\<lambda>i. idt_set_gate (of_nat i) 0 0 0) idt) = 256
    \<and> (\<forall>j < k. idt_attributes (for_up 0 k (\<lambda>i. idt_set_gate (of_nat i) 0 0 0) idt ! j) = 0)"
proof (rule for_up_inv [where P = "\<lambda>k idt. length idt = 256 \<and> (\<forall>j < k. idt_attributes (idt ! j) = 0)"])
  fix i and t :: idt
  assume "0 \<le> i" and ik: "i < k" and t: "length t = 256 \<and> (\<forall>j < i. idt_attributes (t ! j) = 0)"
  from ik assms(2) have "unat (of_nat i :: u8) = i" by (simp add: unat_of_nat)
  with t show "length (idt_set_gate (of_nat i) 0 0 0 t) = 256 \<and>
      (\<forall>j < Suc i. idt_attributes (idt_set_gate (of_nat i) 0 0 0 t ! j) = 0)"
    using ik assms(2) by (auto simp: idt_set_gate_def nth_list_update less_Suc_eq)
qed (use assms in auto)

text \<open>The fact \<open>idt_init_gates\<close>: after \<^verbatim>\<open>idt_init\<close> the vectors 32, 33 and 44 are present ring-0 interrupt gates
  that lead to the timer, keyboard and mouse stubs, and every other vector is not present.\<close>

theorem idt_init_gates:
  fixes idt :: idt
  assumes "length idt = 256" and "v < 256"
  shows "let e = fst (idt_init a0 a1 a12 cs (idt, tr)) ! v in
    if v = 32 then gate_target e = a0 \<and> idt_attributes e = 0x8E \<and> kernel_cs e = cs
    else if v = 33 then gate_target e = a1 \<and> idt_attributes e = 0x8E \<and> kernel_cs e = cs
    else if v = 44 then gate_target e = a12 \<and> idt_attributes e = 0x8E \<and> kernel_cs e = cs
    else idt_attributes e = 0"
proof -
  let ?idt = "for_up 0 256 (\<lambda>i. idt_set_gate (of_nat i) 0 0 0) idt"
  have l: "length ?idt = 256" and z: "\<forall>j < 256. idt_attributes (?idt ! j) = 0"
    using idt_clear_loop [OF assms(1), of 256] by simp_all
  have "fst (idt_init a0 a1 a12 cs (idt, tr)) =
      idt_set_gate 44 a12 cs 0x8E (idt_set_gate 33 a1 cs 0x8E (idt_set_gate 32 a0 cs 0x8E ?idt))"
    by (simp add: idt_init_def)
  moreover have "unat (32 :: u8) = 32" "unat (33 :: u8) = 33" "unat (44 :: u8) = 44" by simp_all
  ultimately show ?thesis
    using l z assms(2) by (simp add: Let_def idt_set_gate_def nth_list_update gate_target_split)
qed

theorem idt_init_gates_witness:
  "gate_target (fst (idt_init 0xFFFFFFFF80001000 2 3 8
     (replicate 256 \<lparr>isr_low = 0, kernel_cs = 0, ist = 0, idt_attributes = 0, isr_mid = 0,
       isr_high = 0, idt_reserved = 0\<rparr>, [])) ! 32) = 0xFFFFFFFF80001000"
proof -
  let ?idt = "replicate 256 \<lparr>isr_low = 0, kernel_cs = 0, ist = 0, idt_attributes = 0, isr_mid = 0,
       isr_high = 0, idt_reserved = 0\<rparr>"
  have "length ?idt = 256" and "(32::nat) < 256" by simp_all
  from idt_init_gates [OF this, where ?a0.0 = "0xFFFFFFFF80001000" and ?a1.0 = 2 and ?a12.0 = 3 and cs = 8 and tr = "[]"]
  show ?thesis by (simp only: Let_def if_True)
qed

section \<open>The serial log writes its text\<close>

text \<open>The bytes a trace sends to the serial data port.\<close>

fun serial_bytes :: "trace \<Rightarrow> u8 list" where
  "serial_bytes [] = []"
| "serial_bytes (OutB p v # tr) = (if p = 0x3F8 then v # serial_bytes tr else serial_bytes tr)"
| "serial_bytes (_ # tr) = serial_bytes tr"

lemma serial_bytes_append [simp]: "serial_bytes (xs @ ys) = serial_bytes xs @ serial_bytes ys"
  by (induction xs rule: serial_bytes.induct) auto

lemma serial_wait_bytes: "serial_wait hw tr = Some tr' \<Longrightarrow> serial_bytes tr' = serial_bytes tr"
proof (erule serial_wait.raw_induct [rotated])
  fix f hw tr and r :: trace
  assume IH: "\<And>hw tr r. f hw tr = Some r \<Longrightarrow> serial_bytes r = serial_bytes tr"
    and eq: "(let (st, tr) = inb hw (0x3F8 + 5) tr in
      if st AND 0x20 = 0 then f hw tr else Some tr) = Some r"
  show "serial_bytes r = serial_bytes tr"
    using eq IH by (fastforce simp: inb_def Let_def split: if_splits)
qed

lemma serial_put_all_bytes:
  "serial_put_all hw s tr = Some tr' \<Longrightarrow> serial_bytes tr' = serial_bytes tr @ map byte_of s"
proof (induction s arbitrary: tr)
  case Nil
  then show ?case by simp
next
  case (Cons c cs)
  then obtain t1 where t1: "serial_wait hw tr = Some t1"
    and rest: "serial_put_all hw cs (outb 0x3F8 (byte_of c) t1) = Some tr'"
    by (auto simp: serial_putc_def split: option.splits bind_splits)
  from Cons.IH [OF rest] serial_wait_bytes [OF t1] show ?case by (simp add: outb_def)
qed

text \<open>A transmitter that reports ready at every poll makes every write return.\<close>

definition serial_ready :: "hardware \<Rightarrow> bool" where
  "serial_ready hw \<longleftrightarrow> (\<forall>tr. hw_inb hw tr 0x3FD AND 0x20 \<noteq> 0)"

lemma serial_put_all_ready: "serial_ready hw \<Longrightarrow> \<exists>tr'. serial_put_all hw s tr = Some tr'"
proof (induction s arbitrary: tr)
  case Nil
  then show ?case by simp
next
  case (Cons c cs)
  have "serial_wait hw tr = Some (snd (inb hw 0x3FD tr))"
    using Cons.prems by (subst serial_wait.simps) (simp add: inb_def serial_ready_def Let_def)
  with Cons show ?case by (simp add: serial_putc_def)
qed

text \<open>On a ready serial port \<^verbatim>\<open>log_ok\<close> returns and sends exactly its prefix, the
  message and a newline.\<close>

theorem log_ok_output:
  assumes "serial_ready hw"
  shows "\<exists>tr'. log_ok hw msg tr = Some tr' \<and>
    serial_bytes tr' = serial_bytes tr @ map byte_of (''[  OK  ] '' @ cstr msg @ [CHR 0x0A])"
proof -
  obtain t1 where t1: "serial_put_all hw ''[  OK  ] '' tr = Some t1"
    using serial_put_all_ready [OF assms] by blast
  obtain t2 where t2: "serial_put_all hw (cstr msg) t1 = Some t2"
    using serial_put_all_ready [OF assms] by blast
  obtain t3 where t3: "serial_put_all hw [CHR 0x0A] t2 = Some t3"
    using serial_put_all_ready [OF assms] by blast
  have "log_ok hw msg tr = Some t3"
    using t1 t2 t3 by (simp add: log_ok_def serial_write_def)
  with serial_put_all_bytes [OF t1] serial_put_all_bytes [OF t2] serial_put_all_bytes [OF t3]
  show ?thesis by simp
qed

definition ready_hw :: hardware where
  "ready_hw = \<lparr>hw_inb = (\<lambda>_ _. 0x20), hw_inl = (\<lambda>_ _. 0)\<rparr>"

theorem log_ok_output_witness:
  "serial_ready ready_hw \<and> (\<exists>tr'. log_ok ready_hw ''boot'' [] = Some tr' \<and>
    serial_bytes tr' = serial_bytes [] @ map byte_of (''[  OK  ] '' @ cstr ''boot'' @ [CHR 0x0A]))"
proof -
  have r: "serial_ready ready_hw" by (simp add: serial_ready_def ready_hw_def)
  show ?thesis using r log_ok_output [OF r, of "''boot''" "[]"] by blast
qed

end
