(* ===== verification/Timer.thy ===== *)
theory Timer
  imports Sched PortIO
begin

text \<open>
  The programmable interval timer (\<^verbatim>\<open>kernel/time/pit.c\<close>), the speaker driver with its note
  queue (\<^verbatim>\<open>drivers/sound.c\<close>) and the timer interrupt that drives both and the scheduler's
  accounting. The record \<open>core\<close> is the part of the kernel's state the timer interrupt works on;
  the kernel's record extends it.
\<close>

section \<open>State\<close>

record pit =
  kernel_ticks :: u64
  idle_ticks :: u64
  timer_frequency :: u32

record note_t =
  freq :: u32
  duration_ms :: u32

definition SOUND_QUEUE_SIZE :: nat where
  "SOUND_QUEUE_SIZE = 16"

record sound =
  sound_queue :: "note_t list"
  sound_q_head :: nat
  sound_q_tail :: nat
  current_note_end_ms :: u64
  sound_is_playing :: bool

record core =
  c_mm :: mm
  c_sched :: sched
  c_pit :: pit
  c_sound :: sound
  c_trace :: trace

definition sound_boot :: sound where
  "sound_boot = \<lparr>sound_queue = replicate SOUND_QUEUE_SIZE \<lparr>freq = 0, duration_ms = 0\<rparr>,
     sound_q_head = 0, sound_q_tail = 0, current_note_end_ms = 0, sound_is_playing = False\<rparr>"

definition pit_boot :: pit where
  "pit_boot = \<lparr>kernel_ticks = 0, idle_ticks = 0, timer_frequency = 1000\<rparr>"

section \<open>The timer\<close>

text \<open>Setting the frequency; a frequency of zero makes the processor trap on the division.\<close>

definition pit_init :: "u32 \<Rightarrow> pit \<times> trace \<Rightarrow> (pit \<times> trace) option" where
  "pit_init frequency st =
     (let (p, tr) = st; p = p\<lparr>timer_frequency := frequency\<rparr> in
      if frequency = 0 then None
      else (let divisor = 1193182 div frequency;
                tr = outb 0x43 0x36 tr;
                tr = outb 0x40 (ucast (divisor AND 0xFF)) tr;
                tr = outb 0x40 (ucast (drop_bit 8 divisor AND 0xFF)) tr
            in Some (p, tr)))"

definition uptime_ms :: "pit \<Rightarrow> u64" where
  "uptime_ms p = (kernel_ticks p * 1000) div ucast (timer_frequency p)"

definition sleep_target :: "u32 \<Rightarrow> pit \<Rightarrow> u64" where
  "sleep_target ms p = kernel_ticks p + (ucast ms * ucast (timer_frequency p)) div 1000"

section \<open>The speaker\<close>

definition sound_stop :: "hardware \<Rightarrow> sound \<times> trace \<Rightarrow> sound \<times> trace" where
  "sound_stop hw st =
     (let (s, tr) = st;
          (v, tr) = inb hw 0x61 tr;
          tmp = v AND 0xFC;
          tr = outb 0x61 tmp tr
      in (s\<lparr>sound_is_playing := False\<rparr>, tr))"

definition sound_play :: "hardware \<Rightarrow> u32 \<Rightarrow> sound \<times> trace \<Rightarrow> sound \<times> trace" where
  "sound_play hw frequency st =
     (if frequency = 0 then sound_stop hw st
      else (let (s, tr) = st;
                dv = 1193180 div frequency;
                tr = outb 0x43 0xB6 tr;
                tr = outb 0x42 (ucast (dv AND 0xFF)) tr;
                tr = outb 0x42 (ucast (drop_bit 8 dv AND 0xFF)) tr;
                (tmp, tr) = inb hw 0x61 tr
            in if tmp \<noteq> (tmp OR 3) then (s, outb 0x61 (tmp OR 3) tr) else (s, tr)))"

definition sound_enqueue :: "u32 \<Rightarrow> u32 \<Rightarrow> sound \<Rightarrow> sound" where
  "sound_enqueue frequency dur s =
     (let next_tail = (sound_q_tail s + 1) mod SOUND_QUEUE_SIZE in
      if next_tail \<noteq> sound_q_head s
      then s\<lparr>sound_queue := (sound_queue s)[sound_q_tail s := \<lparr>freq = frequency, duration_ms = dur\<rparr>],
             sound_q_tail := next_tail\<rparr>
      else s)"

definition sound_tick :: "hardware \<Rightarrow> pit \<Rightarrow> sound \<times> trace \<Rightarrow> sound \<times> trace" where
  "sound_tick hw p st =
     (let (s, tr) = st in
      if sound_is_playing s then
        (if uptime_ms p \<ge> current_note_end_ms s then sound_stop hw (s, tr) else (s, tr))
      else if sound_q_head s \<noteq> sound_q_tail s then
        (let n = sound_queue s ! sound_q_head s;
             s = s\<lparr>sound_q_head := (sound_q_head s + 1) mod SOUND_QUEUE_SIZE\<rparr>;
             (s, tr) = (if freq n > 0 then sound_play hw (freq n) (s, tr) else sound_stop hw (s, tr));
             s = s\<lparr>sound_is_playing := True\<rparr>
         in (s\<lparr>current_note_end_ms := uptime_ms p + ucast (duration_ms n)\<rparr>, tr))
      else (s, tr))"

section \<open>The timer interrupt\<close>

definition irq0_handler :: "hardware \<Rightarrow> 'a core_scheme \<Rightarrow> 'a core_scheme" where
  "irq0_handler hw k =
     (let p = (c_pit k)\<lparr>kernel_ticks := kernel_ticks (c_pit k) + 1\<rparr>;
          (sc, idle) = scheduler_tick (c_sched k, idle_ticks p);
          p = p\<lparr>idle_ticks := idle\<rparr>;
          (sd, tr) = sound_tick hw p (c_sound k, c_trace k);
          tr = pic_send_eoi 0 tr
      in k\<lparr>c_pit := p, c_sched := sc, c_sound := sd, c_trace := tr\<rparr>)"

section \<open>The note queue\<close>

definition sound_ok :: "sound \<Rightarrow> bool" where
  "sound_ok s \<longleftrightarrow> length (sound_queue s) = SOUND_QUEUE_SIZE \<and>
     sound_q_head s < SOUND_QUEUE_SIZE \<and> sound_q_tail s < SOUND_QUEUE_SIZE"

text \<open>The abstraction: the notes from head to tail around the ring.\<close>

definition ring_count :: "nat \<Rightarrow> nat \<Rightarrow> nat" where
  "ring_count h t = (t + SOUND_QUEUE_SIZE - h) mod SOUND_QUEUE_SIZE"

definition sound_notes :: "sound \<Rightarrow> note_t list" where
  "sound_notes s = map (\<lambda>k. sound_queue s ! ((sound_q_head s + k) mod SOUND_QUEUE_SIZE))
                     [0..<ring_count (sound_q_head s) (sound_q_tail s)]"

lemma mod_16: "x < 32 \<Longrightarrow> x mod 16 = (if x < 16 then x else x - 16)" for x :: nat
  by (simp add: mod_if)

lemma ring_count_eq:
  "h < 16 \<Longrightarrow> t < 16 \<Longrightarrow> ring_count h t = (if h \<le> t then t - h else t + 16 - h)"
  by (auto simp: ring_count_def SOUND_QUEUE_SIZE_def mod_16)

lemma ring_next: "t < 16 \<Longrightarrow> (t + 1) mod 16 = (if t = 15 then 0 else t + 1)" for t :: nat
  by auto

lemma ring_count_step:
  assumes "h < 16" and "t < 16" and "(t + 1) mod 16 \<noteq> h"
  shows "ring_count h ((t + 1) mod 16) = Suc (ring_count h t)" and "(h + ring_count h t) mod 16 = t"
    and "ring_count h t < 15"
proof -
  show "ring_count h t < 15"
    using assms(1,2) assms(3) [unfolded ring_next [OF assms(2)]]
    by (auto simp: ring_count_eq split: if_splits)
  show "ring_count h ((t + 1) mod 16) = Suc (ring_count h t)"
    using assms unfolding ring_next [OF assms(2)] by (auto simp: ring_count_eq split: if_splits)
  show "(h + ring_count h t) mod 16 = t"
    using assms(1,2) by (auto simp: ring_count_eq mod_16)
qed

lemma ring_count_full:
  assumes "h < 16" and "t < 16" and "(t + 1) mod 16 = h"
  shows "ring_count h t = 15"
  using assms unfolding ring_next [OF assms(2)] by (auto simp: ring_count_eq split: if_splits)

lemma ring_slot_free:
  assumes "h < 16" and "t < 16" and "k < ring_count h t"
  shows "(h + k) mod 16 \<noteq> t"
proof -
  have "h + k < 32" using assms by (auto simp: ring_count_eq split: if_splits)
  then show ?thesis using assms by (auto simp: ring_count_eq mod_16 split: if_splits)
qed

lemma sound_enqueue_notes:
  assumes "sound_ok s"
  shows "sound_ok (sound_enqueue f d s) \<and>
    sound_notes (sound_enqueue f d s) =
      (if length (sound_notes s) < SOUND_QUEUE_SIZE - 1
       then sound_notes s @ [\<lparr>freq = f, duration_ms = d\<rparr>] else sound_notes s)"
proof -
  let ?h = "sound_q_head s" and ?t = "sound_q_tail s"
  have ht: "?h < 16" "?t < 16" "length (sound_queue s) = 16"
    using assms by (simp_all add: sound_ok_def SOUND_QUEUE_SIZE_def)
  show ?thesis
  proof (cases "(?t + 1) mod 16 = ?h")
    case True
    then show ?thesis
      using assms ring_count_full [OF ht(1,2) True]
      by (simp add: sound_enqueue_def sound_notes_def SOUND_QUEUE_SIZE_def)
  next
    case False
    let ?q = "(sound_queue s)[?t := \<lparr>freq = f, duration_ms = d\<rparr>]"
    note rc = ring_count_step [OF ht(1,2) False]
    have "map (\<lambda>k. ?q ! ((?h + k) mod 16)) [0..<ring_count ?h ?t]
        = map (\<lambda>k. sound_queue s ! ((?h + k) mod 16)) [0..<ring_count ?h ?t]"
    proof (rule map_cong [OF refl])
      fix k
      assume "k \<in> set [0..<ring_count ?h ?t]"
      then have "(?h + k) mod 16 \<noteq> ?t" using ring_slot_free [OF ht(1,2)] by simp
      then show "?q ! ((?h + k) mod 16) = sound_queue s ! ((?h + k) mod 16)" by simp
    qed
    moreover have "?q ! ((?h + ring_count ?h ?t) mod 16) = \<lparr>freq = f, duration_ms = d\<rparr>"
      using rc(2) ht by simp
    ultimately have n: "map (\<lambda>k. ?q ! ((?h + k) mod 16)) [0..<ring_count ?h ((?t + 1) mod 16)]
        = map (\<lambda>k. sound_queue s ! ((?h + k) mod 16)) [0..<ring_count ?h ?t] @ [\<lparr>freq = f, duration_ms = d\<rparr>]"
      by (simp only: rc(1)) simp
    have e: "sound_enqueue f d s = s\<lparr>sound_queue := ?q, sound_q_tail := (?t + 1) mod 16\<rparr>"
      using False by (simp add: sound_enqueue_def SOUND_QUEUE_SIZE_def)
    have "sound_notes (sound_enqueue f d s) = sound_notes s @ [\<lparr>freq = f, duration_ms = d\<rparr>]"
      unfolding e using n by (simp add: sound_notes_def SOUND_QUEUE_SIZE_def)
    then show ?thesis
      using assms rc(3) e by (simp add: sound_notes_def sound_ok_def SOUND_QUEUE_SIZE_def)
  qed
qed

text \<open>The head of the ring as the tick takes it off.\<close>

lemma sound_notes_take:
  assumes "sound_ok s" and "sound_q_head s \<noteq> sound_q_tail s"
  shows "sound_notes s = sound_queue s ! sound_q_head s #
    sound_notes (s\<lparr>sound_q_head := (sound_q_head s + 1) mod SOUND_QUEUE_SIZE\<rparr>)"
proof -
  let ?h = "sound_q_head s" and ?t = "sound_q_tail s"
  have ht: "?h < 16" "?t < 16" using assms(1) by (simp_all add: sound_ok_def SOUND_QUEUE_SIZE_def)
  obtain c where c: "ring_count ?h ?t = Suc c" "ring_count ((?h + 1) mod 16) ?t = c"
  proof (rule that)
    show "ring_count ?h ?t = Suc (ring_count ?h ?t - 1)"
      using ht assms(2) by (auto simp: ring_count_eq)
    show "ring_count ((?h + 1) mod 16) ?t = ring_count ?h ?t - 1"
      using ht assms(2) unfolding ring_next [OF ht(1)] by (auto simp: ring_count_eq)
  qed
  have "((?h + 1) mod 16 + k) mod 16 = (?h + Suc k) mod 16" for k
    by (simp add: mod_simps)
  then show ?thesis
    using ht c by (simp add: sound_notes_def SOUND_QUEUE_SIZE_def upt_conv_Cons map_Suc_upt [symmetric]
        o_def del: upt_Suc)
qed

lemma sound_notes_empty:
  "sound_ok s \<Longrightarrow> sound_notes s = [] \<longleftrightarrow> sound_q_head s = sound_q_tail s"
  by (auto simp: sound_notes_def ring_count_eq sound_ok_def SOUND_QUEUE_SIZE_def)

section \<open>The queue contract\<close>

locale bounded_queue =
  fixes items :: "'s \<Rightarrow> 'a list"
    and put :: "'a \<Rightarrow> 's \<Rightarrow> 's"
    and cap :: nat
    and inv :: "'s \<Rightarrow> bool"
  assumes put_law: "inv s \<Longrightarrow> inv (put x s) \<and>
      items (put x s) = (if length (items s) < cap then items s @ [x] else items s)"
begin

lemma put_all:
  "inv s \<Longrightarrow> inv (fold put xs s) \<and>
   items (fold put xs s) = items s @ take (cap - length (items s)) xs"
proof (induction xs arbitrary: s)
  case Nil
  then show ?case by simp
next
  case (Cons x xs)
  note put = put_law [OF Cons.prems, of x]
  show ?case
  proof (cases "length (items s) < cap")
    case True
    then obtain k where "cap - length (items s) = Suc k" "cap - Suc (length (items s)) = k"
      by (metis Suc_diff_Suc)
    then show ?thesis using Cons.IH [of "put x s"] put True by simp
  next
    case False
    then show ?thesis using Cons.IH [of "put x s"] put by simp
  qed
qed

end

definition enqueue_note :: "note_t \<Rightarrow> sound \<Rightarrow> sound" where
  "enqueue_note n s = sound_enqueue (freq n) (duration_ms n) s"

interpretation noteq: bounded_queue sound_notes enqueue_note "SOUND_QUEUE_SIZE - 1" sound_ok
proof (unfold_locales)
  fix s x
  assume "sound_ok s"
  moreover have "\<lparr>freq = freq x, duration_ms = duration_ms x\<rparr> = x" by simp
  ultimately show "sound_ok (enqueue_note x s) \<and>
      sound_notes (enqueue_note x s) =
        (if length (sound_notes s) < SOUND_QUEUE_SIZE - 1 then sound_notes s @ [x] else sound_notes s)"
    unfolding enqueue_note_def using sound_enqueue_notes [of s "freq x" "duration_ms x"] by presburger
qed

section \<open>Properties\<close>

lemma sound_boot_ok: "sound_ok sound_boot"
  by (simp add: sound_ok_def sound_boot_def SOUND_QUEUE_SIZE_def)

text \<open>C11 (sound_enqueue_fifo): the ring is a first-in-first-out queue of at most 15 notes: enqueueing
  a tune appends it in order behind the waiting notes, and what no longer fits is dropped
  from the end of the tune, never from the waiting notes.\<close>

theorem sound_enqueue_fifo:
  assumes "sound_ok s"
  shows "sound_ok (fold enqueue_note tune s) \<and>
    sound_notes (fold enqueue_note tune s) = sound_notes s @ take (15 - length (sound_notes s)) tune"
  using noteq.put_all [OF assms, of tune] by (simp add: SOUND_QUEUE_SIZE_def)

theorem sound_enqueue_fifo_witness:
  "sound_ok sound_boot \<and>
   sound_notes (fold enqueue_note [\<lparr>freq = 261, duration_ms = 150\<rparr>, \<lparr>freq = 0, duration_ms = 50\<rparr>] sound_boot) =
     [\<lparr>freq = 261, duration_ms = 150\<rparr>, \<lparr>freq = 0, duration_ms = 50\<rparr>]"
proof -
  have "sound_notes sound_boot = []"
    by (simp add: sound_notes_empty [OF sound_boot_ok]) (simp add: sound_boot_def)
  then show ?thesis
    using sound_boot_ok sound_enqueue_fifo [OF sound_boot_ok,
        of "[\<lparr>freq = 261, duration_ms = 150\<rparr>, \<lparr>freq = 0, duration_ms = 50\<rparr>]"] by simp
qed

lemma sound_play_frame:
  "sound_play hw f (s, tr) = (s', tr') \<Longrightarrow> s' = s \<or> s' = s\<lparr>sound_is_playing := False\<rparr>"
  by (auto simp: sound_play_def sound_stop_def Let_def split: if_splits prod.splits)

lemma sound_tick_queue:
  assumes "sound_ok s" and "\<not> sound_is_playing s" and "sound_notes s = n # ns"
  shows "\<exists>s' tr'. sound_tick hw p (s, tr) = (s', tr') \<and> sound_ok s' \<and> sound_notes s' = ns \<and>
    sound_is_playing s' \<and> current_note_end_ms s' = uptime_ms p + ucast (duration_ms n) \<and>
    tr' = snd (if freq n > 0 then sound_play hw (freq n) (s, tr) else sound_stop hw (s, tr))"
proof -
  have ne: "sound_q_head s \<noteq> sound_q_tail s" using sound_notes_empty [OF assms(1)] assms(3) by auto
  let ?s = "s\<lparr>sound_q_head := (sound_q_head s + 1) mod SOUND_QUEUE_SIZE\<rparr>"
  from sound_notes_take [OF assms(1) ne] assms(3)
  have n: "sound_queue s ! sound_q_head s = n" and ns: "sound_notes ?s = ns" by simp_all
  have ok: "sound_ok ?s" using assms(1) by (simp add: sound_ok_def SOUND_QUEUE_SIZE_def)
  let ?r = "if freq n > 0 then sound_play hw (freq n) (?s, tr) else sound_stop hw (?s, tr)"
  obtain s1 tr1 where r: "?r = (s1, tr1)" by (cases ?r)
  have s1: "s1 = ?s \<or> s1 = ?s\<lparr>sound_is_playing := False\<rparr>"
    using r by (auto simp: sound_stop_def Let_def split: if_splits prod.splits dest: sound_play_frame)
  have tr: "tr1 = snd (if freq n > 0 then sound_play hw (freq n) (s, tr) else sound_stop hw (s, tr))"
    using r by (auto simp: sound_play_def sound_stop_def Let_def split: if_splits prod.splits)
  have "sound_tick hw p (s, tr) =
      (s1\<lparr>sound_is_playing := True, current_note_end_ms := uptime_ms p + ucast (duration_ms n)\<rparr>, tr1)"
    using assms(2) ne n r by (cases "freq n > 0") (simp_all add: sound_tick_def Let_def)
  then show ?thesis
    using s1 ok ns tr by (auto simp: sound_ok_def sound_notes_def)
qed

lemma sound_tick_idle:
  "\<not> sound_is_playing s \<Longrightarrow> sound_q_head s = sound_q_tail s \<Longrightarrow> sound_tick hw p (s, tr) = (s, tr)"
  by (simp add: sound_tick_def)

lemma sound_tick_ok:
  assumes "sound_ok s"
  shows "sound_ok (fst (sound_tick hw p (s, tr)))"
proof (cases "sound_is_playing s \<or> sound_q_head s = sound_q_tail s")
  case True
  then show ?thesis
    using assms by (auto simp: sound_tick_def sound_stop_def sound_ok_def Let_def split: prod.splits)
next
  case False
  then obtain n ns where "sound_notes s = n # ns"
    using sound_notes_empty [OF assms] by (cases "sound_notes s") auto
  from sound_tick_queue [OF assms _ this, of hw p tr] False show ?thesis by auto
qed

text \<open>The fact \<open>sound_tick_plays_next\<close>: on a tick with no note playing, the oldest waiting note is taken off
  the queue and started, and its end is set to the present uptime plus its duration; the
  divisor sent to the speaker's timer is 1193180 divided by the frequency, low byte first,
  for every frequency from 19 Hz upwards.\<close>

theorem sound_tick_plays_next:
  assumes "sound_ok s" and "\<not> sound_is_playing s" and "sound_notes s = n # ns"
    and "19 \<le> unat (freq n)"
  shows "\<exists>s' lo hi rest. sound_tick hw p (s, tr) =
        (s', tr @ [OutB 0x43 0xB6, OutB 0x42 lo, OutB 0x42 hi] @ rest) \<and>
      unat lo + 256 * unat hi = 1193180 div unat (freq n) \<and>
      sound_notes s' = ns \<and> sound_is_playing s' \<and>
      current_note_end_ms s' = uptime_ms p + ucast (duration_ms n)"
proof -
  let ?dv = "1193180 div freq n"
  let ?lo = "ucast (?dv AND 0xFF) :: u8" and ?hi = "ucast (drop_bit 8 ?dv AND 0xFF) :: u8"
  have "unat ?dv = 1193180 div unat (freq n)" by (simp add: unat_div)
  moreover have "1193180 div unat (freq n) \<le> 1193180 div 19" using assms(4) by (intro div_le_mono2) auto
  ultimately have d: "unat ?dv = 1193180 div unat (freq n)" "unat ?dv < 65536" by simp_all
  have lo: "unat ?lo = unat ?dv mod 256" by (rule unat_low_byte)
  have hi: "unat ?hi = unat ?dv div 256 mod 256"
    by (simp only: unat_low_byte unat_drop_bit) simp
  have sum: "unat ?lo + 256 * unat ?hi = 1193180 div unat (freq n)"
    unfolding lo hi using d by simp
  have pos: "freq n > 0" using assms(4) by (auto simp: word_less_nat_alt)
  have "\<exists>rest. snd (sound_play hw (freq n) (s, tr)) =
      tr @ [OutB 0x43 0xB6, OutB 0x42 ?lo, OutB 0x42 ?hi] @ rest"
    using pos by (auto simp: sound_play_def Let_def inb_def outb_def)
  with sound_tick_queue [OF assms(1-3), of hw p tr] pos sum show ?thesis by fastforce
qed

definition silent_hw :: hardware where
  "silent_hw = \<lparr>hw_inb = (\<lambda>_ _. 0), hw_inl = (\<lambda>_ _. 0)\<rparr>"

definition one_note :: sound where
  "one_note = sound_enqueue 440 200 sound_boot"

lemma one_note_ok: "sound_ok one_note" "\<not> sound_is_playing one_note"
    "sound_notes one_note = [\<lparr>freq = 440, duration_ms = 200\<rparr>]"
proof -
  have n: "sound_notes sound_boot = []"
    by (simp add: sound_notes_empty [OF sound_boot_ok]) (simp add: sound_boot_def)
  note e = sound_enqueue_notes [OF sound_boot_ok, of 440 200]
  show "sound_ok one_note" using e by (simp add: one_note_def)
  show "\<not> sound_is_playing one_note"
    by (simp add: one_note_def sound_enqueue_def sound_boot_def Let_def)
  show "sound_notes one_note = [\<lparr>freq = 440, duration_ms = 200\<rparr>]"
    using e n by (simp add: one_note_def SOUND_QUEUE_SIZE_def)
qed

theorem sound_tick_plays_next_witness:
  "\<exists>s' lo hi rest. sound_tick silent_hw pit_boot (one_note, []) =
        (s', [OutB 0x43 0xB6, OutB 0x42 lo, OutB 0x42 hi] @ rest) \<and>
      unat lo + 256 * unat hi = 2711 \<and> sound_notes s' = [] \<and> sound_is_playing s' \<and>
      current_note_end_ms s' = 200"
proof -
  have f: "19 \<le> unat (freq \<lparr>freq = 440, duration_ms = 200\<rparr>)" by simp
  from sound_tick_plays_next [OF one_note_ok f, of silent_hw pit_boot "[]"]
  show ?thesis by (simp add: uptime_ms_def pit_boot_def)
qed

text \<open>\<^verbatim>\<open>sound_stop\<close>, which the Mute button of the sound player calls, ends the
  note that is playing but leaves the waiting notes in the queue: the next tick starts the
  first of them.\<close>

theorem mute_keeps_queue:
  assumes "sound_ok s" and "sound_notes s = n # ns"
  shows "let (s1, tr1) = sound_stop hw (s, tr); (s2, tr2) = sound_tick hw p (s1, tr1) in
    sound_notes s1 = n # ns \<and> sound_is_playing s2 \<and> sound_notes s2 = ns \<and>
    current_note_end_ms s2 = uptime_ms p + ucast (duration_ms n)"
proof -
  let ?s = "s\<lparr>sound_is_playing := False\<rparr>"
  obtain tr1 where st: "sound_stop hw (s, tr) = (?s, tr1)"
    by (cases "inb hw 0x61 tr") (simp add: sound_stop_def Let_def)
  have "sound_ok ?s" "\<not> sound_is_playing ?s" "sound_notes ?s = n # ns"
    using assms by (simp_all add: sound_ok_def sound_notes_def)
  from sound_tick_queue [OF this, of hw p tr1] show ?thesis
    using st \<open>sound_notes ?s = n # ns\<close> by (auto simp: Let_def)
qed

theorem mute_keeps_queue_witness:
  "let (s1, tr1) = sound_stop silent_hw (one_note, []);
       (s2, tr2) = sound_tick silent_hw pit_boot (s1, tr1) in
    sound_notes s1 = [\<lparr>freq = 440, duration_ms = 200\<rparr>] \<and> sound_is_playing s2 \<and> sound_notes s2 = [] \<and>
    current_note_end_ms s2 = uptime_ms pit_boot + ucast (duration_ms \<lparr>freq = 440, duration_ms = 200\<rparr>)"
  by (rule mute_keeps_queue [OF one_note_ok(1,3)])

text \<open>For a frequency from 19 to 1193182 Hz, \<^verbatim>\<open>pit_init\<close> programs channel 0
  with the divisor 1193182 divided by the frequency, which fits the two bytes it sends.\<close>

theorem pit_init_divisor:
  assumes "19 \<le> unat f" and "unat f \<le> 1193182"
  shows "\<exists>lo hi. pit_init f (p, tr) =
      Some (p\<lparr>timer_frequency := f\<rparr>, tr @ [OutB 0x43 0x36, OutB 0x40 lo, OutB 0x40 hi]) \<and>
      unat lo + 256 * unat hi = 1193182 div unat f \<and> 0 < unat lo + 256 * unat hi"
proof -
  let ?dv = "1193182 div f"
  have "unat ?dv = 1193182 div unat f" by (simp add: unat_div)
  moreover have "1193182 div unat f \<le> 1193182 div 19" using assms(1) by (intro div_le_mono2) auto
  ultimately have d: "unat ?dv = 1193182 div unat f" "unat ?dv < 65536" by simp_all
  let ?lo = "ucast (?dv AND 0xFF) :: u8" and ?hi = "ucast (drop_bit 8 ?dv AND 0xFF) :: u8"
  have lo: "unat ?lo = unat ?dv mod 256" by (rule unat_low_byte)
  have hi: "unat ?hi = unat ?dv div 256 mod 256"
    by (simp only: unat_low_byte unat_drop_bit) simp
  have sum: "unat ?lo + 256 * unat ?hi = 1193182 div unat f"
    unfolding lo hi using d by simp
  have "f \<noteq> 0" using assms(1) by auto
  then have "pit_init f (p, tr) =
      Some (p\<lparr>timer_frequency := f\<rparr>, tr @ [OutB 0x43 0x36, OutB 0x40 ?lo, OutB 0x40 ?hi])"
    by (simp add: pit_init_def outb_def Let_def)
  moreover have "0 < 1193182 div unat f" using assms by (simp add: div_greater_zero_iff)
  ultimately show ?thesis using sum by (intro exI [of _ ?lo] exI [of _ ?hi] conjI) simp_all
qed

theorem pit_init_divisor_witness:
  "\<exists>lo hi. pit_init 1000 (pit_boot, []) =
      Some (pit_boot\<lparr>timer_frequency := 1000\<rparr>, [] @ [OutB 0x43 0x36, OutB 0x40 lo, OutB 0x40 hi]) \<and>
      unat lo + 256 * unat hi = 1193182 div unat (1000 :: u32) \<and> 0 < unat lo + 256 * unat hi"
  by (rule pit_init_divisor) simp_all

section \<open>Accounting of the timer interrupt\<close>

definition current_is_init :: "sched \<Rightarrow> bool" where
  "current_is_init s \<longleftrightarrow>
     (\<exists>i. current_task s = Some i \<and> i < length (cells s) \<and> strcmp (t_name (cells s ! i)) ''init'' = 0)"

lemma scheduler_tick_init:
  assumes "current_is_init s"
  shows "current_is_init (fst (scheduler_tick (s, n)))" and "snd (scheduler_tick (s, n)) = n + 1"
  using assms by (auto simp: current_is_init_def scheduler_tick_def Let_def)

lemma irq0_ticks [simp]: "kernel_ticks (c_pit (irq0_handler hw k)) = kernel_ticks (c_pit k) + 1"
  by (simp add: irq0_handler_def Let_def split: prod.splits)

lemma irq0_sched: "c_sched (irq0_handler hw k) = fst (scheduler_tick (c_sched k, idle_ticks (c_pit k)))"
  by (simp add: irq0_handler_def Let_def split: prod.splits)

lemma irq0_idle: "idle_ticks (c_pit (irq0_handler hw k)) = snd (scheduler_tick (c_sched k, idle_ticks (c_pit k)))"
  by (simp add: irq0_handler_def Let_def split: prod.splits)

lemma irq0_sound_ok: "sound_ok (c_sound k) \<Longrightarrow> sound_ok (c_sound (irq0_handler hw k))"
  using sound_tick_ok [of "c_sound k"] by (auto simp: irq0_handler_def Let_def split: prod.splits)
    (metis fst_conv)

lemma irq0_mm [simp]: "c_mm (irq0_handler hw k) = c_mm k"
  by (simp add: irq0_handler_def Let_def split: prod.splits)

lemma irq0_frequency [simp]:
  "timer_frequency (c_pit (irq0_handler hw k)) = timer_frequency (c_pit k)"
  by (simp add: irq0_handler_def Let_def split: prod.splits)

text \<open>The fact \<open>irq0_accounting\<close>: the timer interrupt never switches tasks: over any number of ticks the
  current task stays the one it was, and when that is \<^verbatim>\<open>init\<close> the idle counter advances with
  every tick, so the busy time (kernel ticks less idle ticks) never grows.\<close>

theorem irq0_accounting:
  assumes "current_is_init (c_sched k)"
  shows "let k' = (irq0_handler hw ^^ n) k in
    current_task (c_sched k') = current_task (c_sched k) \<and>
    kernel_ticks (c_pit k') = kernel_ticks (c_pit k) + of_nat n \<and>
    kernel_ticks (c_pit k') - idle_ticks (c_pit k') = kernel_ticks (c_pit k) - idle_ticks (c_pit k)"
proof -
  have "current_is_init (c_sched ((irq0_handler hw ^^ n) k)) \<and>
    current_task (c_sched ((irq0_handler hw ^^ n) k)) = current_task (c_sched k) \<and>
    kernel_ticks (c_pit ((irq0_handler hw ^^ n) k)) = kernel_ticks (c_pit k) + of_nat n \<and>
    idle_ticks (c_pit ((irq0_handler hw ^^ n) k)) = idle_ticks (c_pit k) + of_nat n"
  proof (induction n)
    case 0
    then show ?case using assms by simp
  next
    case (Suc n)
    then show ?case
      using scheduler_tick_init by (simp add: irq0_sched irq0_idle)
  qed
  then show ?thesis by (simp add: Let_def)
qed

definition init_sched :: sched where
  "init_sched = \<lparr>cells = [\<lparr>t_pid = 1, t_name = ''init'' @ replicate 28 NUL, t_state = TASK_RUNNING,
       t_runtime_ticks = 0, t_stack_pointer = 0, t_is_kernel = 1, t_next = None\<rparr>],
     task_list = Some 0, current_task = Some 0, next_pid = 2\<rparr>"

definition core_boot :: core where
  "core_boot = \<lparr>c_mm = mm_boot, c_sched = init_sched, c_pit = pit_boot, c_sound = sound_boot, c_trace = []\<rparr>"

theorem irq0_accounting_witness:
  "current_is_init (c_sched core_boot) \<and>
   (let k' = (irq0_handler silent_hw ^^ 1000) core_boot in
    current_task (c_sched k') = current_task (c_sched core_boot) \<and>
    kernel_ticks (c_pit k') = kernel_ticks (c_pit core_boot) + of_nat 1000 \<and>
    kernel_ticks (c_pit k') - idle_ticks (c_pit k') =
      kernel_ticks (c_pit core_boot) - idle_ticks (c_pit core_boot))"
proof -
  have h: "current_is_init (c_sched core_boot)"
    by (simp add: current_is_init_def core_boot_def init_sched_def strcmp_zero_iff)
  show ?thesis using h irq0_accounting [OF h] by blast
qed

end
