(* ===== verification/Rtc.thy ===== *)
theory Rtc
  imports PortIO
begin

text \<open>
  The CMOS real-time clock (\<^verbatim>\<open>drivers/rtc.c\<close>). The two busy loops, waiting for an update to
  end and reading until two samples agree, are partial functions: \<open>None\<close> is a loop that
  never ends on the given hardware.
\<close>

section \<open>Reading the clock\<close>

definition updating_rtc :: "hardware \<Rightarrow> trace \<Rightarrow> u8 \<times> trace" where
  "updating_rtc hw tr =
     (let tr = outb 0x70 0x0A tr; (v, tr) = inb hw 0x71 tr in (v AND 0x80, tr))"

definition get_rtc_register :: "hardware \<Rightarrow> u8 \<Rightarrow> trace \<Rightarrow> u8 \<times> trace" where
  "get_rtc_register hw reg tr = inb hw 0x71 (outb 0x70 reg tr)"

record rtc_sample =
  rs_second :: u8
  rs_minute :: u8
  rs_hour :: u8
  rs_day :: u8
  rs_month :: u8
  rs_year :: u8

record datetime =
  dt_year :: int
  dt_month :: int
  dt_day :: int
  dt_hour :: int
  dt_minute :: int
  dt_second :: int

partial_function (option) rtc_wait :: "hardware \<Rightarrow> trace \<Rightarrow> trace option" where
  "rtc_wait hw tr =
     (let (busy, tr) = updating_rtc hw tr in if busy \<noteq> 0 then rtc_wait hw tr else Some tr)"

definition rtc_read_sample :: "hardware \<Rightarrow> trace \<Rightarrow> (rtc_sample \<times> trace) option" where
  "rtc_read_sample hw tr = do {
     tr \<leftarrow> rtc_wait hw tr;
     let (second, tr) = get_rtc_register hw 0x00 tr;
     let (minute, tr) = get_rtc_register hw 0x02 tr;
     let (hour, tr) = get_rtc_register hw 0x04 tr;
     let (day, tr) = get_rtc_register hw 0x07 tr;
     let (month, tr) = get_rtc_register hw 0x08 tr;
     let (year, tr) = get_rtc_register hw 0x09 tr;
     Some (\<lparr>rs_second = second, rs_minute = minute, rs_hour = hour,
            rs_day = day, rs_month = month, rs_year = year\<rparr>, tr)
   }"

text \<open>The \<^verbatim>\<open>do ... while\<close> loop: \<open>last_s\<close> is the sample of the round before.\<close>

partial_function (option) rtc_stable ::
    "hardware \<Rightarrow> rtc_sample \<Rightarrow> trace \<Rightarrow> (rtc_sample \<times> trace) option" where
  "rtc_stable hw last_s tr =
     Option.bind (rtc_read_sample hw tr)
       (\<lambda>(s, tr). if last_s \<noteq> s then rtc_stable hw s tr else Some (s, tr))"

definition bcd_to_int :: "int \<Rightarrow> int" where
  "bcd_to_int v = (v AND 0x0F) + ((v div 16) * 10)"

definition bcd_hour_to_int :: "int \<Rightarrow> int" where
  "bcd_hour_to_int v = ((v AND 0x0F) + (((v AND 0x70) div 16) * 10)) OR (v AND 0x80)"

definition rtc_convert :: "u8 \<Rightarrow> rtc_sample \<Rightarrow> datetime" where
  "rtc_convert registerB s =
     (let second = uint (rs_second s); minute = uint (rs_minute s); hour = uint (rs_hour s);
          day = uint (rs_day s); month = uint (rs_month s); year = uint (rs_year s);
          (second, minute, hour, day, month, year) =
            (if registerB AND 0x04 = 0
             then (bcd_to_int second, bcd_to_int minute, bcd_hour_to_int hour,
                   bcd_to_int day, bcd_to_int month, bcd_to_int year)
             else (second, minute, hour, day, month, year));
          hour = (if registerB AND 0x02 = 0 \<and> hour AND 0x80 \<noteq> 0
                  then ((hour AND 0x7F) + 12) mod 24 else hour)
      in \<lparr>dt_year = year + 2000, dt_month = month, dt_day = day,
          dt_hour = hour, dt_minute = minute, dt_second = second\<rparr>)"

definition rtc_get_datetime :: "hardware \<Rightarrow> trace \<Rightarrow> (datetime \<times> trace) option" where
  "rtc_get_datetime hw tr = do {
     (first_s, tr) \<leftarrow> rtc_read_sample hw tr;
     (s, tr) \<leftarrow> rtc_stable hw first_s tr;
     let (registerB, tr) = get_rtc_register hw 0x0B tr;
     Some (rtc_convert registerB s, tr)
   }"

section \<open>The clock as text\<close>

text \<open>
  \<^verbatim>\<open>'0' + n\<close> stored into a \<^verbatim>\<open>char\<close>. The division and remainder truncate as in C; the
  values come from \<open>rtc_get_datetime\<close> and are never negative.
\<close>

definition digit_char :: "int \<Rightarrow> char" where
  "digit_char n = char_of (48 + n)"

definition time_text :: "datetime \<Rightarrow> string" where
  "time_text t =
     [digit_char (dt_hour t div 10), digit_char (dt_hour t mod 10), CHR '':'',
      digit_char (dt_minute t div 10), digit_char (dt_minute t mod 10)]"

definition rtc_get_time_string ::
    "hardware \<Rightarrow> char list \<Rightarrow> int \<Rightarrow> trace \<Rightarrow> (char list \<times> trace) option" where
  "rtc_get_time_string hw buf buf_size tr = do {
     (t, tr) \<leftarrow> rtc_get_datetime hw tr;
     if buf_size < 6 then Some (buf, tr)
     else if length buf < 6 then None
     else Some (poke 0 (time_text t @ [NUL]) buf, tr)
   }"

lemma digit_char_digits [simp]:
  "digit_char 0 = CHR ''0''" "digit_char 1 = CHR ''1''" "digit_char 2 = CHR ''2''" "digit_char 3 = CHR ''3''"
  "digit_char 4 = CHR ''4''" "digit_char 5 = CHR ''5''" "digit_char 6 = CHR ''6''" "digit_char 7 = CHR ''7''"
  "digit_char 8 = CHR ''8''" "digit_char 9 = CHR ''9''"
  by code_simp+

definition date_text :: "datetime \<Rightarrow> string" where
  "date_text t =
     [digit_char (dt_year t div 1000), digit_char ((dt_year t div 100) mod 10),
      digit_char ((dt_year t div 10) mod 10), digit_char (dt_year t mod 10), CHR ''-'',
      digit_char (dt_month t div 10), digit_char (dt_month t mod 10), CHR ''-'',
      digit_char (dt_day t div 10), digit_char (dt_day t mod 10)]"

definition rtc_get_date_string ::
    "hardware \<Rightarrow> char list \<Rightarrow> int \<Rightarrow> trace \<Rightarrow> (char list \<times> trace) option" where
  "rtc_get_date_string hw buf buf_size tr = do {
     (t, tr) \<leftarrow> rtc_get_datetime hw tr;
     if buf_size < 11 then Some (buf, tr)
     else if length buf < 11 then None
     else Some (poke 0 (date_text t @ [NUL]) buf, tr)
   }"

section \<open>The encodings of the chip\<close>

text \<open>
  The register contents that stand for a time, as the chip's documentation gives them: bit 2
  of register B selects binary over BCD, bit 1 selects 24-hour over 12-hour counting, where
  bit 7 of the hours register marks the afternoon.
\<close>

definition to_bcd :: "nat \<Rightarrow> nat" where
  "to_bcd n = 16 * (n div 10) + n mod 10"

definition rtc_field :: "u8 \<Rightarrow> nat \<Rightarrow> nat" where
  "rtc_field registerB n = (if registerB AND 0x04 = 0 then to_bcd n else n)"

definition rtc_hour_field :: "u8 \<Rightarrow> nat \<Rightarrow> nat" where
  "rtc_hour_field registerB h =
     (if registerB AND 0x02 \<noteq> 0 then rtc_field registerB h
      else rtc_field registerB (if h mod 12 = 0 then 12 else h mod 12) + (if 12 \<le> h then 128 else 0))"

definition encode_time :: "u8 \<Rightarrow> nat \<Rightarrow> nat \<Rightarrow> nat \<Rightarrow> nat \<Rightarrow> nat \<Rightarrow> nat \<Rightarrow> rtc_sample" where
  "encode_time rb y mo d h mi s =
     \<lparr>rs_second = of_nat (rtc_field rb s), rs_minute = of_nat (rtc_field rb mi),
      rs_hour = of_nat (rtc_hour_field rb h), rs_day = of_nat (rtc_field rb d),
      rs_month = of_nat (rtc_field rb mo), rs_year = of_nat (rtc_field rb y)\<rparr>"

lemma bcd_table: "\<forall>n \<in> set [0..<100]. bcd_to_int (uint (of_nat (to_bcd n) :: u8)) = int n"
  by code_simp

lemma binary_table: "\<forall>n \<in> set [0..<100]. uint (of_nat n :: u8) = int n"
  by code_simp

lemma hour_table:
  "\<forall>h \<in> set [0..<24]. bcd_hour_to_int (uint (of_nat (to_bcd h) :: u8)) = int h \<and>
     int h AND 0x80 = 0"
  by code_simp

text \<open>The twelve-hour forms: register value, decoded value before and after the conversion.\<close>

definition hour12 :: "nat \<Rightarrow> nat" where
  "hour12 h = (if h mod 12 = 0 then 12 else h mod 12)"

definition pm_shift :: "int \<Rightarrow> int" where
  "pm_shift h = (if h AND 0x80 \<noteq> 0 then ((h AND 0x7F) + 12) mod 24 else h)"

lemma hour12_bcd_table:
  "\<forall>h \<in> set [0..<24].
     pm_shift (bcd_hour_to_int (uint (of_nat (to_bcd (hour12 h) + (if 12 \<le> h then 128 else 0)) :: u8))) =
       (if h = 0 then 12 else if h = 12 then 0 else int h)"
  by code_simp

lemma hour12_binary_table:
  "\<forall>h \<in> set [0..<24].
     pm_shift (uint (of_nat (hour12 h + (if 12 \<le> h then 128 else 0)) :: u8)) =
       (if h = 0 then 12 else if h = 12 then 0 else int h)"
  by code_simp

lemma rtc_field_decode:
  "n < 100 \<Longrightarrow> registerB AND 0x04 = 0 \<Longrightarrow> bcd_to_int (uint (of_nat (rtc_field registerB n) :: u8)) = int n"
  using bcd_table by (simp add: rtc_field_def)

lemma rtc_field_binary:
  "n < 100 \<Longrightarrow> registerB AND 0x04 \<noteq> 0 \<Longrightarrow> uint (of_nat (rtc_field registerB n) :: u8) = int n"
  using binary_table by (simp add: rtc_field_def)

lemma rtc_convert_encode:
  assumes "y < 100" "mo < 100" "d < 100" "h < 24" "mi < 100" "s < 100"
  shows "rtc_convert rb (encode_time rb y mo d h mi s) =
    \<lparr>dt_year = int y + 2000, dt_month = int mo, dt_day = int d,
     dt_hour = (if rb AND 0x02 = 0 \<and> h = 0 then 12 else if rb AND 0x02 = 0 \<and> h = 12 then 0 else int h),
     dt_minute = int mi, dt_second = int s\<rparr>"
proof (cases "rb AND 0x04 = 0")
  case True
  have t: "bcd_hour_to_int (uint (of_nat (to_bcd h) :: u8)) = int h" "int h AND 0x80 = 0"
    using hour_table assms(4) by simp_all
  have u: "pm_shift (bcd_hour_to_int (uint (of_nat (to_bcd (hour12 h) + (if 12 \<le> h then 128 else 0)) :: u8)))
      = (if h = 0 then 12 else if h = 12 then 0 else int h)"
    by (rule bspec [OF hour12_bcd_table]) (use assms(4) in simp)
  show ?thesis
  proof (cases "rb AND 0x02 = 0")
    case False
    then have e: "rtc_hour_field rb h = to_bcd h" using True by (simp add: rtc_hour_field_def rtc_field_def)
    show ?thesis
      using rtc_field_decode [OF _ True] assms False True t
      by (simp add: rtc_convert_def encode_time_def e del: of_nat_add)
  next
    case r2: True
    then have e: "rtc_hour_field rb h = to_bcd (hour12 h) + (if 12 \<le> h then 128 else 0)"
      using True by (simp add: rtc_hour_field_def rtc_field_def hour12_def)
    show ?thesis
      using rtc_field_decode [OF _ True] assms r2 True u [folded e, unfolded pm_shift_def]
      by (simp add: rtc_convert_def encode_time_def)
  qed
next
  case False
  have u: "pm_shift (uint (of_nat (hour12 h + (if 12 \<le> h then 128 else 0)) :: u8))
      = (if h = 0 then 12 else if h = 12 then 0 else int h)"
    by (rule bspec [OF hour12_binary_table]) (use assms(4) in simp)
  have t: "uint (of_nat h :: u8) = int h" using binary_table assms(4) by simp
  show ?thesis
  proof (cases "rb AND 0x02 = 0")
    case r2: False
    then have e: "rtc_hour_field rb h = h" using False by (simp add: rtc_hour_field_def rtc_field_def)
    show ?thesis
      using rtc_field_binary [OF _ False] assms False r2 t
      by (simp add: rtc_convert_def encode_time_def e)
  next
    case True
    then have e: "rtc_hour_field rb h = hour12 h + (if 12 \<le> h then 128 else 0)"
      using False by (simp add: rtc_hour_field_def rtc_field_def hour12_def)
    show ?thesis
      using rtc_field_binary [OF _ False] assms False True u [folded e, unfolded pm_shift_def]
      by (simp add: rtc_convert_def encode_time_def)
  qed
qed

section \<open>A chip that stands still\<close>

text \<open>
  The index port selects the register that the data port delivers. \<open>steady_chip hw regs\<close>: the
  chip is not updating and its registers do not change while they are read.
\<close>

fun cmos_index :: "trace \<Rightarrow> u8" where
  "cmos_index [] = 0"
| "cmos_index (OutB p v # tr) = (if p = 0x70 then v else cmos_index tr)"
| "cmos_index (_ # tr) = cmos_index tr"

definition steady_chip :: "hardware \<Rightarrow> (u8 \<Rightarrow> u8) \<Rightarrow> bool" where
  "steady_chip hw regs \<longleftrightarrow>
     regs 0x0A AND 0x80 = 0 \<and> (\<forall>tr. hw_inb hw tr 0x71 = regs (cmos_index (rev tr)))"

definition holds_sample :: "(u8 \<Rightarrow> u8) \<Rightarrow> rtc_sample \<Rightarrow> bool" where
  "holds_sample regs s \<longleftrightarrow> regs 0x00 = rs_second s \<and> regs 0x02 = rs_minute s \<and>
     regs 0x04 = rs_hour s \<and> regs 0x07 = rs_day s \<and> regs 0x08 = rs_month s \<and> regs 0x09 = rs_year s"

lemma get_rtc_register_steady:
  "steady_chip hw regs \<Longrightarrow>
   get_rtc_register hw r tr = (regs r, tr @ [OutB 0x70 r, InB 0x71 (regs r)])"
  by (simp add: get_rtc_register_def io_simps steady_chip_def Let_def)

lemma rtc_wait_steady: "steady_chip hw regs \<Longrightarrow> \<exists>tr'. rtc_wait hw tr = Some tr'"
  by (subst rtc_wait.simps) (simp add: updating_rtc_def io_simps steady_chip_def Let_def)

lemma rtc_read_sample_steady:
  assumes "steady_chip hw regs" and "holds_sample regs s"
  shows "\<exists>tr'. rtc_read_sample hw tr = Some (s, tr')"
proof -
  obtain t1 where "rtc_wait hw tr = Some t1" using rtc_wait_steady [OF assms(1)] by blast
  then show ?thesis
    using assms(2) by (simp add: rtc_read_sample_def get_rtc_register_steady [OF assms(1)] holds_sample_def)
qed

lemma rtc_get_datetime_steady:
  assumes "steady_chip hw regs" and "holds_sample regs s"
  shows "\<exists>tr'. rtc_get_datetime hw tr = Some (rtc_convert (regs 0x0B) s, tr')"
proof -
  obtain t1 where t1: "rtc_read_sample hw tr = Some (s, t1)"
    using rtc_read_sample_steady [OF assms] by blast
  obtain t2 where t2: "rtc_read_sample hw t1 = Some (s, t2)"
    using rtc_read_sample_steady [OF assms] by blast
  have "rtc_stable hw s t1 = Some (s, t2)" by (subst rtc_stable.simps) (simp add: t2)
  then show ?thesis
    by (simp add: rtc_get_datetime_def t1 get_rtc_register_steady [OF assms(1)])
qed

text \<open>C22 (rtc_shows_time): on a chip that stands still, in BCD or binary mode, the clock text is the
  \<^verbatim>\<open>HH:MM\<close> of the encoded time, and the date text its \<^verbatim>\<open>YYYY-MM-DD\<close>, for every time of this
  century, unless the chip counts twelve hours and the hour is noon's or midnight's.\<close>

theorem rtc_shows_time:
  assumes "steady_chip hw regs" and "holds_sample regs (encode_time (regs 0x0B) y mo d h mi s)"
    and "y < 100" "mo < 100" "d < 100" "h < 24" "mi < 100" "s < 100"
    and "regs 0x0B AND 0x02 \<noteq> 0 \<or> h \<noteq> 0 \<and> h \<noteq> 12"
    and "length tbuf = 6" and "length dbuf = 11"
  shows "(\<exists>tr'. rtc_get_time_string hw tbuf 6 tr = Some (
        [digit_char (int (h div 10)), digit_char (int (h mod 10)), CHR '':'',
         digit_char (int (mi div 10)), digit_char (int (mi mod 10)), NUL], tr')) \<and>
    (\<exists>tr'. rtc_get_date_string hw dbuf 11 tr = Some (
        [CHR ''2'', CHR ''0'', digit_char (int (y div 10)), digit_char (int (y mod 10)), CHR ''-'',
         digit_char (int (mo div 10)), digit_char (int (mo mod 10)), CHR ''-'',
         digit_char (int (d div 10)), digit_char (int (d mod 10)), NUL], tr'))"
proof -
  let ?t = "\<lparr>dt_year = int y + 2000, dt_month = int mo, dt_day = int d,
     dt_hour = int h, dt_minute = int mi, dt_second = int s\<rparr>"
  have c: "rtc_convert (regs 0x0B) (encode_time (regs 0x0B) y mo d h mi s) = ?t"
    using rtc_convert_encode [OF assms(3-8), of "regs 0x0B"] assms(9) by auto
  obtain tr' where t: "rtc_get_datetime hw tr = Some (?t, tr')"
    using rtc_get_datetime_steady [OF assms(1,2)] unfolding c by blast
  have m10: "(int y + 2000) mod 10 = int y mod 10" using mod_mult_self1 [of "int y" 200 10] by simp
  have "(int y + 2000) div 10 = 200 + int y div 10" using div_mult_self1 [of 10 "int y" 200] by simp
  moreover have "0 \<le> int y div 10" "int y div 10 < 10" using assms(3) by auto
  ultimately have d10: "(int y + 2000) div 10 mod 10 = int y div 10"
    using mod_mult_self1 [of "int y div 10" 20 10] by (simp add: add.commute)
  have y100: "(int y + 2000) div 100 = 20" using assms(3) by auto
  have y1000: "(int y + 2000) div 1000 = 2" using assms(3) by auto
  have time: "time_text ?t = [digit_char (int (h div 10)), digit_char (int (h mod 10)), CHR '':'',
         digit_char (int (mi div 10)), digit_char (int (mi mod 10))]"
    by (simp add: time_text_def zdiv_int zmod_int)
  have date: "date_text ?t = [CHR ''2'', CHR ''0'', digit_char (int (y div 10)), digit_char (int (y mod 10)),
         CHR ''-'', digit_char (int (mo div 10)), digit_char (int (mo mod 10)), CHR ''-'',
         digit_char (int (d div 10)), digit_char (int (d mod 10))]"
    unfolding date_text_def datetime.simps y100 y1000 m10 d10 by (simp add: zdiv_int zmod_int)
  from t time date show ?thesis
    using assms(10,11) by (simp add: rtc_get_time_string_def rtc_get_date_string_def poke_def)
qed

text \<open>A chip that counts twelve hours shows noon as hour 0 and midnight as
  hour 12: the conversion adds twelve to the afternoon's hours without treating 12 apart.\<close>

theorem rtc_twelve_hour_noon:
  assumes "rb AND 0x02 = 0" and "y < 100" "mo < 100" "d < 100" "mi < 100" "s < 100"
  shows "dt_hour (rtc_convert rb (encode_time rb y mo d 12 mi s)) = 0 \<and>
    dt_hour (rtc_convert rb (encode_time rb y mo d 0 mi s)) = 12"
  using rtc_convert_encode [OF assms(2-4) _ assms(5,6), of _ rb] assms(1) by simp

theorem rtc_twelve_hour_noon_witness:
  "dt_hour (rtc_convert 0 (encode_time 0 26 3 14 12 30 59)) = 0 \<and>
   dt_hour (rtc_convert 0 (encode_time 0 26 3 14 0 30 59)) = 12"
  by (rule rtc_twelve_hour_noon) simp_all

definition demo_regs :: "u8 \<Rightarrow> u8" where
  "demo_regs r = (if r = 0x00 then 0x59 else if r = 0x02 then 0x30 else if r = 0x04 then 0x14
     else if r = 0x07 then 0x09 else if r = 0x08 then 0x12 else if r = 0x09 then 0x26
     else if r = 0x0B then 0x02 else 0)"

definition demo_chip :: hardware where
  "demo_chip = \<lparr>hw_inb = (\<lambda>tr _. demo_regs (cmos_index (rev tr))), hw_inl = (\<lambda>_ _. 0)\<rparr>"

theorem rtc_shows_time_witness:
  "(\<exists>tr'. rtc_get_time_string demo_chip (replicate 6 NUL) 6 [] = Some (''14:30'' @ [NUL], tr')) \<and>
   (\<exists>tr'. rtc_get_date_string demo_chip (replicate 11 NUL) 11 [] = Some (''2026-12-09'' @ [NUL], tr'))"
proof -
  have "steady_chip demo_chip demo_regs" by (simp add: steady_chip_def demo_chip_def demo_regs_def)
  moreover have "holds_sample demo_regs (encode_time (demo_regs 0x0B) 26 12 9 14 30 59)"
    by (simp add: holds_sample_def demo_regs_def encode_time_def rtc_hour_field_def rtc_field_def to_bcd_def)
  moreover have "demo_regs 0x0B AND 0x02 \<noteq> 0 \<or> (14::nat) \<noteq> 0 \<and> (14::nat) \<noteq> 12" by simp
  ultimately show ?thesis
    using rtc_shows_time [of demo_chip demo_regs 26 12 9 14 30 59 "replicate 6 NUL" "replicate 11 NUL" "[]"]
    by simp
qed

end
