(* ===== verification/Pci.thy ===== *)
theory Pci
  imports PortIO
begin

text \<open>
  PCI configuration space and bus enumeration (\<^verbatim>\<open>drivers/pci.c\<close>). The array of
  \<^verbatim>\<open>pci_enumerate_devices\<close> is the list of the entries filled so far, its length the count.
\<close>

section \<open>Configuration space\<close>

record pci_device =
  vendor_id :: u16
  device_id :: u16
  bus :: u8
  device :: u8
  pci_function :: u8
  class_code :: u8
  sub_class :: u8
  prog_if :: u8

definition pci_address :: "u8 \<Rightarrow> u8 \<Rightarrow> u8 \<Rightarrow> u8 \<Rightarrow> u32" where
  "pci_address b d fn offset =
     push_bit 31 1 OR push_bit 16 (ucast b) OR push_bit 11 (ucast d) OR
     push_bit 8 (ucast fn) OR ucast (offset AND 0xFC)"

definition pci_read_config :: "hardware \<Rightarrow> u8 \<Rightarrow> u8 \<Rightarrow> u8 \<Rightarrow> u8 \<Rightarrow> trace \<Rightarrow> u32 \<times> trace" where
  "pci_read_config hw b d fn offset tr =
     inl hw 0xCFC (outl 0xCF8 (pci_address b d fn offset) tr)"

definition pci_write_config :: "u8 \<Rightarrow> u8 \<Rightarrow> u8 \<Rightarrow> u8 \<Rightarrow> u32 \<Rightarrow> trace \<Rightarrow> trace" where
  "pci_write_config b d fn offset val tr =
     outl 0xCFC val (outl 0xCF8 (pci_address b d fn offset) tr)"

definition pci_device_exists :: "hardware \<Rightarrow> u8 \<Rightarrow> u8 \<Rightarrow> u8 \<Rightarrow> trace \<Rightarrow> bool \<times> trace" where
  "pci_device_exists hw b d fn tr =
     (let (config, tr) = pci_read_config hw b d fn 0x00 tr in (config AND 0xFFFF \<noteq> 0xFFFF, tr))"

definition pci_get_vendor_id :: "hardware \<Rightarrow> u8 \<Rightarrow> u8 \<Rightarrow> u8 \<Rightarrow> trace \<Rightarrow> u16 \<times> trace" where
  "pci_get_vendor_id hw b d fn tr =
     (let (config, tr) = pci_read_config hw b d fn 0x00 tr in (ucast (config AND 0xFFFF), tr))"

definition pci_get_device_id :: "hardware \<Rightarrow> u8 \<Rightarrow> u8 \<Rightarrow> u8 \<Rightarrow> trace \<Rightarrow> u16 \<times> trace" where
  "pci_get_device_id hw b d fn tr =
     (let (config, tr) = pci_read_config hw b d fn 0x00 tr
      in (ucast (drop_bit 16 config AND 0xFFFF), tr))"

definition pci_get_class_code :: "hardware \<Rightarrow> u8 \<Rightarrow> u8 \<Rightarrow> u8 \<Rightarrow> trace \<Rightarrow> u8 \<times> trace" where
  "pci_get_class_code hw b d fn tr =
     (let (config, tr) = pci_read_config hw b d fn 0x08 tr
      in (ucast (drop_bit 24 config AND 0xFF), tr))"

definition pci_get_subclass :: "hardware \<Rightarrow> u8 \<Rightarrow> u8 \<Rightarrow> u8 \<Rightarrow> trace \<Rightarrow> u8 \<times> trace" where
  "pci_get_subclass hw b d fn tr =
     (let (config, tr) = pci_read_config hw b d fn 0x08 tr
      in (ucast (drop_bit 16 config AND 0xFF), tr))"

definition pci_get_prog_if :: "hardware \<Rightarrow> u8 \<Rightarrow> u8 \<Rightarrow> u8 \<Rightarrow> trace \<Rightarrow> u8 \<times> trace" where
  "pci_get_prog_if hw b d fn tr =
     (let (config, tr) = pci_read_config hw b d fn 0x08 tr
      in (ucast (drop_bit 8 config AND 0xFF), tr))"

section \<open>Enumeration\<close>

definition pci_probe :: "hardware \<Rightarrow> u8 \<Rightarrow> u8 \<Rightarrow> u8 \<Rightarrow> trace \<Rightarrow> pci_device \<times> trace" where
  "pci_probe hw b d fn tr =
     (let (v, tr) = pci_get_vendor_id hw b d fn tr;
          (i, tr) = pci_get_device_id hw b d fn tr;
          (c, tr) = pci_get_class_code hw b d fn tr;
          (s, tr) = pci_get_subclass hw b d fn tr;
          (p, tr) = pci_get_prog_if hw b d fn tr
      in (\<lparr>vendor_id = v, device_id = i, bus = b, device = d, pci_function = fn,
           class_code = c, sub_class = s, prog_if = p\<rparr>, tr))"

text \<open>The three loops; each leaves its state alone once the array is full.\<close>

definition pci_scan_function ::
    "hardware \<Rightarrow> nat \<Rightarrow> u8 \<Rightarrow> u8 \<Rightarrow> nat \<Rightarrow> pci_device list \<times> trace \<Rightarrow> pci_device list \<times> trace" where
  "pci_scan_function hw max_devices b d i st =
     (let (devices, tr) = st in
      if length devices < max_devices then
        (let fn = of_nat i; (ex, tr) = pci_device_exists hw b d fn tr in
         if ex then (let (e, tr) = pci_probe hw b d fn tr in (devices @ [e], tr)) else (devices, tr))
      else st)"

definition pci_scan_device ::
    "hardware \<Rightarrow> nat \<Rightarrow> u8 \<Rightarrow> nat \<Rightarrow> pci_device list \<times> trace \<Rightarrow> pci_device list \<times> trace" where
  "pci_scan_device hw max_devices b j st =
     (let (devices, tr) = st in
      if length devices < max_devices then
        (let d = of_nat j; (ex, tr) = pci_device_exists hw b d 0 tr in
         if ex then
           (let (config_val, tr) = pci_read_config hw b d 0 0x0C tr;
                header_type = ucast (drop_bit 16 config_val AND 0xFF) :: u8;
                num_functions = (if header_type AND 0x80 \<noteq> 0 then 8 else 1)
            in for_up 0 num_functions (pci_scan_function hw max_devices b d) (devices, tr))
         else (devices, tr))
      else st)"

definition pci_scan_bus ::
    "hardware \<Rightarrow> nat \<Rightarrow> nat \<Rightarrow> pci_device list \<times> trace \<Rightarrow> pci_device list \<times> trace" where
  "pci_scan_bus hw max_devices k st =
     (if length (fst st) < max_devices
      then for_up 0 32 (pci_scan_device hw max_devices (of_nat k)) st else st)"

definition pci_enumerate_devices :: "hardware \<Rightarrow> nat \<Rightarrow> trace \<Rightarrow> pci_device list \<times> trace" where
  "pci_enumerate_devices hw max_devices tr = for_up 0 256 (pci_scan_bus hw max_devices) ([], tr)"

definition pci_find_device_by_class :: "hardware \<Rightarrow> u8 \<Rightarrow> u8 \<Rightarrow> trace \<Rightarrow> pci_device option \<times> trace" where
  "pci_find_device_by_class hw cc sc tr =
     (let (devices, tr) = pci_enumerate_devices hw 64 tr
      in (find (\<lambda>d. class_code d = cc \<and> sub_class d = sc) devices, tr))"

definition pci_enable_bus_mastering :: "hardware \<Rightarrow> pci_device option \<Rightarrow> trace \<Rightarrow> trace" where
  "pci_enable_bus_mastering hw dev tr =
     (case dev of
        None \<Rightarrow> tr
      | Some d \<Rightarrow>
          (let (cmd, tr) = pci_read_config hw (bus d) (device d) (pci_function d) 0x04 tr;
               cmd = cmd OR push_bit 2 1
           in pci_write_config (bus d) (device d) (pci_function d) 0x04 cmd tr))"

definition pci_get_bar :: "hardware \<Rightarrow> pci_device option \<Rightarrow> int \<Rightarrow> trace \<Rightarrow> u64 \<times> trace" where
  "pci_get_bar hw dev bar_num tr =
     (case dev of
        None \<Rightarrow> (0, tr)
      | Some d \<Rightarrow>
          if bar_num < 0 \<or> bar_num > 5 then (0, tr)
          else
            (let offset = of_int (0x10 + bar_num * 4);
                 (bar_low, tr) = pci_read_config hw (bus d) (device d) (pci_function d) offset tr
             in if bar_low AND 0x01 = 0 \<and> drop_bit 1 bar_low AND 0x03 = 0x02 \<and> bar_num < 5 then
                  (let (bar_high, tr) =
                         pci_read_config hw (bus d) (device d) (pci_function d) (offset + 4) tr
                   in (push_bit 32 (ucast bar_high) OR ucast (bar_low AND NOT 0xF), tr))
                else if bar_low AND 0x01 \<noteq> 0 then (ucast (bar_low AND NOT 0x3), tr)
                else (ucast (bar_low AND NOT 0xF), tr)))"

section \<open>The address word\<close>

lemma pci_address_bits:
  "bit (pci_address b d f off) n \<longleftrightarrow> n < 32 \<and>
     (n = 31 \<or> (16 \<le> n \<and> bit b (n - 16)) \<or> (11 \<le> n \<and> bit d (n - 11)) \<or> (8 \<le> n \<and> bit f (n - 8)) \<or>
      (bit off n \<and> bit (0xFC :: u8) n))"
proof -
  have one: "bit (push_bit 31 (1 :: u32)) n \<longleftrightarrow> n = 31" for n
    unfolding bit_push_bit_iff bit_1_iff by auto
  show ?thesis
    unfolding pci_address_def bit_or_iff bit_and_iff one
    by (auto simp del: bit_numeral_iff simp: bit_push_bit_iff bit_ucast_iff bit_and_iff)
qed

lemma bit_above: "unat w < 2 ^ k \<Longrightarrow> k \<le> n \<Longrightarrow> \<not> bit w n" for w :: "'a::len word"
proof -
  assume a: "unat w < 2 ^ k" "k \<le> n"
  then have "take_bit k (unat w) = unat w" by (simp add: take_bit_nat_eq_self)
  then have "\<not> bit (unat w) n" using a(2) by (metis bit_take_bit_iff leD)
  then show ?thesis
    by (cases "n < LENGTH('a)") (auto simp: bit_unsigned_iff dest: bit_imp_le_length)
qed

text \<open>Two configuration registers have the same address word only when
  they are the same register of the same function, for every bus and the 32 device and 8
  function numbers there are.\<close>

theorem pci_address_injective:
  assumes "unat d < 32" "unat d' < 32" "unat f < 8" "unat f' < 8"
    and "pci_address b d f off = pci_address b' d' f' off'"
  shows "b = b' \<and> d = d' \<and> f = f' \<and> off AND 0xFC = off' AND 0xFC"
proof -
  have nd: "\<And>n. 5 \<le> n \<Longrightarrow> \<not> bit d n \<and> \<not> bit d' n" and nf: "\<And>n. 3 \<le> n \<Longrightarrow> \<not> bit f n \<and> \<not> bit f' n"
    using assms(1-4) bit_above [of d 5] bit_above [of d' 5] bit_above [of f 3] bit_above [of f' 3] by auto
  have lim: "\<And>(w :: u8) n. bit w n \<Longrightarrow> n < 8" using bit_imp_le_length by fastforce
  have eq: "bit (pci_address b d f off) n = bit (pci_address b' d' f' off') n" for n
    using assms(5) by simp
  have "b = b'"
  proof (rule bit_word_eqI)
    fix n assume "n < LENGTH(8)"
    then show "bit b n = bit b' n"
      using eq [of "16 + n"] nd [of "5 + n"] nf [of "8 + n"] lim [of off "16 + n"] lim [of off' "16 + n"]
      by (auto simp: pci_address_bits)
  qed
  moreover have "d = d'"
  proof (rule bit_word_eqI)
    fix n assume "n < LENGTH(8)"
    show "bit d n = bit d' n"
    proof (cases "n < 5")
      case True
      then show ?thesis
        using eq [of "11 + n"] nf [of "3 + n"] lim [of off "11 + n"] lim [of off' "11 + n"]
        by (auto simp: pci_address_bits)
    qed (use nd in auto)
  qed
  moreover have "f = f'"
  proof (rule bit_word_eqI)
    fix n assume "n < LENGTH(8)"
    show "bit f n = bit f' n"
    proof (cases "n < 3")
      case True
      then show ?thesis
        using eq [of "8 + n"] lim [of off "8 + n"] lim [of off' "8 + n"] by (auto simp: pci_address_bits)
    qed (use nf in auto)
  qed
  moreover have "off AND 0xFC = off' AND 0xFC"
  proof (rule bit_word_eqI)
    fix n assume "n < LENGTH(8)"
    then show "bit (off AND 0xFC) n = bit (off' AND 0xFC) n"
      using eq [of n] by (auto simp: pci_address_bits bit_and_iff)
  qed
  ultimately show ?thesis by simp
qed

theorem pci_address_injective_witness:
  "pci_address 3 31 7 0x12 = pci_address 3 31 7 0x10 \<and> (0x12 :: u8) AND 0xFC = 0x10 AND 0xFC"
proof -
  have e: "pci_address 3 31 7 0x12 = pci_address 3 31 7 0x10" by (simp add: pci_address_def)
  from pci_address_injective [OF _ _ _ _ e] e show ?thesis by simp
qed

section \<open>Enumeration finds the functions that are there\<close>

text \<open>
  \<open>cfg\<close> is the content of configuration space: the value the data port delivers right after
  an address word was written to the address port.
\<close>

definition config_space :: "hardware \<Rightarrow> (u32 \<Rightarrow> u32) \<Rightarrow> bool" where
  "config_space hw cfg \<longleftrightarrow> (\<forall>tr a. hw_inl hw (tr @ [OutL 0xCF8 a]) 0xCFC = cfg a)"

definition cfg_exists :: "(u32 \<Rightarrow> u32) \<Rightarrow> u8 \<Rightarrow> u8 \<Rightarrow> u8 \<Rightarrow> bool" where
  "cfg_exists cfg b d f \<longleftrightarrow> cfg (pci_address b d f 0) AND 0xFFFF \<noteq> 0xFFFF"

definition cfg_multifunction :: "(u32 \<Rightarrow> u32) \<Rightarrow> u8 \<Rightarrow> u8 \<Rightarrow> bool" where
  "cfg_multifunction cfg b d \<longleftrightarrow>
     (ucast (drop_bit 16 (cfg (pci_address b d 0 0x0C)) AND 0xFF) :: u8) AND 0x80 \<noteq> 0"

definition cfg_device :: "(u32 \<Rightarrow> u32) \<Rightarrow> u8 \<Rightarrow> u8 \<Rightarrow> u8 \<Rightarrow> pci_device" where
  "cfg_device cfg b d f =
     (let id = cfg (pci_address b d f 0); cls = cfg (pci_address b d f 8)
      in \<lparr>vendor_id = ucast (id AND 0xFFFF), device_id = ucast (drop_bit 16 id AND 0xFFFF),
          bus = b, device = d, pci_function = f,
          class_code = ucast (drop_bit 24 cls AND 0xFF), sub_class = ucast (drop_bit 16 cls AND 0xFF),
          prog_if = ucast (drop_bit 8 cls AND 0xFF)\<rparr>)"

definition cfg_function :: "(u32 \<Rightarrow> u32) \<Rightarrow> u8 \<Rightarrow> u8 \<Rightarrow> nat \<Rightarrow> pci_device list" where
  "cfg_function cfg b d i =
     (if cfg_exists cfg b d (of_nat i) then [cfg_device cfg b d (of_nat i)] else [])"

definition cfg_functions :: "(u32 \<Rightarrow> u32) \<Rightarrow> u8 \<Rightarrow> nat \<Rightarrow> pci_device list" where
  "cfg_functions cfg b j =
     (let d = of_nat j in
      if cfg_exists cfg b d 0
      then concat (map (cfg_function cfg b d) [0..<(if cfg_multifunction cfg b d then 8 else 1)])
      else [])"

definition pci_present :: "(u32 \<Rightarrow> u32) \<Rightarrow> pci_device list" where
  "pci_present cfg =
     concat (map (\<lambda>k. concat (map (cfg_functions cfg (of_nat k)) [0..<32])) [0..<256])"

lemma pci_read_config_space:
  "config_space hw cfg \<Longrightarrow> \<exists>tr'. pci_read_config hw b d f off tr = (cfg (pci_address b d f off), tr')"
  by (auto simp: pci_read_config_def io_simps config_space_def Let_def)

text \<open>Each loop appends what its body finds and stops when the array is full.\<close>

lemma fill_loop:
  assumes "\<And>i ds tr. a \<le> i \<Longrightarrow> i < b \<Longrightarrow> length ds \<le> n \<Longrightarrow> fst (body i (ds, tr)) = take n (ds @ f i)"
    and "a \<le> b" and "length (fst st) \<le> n"
  shows "fst (for_up a b body st) = take n (fst st @ concat (map f [a..<b]))"
  using assms(2,1)
proof (induction b rule: dec_induct)
  case base
  then show ?case using assms(3) by simp
next
  case (step b)
  let ?t = "for_up a b body st"
  have t: "fst ?t = take n (fst st @ concat (map f [a..<b]))"
    by (rule step.IH) (simp add: step.prems)
  then have "length (fst ?t) \<le> n" by simp
  then have "fst (body b ?t) = take n (fst ?t @ f b)"
    using step.prems [of b "fst ?t" "snd ?t"] step.hyps by simp
  also have "\<dots> = take n (fst st @ concat (map f [a..<b]) @ f b)"
    unfolding t by (simp add: min_def)
  finally show ?case using step.hyps by (simp add: for_up_last)
qed

lemma pci_scan_function_fills:
  assumes "config_space hw cfg" and "length ds \<le> n"
  shows "fst (pci_scan_function hw n b d i (ds, tr)) = take n (ds @ cfg_function cfg b d i)"
proof -
  obtain t0 where ex: "pci_device_exists hw b d (of_nat i) tr = (cfg_exists cfg b d (of_nat i), t0)"
    using pci_read_config_space [OF assms(1), of b d "of_nat i" 0 tr]
    by (auto simp: pci_device_exists_def cfg_exists_def)
  have "fst (pci_probe hw b d (of_nat i) t0) = cfg_device cfg b d (of_nat i)"
    using pci_read_config_space [OF assms(1), of b d "of_nat i"]
    by (auto simp: pci_probe_def pci_get_vendor_id_def pci_get_device_id_def pci_get_class_code_def
        pci_get_subclass_def pci_get_prog_if_def cfg_device_def Let_def split: prod.splits)
      (metis prod.inject)+
  then show ?thesis
    using assms(2) ex
    by (auto simp: pci_scan_function_def cfg_function_def Let_def split: prod.splits)
qed

lemma pci_scan_device_fills:
  assumes "config_space hw cfg" and "length ds \<le> n"
  shows "fst (pci_scan_device hw n b j (ds, tr)) = take n (ds @ cfg_functions cfg b j)"
proof -
  obtain t0 where ex: "pci_device_exists hw b (of_nat j) 0 tr = (cfg_exists cfg b (of_nat j) 0, t0)"
    using pci_read_config_space [OF assms(1), of b "of_nat j" 0 0 tr]
    by (auto simp: pci_device_exists_def cfg_exists_def)
  obtain t1 where hd: "pci_read_config hw b (of_nat j) 0 0x0C t0 = (cfg (pci_address b (of_nat j) 0 0x0C), t1)"
    using pci_read_config_space [OF assms(1)] by blast
  have loop: "fst (for_up 0 m (pci_scan_function hw n b (of_nat j)) (ds, t1)) =
      take n (ds @ concat (map (cfg_function cfg b (of_nat j)) [0..<m]))" for m
    using fill_loop [of 0 m n _ "cfg_function cfg b (of_nat j)", OF pci_scan_function_fills [OF assms(1)]]
      assms(2) by simp
  have m: "((ucast (drop_bit 16 (cfg (pci_address b (of_nat j) 0 0x0C)) AND 0xFF) :: u8) AND 0x80 \<noteq> 0)
      = cfg_multifunction cfg b (of_nat j)" by (simp add: cfg_multifunction_def)
  show ?thesis
  proof (cases "length ds < n")
    case True
    then show ?thesis
      unfolding pci_scan_device_def cfg_functions_def
      by (simp only: prod.case Let_def if_True ex hd m)
        (use assms(2) in \<open>simp add: loop\<close>)
  next
    case False
    then show ?thesis using assms(2) by (simp add: pci_scan_device_def)
  qed
qed

text \<open>C19 (pci_enumerate_finds): enumeration returns the functions present in configuration space, in
  the order of bus, device and function, each with the identity and class its registers hold,
  and of these as many as the caller's array takes.\<close>

theorem pci_enumerate_finds:
  assumes "config_space hw cfg"
  shows "fst (pci_enumerate_devices hw n tr) = take n (pci_present cfg)"
proof -
  have "fst (pci_scan_bus hw n k (ds, tr)) =
      take n (ds @ concat (map (cfg_functions cfg (of_nat k)) [0..<32]))" if "length ds \<le> n" for k ds tr
    using that fill_loop [of 0 32 n _ "cfg_functions cfg (of_nat k)", OF pci_scan_device_fills [OF assms]]
    by (auto simp: pci_scan_bus_def)
  then show ?thesis
    using fill_loop [of 0 256 n "pci_scan_bus hw n" "\<lambda>k. concat (map (cfg_functions cfg (of_nat k)) [0..<32])"]
    by (simp add: pci_enumerate_devices_def pci_present_def)
qed

definition demo_cfg :: "u32 \<Rightarrow> u32" where
  "demo_cfg a = (if a = pci_address 0 2 0 0 then 0x11111234
     else if a = pci_address 0 2 0 8 then 0x03000002 else if a = pci_address 0 2 0 0x0C then 0
     else 0xFFFFFFFF)"

definition demo_bus :: hardware where
  "demo_bus = \<lparr>hw_inb = (\<lambda>_ _. 0),
     hw_inl = (\<lambda>tr _. case rev tr of OutL p a # _ \<Rightarrow> demo_cfg a | _ \<Rightarrow> 0)\<rparr>"

theorem pci_enumerate_finds_witness:
  "config_space demo_bus demo_cfg \<and>
   fst (pci_enumerate_devices demo_bus 16 []) = take 16 (pci_present demo_cfg)"
proof -
  have c: "config_space demo_bus demo_cfg" by (simp add: config_space_def demo_bus_def)
  show ?thesis using c pci_enumerate_finds [OF c] by blast
qed

end
