(* ===== verification/Cpuid.thy ===== *)
theory Cpuid
  imports CString
begin

text \<open>
  Processor identification (\<^verbatim>\<open>drivers/cpuid.c\<close>). The \<^verbatim>\<open>cpuid\<close> instruction is a parameter: it
  gives the registers EAX, EBX, ECX and EDX of a leaf. A buffer too small for what is written
  to it gives \<open>None\<close>.
\<close>

type_synonym cpu = "u32 \<Rightarrow> u32 \<times> u32 \<times> u32 \<times> u32"

text \<open>\<^verbatim>\<open>memcpy(p, &reg, 4)\<close>\<close>

definition reg_bytes :: "u32 \<Rightarrow> string" where
  "reg_bytes r = le_bytes 4 (unat r)"

definition store_bytes :: "nat \<Rightarrow> string \<Rightarrow> char list \<Rightarrow> char list option" where
  "store_bytes off bs buf = (if off + length bs \<le> length buf then Some (poke off bs buf) else None)"

definition cpuid_get_vendor :: "cpu \<Rightarrow> char list \<Rightarrow> char list option" where
  "cpuid_get_vendor cpu buf = do {
     let (eax, ebx, ecx, edx) = cpu 0;
     buf \<leftarrow> store_bytes 0 (reg_bytes ebx) buf;
     buf \<leftarrow> store_bytes 4 (reg_bytes edx) buf;
     buf \<leftarrow> store_bytes 8 (reg_bytes ecx) buf;
     store_bytes 12 [NUL] buf
   }"

definition brand_leaf :: "cpu \<Rightarrow> u32 \<Rightarrow> string" where
  "brand_leaf cpu leaf =
     (let (eax, ebx, ecx, edx) = cpu leaf
      in reg_bytes eax @ reg_bytes ebx @ reg_bytes ecx @ reg_bytes edx)"

text \<open>
  The move of the trimmed text to the front copies upwards from a higher address, so every
  byte is read before it is overwritten.
\<close>

definition trim_front :: "char list \<Rightarrow> char list" where
  "trim_front buf =
     (let start = dropWhile (\<lambda>c. c = CHR 0x20) buf in
      if length start < length buf then poke 0 (cstr start @ [NUL]) buf else buf)"

definition cpuid_get_brand_string :: "cpu \<Rightarrow> char list \<Rightarrow> char list option" where
  "cpuid_get_brand_string cpu buf =
     (let (eax, ebx, ecx, edx) = cpu 0x80000000 in
      if eax < 0x80000004 then cpuid_get_vendor cpu buf
      else do {
        buf \<leftarrow> store_bytes 0 (brand_leaf cpu 0x80000002) buf;
        buf \<leftarrow> store_bytes 16 (brand_leaf cpu 0x80000003) buf;
        buf \<leftarrow> store_bytes 32 (brand_leaf cpu 0x80000004) buf;
        buf \<leftarrow> store_bytes 48 [NUL] buf;
        Some (trim_front buf)
      })"

definition cpuid_get_info :: "cpu \<Rightarrow> char list \<Rightarrow> char list option" where
  "cpuid_get_info cpu buf =
     (let (eax, ebx, ecx, edx) = cpu 1;
          family = drop_bit 8 eax AND 0xF;
          model = drop_bit 4 eax AND 0xF;
          stepping = eax AND 0xF;
          ext_family = drop_bit 20 eax AND 0xFF;
          ext_model = drop_bit 16 eax AND 0xF;
          family = (if family = 0xF then family + ext_family else family);
          model = (if family = 0x6 \<or> family = 0xF then model + push_bit 4 ext_model else model)
      in map_option fst (xsprintf buf ''Family %d Model %d Stepping %d''
           [AInt (uint family), AInt (uint model), AInt (uint stepping)]))"

section \<open>The brand string\<close>

lemma length_reg_bytes [simp]: "length (reg_bytes r) = 4"
  by (simp add: reg_bytes_def)

lemma length_brand_leaf [simp]: "length (brand_leaf cpu leaf) = 16"
  by (simp add: brand_leaf_def split: prod.splits)

definition brand_bytes :: "cpu \<Rightarrow> string" where
  "brand_bytes cpu = brand_leaf cpu 0x80000002 @ brand_leaf cpu 0x80000003 @ brand_leaf cpu 0x80000004"

lemma poke_append: "off = length xs \<Longrightarrow> length bs \<le> length ys \<Longrightarrow>
    poke off bs (xs @ ys) = (xs @ bs) @ drop (length bs) ys"
  by (simp add: poke_def)

lemma brand_stores:
  assumes "49 \<le> length buf"
  shows "do { buf \<leftarrow> store_bytes 0 (brand_leaf cpu 0x80000002) buf;
        buf \<leftarrow> store_bytes 16 (brand_leaf cpu 0x80000003) buf;
        buf \<leftarrow> store_bytes 32 (brand_leaf cpu 0x80000004) buf;
        store_bytes 48 [NUL] buf } = Some (brand_bytes cpu @ [NUL] @ drop 49 buf)"
  using assms by (simp add: store_bytes_def poke_def brand_bytes_def)

lemma dropWhile_shorter: "\<not> length (dropWhile p xs) < length xs \<Longrightarrow> dropWhile p xs = xs"
  by (cases xs) (auto simp: length_dropWhile_le le_imp_less_Suc)

lemma length_cstr_less: "NUL \<in> set s \<Longrightarrow> length (cstr s) < length s"
  by (induction s) auto

lemma NUL_dropWhile: "NUL \<in> set buf \<Longrightarrow> NUL \<in> set (dropWhile (\<lambda>c. c = CHR 0x20) buf)"
  by (induction buf) auto

lemma length_trim_front: "NUL \<in> set buf \<Longrightarrow> length (trim_front buf) = length buf"
  using length_cstr_less [OF NUL_dropWhile, of buf] by (simp add: trim_front_def Let_def)

lemma cstr_trim_front: "cstr (trim_front buf) = dropWhile (\<lambda>c. c = CHR 0x20) (cstr buf)"
proof -
  let ?sp = "\<lambda>c :: char. c = CHR 0x20"
  let ?start = "dropWhile ?sp buf"
  have d: "dropWhile ?sp (cstr buf) = cstr ?start"
    by (induction buf) auto
  show ?thesis
  proof (cases "length ?start < length buf")
    case True
    have "cstr (poke 0 (cstr ?start @ [NUL]) buf) = cstr ?start"
      by (simp add: poke_def cstr_append cstr_no_NUL)
    with True d show ?thesis by (simp add: trim_front_def)
  next
    case False
    with dropWhile_shorter [OF False] d show ?thesis by (simp add: trim_front_def)
  qed
qed

text \<open>On a processor with the extended leaves, a buffer of 49 bytes or more
  receives the 48 bytes of the three leaves up to their first NUL, without leading spaces.\<close>

theorem brand_string_trimmed:
  assumes "\<not> fst (cpu 0x80000000) < 0x80000004" and "49 \<le> length buf"
  shows "\<exists>out. cpuid_get_brand_string cpu buf = Some out \<and> length out = length buf \<and>
    cstr out = dropWhile (\<lambda>c. c = CHR 0x20) (cstr (brand_bytes cpu))"
proof -
  let ?b = "brand_bytes cpu @ [NUL] @ drop 49 buf"
  have "cpuid_get_brand_string cpu buf =
      Option.bind (Some ?b) (\<lambda>b. Some (trim_front b))"
    unfolding brand_stores [OF assms(2), of cpu, symmetric]
    using assms(1) by (cases "cpu 0x80000000") (simp add: cpuid_get_brand_string_def)
  then have "cpuid_get_brand_string cpu buf = Some (trim_front ?b)" by simp
  moreover have "cstr (trim_front ?b) = dropWhile (\<lambda>c. c = CHR 0x20) (cstr (brand_bytes cpu))"
    by (simp add: cstr_trim_front cstr_append cstr_no_NUL)
  moreover have "length (trim_front ?b) = length buf"
    using assms(2) by (subst length_trim_front) (simp_all add: brand_bytes_def)
  ultimately show ?thesis by blast
qed

lemma le_bytes_4:
  "le_bytes 4 n = [char_of (n mod 256), char_of (n div 256 mod 256), char_of (n div 256 div 256 mod 256),
     char_of (n div 256 div 256 div 256 mod 256)]"
proof -
  have "(4 :: nat) = Suc (Suc (Suc (Suc 0)))" by simp
  then show ?thesis by (simp only: le_bytes.simps)
qed

definition demo_cpu :: cpu where
  "demo_cpu leaf = (if leaf = 0x80000000 then (0x80000008, 0, 0, 0)
     else if leaf = 0x80000002 then (0x51202020, 0x20554D45, 0x00555043, 0) else (0, 0, 0, 0))"

theorem brand_string_trimmed_witness:
  "\<exists>out. cpuid_get_brand_string demo_cpu (replicate 64 NUL) = Some out \<and>
    length out = 64 \<and> cstr out = ''QEMU CPU''"
proof -
  have "cstr (brand_bytes demo_cpu) = ''   QEMU CPU''"
    by (simp add: brand_bytes_def brand_leaf_def demo_cpu_def reg_bytes_def le_bytes_4 char_of_def bit_Suc_0_iff)
  with brand_string_trimmed [of demo_cpu "replicate 64 NUL"] show ?thesis
    by (simp add: demo_cpu_def)
qed

end
