(* ===== verification/Ps2.thy ===== *)
theory Ps2
  imports PortIO
begin

text \<open>
  The PS/2 keyboard and mouse driver (\<^verbatim>\<open>drivers/ps2.c\<close>): the initialisation, the packet
  decoder of the mouse, the scan code decoder of the keyboard and the two interrupt handlers.
  Bytes of type \<^verbatim>\<open>int8_t\<close> are words read with \<open>sint\<close>; the mouse position is an integer,
  which the invariant keeps on the screen, far from the ends of \<^verbatim>\<open>int32_t\<close>.
\<close>

section \<open>State\<close>

record ps2 =
  mouse_x :: int
  mouse_y :: int
  mouse_b_left :: u8
  mouse_b_right :: u8
  mouse_cycle :: u8
  mouse_byte :: "u8 list"
  mouse_has_wheel :: bool
  mouse_scroll_delta :: u8
  last_key :: char
  alt_pressed :: bool
  ctrl_pressed :: bool
  shift_pressed :: bool
  super_pressed :: bool
  capslock_active :: bool
  e0_mode :: bool

definition ps2_boot :: ps2 where
  "ps2_boot = \<lparr>mouse_x = 512, mouse_y = 384, mouse_b_left = 0, mouse_b_right = 0, mouse_cycle = 0,
     mouse_byte = [0, 0, 0, 0], mouse_has_wheel = False, mouse_scroll_delta = 0, last_key = NUL,
     alt_pressed = False, ctrl_pressed = False, shift_pressed = False, super_pressed = False,
     capslock_active = False, e0_mode = False\<rparr>"

text \<open>The key tables; entries that the initialiser leaves out are zero.\<close>

definition kbd_us :: string where
  "kbd_us =
     [NUL, CHR 0x1B] @ ''1234567890-='' @ [CHR 0x08] @
     [CHR 0x09] @ ''qwertyuiop[]'' @ [CHR 0x0A] @
     [NUL] @ ''asdfghjkl;'' @ [CHR 0x27, CHR 0x60] @
     [NUL, CHR 0x5C] @ ''zxcvbnm,./'' @ [NUL] @
     [CHR ''*'', NUL, CHR '' ''] @ replicate 10 NUL @
     replicate 6 NUL @ [CHR ''-''] @ replicate 3 NUL @ [CHR ''+''] @ replicate 2 NUL @
     replicate 47 NUL"

definition kbd_us_shifted :: string where
  "kbd_us_shifted =
     [NUL, CHR 0x1B] @ ''!@#$%^&*()_+'' @ [CHR 0x08] @
     [CHR 0x09] @ ''QWERTYUIOP{}'' @ [CHR 0x0A] @
     [NUL] @ ''ASDFGHJKL:'' @ [CHR 0x22, CHR 0x7E] @
     [NUL, CHR 0x7C] @ ''ZXCVBNM<>?'' @ [NUL] @
     [CHR ''*'', NUL, CHR '' ''] @ replicate 10 NUL @
     replicate 6 NUL @ [CHR ''-''] @ replicate 3 NUL @ [CHR ''+''] @ replicate 2 NUL @
     replicate 47 NUL"

section \<open>The controller\<close>

text \<open>The bounded polling loops: at most \<open>n\<close> reads of the status port.\<close>

fun ps2_wait :: "hardware \<Rightarrow> (u8 \<Rightarrow> bool) \<Rightarrow> nat \<Rightarrow> trace \<Rightarrow> int \<times> trace" where
  "ps2_wait hw ready 0 tr = (-1, tr)"
| "ps2_wait hw ready (Suc timeout) tr =
     (let (st, tr) = inb hw 0x64 tr in if ready st then (0, tr) else ps2_wait hw ready timeout tr)"

definition ps2_wait_write :: "hardware \<Rightarrow> trace \<Rightarrow> int \<times> trace" where
  "ps2_wait_write hw tr = ps2_wait hw (\<lambda>st. st AND 2 = 0) 100000 tr"

definition ps2_wait_read :: "hardware \<Rightarrow> trace \<Rightarrow> int \<times> trace" where
  "ps2_wait_read hw tr = ps2_wait hw (\<lambda>st. st AND 1 \<noteq> 0) 100000 tr"

definition mouse_write :: "hardware \<Rightarrow> u8 \<Rightarrow> trace \<Rightarrow> trace" where
  "mouse_write hw a_write tr =
     (let (_, tr) = ps2_wait_write hw tr;
          tr = outb 0x64 0xD4 tr;
          (_, tr) = ps2_wait_write hw tr
      in outb 0x60 a_write tr)"

definition mouse_read :: "hardware \<Rightarrow> trace \<Rightarrow> u8 \<times> trace" where
  "mouse_read hw tr =
     (let (r, tr) = ps2_wait_read hw tr in if r \<noteq> 0 then (0, tr) else inb hw 0x60 tr)"

text \<open>A command to the mouse whose answer is dropped: \<^verbatim>\<open>mouse_write(b); mouse_read();\<close>\<close>

definition mouse_cmd :: "hardware \<Rightarrow> u8 \<Rightarrow> trace \<Rightarrow> trace" where
  "mouse_cmd hw b tr = snd (mouse_read hw (mouse_write hw b tr))"

definition ps2_init :: "hardware \<Rightarrow> ps2 \<times> trace \<Rightarrow> ps2 \<times> trace" where
  "ps2_init hw st =
     (let (s, tr) = st;
          (_, tr) = ps2_wait_write hw tr;
          tr = outb 0x64 0xA8 tr;
          (_, tr) = ps2_wait_write hw tr;
          tr = outb 0x64 0x20 tr;
          (_, tr) = ps2_wait_read hw tr;
          (status, tr) = inb hw 0x60 tr;
          status = status OR push_bit 1 1;
          status = status AND NOT (push_bit 5 1);
          (_, tr) = ps2_wait_write hw tr;
          tr = outb 0x64 0x60 tr;
          (_, tr) = ps2_wait_write hw tr;
          tr = outb 0x60 status tr;
          tr = mouse_cmd hw 0xF6 tr;
          tr = mouse_cmd hw 0xF3 tr; tr = mouse_cmd hw 200 tr;
          tr = mouse_cmd hw 0xF3 tr; tr = mouse_cmd hw 100 tr;
          tr = mouse_cmd hw 0xF3 tr; tr = mouse_cmd hw 80 tr;
          tr = mouse_cmd hw 0xF2 tr;
          (id, tr) = mouse_read hw tr;
          s = (if id = 3 \<or> id = 4 then s\<lparr>mouse_has_wheel := True\<rparr> else s);
          tr = mouse_cmd hw 0xF4 tr
      in (s, tr))"

section \<open>The mouse\<close>

definition process_mouse :: "u32 \<Rightarrow> u32 \<Rightarrow> ps2 \<Rightarrow> ps2" where
  "process_mouse fb_width fb_height s =
     (let b0 = mouse_byte s ! 0;
          dx = sint (mouse_byte s ! 1);
          dy = sint (mouse_byte s ! 2);
          dx = (if b0 AND 0x10 \<noteq> 0 then dx OR NOT 0xFF else dx);
          dy = (if b0 AND 0x20 \<noteq> 0 then dy OR NOT 0xFF else dy);
          s = s\<lparr>mouse_x := mouse_x s + dx, mouse_y := mouse_y s - dy\<rparr>;
          s = (if mouse_has_wheel s \<and> mouse_cycle s = 3 then
                 (let dz = mouse_byte s ! 3 AND 0x0F;
                      dz = (if mouse_byte s ! 3 AND 0x08 \<noteq> 0 then dz OR NOT 0x0F else dz)
                  in s\<lparr>mouse_scroll_delta := - dz\<rparr>)
               else s);
          s = (if mouse_x s < 0 then s\<lparr>mouse_x := 0\<rparr> else s);
          s = (if mouse_y s < 0 then s\<lparr>mouse_y := 0\<rparr> else s);
          s = (if mouse_x s > sint fb_width - 1 then s\<lparr>mouse_x := sint (fb_width - 1)\<rparr> else s);
          s = (if mouse_y s > sint fb_height - 1 then s\<lparr>mouse_y := sint (fb_height - 1)\<rparr> else s)
      in s\<lparr>mouse_b_left := b0 AND 0x01, mouse_b_right := b0 AND 0x02, mouse_cycle := 0\<rparr>)"

definition handle_mouse :: "u32 \<Rightarrow> u32 \<Rightarrow> u8 \<Rightarrow> ps2 \<Rightarrow> ps2" where
  "handle_mouse fb_width fb_height data s =
     (let cyc = mouse_cycle s in
      if cyc = 0 then
        (if data AND 0x08 \<noteq> 0 then s\<lparr>mouse_byte := (mouse_byte s)[0 := data], mouse_cycle := cyc + 1\<rparr>
         else s)
      else if cyc = 1 then s\<lparr>mouse_byte := (mouse_byte s)[1 := data], mouse_cycle := cyc + 1\<rparr>
      else if cyc = 2 then
        (let s = s\<lparr>mouse_byte := (mouse_byte s)[2 := data]\<rparr> in
         if mouse_has_wheel s then s\<lparr>mouse_cycle := cyc + 1\<rparr>
         else process_mouse fb_width fb_height s)
      else if cyc = 3 then
        process_mouse fb_width fb_height (s\<lparr>mouse_byte := (mouse_byte s)[3 := data]\<rparr>)
      else s)"

section \<open>The keyboard\<close>

definition handle_kbd :: "u8 \<Rightarrow> ps2 \<Rightarrow> ps2" where
  "handle_kbd data s =
     (if data = 0xE0 then s\<lparr>e0_mode := True\<rparr>
      else if e0_mode s then
        (let s = (if data = 0x5B \<or> data = 0x5C then s\<lparr>super_pressed := True\<rparr>
                  else if data = 0xDB \<or> data = 0xDC then s\<lparr>super_pressed := False\<rparr> else s)
         in s\<lparr>e0_mode := False\<rparr>)
      else if data = 0x38 then s\<lparr>alt_pressed := True\<rparr>
      else if data = 0xB8 then s\<lparr>alt_pressed := False\<rparr>
      else if data = 0x1D then s\<lparr>ctrl_pressed := True\<rparr>
      else if data = 0x9D then s\<lparr>ctrl_pressed := False\<rparr>
      else if data = 0x2A \<or> data = 0x36 then s\<lparr>shift_pressed := True\<rparr>
      else if data = 0xAA \<or> data = 0xB6 then s\<lparr>shift_pressed := False\<rparr>
      else if data = 0x3A then s\<lparr>capslock_active := \<not> capslock_active s\<rparr>
      else if data < 128 then
        (let k = kbd_us ! unat data;
             shift_letters = (shift_pressed s \<noteq> capslock_active s)
         in if of_char k \<ge> (97 :: int) \<and> of_char k \<le> (122 :: int)
            then s\<lparr>last_key := (if shift_letters then kbd_us_shifted ! unat data else kbd_us ! unat data)\<rparr>
            else s\<lparr>last_key := (if shift_pressed s then kbd_us_shifted ! unat data else kbd_us ! unat data)\<rparr>)
      else s)"

definition ps2_poll :: "ps2 \<Rightarrow> ps2" where
  "ps2_poll s = s"

definition ps2_get_last_key :: "ps2 \<Rightarrow> char \<times> ps2" where
  "ps2_get_last_key s = (last_key s, s\<lparr>last_key := NUL\<rparr>)"

definition ps2_is_alt_pressed :: "ps2 \<Rightarrow> bool" where
  "ps2_is_alt_pressed s = alt_pressed s"

definition ps2_is_ctrl_pressed :: "ps2 \<Rightarrow> bool" where
  "ps2_is_ctrl_pressed s = ctrl_pressed s"

definition ps2_is_super_pressed :: "ps2 \<Rightarrow> bool" where
  "ps2_is_super_pressed s = super_pressed s"

definition ps2_is_shift_pressed :: "ps2 \<Rightarrow> bool" where
  "ps2_is_shift_pressed s = shift_pressed s"

section \<open>The interrupt handlers\<close>

definition irq1_handler :: "hardware \<Rightarrow> ps2 \<times> trace \<Rightarrow> ps2 \<times> trace" where
  "irq1_handler hw st =
     (let (s, tr) = st;
          (status, tr) = inb hw 0x64 tr;
          (s, tr) =
            (if status AND 1 \<noteq> 0 then
               (let (data, tr) = inb hw 0x60 tr
                in if status AND 0x20 = 0 then (handle_kbd data s, tr) else (s, tr))
             else (s, tr))
      in (s, pic_send_eoi 1 tr))"

definition irq12_handler :: "hardware \<Rightarrow> u32 \<Rightarrow> u32 \<Rightarrow> ps2 \<times> trace \<Rightarrow> ps2 \<times> trace" where
  "irq12_handler hw fb_width fb_height st =
     (let (s, tr) = st;
          (status, tr) = inb hw 0x64 tr;
          (s, tr) =
            (if status AND 1 \<noteq> 0 then
               (let (data, tr) = inb hw 0x60 tr
                in if status AND 0x20 \<noteq> 0 then (handle_mouse fb_width fb_height data s, tr) else (s, tr))
             else (s, tr))
      in (s, pic_send_eoi 12 tr))"

lemma length_kbd_us [bounds_simps]: "length kbd_us = 128" "length kbd_us_shifted = 128"
  by (simp_all add: kbd_us_def kbd_us_shifted_def)

section \<open>The initialisation sequence\<close>

fun port_writes :: "trace \<Rightarrow> (u16 \<times> u8) list" where
  "port_writes [] = []"
| "port_writes (OutB p v # tr) = (p, v) # port_writes tr"
| "port_writes (_ # tr) = port_writes tr"

lemma port_writes_append [simp]: "port_writes (xs @ ys) = port_writes xs @ port_writes ys"
  by (induction xs rule: port_writes.induct) auto

lemma ps2_wait_effect:
  "ps2_wait hw ok n tr = (r, tr') \<Longrightarrow> port_writes tr' = port_writes tr \<and> length tr' \<le> length tr + n"
proof (induction n arbitrary: tr)
  case 0
  then show ?case by simp
next
  case (Suc n)
  let ?tr = "tr @ [InB 0x64 (hw_inb hw tr 0x64)]"
  show ?case
  proof (cases "ok (hw_inb hw tr 0x64)")
    case True
    with Suc.prems have "tr' = ?tr" by (simp add: inb_def Let_def)
    then show ?thesis by simp
  next
    case False
    with Suc.prems have "ps2_wait hw ok n ?tr = (r, tr')" by (simp add: inb_def Let_def)
    from Suc.IH [OF this] show ?thesis by simp
  qed
qed

text \<open>\<open>adds n ws tr tr'\<close>: \<open>tr'\<close> extends \<open>tr\<close> by the port writes \<open>ws\<close> and at most \<open>n\<close> events.\<close>

definition adds :: "nat \<Rightarrow> (u16 \<times> u8) list \<Rightarrow> trace \<Rightarrow> trace \<Rightarrow> bool" where
  "adds n ws tr tr' \<longleftrightarrow> port_writes tr' = port_writes tr @ ws \<and> length tr' \<le> length tr + n"

lemma adds_trans: "adds m vs tr tr1 \<Longrightarrow> adds n ws tr1 tr2 \<Longrightarrow> adds (m + n) (vs @ ws) tr tr2"
  by (auto simp: adds_def)

lemma adds_outb: "adds 1 [(p, v)] tr (outb p v tr)"
  by (simp add: adds_def outb_def)

lemma adds_inb: "adds 1 [] tr (snd (inb hw p tr))"
  by (simp add: adds_def inb_def Let_def)

lemma adds_wait_write: "adds 100000 [] tr (snd (ps2_wait_write hw tr))"
  using ps2_wait_effect [of hw _ 100000 tr] by (cases "ps2_wait_write hw tr")
    (simp add: adds_def ps2_wait_write_def)

lemma adds_wait_read: "adds 100000 [] tr (snd (ps2_wait_read hw tr))"
  using ps2_wait_effect [of hw _ 100000 tr] by (cases "ps2_wait_read hw tr")
    (simp add: adds_def ps2_wait_read_def)

lemmas adds_steps = adds_trans [OF _ adds_outb] adds_trans [OF _ adds_wait_write]
  adds_trans [OF _ adds_wait_read] adds_trans [OF _ adds_inb]

lemma adds_mouse_write: "adds 200002 [(0x64, 0xD4), (0x60, b)] tr (mouse_write hw b tr)"
proof -
  have e: "mouse_write hw b tr =
      outb 0x60 b (snd (ps2_wait_write hw (outb 0x64 0xD4 (snd (ps2_wait_write hw tr)))))"
    by (simp add: mouse_write_def Let_def split: prod.splits)
  have "adds (100000 + 1 + 100000 + 1) ((([] @ [(0x64, 0xD4)]) @ []) @ [(0x60, b)]) tr (mouse_write hw b tr)"
    unfolding e by (rule adds_steps adds_wait_write)+
  then show ?thesis by simp
qed

lemma adds_mouse_read: "adds 100001 [] tr (snd (mouse_read hw tr))"
proof -
  obtain r t1 where w: "ps2_wait_read hw tr = (r, t1)" by (cases "ps2_wait_read hw tr")
  then have "adds 100000 [] tr t1" using adds_wait_read [of tr hw] by simp
  then show ?thesis
    using w by (auto simp: mouse_read_def adds_def inb_def Let_def)
qed

lemma adds_mouse_cmd: "adds 300003 [(0x64, 0xD4), (0x60, b)] tr (mouse_cmd hw b tr)"
  using adds_trans [OF adds_mouse_write [of b tr hw] adds_mouse_read [of _ hw]] by (simp add: mouse_cmd_def)

text \<open>The fact \<open>ps2_init_program\<close>: whatever the controller answers, \<^verbatim>\<open>ps2_init\<close> comes to an end after a bounded
  number of port accesses and sends one fixed sequence of commands, in which the configuration
  byte written back enables the mouse interrupt and the mouse clock; it detects a wheel only
  for the device numbers 3 and 4 and changes nothing else of the driver's state.\<close>

theorem ps2_init_program:
  "\<exists>s' tr' status id. ps2_init hw (s, tr) = (s', tr') \<and> length tr' \<le> length tr + 4000000 \<and>
     bit status 1 \<and> \<not> bit status 5 \<and>
     port_writes tr' = port_writes tr @ [(0x64, 0xA8), (0x64, 0x20), (0x64, 0x60), (0x60, status)] @
       concat (map (\<lambda>b. [(0x64, 0xD4), (0x60, b)]) [0xF6, 0xF3, 200, 0xF3, 100, 0xF3, 80, 0xF2, 0xF4]) \<and>
     s' = (if id = (3 :: u8) \<or> id = 4 then s\<lparr>mouse_has_wheel := True\<rparr> else s)"
proof -
  let ?w = "\<lambda>tr. snd (ps2_wait_write hw tr)"
  let ?a = "snd (ps2_wait_read hw (outb 0x64 0x20 (?w (outb 0x64 0xA8 (?w tr)))))"
  let ?status = "(fst (inb hw 0x60 ?a) OR push_bit 1 1) AND NOT (push_bit 5 1) :: u8"
  let ?b = "outb 0x60 ?status (?w (outb 0x64 0x60 (?w (snd (inb hw 0x60 ?a)))))"
  let ?c = "fold (mouse_cmd hw) [0xF6, 0xF3, 200, 0xF3, 100, 0xF3, 80, 0xF2] ?b"
  let ?d = "mouse_cmd hw 0xF4 (snd (mouse_read hw ?c))"
  let ?id = "fst (mouse_read hw ?c)"
  let ?s = "if ?id = 3 \<or> ?id = 4 then s\<lparr>mouse_has_wheel := True\<rparr> else s"
  have e: "ps2_init hw (s, tr) = (?s, ?d)"
    by (simp add: ps2_init_def Let_def case_prod_beta)
  have cmds: "adds (300003 * length bs) (concat (map (\<lambda>b. [(0x64, 0xD4), (0x60, b)]) bs)) t
      (fold (mouse_cmd hw) bs t)" for bs t
  proof (induction bs arbitrary: t)
    case Nil
    then show ?case by (simp add: adds_def)
  next
    case (Cons b bs)
    from adds_trans [OF adds_mouse_cmd [of b t hw] Cons.IH] show ?case by (simp add: algebra_simps)
  qed
  have "adds (100000 + 1 + 100000 + 1 + 100000) (((([] @ [(0x64, 0xA8)]) @ []) @ [(0x64, 0x20)]) @ []) tr ?a"
    by (rule adds_steps adds_wait_write)+
  then have a: "adds 300002 [(0x64, 0xA8), (0x64, 0x20)] tr ?a" by simp
  have "adds (1 + 100000 + 1 + 100000 + 1) (((([] @ []) @ [(0x64, 0x60)]) @ []) @ [(0x60, ?status)]) ?a ?b"
    by (rule adds_steps adds_inb)+
  then have b: "adds 200003 [(0x64, 0x60), (0x60, ?status)] ?a ?b" by simp
  have d: "adds 400004 [(0x64, 0xD4), (0x60, 0xF4)] ?c ?d"
    using adds_trans [OF adds_mouse_read [of ?c hw] adds_mouse_cmd [of "0xF4" _ hw]] by simp
  have all: "adds 3300033 ([(0x64, 0xA8), (0x64, 0x20), (0x64, 0x60), (0x60, ?status)] @
       concat (map (\<lambda>b. [(0x64, 0xD4), (0x60, b)]) [0xF6, 0xF3, 200, 0xF3, 100, 0xF3, 80, 0xF2, 0xF4])) tr ?d"
    using adds_trans [OF adds_trans [OF adds_trans [OF a b] cmds] d] by simp
  have st: "bit ?status 1" "\<not> bit ?status 5"
    by (simp_all add: bit_or_iff bit_and_iff bit_not_iff bit_push_bit_iff bit_1_iff)
  from all have len: "length ?d \<le> length tr + 3300033" unfolding adds_def by (rule conjunct2)
  show ?thesis
  proof (intro exI conjI)
    show "ps2_init hw (s, tr) = (?s, ?d)" by (rule e)
    show "length ?d \<le> length tr + 4000000" by (rule order_trans [OF len]) simp
    show "bit ?status 1" by (rule st)
    show "\<not> bit ?status 5" by (rule st)
    from all show "port_writes ?d = port_writes tr @ [(0x64, 0xA8), (0x64, 0x20), (0x64, 0x60), (0x60, ?status)] @
       concat (map (\<lambda>b. [(0x64, 0xD4), (0x60, b)]) [0xF6, 0xF3, 200, 0xF3, 100, 0xF3, 80, 0xF2, 0xF4])"
      unfolding adds_def by (rule conjunct1)
    show "?s = (if ?id = 3 \<or> ?id = 4 then s\<lparr>mouse_has_wheel := True\<rparr> else s)" by (rule refl)
  qed
qed

section \<open>The mouse stays on the screen\<close>

definition ps2_ok :: "u32 \<Rightarrow> u32 \<Rightarrow> ps2 \<Rightarrow> bool" where
  "ps2_ok w h s \<longleftrightarrow> 0 \<le> mouse_x s \<and> mouse_x s < sint w \<and> 0 \<le> mouse_y s \<and> mouse_y s < sint h \<and>
     length (mouse_byte s) = 4 \<and> mouse_cycle s \<le> 3"

lemma sint_pred: "0 < sint w \<Longrightarrow> sint (w - 1) = sint w - 1" for w :: u32
proof -
  assume pos: "0 < sint w"
  have u: "uint w < 2 ^ 31" "sint w = uint w" 
    using pos uint_lt2p [of w] by (auto simp: sint_eq_if split: if_splits)
  have "uint (w - 1) = uint w - 1" using pos u uint_sub_lem [of 1 w] by simp
  with u show ?thesis by (simp add: sint_eq_if)
qed

definition clamp :: "int \<Rightarrow> int \<Rightarrow> int" where
  "clamp limit v = (if v < 0 then 0 else if v > limit - 1 then limit - 1 else v)"

definition mouse_delta :: "bool \<Rightarrow> u8 \<Rightarrow> int" where
  "mouse_delta neg b = (if neg then uint b - 256 else sint b)"

lemma sint_or_sign: "sint b OR NOT 0xFF = uint b - 256" for b :: u8
  using int_or_not_255 [of "sint b"] by (simp add: uint_sint)

lemma process_mouse_eq:
  assumes "0 < sint w" and "0 < sint h"
  shows "process_mouse w h s =
    s\<lparr>mouse_x := clamp (sint w) (mouse_x s + mouse_delta (mouse_byte s ! 0 AND 0x10 \<noteq> 0) (mouse_byte s ! 1)),
      mouse_y := clamp (sint h) (mouse_y s - mouse_delta (mouse_byte s ! 0 AND 0x20 \<noteq> 0) (mouse_byte s ! 2)),
      mouse_scroll_delta :=
        (if mouse_has_wheel s \<and> mouse_cycle s = 3
         then - (if mouse_byte s ! 3 AND 0x08 \<noteq> 0 then (mouse_byte s ! 3 AND 0x0F) OR NOT 0x0F
                 else mouse_byte s ! 3 AND 0x0F)
         else mouse_scroll_delta s),
      mouse_b_left := mouse_byte s ! 0 AND 0x01, mouse_b_right := mouse_byte s ! 0 AND 0x02,
      mouse_cycle := 0\<rparr>"
proof -
  have upd: "(if c then t\<lparr>mouse_x := v\<rparr> else t) = t\<lparr>mouse_x := (if c then v else mouse_x t)\<rparr>"
    "(if c then t\<lparr>mouse_y := v\<rparr> else t) = t\<lparr>mouse_y := (if c then v else mouse_y t)\<rparr>"
    "(if c then t\<lparr>mouse_scroll_delta := d\<rparr> else t) =
       t\<lparr>mouse_scroll_delta := (if c then d else mouse_scroll_delta t)\<rparr>" for c t v d
    by simp_all
  show ?thesis
    unfolding process_mouse_def Let_def upd sint_or_sign mouse_delta_def [symmetric]
      sint_pred [OF assms(1)] sint_pred [OF assms(2)]
    by (rule ps2.equality) (use assms in \<open>simp_all add: clamp_def\<close>)
qed

lemma mouse_cycle_cases: "c \<le> 3 \<Longrightarrow> c = 0 \<or> c = 1 \<or> c = 2 \<or> c = 3" for c :: u8
proof -
  assume "c \<le> 3"
  then have "unat c \<le> 3" by (simp add: word_le_nat_alt)
  then have "unat c = 0 \<or> unat c = 1 \<or> unat c = 2 \<or> unat c = 3" by linarith
  moreover have "c = of_nat (unat c)" by simp
  ultimately show ?thesis by (elim disjE) simp_all
qed

lemma handle_mouse_ok:
  assumes "0 < sint w" and "0 < sint h" and "ps2_ok w h s"
  shows "ps2_ok w h (handle_mouse w h b s)"
proof -
  have p: "length (mouse_byte s') = 4 \<Longrightarrow> ps2_ok w h (process_mouse w h s')" for s'
    using assms(1,2) by (simp add: process_mouse_eq ps2_ok_def clamp_def)
  from assms(3) have "mouse_cycle s = 0 \<or> mouse_cycle s = 1 \<or> mouse_cycle s = 2 \<or> mouse_cycle s = 3"
    using mouse_cycle_cases by (simp add: ps2_ok_def)
  then show ?thesis
    using assms(3) p by (auto simp: handle_mouse_def ps2_ok_def Let_def)
qed

lemma handle_kbd_mouse:
  "mouse_x (handle_kbd b s) = mouse_x s" "mouse_y (handle_kbd b s) = mouse_y s"
  "mouse_byte (handle_kbd b s) = mouse_byte s" "mouse_cycle (handle_kbd b s) = mouse_cycle s"
  by (simp_all add: handle_kbd_def Let_def)

lemma irq1_ok: "ps2_ok w h s \<Longrightarrow> ps2_ok w h (fst (irq1_handler hw (s, tr)))"
  by (auto simp: irq1_handler_def Let_def ps2_ok_def handle_kbd_mouse split: prod.splits)

lemma irq12_ok:
  "0 < sint w \<Longrightarrow> 0 < sint h \<Longrightarrow> ps2_ok w h s \<Longrightarrow> ps2_ok w h (fst (irq12_handler hw w h (s, tr)))"
  by (auto simp: irq12_handler_def Let_def handle_mouse_ok split: prod.splits)

text \<open>An input interrupt: the keyboard's or the mouse's.\<close>

datatype input_irq = Irq1 | Irq12

fun input_step :: "hardware \<Rightarrow> u32 \<Rightarrow> u32 \<Rightarrow> input_irq \<Rightarrow> ps2 \<times> trace \<Rightarrow> ps2 \<times> trace" where
  "input_step hw w h Irq1 st = irq1_handler hw st"
| "input_step hw w h Irq12 st = irq12_handler hw w h st"

text \<open>C21 (mouse_stays_on_screen): whatever bytes the controller delivers, and in whatever order
  keyboard and mouse interrupts arrive, the mouse position stays on the screen, the packet
  state stays one of the four of the decoder and the packet buffer keeps its four bytes.\<close>

theorem mouse_stays_on_screen:
  assumes "0 < sint w" and "0 < sint h" and "ps2_ok w h s"
  shows "ps2_ok w h (fst (fold (input_step hw w h) irqs (s, tr)))"
proof -
  have "ps2_ok w h (fst (input_step hw w h i st))" if "ps2_ok w h (fst st)" for i st
    using that assms(1,2) irq1_ok [of w h "fst st" hw "snd st"] irq12_ok [of w h "fst st" hw "snd st"]
    by (cases i) auto
  then have "ps2_ok w h (fst st) \<Longrightarrow> ps2_ok w h (fst (fold (input_step hw w h) irqs st))" for st
    by (induction irqs arbitrary: st) auto
  then show ?thesis using assms(3) by simp
qed

theorem mouse_stays_on_screen_witness:
  "ps2_ok 1280 720 (fst (fold (input_step \<lparr>hw_inb = (\<lambda>_ _. 0x29), hw_inl = (\<lambda>_ _. 0)\<rparr> 1280 720)
     [Irq12, Irq1, Irq12, Irq12, Irq12] (ps2_boot, [])))"
  by (rule mouse_stays_on_screen) (simp_all add: ps2_ok_def ps2_boot_def)

text \<open>The fact \<open>mouse_packet_moves\<close>: a packet of three bytes moves the pointer by the two 9-bit two's
  complement numbers it encodes (downwards for a negative vertical one), clamped to the screen,
  and reports the two buttons, when no positive movement exceeds 127; a larger positive
  movement is read as a negative one and moves the pointer the opposite way.\<close>

theorem mouse_packet_moves:
  fixes w h :: u32 and b0 b1 b2 :: u8 and s :: ps2
  assumes "0 < sint w" "0 < sint h" and "length (mouse_byte s) = 4" "mouse_cycle s = 0"
    and "\<not> mouse_has_wheel s" and "b0 AND 0x08 \<noteq> 0"
  defines "s' \<equiv> handle_mouse w h b2 (handle_mouse w h b1 (handle_mouse w h b0 s))"
  defines "dx \<equiv> uint b1 - (if b0 AND 0x10 \<noteq> 0 then 256 else 0)"
    and "dy \<equiv> uint b2 - (if b0 AND 0x20 \<noteq> 0 then 256 else 0)"
  shows "mouse_x s' = clamp (sint w) (mouse_x s + (if dx < 128 then dx else dx - 256)) \<and>
    mouse_y s' = clamp (sint h) (mouse_y s - (if dy < 128 then dy else dy - 256)) \<and>
    mouse_b_left s' = b0 AND 0x01 \<and> mouse_b_right s' = b0 AND 0x02 \<and> mouse_cycle s' = 0"
proof -
  obtain y0 y1 y2 y3 where l: "mouse_byte s = [y0, y1, y2, y3]"
    using assms(3) by (auto simp: length_Suc_conv numeral_eq_Suc)
  have d: "mouse_delta neg b =
      (let d = uint b - (if neg then 256 else 0) in if d < 128 then d else d - 256)" for neg and b :: u8
    using uint_lt2p [of b] by (simp add: mouse_delta_def sint_eq_if)
  show ?thesis
    unfolding s'_def dx_def dy_def
    using assms(4-6) by (simp add: handle_mouse_def l Let_def process_mouse_eq [OF assms(1,2)] d)
qed

theorem mouse_packet_moves_witness:
  "let s' = handle_mouse 1280 720 0xF6 (handle_mouse 1280 720 200 (handle_mouse 1280 720 0x29 ps2_boot))
   in mouse_x s' = 456 \<and> mouse_y s' = 394 \<and> mouse_b_left s' = 1"
  using mouse_packet_moves [of 1280 720 ps2_boot "0x29" "0xF6" 200]
  by (simp add: ps2_boot_def clamp_def Let_def)

section \<open>The keyboard\<close>

definition is_lower :: "char \<Rightarrow> bool" where
  "is_lower c \<longleftrightarrow> 97 \<le> (of_char c :: int) \<and> (of_char c :: int) \<le> 122"

definition upcase :: "char \<Rightarrow> char" where
  "upcase c = (if is_lower c then char_of (of_char c - 32 :: int) else c)"

lemma shifted_letters:
  "list_all2 (\<lambda>a b. is_lower a \<longrightarrow> b = upcase a) kbd_us kbd_us_shifted"
  by code_simp

lemma modifier_codes:
  "\<not> is_lower (kbd_us ! unat (0x38 :: u8))" "\<not> is_lower (kbd_us ! unat (0x1D :: u8))"
  "\<not> is_lower (kbd_us ! unat (0x2A :: u8))" "\<not> is_lower (kbd_us ! unat (0x36 :: u8))"
  "\<not> is_lower (kbd_us ! unat (0x3A :: u8))"
  by code_simp+

text \<open>The fact \<open>kbd_letter_case\<close>: pressing a letter's key stores its capital exactly when one of shift and caps
  lock is on, and its small letter otherwise.\<close>

theorem kbd_letter_case:
  assumes "data < 128" and "is_lower (kbd_us ! unat data)" and "\<not> e0_mode s"
  shows "handle_kbd data s = s\<lparr>last_key :=
    (if shift_pressed s \<noteq> capslock_active s then upcase (kbd_us ! unat data) else kbd_us ! unat data)\<rparr>"
proof -
  have i: "unat data < 128" using assms(1) by (simp add: word_less_nat_alt)
  have s: "kbd_us_shifted ! unat data = upcase (kbd_us ! unat data)"
    using list_all2_nthD [OF shifted_letters, of "unat data"] i assms(2) by (simp add: bounds_simps)
  have ne: "data \<noteq> 0xE0" "data \<noteq> 0xB8" "data \<noteq> 0x9D" "data \<noteq> 0xAA" "data \<noteq> 0xB6"
    using assms(1) by auto
  have "data \<noteq> 0x38" "data \<noteq> 0x1D" "data \<noteq> 0x2A" "data \<noteq> 0x36" "data \<noteq> 0x3A"
    using assms(2) modifier_codes by auto
  with ne s assms show ?thesis by (simp add: handle_kbd_def is_lower_def Let_def)
qed

theorem kbd_letter_case_witness:
  "handle_kbd 0x1E (handle_kbd 0x2A ps2_boot) =
     ps2_boot\<lparr>shift_pressed := True, last_key := CHR ''A''\<rparr>"
proof -
  have k: "kbd_us ! 30 = CHR ''a''" by code_simp
  have u: "upcase (CHR ''a'') = CHR ''A''" "is_lower (CHR ''a'')" by code_simp+
  have s: "handle_kbd 0x2A ps2_boot = ps2_boot\<lparr>shift_pressed := True\<rparr>"
    by (simp add: handle_kbd_def ps2_boot_def)
  show ?thesis
    unfolding s
    using kbd_letter_case [of "0x1E" "ps2_boot\<lparr>shift_pressed := True\<rparr>"] k u
    by (simp add: ps2_boot_def)
qed

end
