(* ===== verification/KernelState.thy ===== *)
theory KernelState
  imports Windows Timer Rtc Pci Cpuid Ps2
begin

text \<open>
  The state of the running kernel, the application registry (\<^verbatim>\<open>kernel/tasking/app.c\<close>), the system
  call layer (\<^verbatim>\<open>kernel/syscalls/syscall.c\<close>) and \<^verbatim>\<open>sleep\<close> of \<^verbatim>\<open>kernel/time/pit.c\<close> with the
  interrupts that arrive while the processor is halted.

  The record \<open>kernel\<close> extends \<open>core\<close> by one field per module that keeps static variables. An
  operation that fills a local character array is \<open>None\<close> when the text leaves the array.
\<close>

section \<open>The application registry\<close>

text \<open>The functions an application entry points to, named by the application.\<close>

datatype app_id = Htop | Yano | Sysinfo | Browser | Files | Settings | Terminal | Player | Imageviewer

record app_entry =
  app_name :: string
  app_title :: string
  app_description :: string
  app_init :: app_id
  app_launch :: app_id
  app_draw :: draw_fn
  app_handle_key :: "app_id option"

definition MAX_APPS :: nat where
  "MAX_APPS = 32"

record app_registry =
  reg_slots :: "app_entry option list"
  reg_count :: nat

definition app_registry_init :: "app_registry \<Rightarrow> app_registry" where
  "app_registry_init r = r\<lparr>reg_count := 0, reg_slots := replicate MAX_APPS None\<rparr>"

definition app_register :: "app_entry \<Rightarrow> app_registry \<Rightarrow> app_registry" where
  "app_register app r =
     (if reg_count r < MAX_APPS
      then r\<lparr>reg_slots := (reg_slots r)[reg_count r := Some app], reg_count := reg_count r + 1\<rparr>
      else r)"

text \<open>The entries a search loop \<^verbatim>\<open>for (i = 0; i < count; i++)\<close> visits.\<close>

definition reg_entries :: "app_registry \<Rightarrow> app_entry list" where
  "reg_entries r = map the (take (reg_count r) (reg_slots r))"

definition app_find :: "string \<Rightarrow> app_registry \<Rightarrow> app_entry option" where
  "app_find name r = List.find (\<lambda>a. strcmp (app_name a) name = 0) (reg_entries r)"

definition app_find_by_title :: "string \<Rightarrow> app_registry \<Rightarrow> app_entry option" where
  "app_find_by_title title r =
     List.find (\<lambda>a. strcmp (app_title a) title = 0 \<or>
                    strncmp (app_title a) title (strlen (app_title a)) = 0) (reg_entries r)"

definition app_get_count :: "app_registry \<Rightarrow> nat" where
  "app_get_count r = reg_count r"

definition app_get_by_index :: "nat \<Rightarrow> app_registry \<Rightarrow> app_entry option" where
  "app_get_by_index i r = (if i < reg_count r then reg_slots r ! i else None)"

section \<open>The kernel's state\<close>

text \<open>The text editor's statics.\<close>

definition YANO_BUF_SIZE :: nat where
  "YANO_BUF_SIZE = 4096"

record yano =
  yano_buf :: "char list"
  yano_len :: nat
  current_filename :: "char list"
  window_title :: "char list"

text \<open>The terminal's statics.\<close>

definition MAX_CMD :: nat where
  "MAX_CMD = 128"

definition MAX_HISTORY :: nat where
  "MAX_HISTORY = 40"

record history_line =
  hl_text :: "char list"
  hl_color :: u32

record terminal =
  cmd_buf :: "char list"
  cmd_len :: nat
  current_dir :: "char list"
  term_history :: "history_line list"
  history_count :: nat
  term_scroll_offset :: int

text \<open>The desktop's statics and the local variables that live through \<^verbatim>\<open>shell_loop\<close>.\<close>

record icon =
  icon_x :: int
  icon_y :: int
  icon_w :: int
  icon_h :: int
  icon_label :: string
  icon_app :: string
  icon_color :: u32

record shell =
  icons :: "icon list"
  start_menu_visible :: bool
  menu_visible :: bool
  menu_x :: int
  menu_y :: int
  task_switcher_visible :: bool
  dragging_icon_idx :: int
  drag_icon_off_x :: int
  drag_icon_off_y :: int
  last_super :: bool
  last_alt :: bool
  full_redraw :: bool
  last_mx :: int
  last_my :: int
  last_mbl :: u8
  last_mbr :: u8

record kernel = core +
  k_idt :: idt
  k_ps2 :: ps2
  k_fb :: fb
  k_fs :: vfs
  k_wm :: wm
  k_apps :: app_registry
  last_strtok :: "string option"
  k_yano :: yano
  k_term :: terminal
  k_shell :: shell
  ui_theme :: int
  wallpaper_mode :: int
  current_tab :: int
  player_selected_btn :: int
  current_image :: "char list"

text \<open>
  What the kernel runs on: the devices behind the ports, the \<^verbatim>\<open>cpuid\<close> instruction and the
  image decoder of \<^verbatim>\<open>stb_image.h\<close>.
\<close>

record machine =
  mc_hw :: hardware
  mc_cpu :: cpu
  mc_stbi :: image_decoder

text \<open>A sequence of drawing statements, and the window behind a \<^verbatim>\<open>window_t*\<close>.\<close>

definition fb_do :: "(fb \<Rightarrow> fb) list \<Rightarrow> kernel \<Rightarrow> kernel" where
  "fb_do fs k = k\<lparr>k_fb := run fs (k_fb k)\<rparr>"

definition the_win :: "nat \<Rightarrow> kernel \<Rightarrow> window" where
  "the_win i k = wm_windows (k_wm k) ! i"

definition win_text :: "window \<Rightarrow> kernel \<Rightarrow> string" where
  "win_text w k = (case win_title w of Title s \<Rightarrow> s | YanoTitle \<Rightarrow> window_title (k_yano k))"

text \<open>An unsigned value read by \<^verbatim>\<open>%d\<close>.\<close>

definition dec32 :: "u32 \<Rightarrow> carg" where
  "dec32 v = AInt (sint v)"

section \<open>The static variables\<close>

definition mm_boot :: "(u64 \<Rightarrow> u8) \<Rightarrow> mm" where
  "mm_boot r = \<lparr>heap_ptr = 0, total_mem_bytes = 0, kmalloc_count = 0, kmalloc_bytes = 0,
     page_alloc_count = 0, heap_start_addr = 0, ram = r\<rparr>"

definition idt_boot :: idt where
  "idt_boot = replicate 256 \<lparr>isr_low = 0, kernel_cs = 0, ist = 0, idt_attributes = 0, isr_mid = 0,
     isr_high = 0, idt_reserved = 0\<rparr>"

definition terminal_boot :: terminal where
  "terminal_boot = \<lparr>cmd_buf = replicate MAX_CMD NUL, cmd_len = 0,
     current_dir = CHR ''/'' # replicate 63 NUL,
     term_history = replicate MAX_HISTORY \<lparr>hl_text = replicate 128 NUL, hl_color = 0\<rparr>,
     history_count = 0, term_scroll_offset = 0\<rparr>"

definition boot_icons :: "icon list" where
  "boot_icons =
     [\<lparr>icon_x = 60, icon_y = 60, icon_w = 64, icon_h = 64, icon_label = ''Browser'',
       icon_app = ''browser'', icon_color = 0x4A90E2\<rparr>,
      \<lparr>icon_x = 60, icon_y = 160, icon_w = 64, icon_h = 64, icon_label = ''Terminal'',
       icon_app = ''terminal'', icon_color = 0x50E3C2\<rparr>,
      \<lparr>icon_x = 60, icon_y = 260, icon_w = 64, icon_h = 64, icon_label = ''Files'',
       icon_app = ''files'', icon_color = 0xF5A623\<rparr>]"

definition shell_boot :: shell where
  "shell_boot = \<lparr>icons = boot_icons, start_menu_visible = False, menu_visible = False, menu_x = 0,
     menu_y = 0, task_switcher_visible = False, dragging_icon_idx = -1, drag_icon_off_x = 0,
     drag_icon_off_y = 0, last_super = False, last_alt = False, full_redraw = True, last_mx = -1,
     last_my = -1, last_mbl = 0, last_mbr = 0\<rparr>"

definition yano_boot :: yano where
  "yano_boot = \<lparr>yano_buf = replicate YANO_BUF_SIZE NUL, yano_len = 0,
     current_filename = ''new.txt'' @ replicate 25 NUL,
     window_title = ''yano - new.txt'' @ replicate 50 NUL\<rparr>"

text \<open>\<open>r\<close> is what lies in memory when the kernel starts.\<close>

definition kernel_boot :: "(u64 \<Rightarrow> u8) \<Rightarrow> kernel" where
  "kernel_boot r = \<lparr>c_mm = mm_boot r, c_sched = sched_boot, c_pit = pit_boot, c_sound = sound_boot,
     c_trace = [], k_idt = idt_boot, k_ps2 = ps2_boot, k_fb = fb_boot, k_fs = vfs_zero, k_wm = wm_boot,
     k_apps = \<lparr>reg_slots = replicate MAX_APPS None, reg_count = 0\<rparr>, last_strtok = None,
     k_yano = yano_boot, k_term = terminal_boot, k_shell = shell_boot, ui_theme = 1,
     wallpaper_mode = 1, current_tab = 0, player_selected_btn = -1,
     current_image = ''sunset.bmp'' @ replicate 22 NUL\<rparr>"

section \<open>Interrupts\<close>

datatype irq = Tick | Keyboard | Mouse

fun irq_step :: "hardware \<Rightarrow> irq \<Rightarrow> kernel \<Rightarrow> kernel" where
  "irq_step hw Tick k = irq0_handler hw k"
| "irq_step hw Keyboard k =
     (let (p, tr) = irq1_handler hw (k_ps2 k, c_trace k) in k\<lparr>k_ps2 := p, c_trace := tr\<rparr>)"
| "irq_step hw Mouse k =
     (let (p, tr) = irq12_handler hw (fb_width (k_fb k)) (fb_height (k_fb k)) (k_ps2 k, c_trace k)
      in k\<lparr>k_ps2 := p, c_trace := tr\<rparr>)"

text \<open>
  \<^verbatim>\<open>sleep\<close>: the \<^verbatim>\<open>hlt\<close> of the loop ends with the next interrupt. The interrupts to come are a
  list; the result has the ones that are left, and is \<open>None\<close> while the loop still waits.
\<close>

fun sleep_until :: "hardware \<Rightarrow> u64 \<Rightarrow> irq list \<Rightarrow> kernel \<Rightarrow> (irq list \<times> kernel) option" where
  "sleep_until hw target [] k = (if kernel_ticks (c_pit k) < target then None else Some ([], k))"
| "sleep_until hw target (e # es) k =
     (if kernel_ticks (c_pit k) < target then sleep_until hw target es (irq_step hw e k)
      else Some (e # es, k))"

definition sleep :: "hardware \<Rightarrow> u32 \<Rightarrow> irq list \<Rightarrow> kernel \<Rightarrow> (irq list \<times> kernel) option" where
  "sleep hw ms es k = sleep_until hw (sleep_target ms (c_pit k)) es k"

text \<open>A tone for \<open>ms\<close> milliseconds (\<^verbatim>\<open>sound_beep\<close>, which no file calls); \<open>None\<close> while the interrupts do not end the sleep.\<close>

definition sound_beep :: "hardware \<Rightarrow> u32 \<Rightarrow> u32 \<Rightarrow> irq list \<Rightarrow> kernel \<Rightarrow> (irq list \<times> kernel) option" where
  "sound_beep hw frequency ms es k =
     (let (s, tr) = sound_play hw frequency (c_sound k, c_trace k)
      in case sleep hw ms es (k\<lparr>c_sound := s, c_trace := tr\<rparr>) of
           None \<Rightarrow> None
         | Some (es, k) \<Rightarrow>
             let (s, tr) = sound_stop hw (c_sound k, c_trace k)
             in Some (es, k\<lparr>c_sound := s, c_trace := tr\<rparr>))"

section \<open>System calls\<close>

definition sys_sleep :: "hardware \<Rightarrow> u32 \<Rightarrow> irq list \<Rightarrow> kernel \<Rightarrow> (irq list \<times> kernel) option" where
  "sys_sleep hw ms es k = sleep hw ms es k"

definition sys_uptime :: "kernel \<Rightarrow> u64" where
  "sys_uptime k = uptime_ms (c_pit k)"

definition sys_get_mem_info :: "kernel \<Rightarrow> mem_info" where
  "sys_get_mem_info k = mm_get_info (c_mm k)"

definition sys_get_char :: "kernel \<Rightarrow> char \<times> kernel" where
  "sys_get_char k = (let (c, p) = ps2_get_last_key (k_ps2 k) in (c, k\<lparr>k_ps2 := p\<rparr>))"

definition sys_create_task :: "string \<Rightarrow> u8 \<Rightarrow> kernel \<Rightarrow> (nat \<times> kernel) option" where
  "sys_create_task name is_kernel k =
     (case task_create name is_kernel (c_mm k, c_sched k) of
        None \<Rightarrow> None
      | Some (t, m, s) \<Rightarrow> Some (t, k\<lparr>c_mm := m, c_sched := s\<rparr>))"

definition sys_destroy_task :: "u32 \<Rightarrow> kernel \<Rightarrow> kernel option" where
  "sys_destroy_task pid k = map_option (\<lambda>s. k\<lparr>c_sched := s\<rparr>) (task_destroy pid (c_sched k))"

definition sys_is_ctrl_pressed :: "kernel \<Rightarrow> bool" where
  "sys_is_ctrl_pressed k = ps2_is_ctrl_pressed (k_ps2 k)"

text \<open>The two statements every launch ends with: a window and a task.\<close>

definition open_window ::
    "u32 \<Rightarrow> u32 \<Rightarrow> u32 \<Rightarrow> u32 \<Rightarrow> title_ref \<Rightarrow> draw_fn \<Rightarrow> string \<Rightarrow> kernel \<Rightarrow> kernel option" where
  "open_window x y w h title draw name k =
     map_option snd (sys_create_task name 1 (k\<lparr>k_wm := wm_add_window x y w h title (Some draw) (k_wm k)\<rparr>))"

section \<open>Sleeping\<close>

definition ticks_in :: "irq list \<Rightarrow> nat" where
  "ticks_in es = length (filter (\<lambda>e. e = Tick) es)"

lemma irq_step_ticks:
  "kernel_ticks (c_pit (irq_step hw e k)) = kernel_ticks (c_pit k) + (if e = Tick then 1 else 0)"
  by (cases e) (simp_all add: irq0_ticks Let_def split_beta)

lemma unat_step: "t < target \<Longrightarrow> unat (t + 1) = unat t + 1" for t target :: u64
proof -
  assume "t < target"
  then have "unat t + 1 < 2 ^ 64" using unat_less_2p [of target] by (simp add: word_less_nat_alt)
  then show ?thesis by (simp add: unat_word_ariths)
qed

lemma sleep_until_returns:
  assumes "unat target = unat (kernel_ticks (c_pit k)) + n" and "n \<le> ticks_in es"
  shows "\<exists>used rest k'. sleep_until hw target es k = Some (rest, k') \<and> kernel_ticks (c_pit k') = target \<and>
    es = used @ rest \<and> ticks_in used = n \<and> k' = fold (irq_step hw) used k"
  using assms
proof (induction es arbitrary: k n)
  case Nil
  then show ?case by (auto simp: ticks_in_def word_less_nat_alt word_unat_eq_iff)
next
  case (Cons e es)
  show ?case
  proof (cases "n = 0")
    case True
    with Cons.prems have "kernel_ticks (c_pit k) = target" by (simp add: word_unat_eq_iff)
    with True show ?thesis
      by (intro exI [of _ "[]"] exI [of _ "e # es"] exI [of _ k]) (simp add: ticks_in_def)
  next
    case False
    with Cons.prems have lt: "kernel_ticks (c_pit k) < target" by (simp add: word_less_nat_alt)
    let ?k = "irq_step hw e k"
    define d where "d = (if e = Tick then n - 1 else n)"
    have "unat (kernel_ticks (c_pit k) + 1) = unat (kernel_ticks (c_pit k)) + 1"
      using lt by (rule unat_step)
    then have "unat target = unat (kernel_ticks (c_pit ?k)) + d"
      using Cons.prems(1) False by (simp add: irq_step_ticks d_def)
    moreover have "d \<le> ticks_in es" using Cons.prems(2) by (auto simp: ticks_in_def d_def)
    ultimately obtain used rest k' where
      r: "sleep_until hw target es ?k = Some (rest, k')" "kernel_ticks (c_pit k') = target"
        "es = used @ rest" "ticks_in used = d" "k' = fold (irq_step hw) used ?k"
      using Cons.IH by blast
    then show ?thesis
      using lt False by (intro exI [of _ "e # used"] exI [of _ rest] exI [of _ k'])
        (auto simp: ticks_in_def d_def)
  qed
qed

lemma sleep_target_nat:
  "sleep_target ms p = kernel_ticks p + of_nat (unat ms * unat (timer_frequency p) div 1000)"
proof -
  have "unat ms < 2 ^ 32" "unat (timer_frequency p) < 2 ^ 32"
    using unat_less_2p [of ms] unat_less_2p [of "timer_frequency p"] by simp_all
  then have lt: "unat ms * unat (timer_frequency p) < 2 ^ 64"
    using mult_strict_mono [of "unat ms" "2 ^ 32" "unat (timer_frequency p)" "2 ^ 32"] by simp
  have m: "ucast ms * ucast (timer_frequency p) = (of_nat (unat ms * unat (timer_frequency p)) :: u64)"
    by simp
  have d: "(of_nat a :: u64) div 1000 = of_nat (a div 1000)" if "a < 2 ^ 64" for a
    using that by (simp add: word_unat_eq_iff unat_div unat_of_nat_small)
  show ?thesis unfolding sleep_target_def m d [OF lt] ..
qed

lemma sleep_until_waits:
  assumes "unat target = unat (kernel_ticks (c_pit k)) + n" and "ticks_in es < n"
  shows "sleep_until hw target es k = None"
  using assms
proof (induction es arbitrary: k n)
  case Nil
  then show ?case by (auto simp: ticks_in_def word_less_nat_alt)
next
  case (Cons e es)
  then have lt: "kernel_ticks (c_pit k) < target" by (simp add: word_less_nat_alt)
  have "unat (kernel_ticks (c_pit k) + 1) = unat (kernel_ticks (c_pit k)) + 1"
    using lt by (rule unat_step)
  then have "sleep_until hw target es (irq_step hw e k) = None"
    using Cons.prems by (intro Cons.IH [of _ "if e = Tick then n - 1 else n"])
      (auto simp: irq_step_ticks ticks_in_def)
  with lt show ?case by simp
qed

text \<open>C7 (sleep_returns): \<^verbatim>\<open>sleep(ms)\<close> returns as soon as the interrupts to come hold
  \<open>ms * frequency / 1000\<close> timer interrupts, and not before: it takes interrupts up to the one that
  completes that number, keyboard and mouse interrupts in between are handled, and the tick
  counter then stands exactly that much higher.\<close>

theorem sleep_returns:
  assumes "n = unat ms * unat (timer_frequency (c_pit k)) div 1000"
    and "unat (kernel_ticks (c_pit k)) + n < 2 ^ 64"
  shows "if n \<le> ticks_in es
    then \<exists>used rest k'. sleep hw ms es k = Some (rest, k') \<and> es = used @ rest \<and> ticks_in used = n \<and>
           k' = fold (irq_step hw) used k \<and> kernel_ticks (c_pit k') = kernel_ticks (c_pit k) + of_nat n
    else sleep hw ms es k = None"
proof -
  let ?t = "sleep_target ms (c_pit k)"
  have t: "?t = kernel_ticks (c_pit k) + of_nat n" by (simp add: sleep_target_nat assms(1))
  have "n < 2 ^ 64" using assms(2) by simp
  then have "unat ?t = unat (kernel_ticks (c_pit k)) + n"
    using assms(2) unfolding t by (simp add: unat_word_ariths unat_of_nat_small)
  then show ?thesis
    using sleep_until_returns [of ?t k n es hw] sleep_until_waits [of ?t k n es hw] t
    by (auto simp: sleep_def)
qed

theorem sleep_returns_witness:
  "sleep \<lparr>hw_inb = (\<lambda>_ _. 0), hw_inl = (\<lambda>_ _. 0)\<rparr> 2 [Tick, Mouse, Tick] (kernel_boot (\<lambda>_. 0)) \<noteq> None"
  using sleep_returns [of 2 2 "kernel_boot (\<lambda>_. 0)" "[Tick, Mouse, Tick]"
      "\<lparr>hw_inb = (\<lambda>_ _. 0), hw_inl = (\<lambda>_ _. 0)\<rparr>"]
  by (auto simp: kernel_boot_def pit_boot_def ticks_in_def)

end
