(* ===== verification/Apps.thy ===== *)
theory Apps
  imports KernelState
begin

text \<open>
  The applications without a key handler: \<^verbatim>\<open>htop\<close>, \<^verbatim>\<open>sysinfo\<close>, \<^verbatim>\<open>browser\<close>, \<^verbatim>\<open>files\<close>,
  \<^verbatim>\<open>settings\<close>, \<^verbatim>\<open>player\<close> and \<^verbatim>\<open>imageviewer\<close> under \<^verbatim>\<open>apps/\<close>. Each has its registry entry, its
  \<^verbatim>\<open>launch\<close> and its \<^verbatim>\<open>draw\<close>; a \<^verbatim>\<open>window_t*\<close> is the index of the window. A \<^verbatim>\<open>draw\<close> is \<open>None\<close>
  when a formatted line leaves its local array.
\<close>

section \<open>htop\<close>

definition htop_app :: app_entry where
  "htop_app = \<lparr>app_name = ''htop'', app_title = ''htop'', app_description = ''Task Manager'',
     app_init = Htop, app_launch = Htop, app_draw = DrawHtop, app_handle_key = None\<rparr>"

definition htop_init :: "kernel \<Rightarrow> kernel" where
  "htop_init k = k\<lparr>k_apps := app_register htop_app (k_apps k)\<rparr>"

definition htop_launch :: "string option \<Rightarrow> kernel \<Rightarrow> kernel option" where
  "htop_launch args k = open_window 150 150 600 320 (Title ''htop'') DrawHtop ''htop'' k"

definition htop_cpu_usage :: "pit \<Rightarrow> u32" where
  "htop_cpu_usage p =
     (let tot = kernel_ticks p; idle = idle_ticks p;
          cpu_usage = (if tot > 0 \<and> tot \<ge> idle then ucast ((tot - idle) * 100 div tot) else 0)
      in if cpu_usage > 100 then 100 else cpu_usage)"

definition htop_mem_percent :: "mem_info \<Rightarrow> u32" where
  "htop_mem_percent mem =
     (let mem_percent = (if total_memory mem > 0
                         then ucast (used_memory mem * 100 div total_memory mem) else 0)
      in if mem_percent > 100 then 100 else mem_percent)"

text \<open>A bar of 20 characters in \<^verbatim>\<open>char bar[22]\<close>.\<close>

definition percent_bar :: "u32 \<Rightarrow> char list option" where
  "percent_bar percent = do {
     bar \<leftarrow> memset (replicate 22 NUL) 32 20;
     bar \<leftarrow> upd_at 20 NUL bar;
     for_up 0 (unat (percent div 5)) (\<lambda>i b. Option.bind b (upd_at i (CHR ''|''))) (Some bar)
   }"

definition htop_state_char :: "task_state \<Rightarrow> char" where
  "htop_state_char st =
     (if st = TASK_SLEEPING then CHR ''S''
      else if st = TASK_BLOCKED then CHR ''B''
      else if st = TASK_ZOMBIE then CHR ''Z'' else CHR ''R'')"

definition htop_task_line :: "task \<Rightarrow> string option" where
  "htop_task_line t =
     sprint 128 ''   %2d  %-16s   %c      %8d     %s''
       [dec32 (t_pid t), AStr (t_name t), AInt (of_char (htop_state_char (t_state t))),
        dec32 (ucast (t_runtime_ticks t)), AStr (if t_is_kernel t \<noteq> 0 then ''Kernel'' else ''User'')]"

text \<open>The loop over the copied tasks, from the screen line \<open>sy\<close> on.\<close>

fun htop_tasks :: "u32 \<Rightarrow> task list \<Rightarrow> u32 \<Rightarrow> fb \<Rightarrow> fb option" where
  "htop_tasks x [] sy s = Some s"
| "htop_tasks x (t # ts) sy s = do {
     line \<leftarrow> htop_task_line t;
     let text_color = (if t_pid t = 42 \<or> strcmp (t_name t) ''htop'' = 0 then 0x00FF00 else 0xCCCCCC);
     htop_tasks x ts (sy + 15) (fb_print line (x + 10) sy text_color 0x111111 s)
   }"

definition htop_draw :: "nat \<Rightarrow> kernel \<Rightarrow> kernel option" where
  "htop_draw i k = do {
     let w = the_win i k; let x = win_x w; let y = win_y w;
     let mem = sys_get_mem_info k; let up = sys_uptime k;
     let cpu_usage = htop_cpu_usage (c_pit k);
     let used_mb = ucast (used_memory mem div 1024 div 1024);
     let total_mb = ucast (total_memory mem div 1024 div 1024);
     cpu_bar \<leftarrow> percent_bar cpu_usage;
     cpu_str \<leftarrow> sprint 64 ''CPU  [%s] %d.0%%'' [AStr cpu_bar, dec32 cpu_usage];
     mem_bar \<leftarrow> percent_bar (htop_mem_percent mem);
     mem_str \<leftarrow> sprint 64 ''Mem  [%s] %dMB/%dMB (Pages: %d)''
       [AStr mem_bar, dec32 used_mb, dec32 total_mb, dec32 (ucast (page_allocations mem))];
     alloc_str \<leftarrow> sprint 64 ''Uptime: %d.%03ds | Active Allocations: %d''
       [dec32 (ucast (up div 1000)), dec32 (ucast (up mod 1000)), dec32 (ucast (heap_allocations mem))];
     let k = fb_do [
       fb_rect (x + 6) (y + 26) (win_w w - 12) (win_h w - 32) 0x111111,
       fb_print ''htop - Task Manager'' (x + 10) (y + 35) 0x00FF00 0x111111,
       fb_print cpu_str (x + 10) (y + 55) 0x4A90E2 0x111111,
       fb_print mem_str (x + 10) (y + 75) 0xF5A623 0x111111,
       fb_print alloc_str (x + 10) (y + 95) 0xBD10E0 0x111111,
       fb_rect (x + 10) (y + 115) (win_w w - 20) 2 0x555555,
       fb_print ''  PID  COMMAND          STATE     CPU TICKS   TYPE'' (x + 10) (y + 125) 0xFFFFFF 0x111111] k;
     s \<leftarrow> htop_tasks x (sys_get_tasks 12 (c_sched k)) (y + 145) (k_fb k);
     Some (k\<lparr>k_fb := s\<rparr>)
   }"

section \<open>sysinfo\<close>

definition sysinfo_app :: app_entry where
  "sysinfo_app = \<lparr>app_name = ''sysinfo'', app_title = ''System Info'',
     app_description = ''System Specifications'', app_init = Sysinfo, app_launch = Sysinfo,
     app_draw = DrawSysinfo, app_handle_key = None\<rparr>"

definition sysinfo_init :: "kernel \<Rightarrow> kernel" where
  "sysinfo_init k = k\<lparr>k_apps := app_register sysinfo_app (k_apps k)\<rparr>"

definition sysinfo_launch :: "string option \<Rightarrow> kernel \<Rightarrow> kernel option" where
  "sysinfo_launch args k = open_window 200 100 500 300 (Title ''System Info'') DrawSysinfo ''sysinfo'' k"

definition sysinfo_banner :: "(string \<times> u32) list" where
  "sysinfo_banner =
     [(''  ____  _   _ _  _______ _   _ '', 40),
      (('' / __ '' @ [CHR 0x5C] @ ''| '' @ [CHR 0x5C] @ '' | | |/ / ____| '' @ [CHR 0x5C] @ '' | |''), 52),
      ((''| |  | |  '' @ [CHR 0x5C] @ ''| | '' @ [CHR 0x27] @ '' /| |__ |  '' @ [CHR 0x5C] @ ''| |''), 64),
      ((''| |  | | . '' @ [CHR 0x60] @ '' |  < |  __|| . '' @ [CHR 0x60] @ '' |''), 76),
      ((''| |__| | |'' @ [CHR 0x5C] @ ''  | . '' @ [CHR 0x5C] @ ''| |___| |'' @ [CHR 0x5C] @ ''  |''), 88),
      (('' '' @ [CHR 0x5C] @ ''____/|_| '' @ [CHR 0x5C] @ ''_|_|'' @ [CHR 0x5C] @ ''_'' @ [CHR 0x5C] @ ''_____|_| '' @ [CHR 0x5C] @ ''_|''), 100)]"

definition sysinfo_draw :: "nat \<Rightarrow> kernel \<Rightarrow> kernel option" where
  "sysinfo_draw i k = do {
     let w = the_win i k; let x = win_x w; let y = win_y w; let up = sys_uptime k;
     uptime_str \<leftarrow> sprint 64 ''Uptime      : %d.%03ds (Ticks: %d)''
       [dec32 (ucast (up div 1000)), dec32 (ucast (up mod 1000)), dec32 (ucast up)];
     Some (fb_do
       (map (\<lambda>(str, dy). fb_print str (x + 20) (y + dy) 0x0055AA 0xC0C0C0) sysinfo_banner @
        [fb_print ''Made by Ayham & Mason'' (x + 20) (y + 130) 0x882200 0xC0C0C0,
         fb_print ''OS Version  : Onken OS Revolution v3.0.0'' (x + 20) (y + 160) 0x000000 0xC0C0C0,
         fb_print ''Kernel      : Onken Microkernel x86_64'' (x + 20) (y + 175) 0x000000 0xC0C0C0,
         fb_print ''Graphics    : Desktop Compositor Engine'' (x + 20) (y + 190) 0x000000 0xC0C0C0,
         fb_print uptime_str (x + 20) (y + 205) 0x000000 0xC0C0C0]) k)
   }"

section \<open>browser\<close>

definition browser_app :: app_entry where
  "browser_app = \<lparr>app_name = ''browser'', app_title = ''Onken Browser'',
     app_description = ''Web Browser'', app_init = Browser, app_launch = Browser,
     app_draw = DrawBrowser, app_handle_key = None\<rparr>"

definition browser_init :: "kernel \<Rightarrow> kernel" where
  "browser_init k = k\<lparr>k_apps := app_register browser_app (k_apps k)\<rparr>"

definition browser_launch :: "string option \<Rightarrow> kernel \<Rightarrow> kernel option" where
  "browser_launch args k = open_window 150 100 800 500 (Title ''Onken Browser'') DrawBrowser ''browser'' k"

definition browser_draw :: "nat \<Rightarrow> kernel \<Rightarrow> kernel" where
  "browser_draw i k =
     (let w = the_win i k; x = win_x w; y = win_y w; ww = win_w w; wh = win_h w in
      fb_do [
        draw_retro_3d_panel (x + 10) (y + 35) (ww - 20) 22 True,
        fb_rect (x + 12) (y + 37) (ww - 24) 18 0xFFFFFF,
        fb_print ''URL: https://onken-search.org'' (x + 16) (y + 42) 0x000000 0xFFFFFF,
        draw_retro_3d_panel (x + 10) (y + 65) (ww - 20) (wh - 75) True,
        fb_rect (x + 12) (y + 67) (ww - 24) (wh - 79) 0xFFFFFF,
        fb_print ''Onken Search Engine v1.0'' (x + (ww - 24 * 8) div 2) (y + 85) 0x000000 0xFFFFFF,
        draw_retro_3d_panel (x + (ww - 150) div 2) (y + 115) 150 26 False,
        fb_print ''Search'' (x + (ww - 6 * 8) div 2) (y + 124) 0x000000 0xC0C0C0,
        fb_print ''Featured News:'' (x + 24) (y + 175) 0x882200 0xFFFFFF,
        fb_print ''- Onken OS revolutionizes OS development!'' (x + 24) (y + 200) 0x000000 0xFFFFFF,
        fb_print ''- Diff-based rendering makes dragging butter-smooth.'' (x + 24) (y + 220)
          0x000000 0xFFFFFF] k)"

section \<open>files\<close>

definition files_app :: app_entry where
  "files_app = \<lparr>app_name = ''files'', app_title = ''File Explorer'',
     app_description = ''File Manager'', app_init = Files, app_launch = Files,
     app_draw = DrawFiles, app_handle_key = None\<rparr>"

definition files_init :: "kernel \<Rightarrow> kernel" where
  "files_init k = k\<lparr>k_apps := app_register files_app (k_apps k)\<rparr>"

definition files_launch :: "string option \<Rightarrow> kernel \<Rightarrow> kernel option" where
  "files_launch args k = open_window 200 150 600 400 (Title ''File Explorer'') DrawFiles ''files'' k"

definition file_label :: "vfs_file \<Rightarrow> string option" where
  "file_label f = sprint 64 ''[FILE] %-12s (%3d B)'' [AStr (f_name f), dec32 (of_nat (f_size f))]"

text \<open>One turn of the loop over the 64 slots: the next screen line and the picture.\<close>

definition files_row :: "vfs \<Rightarrow> u32 \<Rightarrow> nat \<Rightarrow> u32 \<times> fb \<Rightarrow> (u32 \<times> fb) option" where
  "files_row fs x i st =
     (let (sy, s) = st in
      case vfs_get_by_index (int i) fs of
        None \<Rightarrow> Some (sy, s)
      | Some j \<Rightarrow> do {
          file_lbl \<leftarrow> file_label (fs ! j);
          Some (sy + 20, fb_print file_lbl (x + 260) sy 0x222222 0xC0C0C0 s)
        })"

definition files_draw :: "nat \<Rightarrow> kernel \<Rightarrow> kernel option" where
  "files_draw i k = do {
     let w = the_win i k; let x = win_x w; let y = win_y w;
     let k = fb_do [
           fb_print ''System Drive (RAM Disk)'' (x + 20) (y + 40) 0x882200 0xC0C0C0,
           fb_print ''Directories:'' (x + 20) (y + 70) 0x882200 0xC0C0C0,
           fb_print ''[DIR]  system/'' (x + 20) (y + 90) 0x0055AA 0xC0C0C0,
           fb_print ''[DIR]  apps/'' (x + 20) (y + 110) 0x0055AA 0xC0C0C0,
           fb_print ''[DIR]  assets/'' (x + 20) (y + 130) 0x0055AA 0xC0C0C0,
           fb_print ''Files:'' (x + 260) (y + 70) 0x882200 0xC0C0C0] k;
     (sy, s) \<leftarrow> for_up 0 64 (\<lambda>j st. Option.bind st (files_row (k_fs k) x j)) (Some (y + 90, k_fb k));
     Some (k\<lparr>k_fb := s\<rparr>)
   }"

section \<open>settings\<close>

definition settings_app :: app_entry where
  "settings_app = \<lparr>app_name = ''settings'', app_title = ''Settings'',
     app_description = ''Appearance Settings'', app_init = Settings, app_launch = Settings,
     app_draw = DrawSettings, app_handle_key = None\<rparr>"

definition settings_init :: "kernel \<Rightarrow> kernel" where
  "settings_init k = k\<lparr>k_apps := app_register settings_app (k_apps k)\<rparr>"

definition settings_launch :: "string option \<Rightarrow> kernel \<Rightarrow> kernel option" where
  "settings_launch args k = open_window 250 200 420 320 (Title ''Settings'') DrawSettings ''settings'' k"

definition settings_tabs :: "window \<Rightarrow> int \<Rightarrow> (fb \<Rightarrow> fb) list" where
  "settings_tabs w tab =
     (let x = win_x w; y = win_y w in
      [draw_retro_3d_panel (x + 10) (y + 30) 100 25 (tab = 0),
       fb_print ''Appearance'' (x + 20) (y + 38) 0x000000 0xC0C0C0,
       draw_retro_3d_panel (x + 115) (y + 30) 100 25 (tab = 1),
       fb_print ''System Info'' (x + 125) (y + 38) 0x000000 0xC0C0C0,
       draw_retro_3d_panel (x + 220) (y + 30) 100 25 (tab = 2),
       fb_print ''Audio'' (x + 245) (y + 38) 0x000000 0xC0C0C0,
       draw_retro_3d_panel (x + 10) (y + 55) (win_w w - 20) (win_h w - 65) True])"

definition settings_appearance :: "u32 \<Rightarrow> u32 \<Rightarrow> int \<Rightarrow> int \<Rightarrow> (fb \<Rightarrow> fb) list" where
  "settings_appearance px py theme wallpaper =
     [fb_print ''Appearance Settings'' px py 0x882200 0xC0C0C0,
      draw_retro_3d_panel px (py + 20) 180 30 (theme = 1),
      fb_print ''Retro Theme'' (px + 20) (py + 31) 0x000000 0xC0C0C0,
      draw_retro_3d_panel px (py + 60) 180 30 (theme = 0),
      fb_print ''Modern Theme'' (px + 20) (py + 71) 0x000000 0xC0C0C0,
      fb_print ''Wallpaper'' px (py + 110) 0x882200 0xC0C0C0,
      draw_retro_3d_panel px (py + 130) 180 30 (wallpaper = 1),
      fb_print ''Solid Teal'' (px + 20) (py + 141) 0x000000 0xC0C0C0,
      draw_retro_3d_panel px (py + 170) 180 30 (wallpaper = 0),
      fb_print ''Space Gradient'' (px + 20) (py + 181) 0x000000 0xC0C0C0]"

text \<open>The 64-bit megabyte count goes to \<^verbatim>\<open>%d\<close>, which reads its low 32 bits.\<close>

definition settings_system :: "cpu \<Rightarrow> u32 \<Rightarrow> u32 \<Rightarrow> mem_info \<Rightarrow> (fb \<Rightarrow> fb) list option" where
  "settings_system cpuid px py mem = do {
     cpu \<leftarrow> cpuid_get_brand_string cpuid (replicate 64 NUL);
     cpu_line \<leftarrow> sprint 128 ''CPU: %s'' [AStr cpu];
     mem_line \<leftarrow> sprint 128 ''Memory: %d MB Total'' [dec32 (ucast (total_memory mem div 1024 div 1024))];
     Some [fb_print ''System Information'' px py 0x224488 0xC0C0C0,
           fb_print cpu_line px (py + 30) 0x000000 0xC0C0C0,
           fb_print mem_line px (py + 50) 0x000000 0xC0C0C0,
           fb_print ''OS: Onken OS Nightly Build'' px (py + 70) 0x000000 0xC0C0C0]
   }"

definition settings_audio :: "u32 \<Rightarrow> u32 \<Rightarrow> (fb \<Rightarrow> fb) list" where
  "settings_audio px py =
     [fb_print ''Audio Settings'' px py 0x882200 0xC0C0C0,
      fb_print ''Sound Driver: PC Speaker (Port 0x61)'' px (py + 30) 0x000000 0xC0C0C0,
      fb_print ''Status: Active'' px (py + 50) 0x00AA00 0xC0C0C0,
      draw_retro_3d_panel px (py + 90) 180 30 False,
      fb_print ''Test Beep'' (px + 40) (py + 101) 0x000000 0xC0C0C0]"

definition settings_draw :: "cpu \<Rightarrow> nat \<Rightarrow> kernel \<Rightarrow> kernel option" where
  "settings_draw cpuid i k = do {
     let w = the_win i k; let px = win_x w + 20; let py = win_y w + 70;
     let k = fb_do (settings_tabs w (current_tab k)) k;
     if current_tab k = 0 then
       Some (fb_do (settings_appearance px py (ui_theme k) (wallpaper_mode k)) k)
     else if current_tab k = 1 then
       map_option (\<lambda>fs. fb_do fs k) (settings_system cpuid px py (sys_get_mem_info k))
     else if current_tab k = 2 then Some (fb_do (settings_audio px py) k)
     else Some k
   }"

section \<open>player\<close>

definition player_app :: app_entry where
  "player_app = \<lparr>app_name = ''player'', app_title = ''Sound Player'',
     app_description = ''PC Speaker Chiptunes'', app_init = Player, app_launch = Player,
     app_draw = DrawPlayer, app_handle_key = None\<rparr>"

definition player_init :: "kernel \<Rightarrow> kernel" where
  "player_init k = k\<lparr>k_apps := app_register player_app (k_apps k)\<rparr>"

definition player_launch :: "string option \<Rightarrow> kernel \<Rightarrow> kernel option" where
  "player_launch args k = open_window 100 200 420 240 (Title ''Sound Player'') DrawPlayer ''player'' k"

definition player_draw :: "nat \<Rightarrow> kernel \<Rightarrow> kernel" where
  "player_draw i k =
     (let w = the_win i k; x = win_x w; y = win_y w; btn = player_selected_btn k in
      fb_do [
        fb_print ''Retro Sound Console'' (x + 20) (y + 40) 0x882200 0xC0C0C0,
        draw_retro_3d_panel (x + 20) (y + 70) 180 30 (btn = 0),
        fb_print ''Play Chiptune'' (x + 40) (y + 81) 0x000000 0xC0C0C0,
        draw_retro_3d_panel (x + 220) (y + 70) 180 30 (btn = 1),
        fb_print ''Success Alert'' (x + 240) (y + 81) 0x000000 0xC0C0C0,
        draw_retro_3d_panel (x + 20) (y + 120) 380 30 (btn = 2),
        fb_print ''Mute Speaker / Stop Sound'' (x + 80) (y + 131) 0x000000 0xC0C0C0,
        fb_print ''Click a button above to play authentic retro tones!'' (x + 20) (y + 175)
          0x222222 0xC0C0C0,
        fb_print ''Uses motherboard timer chip Channel 2 (8253 PIT).'' (x + 20) (y + 195)
          0x222222 0xC0C0C0] k)"

section \<open>imageviewer\<close>

definition imageviewer_app :: app_entry where
  "imageviewer_app = \<lparr>app_name = ''imageviewer'', app_title = ''Image Viewer'',
     app_description = ''PNG/JPEG/BMP Viewer'', app_init = Imageviewer, app_launch = Imageviewer,
     app_draw = DrawImageviewer, app_handle_key = None\<rparr>"

definition imageviewer_init :: "kernel \<Rightarrow> kernel" where
  "imageviewer_init k = k\<lparr>k_apps := app_register imageviewer_app (k_apps k)\<rparr>"

definition imageviewer_launch :: "string option \<Rightarrow> kernel \<Rightarrow> kernel option" where
  "imageviewer_launch args k = do {
     img \<leftarrow> (case args of
              Some a \<Rightarrow> if strlen a > 0 then strncpy_term (current_image k) a 31
                         else strncpy (current_image k) ''logo.png'' 31
            | None \<Rightarrow> strncpy (current_image k) ''logo.png'' 31);
     open_window 150 100 400 340 (Title ''Image Viewer'') DrawImageviewer ''imageviewer''
       (k\<lparr>current_image := img\<rparr>)
   }"

definition imageviewer_caption :: "window \<Rightarrow> string \<Rightarrow> vfs_file option \<Rightarrow> (fb \<Rightarrow> fb) list option" where
  "imageviewer_caption w img f =
     (let x = win_x w; y = win_y w in
      case f of
        Some file \<Rightarrow> do {
          info \<leftarrow> sprint 80 ''%s  %d bytes'' [AStr img, dec32 (of_nat (f_size file))];
          Some [fb_print info (x + 12) (y + 40) 0x000000 0xC0C0C0]
        }
      | None \<Rightarrow>
          Some [fb_print ''Image: '' (x + 12) (y + 40) 0x882200 0xC0C0C0,
                fb_print img (x + 72) (y + 40) 0x000000 0xC0C0C0])"

definition imageviewer_draw :: "image_decoder \<Rightarrow> nat \<Rightarrow> kernel \<Rightarrow> kernel option" where
  "imageviewer_draw stbi i k = do {
     let w = the_win i k;
     let f = map_option ((!) (k_fs k)) (vfs_open (current_image k) (k_fs k));
     let vx = win_x w + 10; let vy = win_y w + 56; let vw = win_w w - 20; let vh = win_h w - 70;
     caption \<leftarrow> imageviewer_caption w (current_image k) f;
     let k = fb_do (caption @
           [draw_retro_3d_panel vx vy vw vh True,
            fb_rect (vx + 2) (vy + 2) (vw - 4) (vh - 4) 0x222222]) k;
     case f of
       Some file \<Rightarrow>
         (let (m, s) = fb_draw_image stbi (f_data file) (f_size file) (sint (vx + 4)) (sint (vy + 4))
                         (sint (vw - 8)) (sint (vh - 8)) (c_mm k, k_fb k)
          in Some (k\<lparr>c_mm := m, k_fb := s\<rparr>))
     | None \<Rightarrow>
         Some (fb_do
           [fb_print ''File not found.'' (vx + 10) (vy + 20) 0xFF5555 0x222222,
            fb_print (''Use '' @ [CHR 0x27] @ ''ls'' @ [CHR 0x27] @ '' to see available files.'') (vx + 10) (vy + 40) 0xAAAAAA 0x222222] k)
   }"

end
