(* ===== verification/TextField.thy ===== *)
theory TextField
  imports CString
begin

text \<open>
  Two interfaces that the editor and the terminal share. A \<open>text_field\<close> takes keys: each key
  edits the text behind a character buffer as a specification function says. A \<open>bounded_log\<close>
  takes lines and keeps the last ones.
\<close>

section \<open>Editing a text at its end\<close>

definition printable :: "char \<Rightarrow> bool" where
  "printable c \<longleftrightarrow> of_char c \<ge> (32 :: int) \<and> of_char c < (127 :: int)"

text \<open>Backspace drops the last character, a printable character goes to the end if there is room.\<close>

definition edit_line :: "nat \<Rightarrow> char \<Rightarrow> string \<Rightarrow> string" where
  "edit_line cap c t =
     (if c = CHR 0x08 then butlast t
      else if printable c \<and> length t < cap then t @ [c] else t)"

text \<open>A sequence of keys through a fallible key handler.\<close>

fun type_all :: "(char \<Rightarrow> 's \<Rightarrow> 's option) \<Rightarrow> char list \<Rightarrow> 's \<Rightarrow> 's option" where
  "type_all key [] s = Some s"
| "type_all key (c # cs) s = Option.bind (key c s) (type_all key cs)"

locale text_field =
  fixes inv :: "'s \<Rightarrow> bool" and text_of :: "'s \<Rightarrow> string"
    and key :: "char \<Rightarrow> 's \<Rightarrow> 's option" and edit :: "char \<Rightarrow> string \<Rightarrow> string"
    and frame :: "'s \<Rightarrow> 'f" and ok :: "char \<Rightarrow> bool"
  assumes key_law: "inv s \<Longrightarrow> ok c \<Longrightarrow>
    \<exists>s'. key c s = Some s' \<and> inv s' \<and> text_of s' = edit c (text_of s) \<and> frame s' = frame s"
begin

lemma type_law:
  "inv s \<Longrightarrow> (\<And>c. c \<in> set cs \<Longrightarrow> ok c) \<Longrightarrow>
   \<exists>s'. type_all key cs s = Some s' \<and> inv s' \<and> text_of s' = fold edit cs (text_of s) \<and> frame s' = frame s"
proof (induction cs arbitrary: s)
  case Nil
  then show ?case by simp
next
  case (Cons c cs)
  from key_law [OF Cons.prems(1) Cons.prems(2) [of c]] obtain s1 where
    s1: "key c s = Some s1" "inv s1" "text_of s1 = edit c (text_of s)" "frame s1 = frame s" by auto
  from Cons.IH [OF s1(2) Cons.prems(2)] s1 show ?case by auto
qed

text \<open>Keys that only add characters appear behind the text, in order.\<close>

lemma type_appends:
  assumes "inv s" and "\<And>c. c \<in> set cs \<Longrightarrow> ok c"
    and "\<And>c t. c \<in> set cs \<Longrightarrow> length t < length (text_of s) + length cs \<Longrightarrow> edit c t = t @ [c]"
  shows "\<exists>s'. type_all key cs s = Some s' \<and> inv s' \<and> text_of s' = text_of s @ cs \<and> frame s' = frame s"
proof -
  have "fold edit ds t = t @ ds"
    if "set ds \<subseteq> set cs" "length t + length ds \<le> length (text_of s) + length cs" for ds t
    using that
  proof (induction ds arbitrary: t)
    case (Cons d ds)
    then have "edit d t = t @ [d]" using assms(3) [of d t] by simp
    with Cons show ?case by simp
  qed simp
  then have "fold edit cs (text_of s) = text_of s @ cs" by simp
  with type_law [of s cs] assms(1,2) show ?thesis by auto
qed

end

section \<open>Keeping the last lines\<close>

definition keep_last :: "nat \<Rightarrow> 'a list \<Rightarrow> 'a list" where
  "keep_last n xs = drop (length xs - n) xs"

lemma keep_last_all [simp]: "length xs \<le> n \<Longrightarrow> keep_last n xs = xs"
  by (simp add: keep_last_def)

lemma length_keep_last [simp]: "length (keep_last n xs) = min n (length xs)"
  by (simp add: keep_last_def)

lemma keep_last_append: "keep_last n (keep_last n xs @ ys) = keep_last n (xs @ ys)"
proof (cases "length xs \<le> n")
  case False
  then have "length (keep_last n xs) = n" by simp
  then show ?thesis using False by (simp add: keep_last_def add.commute)
qed simp

lemma last_keep_last: "0 < n \<Longrightarrow> keep_last n (xs @ [x]) \<noteq> [] \<and> last (keep_last n (xs @ [x])) = x"
  by (simp add: keep_last_def)

fun add_all :: "('m \<Rightarrow> 's \<Rightarrow> 's option) \<Rightarrow> 'm list \<Rightarrow> 's \<Rightarrow> 's option" where
  "add_all add [] s = Some s"
| "add_all add (m # ms) s = Option.bind (add m s) (add_all add ms)"

locale bounded_log =
  fixes inv :: "'s \<Rightarrow> bool" and entries :: "'s \<Rightarrow> 'e list"
    and add :: "'m \<Rightarrow> 's \<Rightarrow> 's option" and entry :: "'m \<Rightarrow> 'e" and cap :: nat
    and frame :: "'s \<Rightarrow> 'f"
  assumes add_law: "inv s \<Longrightarrow>
      \<exists>s'. add m s = Some s' \<and> inv s' \<and> entries s' = keep_last cap (entries s @ [entry m]) \<and> frame s' = frame s"
    and entries_cap: "inv s \<Longrightarrow> length (entries s) \<le> cap"
begin

lemma add_all_law:
  "inv s \<Longrightarrow> \<exists>s'. add_all add ms s = Some s' \<and> inv s' \<and>
    entries s' = keep_last cap (entries s @ map entry ms) \<and> frame s' = frame s"
proof (induction ms arbitrary: s)
  case Nil
  then show ?case using entries_cap by simp
next
  case (Cons m ms)
  from add_law [OF Cons.prems, of m] obtain s1 where
    s1: "add m s = Some s1" "inv s1" "entries s1 = keep_last cap (entries s @ [entry m])" "frame s1 = frame s"
    by blast
  from Cons.IH [OF s1(2)] s1 show ?case by (auto simp: keep_last_append)
qed

end

end
