(* ===== verification/Yano.thy ===== *)
theory Yano
  imports KernelState TextField
begin

text \<open>
  The text editor (\<^verbatim>\<open>apps/yano/yano.c\<close>). Its text is the first \<open>yano_len\<close> characters of the
  buffer of 4096; all its windows share that buffer, the file name and the title.
\<close>

section \<open>Operations\<close>

definition yano_app :: app_entry where
  "yano_app = \<lparr>app_name = ''yano'', app_title = ''yano'', app_description = ''Text Editor'',
     app_init = Yano, app_launch = Yano, app_draw = DrawYano, app_handle_key = Some Yano\<rparr>"

definition yano_init :: "kernel \<Rightarrow> kernel" where
  "yano_init k = k\<lparr>k_apps := app_register yano_app (k_apps k)\<rparr>"

definition yano_welcome :: string where
  "yano_welcome = (''Welcome to yano!'' @ [CHR 0x0A] @ ''Start typing here...'' @ [CHR 0x0A] @ ''Ctrl+S to Save, Ctrl+X to Exit.'')"

text \<open>Loading a named file: the buffer is already cleared.\<close>

definition yano_open_file :: "string \<Rightarrow> yano \<times> vfs \<Rightarrow> (yano \<times> vfs) option" where
  "yano_open_file args st = do {
     let (y, fs) = st;
     fname \<leftarrow> strncpy_term (current_filename y) args 31;
     let y = y\<lparr>current_filename := fname\<rparr>;
     (case vfs_open fname fs of
        Some i \<Rightarrow>
          if f_size (fs ! i) > 0 then
            (let copy_len = f_size (fs ! i);
                 copy_len = (if copy_len > YANO_BUF_SIZE - 1 then YANO_BUF_SIZE - 1 else copy_len)
             in do {
                  buf \<leftarrow> memcpy (yano_buf y) (f_data (fs ! i)) copy_len;
                  buf \<leftarrow> upd_at copy_len NUL buf;
                  Some (y\<lparr>yano_buf := buf, yano_len := copy_len\<rparr>, fs)
                })
          else Some (y, fs)
      | None \<Rightarrow> do {
          (_, fs) \<leftarrow> vfs_create fname fs;
          buf \<leftarrow> upd_at 0 NUL (yano_buf y);
          Some (y\<lparr>yano_buf := buf, yano_len := 0\<rparr>, fs)
        })
   }"

definition yano_open_new :: "yano \<Rightarrow> yano option" where
  "yano_open_new y = do {
     fname \<leftarrow> strncpy (current_filename y) ''new.txt'' 31;
     buf \<leftarrow> strncpy (yano_buf y) yano_welcome (YANO_BUF_SIZE - 1);
     Some (y\<lparr>current_filename := fname, yano_buf := buf, yano_len := strlen buf\<rparr>)
   }"

definition yano_load :: "string option \<Rightarrow> yano \<times> vfs \<Rightarrow> (yano \<times> vfs) option" where
  "yano_load args st = do {
     let (y, fs) = st;
     buf \<leftarrow> memset (yano_buf y) 0 YANO_BUF_SIZE;
     let y = y\<lparr>yano_buf := buf, yano_len := 0\<rparr>;
     (y, fs) \<leftarrow> (case args of
                   Some a \<Rightarrow> if strlen a > 0 then yano_open_file a (y, fs)
                             else map_option (\<lambda>y. (y, fs)) (yano_open_new y)
                 | None \<Rightarrow> map_option (\<lambda>y. (y, fs)) (yano_open_new y));
     (title, _) \<leftarrow> xsprintf (window_title y) ''yano - %s'' [AStr (current_filename y)];
     Some (y\<lparr>window_title := title\<rparr>, fs)
   }"

definition yano_launch :: "string option \<Rightarrow> kernel \<Rightarrow> kernel option" where
  "yano_launch args k = do {
     (y, fs) \<leftarrow> yano_load args (k_yano k, k_fs k);
     open_window 180 100 600 400 YanoTitle DrawYano ''yano'' (k\<lparr>k_yano := y, k_fs := fs\<rparr>)
   }"

text \<open>
  The content area: each character is drawn at the column \<open>cx\<close> and the row \<open>cy\<close> in pixels,
  with a line break at the right edge; rows below \<open>max_y\<close> are not drawn.
\<close>

fun yano_chars :: "window \<Rightarrow> int \<Rightarrow> string \<Rightarrow> int \<times> int \<times> fb \<Rightarrow> int \<times> int \<times> fb" where
  "yano_chars w max_y [] st = st"
| "yano_chars w max_y (c # cs) (cx, cy, s) =
     (if c = CHR 0x0A then yano_chars w max_y cs (0, cy + 14, s)
      else
        (let s = (if cy < max_y
                  then fb_print [c, NUL] (win_x w + 12 + of_int cx) (win_y w + 48 + of_int cy)
                         0xFFFFFF 0x111111 s
                  else s);
             cx = cx + 8
         in if cx > sint (win_w w) - 30 then yano_chars w max_y cs (0, cy + 14, s)
            else yano_chars w max_y cs (cx, cy, s)))"

definition yano_draw :: "nat \<Rightarrow> kernel \<Rightarrow> kernel option" where
  "yano_draw i k = do {
     let w = the_win i k; let x = win_x w; let y = win_y w; let ed = k_yano k;
     header \<leftarrow> sprint 80 ''  YANO Editor  |  File: %s  |  %d bytes''
       [AStr (current_filename ed), AInt (int (yano_len ed))];
     let s = run [
       fb_rect (x + 6) (y + 26) (win_w w - 12) (win_h w - 32) 0x111111,
       fb_rect (x + 6) (y + 26) (win_w w - 12) 16 0xDDDDDD,
       fb_print header (x + 12) (y + 30) 0x000000 0xDDDDDD] (k_fb k);
     let max_y = sint (win_h w) - 72;
     let (cx, cy, s) = yano_chars w max_y (take (yano_len ed) (yano_buf ed)) (0, 0, s);
     let s = (if cy < max_y then fb_rect (x + 12 + of_int cx) (y + 48 + of_int cy) 8 12 0xFFFFFF s else s);
     Some (k\<lparr>k_fb := run [
       fb_rect (x + 6) (y + win_h w - 36) (win_w w - 12) 30 0xDDDDDD,
       fb_print ''^S Save  ^X Exit  ^O WriteOut  Backspace=Delete'' (x + 12) (y + win_h w - 32)
         0x000000 0xDDDDDD,
       fb_print ''Type normally. Changes auto-tracked.'' (x + 12) (y + win_h w - 20)
         0x555555 0xDDDDDD] s\<rparr>)
   }"

text \<open>Storing a character behind the text, with a terminator after it.\<close>

definition yano_put :: "char \<Rightarrow> yano \<Rightarrow> yano option" where
  "yano_put c y =
     (if yano_len y < YANO_BUF_SIZE - 1 then do {
        buf \<leftarrow> upd_at (yano_len y) c (yano_buf y);
        buf \<leftarrow> upd_at (yano_len y + 1) NUL buf;
        Some (y\<lparr>yano_buf := buf, yano_len := yano_len y + 1\<rparr>)
      } else Some y)"

definition yano_type :: "char \<Rightarrow> yano \<Rightarrow> yano option" where
  "yano_type c y =
     (if c = CHR 0x0A \<or> c = CHR 0x0D then yano_put (CHR 0x0A) y
      else if c = CHR 0x08 then
        (if yano_len y > 0
         then map_option (\<lambda>buf. y\<lparr>yano_buf := buf, yano_len := yano_len y - 1\<rparr>)
                (upd_at (yano_len y - 1) NUL (yano_buf y))
         else Some y)
      else if of_char c \<ge> (32 :: int) \<and> of_char c < (127 :: int) then yano_put c y
      else Some y)"

definition yano_save :: "yano \<Rightarrow> vfs \<Rightarrow> vfs option" where
  "yano_save y fs = map_option snd (vfs_save (current_filename y) (yano_buf y) (yano_len y) fs)"

definition yano_handle_key :: "char \<Rightarrow> kernel \<Rightarrow> kernel option" where
  "yano_handle_key c k =
     (if sys_is_ctrl_pressed k then
        (if c = CHR ''x'' \<or> c = CHR ''X'' then
           Some (case wm_get_active (k_wm k) of
                   None \<Rightarrow> k
                 | Some i \<Rightarrow> k\<lparr>k_wm := upd_window i (\<lambda>w. w\<lparr>win_closed := True\<rparr>) (k_wm k)\<rparr>)
         else if c = CHR ''s'' \<or> c = CHR ''S'' \<or> c = CHR ''o'' \<or> c = CHR ''O'' then
           map_option (\<lambda>fs. k\<lparr>k_fs := fs\<rparr>) (yano_save (k_yano k) (k_fs k))
         else Some k)
      else map_option (\<lambda>y. k\<lparr>k_yano := y\<rparr>) (yano_type c (k_yano k)))"

section \<open>The text behind the buffer\<close>

definition yano_ok :: "yano \<Rightarrow> bool" where
  "yano_ok y \<longleftrightarrow> length (yano_buf y) = YANO_BUF_SIZE \<and> yano_len y < YANO_BUF_SIZE \<and>
     length (current_filename y) = 32 \<and> current_filename y ! 31 = NUL \<and> length (window_title y) = 64"

definition yano_text :: "yano \<Rightarrow> string" where
  "yano_text y = take (yano_len y) (yano_buf y)"

text \<open>What a key does to a text: the specification of the editor.\<close>

definition edit_key :: "char \<Rightarrow> string \<Rightarrow> string" where
  "edit_key c t =
     (if c \<in> {CHR 0x0A, CHR 0x0D} then if length t < YANO_BUF_SIZE - 1 then t @ [CHR 0x0A] else t
      else edit_line (YANO_BUF_SIZE - 1) c t)"

lemma yano_boot_ok: "yano_ok yano_boot"
  by (simp add: yano_ok_def yano_boot_def YANO_BUF_SIZE_def nth_append)

lemma length_yano_text: "yano_ok y \<Longrightarrow> length (yano_text y) = yano_len y"
  by (simp add: yano_ok_def yano_text_def)

lemma yano_put_text:
  assumes "yano_ok y"
  shows "\<exists>y'. yano_put c y = Some y' \<and> yano_ok y' \<and> current_filename y' = current_filename y \<and>
    yano_text y' = (if length (yano_text y) < YANO_BUF_SIZE - 1 then yano_text y @ [c] else yano_text y)"
proof (cases "yano_len y < YANO_BUF_SIZE - 1")
  case True
  let ?n = "yano_len y"
  have len: "length (yano_buf y) = YANO_BUF_SIZE" using assms by (simp add: yano_ok_def)
  then have n: "?n < length (yano_buf y)" "Suc ?n < length (yano_buf y)" using True by simp_all
  have "take (Suc ?n) ((yano_buf y)[?n := c, Suc ?n := NUL]) = take ?n (yano_buf y) @ [c]"
    using n by (simp add: take_Suc_conv_app_nth)
  then show ?thesis
    using assms True n len length_yano_text [OF assms]
    by (auto simp: yano_put_def yano_ok_def yano_text_def upd_at_def)
next
  case False
  then show ?thesis using assms length_yano_text [OF assms] by (simp add: yano_put_def)
qed

lemma yano_type_text:
  assumes "yano_ok y"
  shows "\<exists>y'. yano_type c y = Some y' \<and> yano_ok y' \<and> current_filename y' = current_filename y \<and>
    yano_text y' = edit_key c (yano_text y)"
proof -
  consider (nl) "c \<in> {CHR 0x0A, CHR 0x0D}" | (bs) "c = CHR 0x08" | (other) "c \<notin> {CHR 0x0A, CHR 0x0D, CHR 0x08}"
    by blast
  then show ?thesis
  proof cases
    case nl
    then show ?thesis using yano_put_text [OF assms, of "CHR 0x0A"] by (auto simp: yano_type_def edit_key_def edit_line_def printable_def)
  next
    case bs
    have l: "yano_len y \<le> length (yano_buf y)" "yano_len y \<noteq> 0 \<Longrightarrow> yano_len y - 1 < length (yano_buf y)"
      using assms by (auto simp: yano_ok_def)
    show ?thesis
    proof (cases "yano_len y = 0")
      case True
      then show ?thesis using assms bs by (simp add: yano_type_def edit_key_def edit_line_def printable_def yano_text_def)
    next
      case False
      then show ?thesis
        using assms bs l by (auto simp: yano_type_def edit_key_def edit_line_def printable_def yano_text_def yano_ok_def butlast_take)
    qed
  next
    case other
    then show ?thesis
      using assms yano_put_text [OF assms, of c] by (auto simp: yano_type_def edit_key_def edit_line_def printable_def)
  qed
qed

section \<open>Loading and saving\<close>

lemma length_cstr_31: "length s = 32 \<Longrightarrow> s ! 31 = NUL \<Longrightarrow> length (cstr s) \<le> 31"
  using length_cstr_terminated [of 31 s] by simp

text \<open>Opening an existing file loads its contents, cut to the size of the buffer.\<close>

lemma yano_load_text:
  assumes "yano_ok y" and "vfs_ok fs" and "vfs_lookup fs n = Some c" and "cstr n \<noteq> []" and "short_name n"
  shows "\<exists>y'. yano_load (Some n) (y, fs) = Some (y', fs) \<and> yano_ok y' \<and>
    yano_text y' = take (YANO_BUF_SIZE - 1) c \<and> cstr (current_filename y') = cstr n"
proof -
  define y0 where "y0 = y\<lparr>yano_buf := replicate YANO_BUF_SIZE NUL, yano_len := 0\<rparr>"
  have len: "length (current_filename y) = Suc 31" using assms(1) by (simp add: yano_ok_def)
  then obtain fname where fname: "strncpy_term (current_filename y) n 31 = Some fname"
    by (simp add: strncpy_term_eq)
  note fn = cstr_strncpy_term [OF len fname]
  have cn: "cstr fname = cstr n" using fn assms(5) by (simp add: short_name_def)
  define y1 where "y1 = y0\<lparr>current_filename := fname\<rparr>"
  obtain i where i: "vfs_open n fs = Some i" "c = file_contents (fs ! i)"
    using assms(3) by (auto simp: vfs_lookup_def)
  have op: "vfs_open fname fs = Some i"
    using i cn by (simp add: vfs_open_def strcmp_zero_iff)
  have f: "length (f_data (fs ! i)) = MAX_FILE_SIZE" "f_size (fs ! i) \<le> MAX_FILE_SIZE"
    using vfs_ok_file [OF assms(2), of i] vfs_open_SomeD [OF i(1)] by (simp_all add: file_ok_def)
  have lc: "length c = f_size (fs ! i)" using i f by (simp add: file_contents_def)
  let ?m = "min (f_size (fs ! i)) (YANO_BUF_SIZE - 1)"
  define buf where "buf = (take ?m (f_data (fs ! i)) @ replicate (YANO_BUF_SIZE - ?m) NUL)[?m := NUL]"
  define y2 where "y2 = y1\<lparr>yano_buf := (if f_size (fs ! i) > 0 then buf else replicate YANO_BUF_SIZE NUL),
      yano_len := ?m\<rparr>"
  have m: "?m \<le> length (f_data (fs ! i))" "?m < YANO_BUF_SIZE" using f by (auto simp: YANO_BUF_SIZE_def)
  have opened: "yano_open_file n (y0, fs) = Some (y2, fs)"
    using fname op m f unfolding yano_open_file_def y2_def y1_def y0_def buf_def
    by (auto simp: memcpy_eq upd_at_def Let_def min_def YANO_BUF_SIZE_def MAX_FILE_SIZE_def)
  define out where "out = ''yano - '' @ cstr fname"
  have lout: "length out \<le> 38" using fn length_cstr_terminated [of 31 fname] by (simp add: out_def)
  define y3 where "y3 = y2\<lparr>window_title := out @ [NUL] @ drop (length out + 1) (window_title y)\<rparr>"
  have same: "current_filename y2 = fname" "window_title y2 = window_title y"
    by (simp_all add: y2_def y1_def y0_def)
  have "length (window_title y) = 64" using assms(1) by (simp add: yano_ok_def)
  then have ttl: "xsprintf (window_title y2) ''yano - %s'' [AStr (current_filename y2)]
      = Some (window_title y3, length out)"
    unfolding same y3_def using lout
    by (subst xsprintf_Some [where out = out]) (simp_all add: out_def)
  have buf0: "memset (yano_buf y) 0 YANO_BUF_SIZE = Some (replicate YANO_BUF_SIZE NUL)"
    using assms(1) by (simp add: memset_eq yano_ok_def char_of_def)
  have "strlen n > 0" using assms(4) by (simp add: strlen_cstr)
  then have "yano_load (Some n) (y, fs) = Some (y3, fs)"
    using buf0 opened ttl by (simp add: yano_load_def y0_def [symmetric] y3_def)
  moreover have "yano_ok y3"
    using fn m lout \<open>length (window_title y) = 64\<close>
    by (simp add: yano_ok_def y3_def y2_def y1_def y0_def buf_def)
  moreover have "yano_text y3 = take (YANO_BUF_SIZE - 1) c"
    using m lc i by (auto simp: yano_text_def y3_def y2_def buf_def file_contents_def min_def)
  moreover have "cstr (current_filename y3) = cstr n" using cn same by (simp add: y3_def)
  ultimately show ?thesis by blast
qed

text \<open>Saving over an existing file stores exactly the text.\<close>

lemma yano_save_text:
  assumes "yano_ok y" and "vfs_ok fs" and "vfs_lookup fs (current_filename y) \<noteq> None"
  shows "\<exists>fs'. yano_save y fs = Some fs' \<and> vfs_ok fs' \<and>
    vfs_lookup fs' = (\<lambda>m. if cstr m = cstr (current_filename y) then Some (yano_text y) else vfs_lookup fs m)"
proof -
  have y: "short_name (current_filename y)" "yano_len y \<le> length (yano_buf y)" "yano_len y \<le> MAX_FILE_SIZE"
    using assms(1) length_cstr_31 [of "current_filename y"]
    by (auto simp: yano_ok_def short_name_def YANO_BUF_SIZE_def MAX_FILE_SIZE_def)
  from ramdisk.save_law [OF assms(2) y(1,2)] obtain r fs' where
    "vfs_save (current_filename y) (yano_buf y) (yano_len y) fs = Some (r, fs')" "vfs_ok fs'"
    "if r = 0 then vfs_lookup fs' = (\<lambda>m. if cstr m = cstr (current_filename y)
        then Some (take (min (yano_len y) MAX_FILE_SIZE) (yano_buf y)) else vfs_lookup fs m)
     else r = -1 \<and> fs' = fs \<and> vfs_lookup fs (current_filename y) = None"
    unfolding vfs_save_store by blast
  then show ?thesis
    using assms(3) y(3) by (auto simp: yano_save_def yano_text_def split: if_splits)
qed

section \<open>Properties\<close>

interpretation yano_field: text_field yano_ok yano_text yano_type edit_key current_filename "\<lambda>_. True"
  using yano_type_text by unfold_locales blast

lemma yano_keys_lift:
  "\<not> sys_is_ctrl_pressed k \<Longrightarrow>
   type_all yano_handle_key cs k = map_option (\<lambda>y. k\<lparr>k_yano := y\<rparr>) (type_all yano_type cs (k_yano k))"
proof (induction cs arbitrary: k)
  case Nil
  then show ?case by simp
next
  case (Cons c cs)
  have "\<not> sys_is_ctrl_pressed (k\<lparr>k_yano := y\<rparr>)" for y
    using Cons.prems by (simp add: sys_is_ctrl_pressed_def)
  with Cons show ?case by (cases "yano_type c (k_yano k)") (simp_all add: yano_handle_key_def)
qed

text \<open>C17 (yano_edits_text): without the control key, any sequence of keys stays inside the buffer and
  edits the text as the specification says: printable characters and line breaks go to the end
  while there is room for 4095, backspace drops the last one, and nothing else of the kernel changes.\<close>

theorem yano_edits_text:
  assumes "yano_ok (k_yano k)" and "\<not> sys_is_ctrl_pressed k"
  shows "\<exists>y. type_all yano_handle_key cs k = Some (k\<lparr>k_yano := y\<rparr>) \<and> yano_ok y \<and>
    current_filename y = current_filename (k_yano k) \<and> yano_text y = fold edit_key cs (yano_text (k_yano k))"
proof -
  from yano_field.type_law [OF assms(1)] obtain y where
    "type_all yano_type cs (k_yano k) = Some y" "yano_ok y" "yano_text y = fold edit_key cs (yano_text (k_yano k))"
    "current_filename y = current_filename (k_yano k)" by blast
  then show ?thesis by (intro exI [of _ y]) (simp add: yano_keys_lift [OF assms(2)])
qed

lemma yano_ok_boot_kernel: "yano_ok (k_yano (kernel_boot r))"
  by (simp add: kernel_boot_def yano_boot_ok)

theorem yano_edits_text_witness:
  "\<exists>y. type_all yano_handle_key [CHR ''a'', CHR ''b'', CHR 0x08, CHR 0x0A] (kernel_boot (\<lambda>_. 0))
     = Some ((kernel_boot (\<lambda>_. 0))\<lparr>k_yano := y\<rparr>) \<and> yano_text y = [CHR ''a'', CHR 0x0A]"
proof -
  have nc: "\<not> sys_is_ctrl_pressed (kernel_boot (\<lambda>_. 0))"
    by (simp add: sys_is_ctrl_pressed_def kernel_boot_def ps2_boot_def ps2_is_ctrl_pressed_def)
  have "yano_text (k_yano (kernel_boot (\<lambda>_. 0))) = []"
    by (simp add: yano_text_def kernel_boot_def yano_boot_def)
  then show ?thesis
    using yano_edits_text [OF yano_ok_boot_kernel nc, of "[CHR ''a'', CHR ''b'', CHR 0x08, CHR 0x0A]"]
    by (auto simp: edit_key_def edit_line_def printable_def YANO_BUF_SIZE_def)
qed

text \<open>C10 (yano_save_reopen): control-S with an existing file, then opening that file again, brings
  the same text back, and no other file changes.\<close>

theorem yano_save_reopen:
  assumes "yano_ok (k_yano k)" and "vfs_ok (k_fs k)" and "sys_is_ctrl_pressed k"
    and "vfs_lookup (k_fs k) (current_filename (k_yano k)) \<noteq> None" and "cstr (current_filename (k_yano k)) \<noteq> []"
  shows "\<exists>k' y'. yano_handle_key (CHR ''s'') k = Some k' \<and>
    yano_load (Some (current_filename (k_yano k))) (k_yano k', k_fs k') = Some (y', k_fs k') \<and>
    yano_text y' = yano_text (k_yano k) \<and>
    (\<forall>m. cstr m = cstr (current_filename (k_yano k)) \<or> vfs_lookup (k_fs k') m = vfs_lookup (k_fs k) m)"
proof -
  let ?y = "k_yano k" and ?n = "current_filename (k_yano k)"
  from yano_save_text [OF assms(1,2,4)] obtain fs where
    fs: "yano_save ?y (k_fs k) = Some fs" "vfs_ok fs"
      "vfs_lookup fs = (\<lambda>m. if cstr m = cstr ?n then Some (yano_text ?y) else vfs_lookup (k_fs k) m)" by blast
  have n: "short_name ?n" using assms(1) length_cstr_31 [of ?n] by (simp add: yano_ok_def short_name_def)
  have "vfs_lookup fs ?n = Some (yano_text ?y)" using fs by simp
  from yano_load_text [OF assms(1) fs(2) this assms(5) n] obtain y' where
    y': "yano_load (Some ?n) (?y, fs) = Some (y', fs)" "yano_text y' = take (YANO_BUF_SIZE - 1) (yano_text ?y)"
    by blast
  have "length (yano_text ?y) \<le> YANO_BUF_SIZE - 1"
    using assms(1) length_yano_text [OF assms(1)] by (auto simp: yano_ok_def)
  with y' have "yano_text y' = yano_text ?y" by simp
  with fs y' assms(3) show ?thesis
    by (intro exI [of _ "k\<lparr>k_fs := fs\<rparr>"] exI [of _ y']) (simp add: yano_handle_key_def)
qed

text \<open>A table with one small file, and the editor on it.\<close>

definition one_file :: vfs where
  "one_file = vfs_zero[0 := \<lparr>f_name = ''new.txt'' @ replicate 25 NUL,
     f_data = ''hi'' @ replicate (MAX_FILE_SIZE - 2) NUL, f_size = 2, f_used = True\<rparr>]"

lemma one_file_ok: "vfs_ok one_file"
  unfolding one_file_def
  by (rule vfs_ok_update [OF vfs_zero_ok])
    (auto simp: vfs_zero_def MAX_FILES_def file_ok_def MAX_FILE_SIZE_def nth_append)

lemma one_file_lookup: "vfs_lookup one_file ''new.txt'' = Some ''hi''"
  unfolding one_file_def
  by (subst vfs_lookup_update [OF vfs_zero_ok _ one_file_ok [unfolded one_file_def]])
    (simp_all add: vfs_zero_def MAX_FILES_def file_contents_def cstr_append)

definition edited :: yano where
  "edited = yano_boot\<lparr>yano_buf := ''edited'' @ replicate (YANO_BUF_SIZE - 6) NUL, yano_len := 6\<rparr>"

theorem yano_save_reopen_witness:
  "\<exists>k' y'. yano_handle_key (CHR ''s'')
       ((kernel_boot (\<lambda>_. 0))\<lparr>k_fs := one_file, k_yano := edited, k_ps2 := ps2_boot\<lparr>ctrl_pressed := True\<rparr>\<rparr>) = Some k' \<and>
     yano_load (Some (''new.txt'' @ replicate 25 NUL)) (k_yano k', k_fs k') = Some (y', k_fs k') \<and>
     yano_text y' = ''edited''"
proof -
  let ?k = "(kernel_boot (\<lambda>_. 0))\<lparr>k_fs := one_file, k_yano := edited, k_ps2 := ps2_boot\<lparr>ctrl_pressed := True\<rparr>\<rparr>"
  have f: "current_filename (k_yano ?k) = ''new.txt'' @ replicate 25 NUL" "yano_text (k_yano ?k) = ''edited''"
    by (simp_all add: edited_def yano_boot_def yano_text_def)
  have "cstr (''new.txt'' @ replicate 25 NUL) = cstr ''new.txt''" by (simp add: cstr_append)
  from vfs_lookup_cong [OF this, of one_file]
  have "vfs_lookup (k_fs ?k) (current_filename (k_yano ?k)) \<noteq> None"
    unfolding f by (simp add: one_file_lookup)
  moreover have "cstr (current_filename (k_yano ?k)) \<noteq> []" unfolding f by simp
  moreover have "yano_ok (k_yano ?k)" using yano_boot_ok by (simp add: yano_ok_def edited_def YANO_BUF_SIZE_def)
  moreover have "vfs_ok (k_fs ?k)" "sys_is_ctrl_pressed ?k"
    by (simp_all add: one_file_ok sys_is_ctrl_pressed_def ps2_is_ctrl_pressed_def)
  ultimately show ?thesis
    using yano_save_reopen [of ?k] unfolding f by blast
qed

text \<open>Opening a file and saving it at once, without an edit, leaves its first 4095
  characters: a longer file loses the rest.\<close>

theorem yano_open_cuts:
  assumes "yano_ok y" and "vfs_ok fs" and "vfs_lookup fs n = Some c" and "cstr n \<noteq> []" and "short_name n"
  shows "\<exists>y' fs'. yano_load (Some n) (y, fs) = Some (y', fs) \<and> yano_save y' fs = Some fs' \<and>
    vfs_lookup fs' n = Some (take 4095 c)"
proof -
  from yano_load_text [OF assms] obtain y' where
    y': "yano_load (Some n) (y, fs) = Some (y', fs)" "yano_ok y'" "yano_text y' = take (YANO_BUF_SIZE - 1) c"
      "cstr (current_filename y') = cstr n" by blast
  have "vfs_lookup fs (current_filename y') \<noteq> None"
    using assms(3) vfs_lookup_cong [OF y'(4)] by simp
  from yano_save_text [OF y'(2) assms(2) this] y' show ?thesis
    by (auto simp: YANO_BUF_SIZE_def)
qed

theorem yano_open_cuts_witness:
  "\<exists>y' fs'. yano_load (Some ''new.txt'') (yano_boot, one_file) = Some (y', one_file) \<and>
     yano_save y' one_file = Some fs' \<and> vfs_lookup fs' ''new.txt'' = Some ''hi''"
  using yano_open_cuts [OF yano_boot_ok one_file_ok one_file_lookup] by (simp add: short_name_def)

end
