(* ===== verification/Terminal.thy ===== *)
theory Terminal
  imports Apps Yano
begin

text \<open>
  The terminal (\<^verbatim>\<open>apps/terminal/terminal.c\<close>): the scroll-back of 40 lines, the command line with its
  completion, and the built-in commands. The text of a line is read from the state of the file
  system, the devices and the task list when the command runs. A result is \<open>None\<close> when a formatted
  line leaves its local array, or when the clock never stops updating.
\<close>

section \<open>The scroll-back\<close>

definition terminal_app :: app_entry where
  "terminal_app = \<lparr>app_name = ''terminal'', app_title = ''Onken Terminal'',
     app_description = ''Command Shell'', app_init = Terminal, app_launch = Terminal,
     app_draw = DrawTerminal, app_handle_key = Some Terminal\<rparr>"

definition put_line :: "nat \<Rightarrow> string \<Rightarrow> u32 \<Rightarrow> history_line list \<Rightarrow> history_line list option" where
  "put_line i msg color hist =
     map_option (\<lambda>txt. hist[i := \<lparr>hl_text = txt, hl_color = color\<rparr>])
       (strncpy_term (hl_text (hist ! i)) msg 127)"

definition term_history_add :: "string \<Rightarrow> u32 \<Rightarrow> terminal \<Rightarrow> terminal option" where
  "term_history_add msg color t =
     (if history_count t < MAX_HISTORY then do {
        hist \<leftarrow> put_line (history_count t) msg color (term_history t);
        Some (t\<lparr>term_history := hist, history_count := history_count t + 1, term_scroll_offset := 0\<rparr>)
      } else do {
        hist \<leftarrow> put_line (MAX_HISTORY - 1) msg color
                 (for_up 0 (MAX_HISTORY - 1) (\<lambda>i h. h[i := h ! (i + 1)]) (term_history t));
        Some (t\<lparr>term_history := hist, term_scroll_offset := 0\<rparr>)
      })"

definition print_to_shell :: "string \<Rightarrow> u32 \<Rightarrow> kernel \<Rightarrow> kernel option" where
  "print_to_shell msg color k = map_option (\<lambda>t. k\<lparr>k_term := t\<rparr>) (term_history_add msg color (k_term k))"

fun print_all :: "(string \<times> u32) list \<Rightarrow> kernel \<Rightarrow> kernel option" where
  "print_all [] k = Some k"
| "print_all ((msg, color) # ls) k = Option.bind (print_to_shell msg color k) (print_all ls)"

text \<open>\<^verbatim>\<open>xsprintf\<close> into a local array of \<open>n\<close> characters, then \<^verbatim>\<open>print_to_shell\<close>.\<close>

definition print_fmt :: "nat \<Rightarrow> string \<Rightarrow> carg list \<Rightarrow> u32 \<Rightarrow> kernel \<Rightarrow> kernel option" where
  "print_fmt n fmt args color k = do { line \<leftarrow> sprint n fmt args; print_to_shell line color k }"

definition sys_print :: "hardware \<Rightarrow> string \<Rightarrow> u32 \<Rightarrow> kernel \<Rightarrow> kernel option" where
  "sys_print hw msg color k = do {
     k \<leftarrow> print_to_shell msg color k;
     tr \<leftarrow> serial_write hw msg (c_trace k);
     tr \<leftarrow> serial_write hw [CHR 0x0A] tr;
     Some (k\<lparr>c_trace := tr\<rparr>)
   }"

section \<open>Launching\<close>

definition fastfetch_logo :: "(string \<times> u32) list" where
  "fastfetch_logo =
     [([], 0x000000),
      (''       ____        __              ____  _____'', 0x50E3C2),
      ((''      / __ '' @ [CHR 0x5C] @ ''____  / /_____  ____  / __ '' @ [CHR 0x5C] @ ''/ ___/''), 0x50E3C2),
      ((''     / / / / __ '' @ [CHR 0x5C] @ ''/ //_/ _ '' @ [CHR 0x5C] @ ''/ __ '' @ [CHR 0x5C] @ ''/ / / /'' @ [CHR 0x5C] @ ''__ '' @ [CHR 0x5C]), 0x50E3C2),
      (''    / /_/ / / / / ,< /  __/ / / / /_/ /___/ /'', 0x50E3C2),
      ((''    '' @ [CHR 0x5C] @ ''____/_/ /_/_/|_|'' @ [CHR 0x5C] @ ''___/_/ /_/'' @ [CHR 0x5C] @ ''____//____/''), 0x50E3C2),
      ([], 0x000000)]"

definition vfs_file_count :: "vfs \<Rightarrow> nat" where
  "vfs_file_count fs = for_up 0 64 (\<lambda>i n. if vfs_get_by_index (int i) fs \<noteq> None then n + 1 else n) 0"

definition show_fastfetch :: "machine \<Rightarrow> kernel \<Rightarrow> kernel option" where
  "show_fastfetch mc k = do {
     let mem = sys_get_mem_info k;
     let total_mb = (ucast (total_memory mem div 1024 div 1024) :: u32);
     let used_mb = (ucast (used_memory mem div 1024 div 1024) :: u32);
     let free_mb = total_mb - used_mb;
     (dt, tr) \<leftarrow> rtc_get_datetime (mc_hw mc) (c_trace k);
     let up_sec = (ucast (uptime_ms (c_pit k) div 1000) :: u32);
     let up_min = up_sec div 60;
     let up_sec = up_sec mod 60;
     let (devs, tr) = pci_enumerate_devices (mc_hw mc) 32 tr;
     let k = k\<lparr>c_trace := tr\<rparr>;
     let file_count = vfs_file_count (k_fs k);
     k \<leftarrow> print_all fastfetch_logo k;
     k \<leftarrow> print_fmt 128 ''  OS:         Onken OS v3.0 x86_64'' [] 0xF5A623 k;
     k \<leftarrow> print_fmt 128 ''  Kernel:     oneko-kernel 3.0.0-limine'' [] 0xFFFFFF k;
     cpu_brand \<leftarrow> cpuid_get_brand_string (mc_cpu mc) (replicate 64 NUL);
     k \<leftarrow> print_fmt 128 ''  Host:       %s'' [AStr cpu_brand] 0xFFFFFF k;
     k \<leftarrow> print_fmt 128 ''  Uptime:     %d min %d sec'' [dec32 up_min, dec32 up_sec] 0xFFFFFF k;
     k \<leftarrow> print_fmt 128 ''  Shell:      oneko-sh 1.0'' [] 0xFFFFFF k;
     k \<leftarrow> print_fmt 128 ''  Resolution: %dx%d @ 32bpp''
           [dec32 (fb_width (k_fb k)), dec32 (fb_height (k_fb k))] 0xFFFFFF k;
     k \<leftarrow> print_fmt 128 ''  Memory:     %d MB / %d MB (%d MB free)''
           [dec32 used_mb, dec32 total_mb, dec32 free_mb] 0xFFFFFF k;
     k \<leftarrow> print_fmt 128 ''  PCI:        %d devices detected'' [AInt (int (length devs))] 0xFFFFFF k;
     k \<leftarrow> print_fmt 128 ''  VFS Files:  %d files in RAM disk'' [AInt (int file_count)] 0xFFFFFF k;
     k \<leftarrow> print_fmt 128 ''  Date:       %d-%d-%d  %d:%d:%d UTC''
           [AInt (dt_year dt), AInt (dt_month dt), AInt (dt_day dt),
            AInt (dt_hour dt), AInt (dt_minute dt), AInt (dt_second dt)] 0xFFFFFF k;
     k \<leftarrow> print_fmt 128 ''  Authors:    Ayham & Mason'' [] 0xD4A017 k;
     print_all [([], 0x000000), ((''  Type '' @ [CHR 0x27] @ ''help'' @ [CHR 0x27] @ '' for available commands.''), 0x888888)] k
   }"

definition terminal_init :: "kernel \<Rightarrow> kernel" where
  "terminal_init k = k\<lparr>k_apps := app_register terminal_app (k_apps k)\<rparr>"

definition terminal_launch :: "machine \<Rightarrow> string option \<Rightarrow> kernel \<Rightarrow> kernel option" where
  "terminal_launch mc args k = do {
     buf \<leftarrow> memset (cmd_buf (k_term k)) 0 MAX_CMD;
     k \<leftarrow> open_window 200 80 750 520 (Title ''Onken Terminal'') DrawTerminal ''terminal''
           (k\<lparr>k_term := (k_term k)\<lparr>history_count := 0, cmd_len := 0, cmd_buf := buf\<rparr>\<rparr>);
     show_fastfetch mc k
   }"

text \<open>The call through an entry's \<^verbatim>\<open>launch\<close> pointer.\<close>

definition launch_app :: "machine \<Rightarrow> app_id \<Rightarrow> string option \<Rightarrow> kernel \<Rightarrow> kernel option" where
  "launch_app mc a args k =
     (case a of
        Htop \<Rightarrow> htop_launch args k
      | Yano \<Rightarrow> yano_launch args k
      | Sysinfo \<Rightarrow> sysinfo_launch args k
      | Browser \<Rightarrow> browser_launch args k
      | Files \<Rightarrow> files_launch args k
      | Settings \<Rightarrow> settings_launch args k
      | Terminal \<Rightarrow> terminal_launch mc args k
      | Player \<Rightarrow> player_launch args k
      | Imageviewer \<Rightarrow> imageviewer_launch args k)"

section \<open>Commands\<close>

definition next_token :: "string \<Rightarrow> kernel \<Rightarrow> string option \<times> kernel" where
  "next_token delim k = (let (tok, rest) = strtok None delim (last_strtok k) in (tok, k\<lparr>last_strtok := rest\<rparr>))"

abbreviation skip_spaces :: "string \<Rightarrow> string" where
  "skip_spaces \<equiv> dropWhile (\<lambda>c. c = CHR 0x20)"

text \<open>The command line names a registered application.\<close>

definition run_app :: "machine \<Rightarrow> app_entry \<Rightarrow> kernel \<Rightarrow> kernel option" where
  "run_app mc app k = do {
     let (args, k) = next_token [] k;
     let args = map_option skip_spaces args;
     let args = (case args of Some a \<Rightarrow> if strlen a = 0 then None else Some a | None \<Rightarrow> None);
     k \<leftarrow> launch_app mc (app_launch app) args k;
     (case args of
        Some a \<Rightarrow> print_fmt 128 ''Launched %s with args: %s'' [AStr (app_name app), AStr a] 0x00FF00 k
      | None \<Rightarrow> print_fmt 128 ''Launched %s.'' [AStr (app_name app)] 0x00FF00 k)
   }"

definition help_lines :: "(string \<times> u32) list" where
  "help_lines =
     [(''Commands:'', 0x50E3C2),
      (''  ls      - List VFS files'', 0xFFFFFF),
      (''  cat     - Show file contents'', 0xFFFFFF),
      (''  touch   - Create new file'', 0xFFFFFF),
      (''  rm      - Remove file'', 0xFFFFFF),
      (''  pci     - List PCI devices'', 0xFFFFFF),
      (''  date    - Show date/time'', 0xFFFFFF),
      (''  mem     - Memory info'', 0xFFFFFF),
      (''  ver     - OS version'', 0xFFFFFF),
      (''  clear   - Clear screen'', 0xFFFFFF),
      (''  fetch   - System info'', 0xFFFFFF),
      (''  hexdump - Hexdump file'', 0xFFFFFF),
      (''  echo    - Print text'', 0xFFFFFF),
      (''  write   - Write text to file'', 0xFFFFFF),
      (''  wc      - Count lines/words/bytes'', 0xFFFFFF),
      (''  cp      - Copy file'', 0xFFFFFF),
      (''  stat    - File info'', 0xFFFFFF),
      (''  exit    - Close terminal'', 0xFFFFFF),
      (''Applications:'', 0x50E3C2)]"

definition help_app :: "nat \<Rightarrow> kernel \<Rightarrow> kernel option" where
  "help_app i k =
     (case app_get_by_index i (k_apps k) of
        Some a \<Rightarrow>
          if strcmp (app_name a) ''terminal'' \<noteq> 0
          then print_fmt 128 ''  %-10s - %s'' [AStr (app_name a), AStr (app_description a)] 0xFFFFFF k
          else Some k
      | None \<Rightarrow> Some k)"

definition cmd_help :: "kernel \<Rightarrow> kernel option" where
  "cmd_help k = do {
     k \<leftarrow> print_all help_lines k;
     for_up 0 (app_get_count (k_apps k)) (\<lambda>i st. Option.bind st (help_app i)) (Some k)
   }"

definition has_suffix :: "string \<Rightarrow> string \<Rightarrow> bool" where
  "has_suffix ext name \<longleftrightarrow>
     strlen name \<ge> length ext \<and> strcmp (drop (strlen name - length ext) name) ext = 0"

definition ls_color :: "string \<Rightarrow> u32" where
  "ls_color name =
     (if has_suffix ''.bmp'' name then 0xFF8800
      else if has_suffix ''.c'' name then 0x50E3C2
      else if has_suffix ''.txt'' name then 0x4A90E2 else 0xFFFFFF)"

definition ls_row :: "nat \<Rightarrow> kernel \<times> bool \<Rightarrow> (kernel \<times> bool) option" where
  "ls_row i st =
     (let (k, found) = st in
      case vfs_get_by_index (int i) (k_fs k) of
        None \<Rightarrow> Some (k, found)
      | Some j \<Rightarrow>
          (let f = k_fs k ! j in do {
             k \<leftarrow> print_fmt 128 ''  %-16s %5d bytes'' [AStr (f_name f), dec32 (of_nat (f_size f))]
                   (ls_color (f_name f)) k;
             Some (k, True)
           }))"

definition cmd_ls :: "kernel \<Rightarrow> kernel option" where
  "cmd_ls k = do {
     k \<leftarrow> print_to_shell ''RAM Disk VFS:'' 0xF5A623 k;
     (k, found) \<leftarrow> for_up 0 64 (\<lambda>i st. Option.bind st (ls_row i)) (Some (k, False));
     if \<not> found then print_to_shell ''  (empty)'' 0x888888 k else Some k
   }"

text \<open>
  The loop of \<^verbatim>\<open>cat\<close>; \<open>acc\<close> is what \<^verbatim>\<open>line_buf\<close> holds, at most 120 characters of its 128.
\<close>

fun cat_loop :: "string \<Rightarrow> string \<Rightarrow> kernel \<Rightarrow> kernel option" where
  "cat_loop [] acc k = (if length acc > 0 then print_to_shell acc 0xFFFFFF k else Some k)"
| "cat_loop (c # cs) acc k =
     (if c = CHR 0x0A \<or> length acc \<ge> 120
      then Option.bind (print_to_shell acc 0xFFFFFF k) (cat_loop cs [])
      else cat_loop cs (acc @ [c]) k)"

text \<open>Commands on one named file: the usage line without a name, \<open>missing\<close> for an unknown file.\<close>

definition with_file ::
    "string \<Rightarrow> string \<Rightarrow> (vfs_file \<Rightarrow> kernel \<Rightarrow> kernel option) \<Rightarrow> kernel \<Rightarrow> kernel option" where
  "with_file usage missing act k =
     (let (fname, k) = next_token '' '' k in
      case fname of
        None \<Rightarrow> print_to_shell usage 0xFFAAAA k
      | Some n \<Rightarrow>
          (case vfs_open n (k_fs k) of
             None \<Rightarrow> print_to_shell missing 0xD0021B k
           | Some i \<Rightarrow> act (k_fs k ! i) k))"

definition cmd_cat :: "kernel \<Rightarrow> kernel option" where
  "cmd_cat = with_file ''Usage: cat <filename>'' ''File not found.''
     (\<lambda>f. cat_loop (take 2048 (take (f_size f) (f_data f))) [])"

definition cmd_touch :: "kernel \<Rightarrow> kernel option" where
  "cmd_touch k =
     (let (fname, k) = next_token '' '' k in
      case fname of
        None \<Rightarrow> print_to_shell ''Usage: touch <filename>'' 0xFFAAAA k
      | Some n \<Rightarrow> do {
          (r, fs) \<leftarrow> vfs_create n (k_fs k);
          let k = k\<lparr>k_fs := fs\<rparr>;
          if r = 0 then print_fmt 64 ''Created %s'' [AStr n] 0x00FF00 k
          else print_to_shell ''Failed to create file.'' 0xD0021B k
        })"

definition cmd_rm :: "kernel \<Rightarrow> kernel option" where
  "cmd_rm k =
     (let (fname, k) = next_token '' '' k in
      case fname of
        None \<Rightarrow> print_to_shell ''Usage: rm <filename>'' 0xFFAAAA k
      | Some n \<Rightarrow>
          (let (r, fs) = vfs_remove n (k_fs k); k = k\<lparr>k_fs := fs\<rparr> in
           if r = 0 then print_fmt 64 ''Removed %s'' [AStr n] 0x00FF00 k
           else print_to_shell ''File not found.'' 0xD0021B k))"

text \<open>\<^verbatim>\<open>%x\<close> is not a conversion of \<^verbatim>\<open>xsprintf\<close>: it is copied and takes no argument.\<close>

fun pci_lines :: "pci_device list \<Rightarrow> kernel \<Rightarrow> kernel option" where
  "pci_lines [] k = Some k"
| "pci_lines (d # ds) k = do {
     k \<leftarrow> print_fmt 128 ''  %d:%d.%d  %x:%x  class=%x sub=%x''
           [AInt (uint (bus d)), AInt (uint (device d)), AInt (uint (pci_function d)),
            AInt (uint (vendor_id d)), AInt (uint (device_id d)),
            AInt (uint (class_code d)), AInt (uint (sub_class d))] 0xFFFFFF k;
     pci_lines ds k
   }"

definition cmd_pci :: "machine \<Rightarrow> kernel \<Rightarrow> kernel option" where
  "cmd_pci mc k = do {
     let (devs, tr) = pci_enumerate_devices (mc_hw mc) 32 (c_trace k);
     k \<leftarrow> print_fmt 64 ''PCI Devices: %d found'' [AInt (int (length devs))] 0xF5A623 (k\<lparr>c_trace := tr\<rparr>);
     pci_lines devs k
   }"

definition cmd_date :: "machine \<Rightarrow> kernel \<Rightarrow> kernel option" where
  "cmd_date mc k = do {
     (dt, tr) \<leftarrow> rtc_get_datetime (mc_hw mc) (c_trace k);
     print_fmt 64 ''%d-%d-%d %d:%d:%d UTC''
       [AInt (dt_year dt), AInt (dt_month dt), AInt (dt_day dt),
        AInt (dt_hour dt), AInt (dt_minute dt), AInt (dt_second dt)] 0xFFFFFF (k\<lparr>c_trace := tr\<rparr>)
   }"

definition cmd_mem :: "kernel \<Rightarrow> kernel option" where
  "cmd_mem k = do {
     let mem = sys_get_mem_info k;
     k \<leftarrow> print_fmt 128 ''Total: %d MB'' [dec32 (ucast (total_memory mem div 1024 div 1024))] 0xFFFFFF k;
     k \<leftarrow> print_fmt 128 ''Used:  %d MB (%d allocs)''
           [dec32 (ucast (used_memory mem div 1024 div 1024)), dec32 (ucast (heap_allocations mem))] 0xFFFFFF k;
     print_fmt 128 ''Free:  %d MB'' [dec32 (ucast (free_memory mem div 1024 div 1024))] 0x00FF00 k
   }"

text \<open>One line of \<^verbatim>\<open>hexdump\<close>, for the bytes from \<open>i\<close> on; it must fit \<^verbatim>\<open>line_buf\<close> of 128.\<close>

definition hex_digit :: "nat \<Rightarrow> char" where
  "hex_digit n = ''0123456789abcdef'' ! n"

definition hex_cell :: "string \<Rightarrow> nat \<Rightarrow> nat \<Rightarrow> string" where
  "hex_cell data i j =
     (if i + j < length data
      then (let hex_val = (of_char (data ! (i + j)) :: nat)
            in [hex_digit (hex_val div 16), hex_digit (hex_val mod 16), CHR 0x20])
      else ''   '') @
     (if j = 7 then '' '' else [])"

definition hex_char :: "char \<Rightarrow> char" where
  "hex_char c = (if of_char c \<ge> (32 :: int) \<and> of_char c \<le> (126 :: int) then c else CHR ''.'')"

definition hex_line :: "string \<Rightarrow> nat \<Rightarrow> string option" where
  "hex_line data i = do {
     (line_buf, n) \<leftarrow> xsprintf (replicate 128 NUL) ''%08x  '' [AInt (int i)];
     let line = take n line_buf @ concat (map (hex_cell data i) [0..<16]) @ '' |'' @
                map hex_char (take 16 (drop i data)) @ ''|'';
     if length line < 128 then Some line else None
   }"

function hexdump_loop :: "string \<Rightarrow> nat \<Rightarrow> kernel \<Rightarrow> kernel option" where
  "hexdump_loop data i k =
     (if i < length data then do {
        line \<leftarrow> hex_line data i;
        k \<leftarrow> print_to_shell line 0xFFFFFF k;
        if i > 16 * 40 then print_to_shell ''... (truncated)'' 0x888888 k
        else hexdump_loop data (i + 16) k
      } else Some k)"
  by pat_completeness auto
termination
  by (relation "measure (\<lambda>(data, i, k). length data - i)") auto

declare hexdump_loop.simps [simp del]

definition cmd_hexdump :: "kernel \<Rightarrow> kernel option" where
  "cmd_hexdump = with_file ''Usage: hexdump <file>'' ''File not found.''
     (\<lambda>f. hexdump_loop (take (f_size f) (f_data f)) 0)"

definition cmd_echo :: "kernel \<Rightarrow> kernel option" where
  "cmd_echo k =
     (let (text, k) = next_token [] k in
      case text of None \<Rightarrow> Some k | Some t \<Rightarrow> print_to_shell (skip_spaces t) 0xFFFFFF k)"

definition cmd_write :: "kernel \<Rightarrow> kernel option" where
  "cmd_write k =
     (let (fname, k) = next_token '' '' k; (text, k) = next_token [] k in
      case (fname, text) of
        (Some n, Some t) \<Rightarrow> do {
          let t = skip_spaces t;
          (_, fs) \<leftarrow> (if vfs_open n (k_fs k) = None then vfs_create n (k_fs k) else Some (0, k_fs k));
          (_, fs) \<leftarrow> vfs_write n t (strlen t) fs;
          print_to_shell ''Written.'' 0x00FF00 (k\<lparr>k_fs := fs\<rparr>)
        }
      | _ \<Rightarrow> print_to_shell ''Usage: write <file> <text...>'' 0xFFAAAA k)"

text \<open>The counting loop of \<^verbatim>\<open>wc\<close>: words, lines and whether the last character was in a word.\<close>

fun wc_loop :: "string \<Rightarrow> nat \<times> nat \<times> bool \<Rightarrow> nat \<times> nat" where
  "wc_loop [] (words, lines, in_word) = (words, lines)"
| "wc_loop (c # cs) (words, lines, in_word) =
     (let lines = (if c = CHR 0x0A then lines + 1 else lines) in
      if c = CHR 0x20 \<or> c = CHR 0x0A \<or> c = CHR 0x09 \<or> c = CHR 0x0D
      then wc_loop cs (words, lines, False)
      else if \<not> in_word then wc_loop cs (words + 1, lines, True)
      else wc_loop cs (words, lines, True))"

definition cmd_wc :: "kernel \<Rightarrow> kernel option" where
  "cmd_wc = with_file ''Usage: wc <file>'' ''File not found.''
     (\<lambda>f k. let (words, lines) = wc_loop (take (f_size f) (f_data f)) (0, 0, False)
            in print_fmt 64 ''  %d lines, %d words, %d bytes''
                 [AInt (int lines), AInt (int words), AInt (int (f_size f))] 0xFFFFFF k)"

definition cmd_cp :: "kernel \<Rightarrow> kernel option" where
  "cmd_cp k =
     (let (src, k) = next_token '' '' k; (dst, k) = next_token '' '' k in
      case (src, dst) of
        (Some s, Some d) \<Rightarrow>
          (case vfs_open s (k_fs k) of
             None \<Rightarrow> print_to_shell ''Source not found.'' 0xD0021B k
           | Some f1 \<Rightarrow> do {
               (_, fs) \<leftarrow> vfs_create d (k_fs k);
               (_, fs) \<leftarrow> vfs_write d (f_data (fs ! f1)) (f_size (fs ! f1)) fs;
               print_to_shell ''Copied.'' 0x00FF00 (k\<lparr>k_fs := fs\<rparr>)
             })
      | _ \<Rightarrow> print_to_shell ''Usage: cp <src> <dst>'' 0xFFAAAA k)"

definition cmd_stat :: "kernel \<Rightarrow> kernel option" where
  "cmd_stat = with_file ''Usage: stat <file>'' ''File not found.''
     (\<lambda>f k. do {
        k \<leftarrow> print_fmt 128 ''File: %s'' [AStr (f_name f)] 0xFFFFFF k;
        k \<leftarrow> print_fmt 128 ''Size: %d bytes'' [AInt (int (f_size f))] 0xFFFFFF k;
        print_fmt 128 ''Loc:  RAM Disk VFS'' [] 0xFFFFFF k
      })"

definition cmd_cd :: "kernel \<Rightarrow> kernel option" where
  "cmd_cd k =
     (let (arg1, k) = next_token '' '' k in
      map_option (\<lambda>d. k\<lparr>k_term := (k_term k)\<lparr>current_dir := d\<rparr>\<rparr>)
        (strncpy (current_dir (k_term k)) (case arg1 of Some a \<Rightarrow> a | None \<Rightarrow> ''/'') 63))"

definition cmd_exit :: "nat \<Rightarrow> kernel \<Rightarrow> kernel option" where
  "cmd_exit w k = sys_destroy_task 43 (k\<lparr>k_wm := upd_window w (\<lambda>v. v\<lparr>win_closed := True\<rparr>) (k_wm k)\<rparr>)"

definition builtin :: "machine \<Rightarrow> nat \<Rightarrow> string \<Rightarrow> kernel \<Rightarrow> kernel option" where
  "builtin mc w argv0 k =
     (let is = (\<lambda>name. strcmp argv0 name = 0) in
      if is ''help'' then cmd_help k
      else if is ''ls'' then cmd_ls k
      else if is ''cat'' then cmd_cat k
      else if is ''touch'' then cmd_touch k
      else if is ''rm'' then cmd_rm k
      else if is ''pci'' then cmd_pci mc k
      else if is ''date'' then cmd_date mc k
      else if is ''mem'' then cmd_mem k
      else if is ''hexdump'' then cmd_hexdump k
      else if is ''echo'' then cmd_echo k
      else if is ''write'' then cmd_write k
      else if is ''wc'' then cmd_wc k
      else if is ''cp'' then cmd_cp k
      else if is ''stat'' then cmd_stat k
      else if is ''fetch'' then show_fastfetch mc k
      else if is ''cd'' then cmd_cd k
      else if is ''ver'' then
        print_all [(''Onken OS v3.0.0 (x86_64-limine)'', 0xF5A623),
                   (''Built with GCC, freestanding C.'', 0xFFFFFF)] k
      else if is ''clear'' then Some (k\<lparr>k_term := (k_term k)\<lparr>history_count := 0\<rparr>\<rparr>)
      else if is ''exit'' then cmd_exit w k
      else print_fmt 128 ([CHR 0x27] @ ''%s'' @ [CHR 0x27] @ '' is not recognized. Type '' @ [CHR 0x27] @ ''help'' @ [CHR 0x27] @ ''.'') [AStr argv0] 0xD0021B k)"

definition exec_command :: "machine \<Rightarrow> nat \<Rightarrow> string \<Rightarrow> kernel \<Rightarrow> kernel option" where
  "exec_command mc w cmd k = do {
     temp \<leftarrow> strncpy_term (replicate MAX_CMD NUL) cmd (MAX_CMD - 1);
     let (argv0, rest) = strtok (Some temp) '' '' (last_strtok k);
     let k = k\<lparr>last_strtok := rest\<rparr>;
     (case argv0 of
        None \<Rightarrow> Some k
      | Some a \<Rightarrow>
          (case app_find a (k_apps k) of
             Some app \<Rightarrow> if strcmp a ''terminal'' \<noteq> 0 then run_app mc app k else builtin mc w a k
           | None \<Rightarrow> builtin mc w a k))
   }"

section \<open>Drawing\<close>

text \<open>The lines from the first visible one on, until the bottom of the window.\<close>

fun term_lines :: "window \<Rightarrow> history_line list \<Rightarrow> int \<times> fb \<Rightarrow> int \<times> fb" where
  "term_lines w [] st = st"
| "term_lines w (l # ls) (sy, s) =
     (if of_int (sy + 12) > win_y w + win_h w - 30 then (sy, s)
      else term_lines w ls (sy + 12, fb_print (hl_text l) (win_x w + 10) (of_int sy) (hl_color l) 0x111111 s))"

definition term_scroll :: "nat \<Rightarrow> kernel \<Rightarrow> kernel" where
  "term_scroll i k =
     (let k = (if wm_get_active (k_wm k) = Some i \<and> mouse_scroll_delta (k_ps2 k) \<noteq> 0
               then k\<lparr>k_term := (k_term k)\<lparr>term_scroll_offset :=
                        term_scroll_offset (k_term k) + sint (mouse_scroll_delta (k_ps2 k)) * 3\<rparr>,
                      k_ps2 := (k_ps2 k)\<lparr>mouse_scroll_delta := 0\<rparr>\<rparr>
               else k);
          w = the_win i k; t = k_term k;
          max_visible = sint ((win_h w - 60) div 12);
          max_scroll = (if int (history_count t) > max_visible then int (history_count t) - max_visible else 0);
          off = term_scroll_offset t;
          off = (if off < 0 then 0 else off);
          off = (if off > max_scroll then max_scroll else off)
      in k\<lparr>k_term := t\<lparr>term_scroll_offset := off\<rparr>\<rparr>)"

definition terminal_draw :: "nat \<Rightarrow> kernel \<Rightarrow> kernel" where
  "terminal_draw i k =
     (let w = the_win i k; x = win_x w;
          k = fb_do [fb_rect (x + 6) (win_y w + 26) (win_w w - 12) (win_h w - 32) 0x111111] k;
          k = term_scroll i k;
          t = k_term k;
          max_visible = sint ((win_h w - 60) div 12);
          max_scroll = (if int (history_count t) > max_visible then int (history_count t) - max_visible else 0);
          start = max_scroll - term_scroll_offset t;
          start = (if start < 0 then 0 else start);
          (sy, s) = term_lines w (drop (nat start) (take (history_count t) (term_history t)))
                      (sint (win_y w + 30), k_fb k);
          n = of_nat (strlen (current_dir t));
          sy = of_int sy
      in k\<lparr>k_fb := run [
           fb_print ''root@onken:'' (x + 10) sy 0x50E3C2 0x111111,
           fb_print (current_dir t) (x + 10 + 11 * 8) sy 0x4A90E2 0x111111,
           fb_print ''$ '' (x + 10 + (11 + n) * 8) sy 0xBD10E0 0x111111,
           fb_print (cmd_buf t) (x + 10 + (13 + n) * 8) sy 0xFFFFFF 0x111111] s\<rparr>)"

section \<open>The command line\<close>

text \<open>Where the word under the cursor starts: behind the last space before \<open>i\<close>.\<close>

fun word_back :: "string \<Rightarrow> nat \<Rightarrow> nat" where
  "word_back buf 0 = 0"
| "word_back buf (Suc i) = (if buf ! i \<noteq> CHR 0x20 then word_back buf i else Suc i)"

definition builtins :: "string list" where
  "builtins = [''help'', ''ls'', ''cat'', ''touch'', ''rm'', ''pci'', ''date'', ''mem'', ''ver'', ''clear'',
     ''fetch'', ''hexdump'', ''echo'', ''write'', ''wc'', ''cp'', ''stat'', ''exit'', ''cd'']"

definition app_names :: "app_registry \<Rightarrow> string list" where
  "app_names r = map app_name (reg_entries r)"

definition file_names :: "vfs \<Rightarrow> string list" where
  "file_names fs = concat (map (\<lambda>i. case vfs_get_by_index (int i) fs of
                                  None \<Rightarrow> [] | Some j \<Rightarrow> [f_name (fs ! j)]) [0..<64])"

definition tab_matches :: "string \<Rightarrow> string list \<Rightarrow> string list" where
  "tab_matches word names = take 32 (filter (\<lambda>n. strncmp n word (strlen word) = 0) names)"

text \<open>The single match is typed behind the word, with a space where one fits.\<close>

fun tab_append :: "string \<Rightarrow> terminal \<Rightarrow> terminal option" where
  "tab_append [] t = Some t"
| "tab_append (c # cs) t =
     (if cmd_len t < MAX_CMD - 2 then do {
        buf \<leftarrow> upd_at (cmd_len t) c (cmd_buf t);
        tab_append cs (t\<lparr>cmd_buf := buf, cmd_len := cmd_len t + 1\<rparr>)
      } else Some t)"

definition tab_complete :: "string \<Rightarrow> terminal \<Rightarrow> terminal option" where
  "tab_complete completion t = do {
     t \<leftarrow> tab_append completion t;
     if cmd_len t < MAX_CMD - 1 then do {
       buf \<leftarrow> upd_at (cmd_len t) (CHR 0x20) (cmd_buf t);
       Some (t\<lparr>cmd_buf := buf, cmd_len := cmd_len t + 1\<rparr>)
     } else Some t
   }"

definition prompt_line :: "terminal \<Rightarrow> string option" where
  "prompt_line t = sprint 128 ''root@onken:%s$ %s'' [AStr (current_dir t), AStr (cmd_buf t)]"

text \<open>The matches in lines of less than 127 characters; \<open>line\<close> is the array of 128.\<close>

fun list_matches :: "string list \<Rightarrow> char list \<Rightarrow> kernel \<Rightarrow> kernel option" where
  "list_matches [] line k = (if strlen line > 0 then print_to_shell line 0xFFFFFF k else Some k)"
| "list_matches (m # ms) line k = do {
     (line, k) \<leftarrow> (if strlen line + strlen m + 2 \<ge> 127 then do {
                     k \<leftarrow> print_to_shell line 0xFFFFFF k;
                     line \<leftarrow> upd_at 0 NUL line;
                     Some (line, k)
                   } else Some (line, k));
     line \<leftarrow> strncat line m 127;
     line \<leftarrow> strncat line ''  '' 127;
     list_matches ms line k
   }"

definition terminal_tab :: "kernel \<Rightarrow> kernel option" where
  "terminal_tab k =
     (if cmd_len (k_term k) > 0 then do {
        buf \<leftarrow> upd_at (cmd_len (k_term k)) NUL (cmd_buf (k_term k));
        let k = k\<lparr>k_term := (k_term k)\<lparr>cmd_buf := buf\<rparr>\<rparr>;
        let word_start = word_back buf (cmd_len (k_term k));
        let word = drop word_start buf;
        let names = (if word_start = 0 then builtins @ app_names (k_apps k) else file_names (k_fs k));
        let found = tab_matches word names;
        (case found of
           [] \<Rightarrow> Some k
         | [m] \<Rightarrow>
             map_option (\<lambda>t. k\<lparr>k_term := t\<rparr>) (tab_complete (drop (strlen word) (cstr m)) (k_term k))
         | _ \<Rightarrow> do {
             full_cmd \<leftarrow> prompt_line (k_term k);
             k \<leftarrow> print_to_shell full_cmd 0x888888 k;
             list_matches found (replicate 128 NUL) k
           })
      } else Some k)"

definition terminal_enter :: "machine \<Rightarrow> nat \<Rightarrow> kernel \<Rightarrow> kernel option" where
  "terminal_enter mc w k = do {
     buf \<leftarrow> upd_at (cmd_len (k_term k)) NUL (cmd_buf (k_term k));
     let k = k\<lparr>k_term := (k_term k)\<lparr>cmd_buf := buf\<rparr>\<rparr>;
     full_cmd \<leftarrow> prompt_line (k_term k);
     k \<leftarrow> print_to_shell full_cmd 0x888888 k;
     k \<leftarrow> exec_command mc w (cmd_buf (k_term k)) k;
     buf \<leftarrow> memset (cmd_buf (k_term k)) 0 MAX_CMD;
     Some (k\<lparr>k_term := (k_term k)\<lparr>cmd_len := 0, cmd_buf := buf\<rparr>\<rparr>)
   }"

definition terminal_edit :: "char \<Rightarrow> terminal \<Rightarrow> terminal option" where
  "terminal_edit c t =
     (if c = CHR 0x08 then
        (if cmd_len t > 0
         then map_option (\<lambda>buf. t\<lparr>cmd_buf := buf, cmd_len := cmd_len t - 1\<rparr>)
                (upd_at (cmd_len t - 1) NUL (cmd_buf t))
         else Some t)
      else if of_char c \<ge> (32 :: int) \<and> of_char c < (127 :: int) then
        (if cmd_len t < MAX_CMD - 1
         then map_option (\<lambda>buf. t\<lparr>cmd_buf := buf, cmd_len := cmd_len t + 1\<rparr>)
                (upd_at (cmd_len t) c (cmd_buf t))
         else Some t)
      else Some t)"

definition terminal_handle_key :: "machine \<Rightarrow> char \<Rightarrow> kernel \<Rightarrow> kernel option" where
  "terminal_handle_key mc c k =
     (case wm_get_active (k_wm k) of
        None \<Rightarrow> Some k
      | Some i \<Rightarrow>
          if win_closed (the_win i k) then Some k
          else if c = CHR 0x0A \<or> c = CHR 0x0D then terminal_enter mc i k
          else if c = CHR 0x09 then terminal_tab k
          else map_option (\<lambda>t. k\<lparr>k_term := t\<rparr>) (terminal_edit c (k_term k)))"

end
