(* ===== verification/Shell.thy ===== *)
theory Shell
  imports Terminal
begin

text \<open>
  The desktop (\<^verbatim>\<open>shell/shell.c\<close>): icons, menus, task bar and task switcher, the click and key
  routing of one turn of \<^verbatim>\<open>shell_loop\<close>, the composed picture, and the calls through the
  applications' function pointers (\<^verbatim>\<open>wm_draw_all\<close> of \<^verbatim>\<open>gui/window.c\<close>, \<^verbatim>\<open>handle_key\<close>).
\<close>

section \<open>Calls through function pointers\<close>

definition draw_content :: "machine \<Rightarrow> draw_fn \<Rightarrow> nat \<Rightarrow> kernel \<Rightarrow> kernel option" where
  "draw_content mc f i k =
     (case f of
        DrawHtop \<Rightarrow> htop_draw i k
      | DrawYano \<Rightarrow> yano_draw i k
      | DrawSysinfo \<Rightarrow> sysinfo_draw i k
      | DrawBrowser \<Rightarrow> Some (browser_draw i k)
      | DrawFiles \<Rightarrow> files_draw i k
      | DrawSettings \<Rightarrow> settings_draw (mc_cpu mc) i k
      | DrawTerminal \<Rightarrow> Some (terminal_draw i k)
      | DrawPlayer \<Rightarrow> Some (player_draw i k)
      | DrawImageviewer \<Rightarrow> imageviewer_draw (mc_stbi mc) i k)"

definition app_key :: "machine \<Rightarrow> app_id \<Rightarrow> char \<Rightarrow> kernel \<Rightarrow> kernel option" where
  "app_key mc a c k =
     (case a of Yano \<Rightarrow> yano_handle_key c k | Terminal \<Rightarrow> terminal_handle_key mc c k | _ \<Rightarrow> Some k)"

text \<open>\<^verbatim>\<open>app_find(name)\<close>, then \<^verbatim>\<open>launch\<close> when it is found.\<close>

definition launch_named :: "machine \<Rightarrow> string \<Rightarrow> string option \<Rightarrow> kernel \<Rightarrow> kernel option" where
  "launch_named mc name args k =
     (case app_find name (k_apps k) of None \<Rightarrow> Some k | Some app \<Rightarrow> launch_app mc (app_launch app) args k)"

definition draw_window :: "machine \<Rightarrow> bool \<Rightarrow> nat \<Rightarrow> kernel \<Rightarrow> kernel option" where
  "draw_window mc is_active i k =
     (let w = the_win i k;
          k = fb_do [draw_window_frame w is_active (win_text w k)] k
      in case win_draw w of
           Some f \<Rightarrow> if \<not> win_minimized w then draw_content mc f i k else Some k
         | None \<Rightarrow> Some k)"

definition draw_inactive :: "machine \<Rightarrow> nat \<Rightarrow> kernel \<Rightarrow> kernel option" where
  "draw_inactive mc i k =
     (if win_closed (the_win i k) \<or> active_window (k_wm k) = Some i then Some k
      else draw_window mc False i k)"

definition wm_draw_all :: "machine \<Rightarrow> kernel \<Rightarrow> kernel option" where
  "wm_draw_all mc k = do {
     k \<leftarrow> for_up 0 (window_count (k_wm k)) (\<lambda>i st. Option.bind st (draw_inactive mc i)) (Some k);
     (case active_window (k_wm k) of
        Some a \<Rightarrow> if \<not> win_closed (the_win a k) then draw_window mc True a k else Some k
      | None \<Rightarrow> Some k)
   }"

section \<open>Icons and menus\<close>

text \<open>The shell's statics, and small steps on them.\<close>

definition on_shell :: "(shell \<Rightarrow> shell) \<Rightarrow> kernel \<Rightarrow> kernel" where
  "on_shell f k = k\<lparr>k_shell := f (k_shell k)\<rparr>"

definition redraw :: "kernel \<Rightarrow> kernel" where
  "redraw = on_shell (\<lambda>s. s\<lparr>full_redraw := True\<rparr>)"

abbreviation mx :: "kernel \<Rightarrow> int" where
  "mx k \<equiv> mouse_x (k_ps2 k)"

abbreviation my :: "kernel \<Rightarrow> int" where
  "my k \<equiv> mouse_y (k_ps2 k)"

text \<open>\<^verbatim>\<open>(int32_t)fb_height - n\<close>, and the word \<^verbatim>\<open>fb_height - n\<close>.\<close>

abbreviation from_bottom :: "int \<Rightarrow> kernel \<Rightarrow> int" where
  "from_bottom n k \<equiv> sint (fb_height (k_fb k)) - n"

abbreviation bottom :: "u32 \<Rightarrow> kernel \<Rightarrow> u32" where
  "bottom n k \<equiv> fb_height (k_fb k) - n"

definition retro_icon :: "icon \<Rightarrow> (fb \<Rightarrow> fb) list" where
  "retro_icon ic =
     (let x = icon_x ic; y = icon_y ic; w = icon_w ic; h = icon_h ic;
          len = int (strlen (icon_label ic)) * 8;
          lx = x + c_div (w - len) 2
      in [draw_retro_3d_panel (of_int x) (of_int y) (of_int w) (of_int h) False,
          fb_rect (of_int (x + 8)) (of_int (y + 8)) 16 4 0x000000,
          fb_rect (of_int (x + 9)) (of_int (y + 9)) 14 3 0xD4A017,
          fb_rect (of_int (x + 8)) (of_int (y + 12)) (of_int (w - 16)) (of_int (h - 24)) 0x000000,
          draw_retro_3d_panel (of_int (x + 9)) (of_int (y + 13)) (of_int (w - 18)) (of_int (h - 26)) False,
          fb_rect (of_int (x + 11)) (of_int (y + 15)) (of_int (w - 22)) (of_int (h - 30)) 0xF3C34F,
          fb_rect (of_int (lx - 4)) (of_int (y + h + 2)) (of_int (len + 8)) 12 0x000000,
          fb_rect (of_int (lx - 3)) (of_int (y + h + 3)) (of_int (len + 6)) 10 0xC0C0C0,
          fb_print (icon_label ic) (of_int lx) (of_int (y + h + 4)) 0x000000 0xC0C0C0])"

text \<open>In the flat style the centring is computed in \<^verbatim>\<open>size_t\<close>.\<close>

definition flat_icon :: "icon \<Rightarrow> (fb \<Rightarrow> fb) list" where
  "flat_icon ic =
     (let x = icon_x ic; y = icon_y ic; w = icon_w ic; h = icon_h ic;
          lx = (of_int x + (of_int w - of_nat (strlen (icon_label ic)) * 8) div 2 :: u64)
      in [fb_rect (of_int x) (of_int y) (of_int w) (of_int h) (icon_color ic),
          fb_rect (of_int (x + 4)) (of_int (y + 4)) (of_int (w - 8)) (of_int (h - 8)) 0xFFFFFF,
          fb_rect (of_int (x + 8)) (of_int (y + 8)) (of_int (w - 16)) (of_int (h - 16)) 0x222222,
          fb_print (icon_label ic) (ucast lx) (of_int (y + h + 8)) 0xFFFFFF 0x000000])"

definition draw_icon :: "icon \<Rightarrow> kernel \<Rightarrow> kernel" where
  "draw_icon ic k = fb_do (if ui_theme k = 1 then retro_icon ic else flat_icon ic) k"

definition draw_context_menu :: "int \<Rightarrow> int \<Rightarrow> kernel \<Rightarrow> kernel" where
  "draw_context_menu x y k =
     (if ui_theme k = 1 then
        fb_do [draw_retro_3d_panel (of_int x) (of_int y) 150 80 False,
               fb_print ''Refresh'' (of_int (x + 15)) (of_int (y + 12)) 0x000000 0xC0C0C0,
               fb_print ''Wallpaper'' (of_int (x + 15)) (of_int (y + 36)) 0x000000 0xC0C0C0,
               fb_print ''Settings'' (of_int (x + 15)) (of_int (y + 60)) 0x000000 0xC0C0C0] k
      else
        fb_do [fb_rect (of_int x) (of_int y) 150 80 0x222222,
               fb_rect (of_int (x + 1)) (of_int (y + 1)) 148 78 0x444444,
               fb_print ''Refresh'' (of_int (x + 15)) (of_int (y + 12)) 0xFFFFFF 0x444444,
               fb_print ''Wallpaper'' (of_int (x + 15)) (of_int (y + 36)) 0xFFFFFF 0x444444,
               fb_print ''Settings'' (of_int (x + 15)) (of_int (y + 60)) 0xFFFFFF 0x444444] k)"

text \<open>
  An entry of the start menu: hovered between \<open>a\<close> and \<open>a - 25\<close> pixels above the bottom edge, it
  is drawn on a highlighted bar; otherwise in the plain colour.
\<close>

definition menu_item :: "int \<Rightarrow> string \<Rightarrow> u32 \<Rightarrow> u32 \<Rightarrow> u32 \<Rightarrow> kernel \<Rightarrow> (fb \<Rightarrow> fb) list" where
  "menu_item a label hover_bg plain bg k =
     (let a32 = of_int a in
      if mx k \<ge> 10 \<and> mx k \<le> 210 \<and> my k \<ge> from_bottom a k \<and> my k \<le> from_bottom (a - 25) k
      then [fb_rect 15 (bottom (a32 + 3) k) 190 25 hover_bg,
            fb_print label 25 (bottom (a32 - 2) k) 0xFFFFFF hover_bg]
      else [fb_print label 25 (bottom (a32 - 2) k) plain bg])"

definition draw_start_menu :: "kernel \<Rightarrow> kernel" where
  "draw_start_menu k =
     (let retro = (ui_theme k = 1);
          bg = (if retro then 0xC0C0C0 else 0x34495E);
          hover_bg = (if retro then 0x224488 else 0x4A90E2);
          plain = (if retro then 0x000000 else 0xFFFFFF)
      in fb_do (
           (if retro then [draw_retro_3d_panel 10 (bottom 400 k) 200 350 False]
            else [fb_rect 10 (bottom 400 k) 200 350 0x222222, fb_rect 11 (bottom 399 k) 198 348 bg]) @
           [fb_print ''Onken OS AROS'' 20 (bottom 380 k) (if retro then 0x224488 else 0xF5A623) bg,
            fb_rect 20 (bottom 360 k) 180 2 0x7F8C8D] @
           menu_item 345 ''Programs'' hover_bg plain bg k @
           menu_item 305 ''System Info'' hover_bg plain bg k @
           menu_item 265 ''Filesystem'' hover_bg plain bg k @
           menu_item 225 ''Settings'' hover_bg plain bg k @
           menu_item 185 ''Sound Player'' hover_bg plain bg k @
           menu_item 145 ''Image Viewer'' hover_bg plain bg k @
           [fb_rect 20 (bottom 110 k) 180 2 0x7F8C8D] @
           menu_item 95 ''Power Off'' 0xBB3333 0xBB3333 bg k) k)"

text \<open>One thumbnail of the task switcher at \<open>(bx, by)\<close>, and the place of the next one.\<close>

definition switcher_cell :: "u32 \<Rightarrow> kernel \<Rightarrow> window \<Rightarrow> int \<times> int \<times> fb \<Rightarrow> int \<times> int \<times> fb" where
  "switcher_cell cx k w st =
     (let (bx, byy, s) = st in
      if win_closed w then st
      else
        (let retro = (ui_theme k = 1);
             bg = (if win_active w then (if retro then 0x224488 else 0x4A90E2)
                   else (if retro then 0xDFDFDF else 0x666666));
             fg = (if win_active w then 0xFFFFFF else (if retro then 0x000000 else 0xFFFFFF));
             s = run (if retro
                      then [draw_retro_3d_panel (of_int bx) (of_int byy) 110 60 (win_active w),
                            fb_rect (of_int (bx + 4)) (of_int (byy + 4)) 102 52 bg]
                      else [fb_rect (of_int bx) (of_int byy) 110 60 bg]) s;
             s = fb_print (win_text w k) (of_int (bx + 10)) (of_int (byy + 26)) fg bg s;
             bx = bx + 120
         in if of_int bx > cx + 300 then (sint (cx + 20), byy + 70, s) else (bx, byy, s)))"

definition draw_alt_tab_switcher :: "kernel \<Rightarrow> kernel" where
  "draw_alt_tab_switcher k =
     (let cx = (fb_width (k_fb k) - 400) div 2; cy = (fb_height (k_fb k) - 200) div 2;
          retro = (ui_theme k = 1);
          k = fb_do (if retro
                     then [draw_retro_3d_panel cx cy 400 200 False,
                           fb_print ''Task Switcher'' (cx + 150) (cy + 20) 0x224488 0xC0C0C0]
                     else [fb_rect cx cy 400 200 0x222222,
                           fb_rect (cx + 2) (cy + 2) 396 196 0x444444,
                           fb_print ''Task Switcher'' (cx + 150) (cy + 20) 0xFFFFFF 0x444444]) k;
          wins = wm_get_windows (k_wm k);
          open_count = length (filter (\<lambda>w. \<not> win_closed w) wins)
      in if open_count = 0
         then fb_do [fb_print ''No Open Windows'' (cx + 130) (cy + 90)
                       (if retro then 0x000000 else 0xAAAAAA) (if retro then 0xC0C0C0 else 0x444444)] k
         else (let (_, _, s) = fold (switcher_cell cx k) wins (sint (cx + 20), sint (cy + 50), k_fb k)
               in k\<lparr>k_fb := s\<rparr>))"

definition active_title :: "kernel \<Rightarrow> string" where
  "active_title k = (case wm_get_active (k_wm k) of Some i \<Rightarrow> win_text (the_win i k) k | None \<Rightarrow> ''None'')"

definition draw_workbench_bar :: "kernel \<Rightarrow> kernel option" where
  "draw_workbench_bar k =
     (if ui_theme k = 1 then do {
        let uptime_s = ucast (sys_uptime k div 1000);
        let mem = sys_get_mem_info k;
        let free_mb = ucast ((total_memory mem - used_memory mem) div 1024 div 1024);
        stats \<leftarrow> sprint 128 ''RAM Free: %d MB  |  Uptime: %d s  |  Active: %s''
          [dec32 free_mb, dec32 uptime_s, AStr (active_title k)];
        Some (fb_do [
          draw_retro_3d_panel 0 0 (fb_width (k_fb k)) 22 False,
          fb_print ''A'' 10 6 0xBB3333 0xC0C0C0,
          fb_print ''OnkenOS Workbench v3.0'' 30 6 0x000000 0xC0C0C0,
          fb_print stats (fb_width (k_fb k) - 500) 6 0x224488 0xC0C0C0] k)
      } else
        Some (fb_do [
          fb_rect 0 0 (fb_width (k_fb k)) 22 0x111111,
          fb_print ''Onken OS (Modern)'' 15 6 0xFFFFFF 0x111111] k))"

section \<open>Input: keys held, icons\<close>

definition step_super :: "kernel \<Rightarrow> kernel" where
  "step_super k =
     (let current_super = ps2_is_super_pressed (k_ps2 k);
          k = (if current_super \<and> \<not> last_super (k_shell k)
               then redraw (on_shell (\<lambda>s. s\<lparr>start_menu_visible := \<not> start_menu_visible s\<rparr>) k) else k)
      in on_shell (\<lambda>s. s\<lparr>last_super := current_super\<rparr>) k)"

definition step_alt :: "kernel \<Rightarrow> kernel" where
  "step_alt k =
     (let current_alt = ps2_is_alt_pressed (k_ps2 k);
          k = (if current_alt then
                 (let k = (if \<not> task_switcher_visible (k_shell k)
                           then redraw (on_shell (\<lambda>s. s\<lparr>task_switcher_visible := True\<rparr>) k) else k);
                      (c, p) = ps2_get_last_key (k_ps2 k);
                      k = k\<lparr>k_ps2 := p\<rparr>
                  in if c = CHR 0x09 then redraw (k\<lparr>k_wm := wm_cycle_depth (k_wm k)\<rparr>) else k)
               else if task_switcher_visible (k_shell k)
                 then redraw (on_shell (\<lambda>s. s\<lparr>task_switcher_visible := False\<rparr>) k)
               else k)
      in on_shell (\<lambda>s. s\<lparr>last_alt := current_alt\<rparr>) k)"

definition step_buttons :: "kernel \<Rightarrow> kernel" where
  "step_buttons k =
     (let p = k_ps2 k; s = k_shell k in
      if mouse_b_left p \<noteq> last_mbl s \<or> mouse_b_right p \<noteq> last_mbr s \<or>
         mouse_b_left p \<noteq> 0 \<or> mouse_b_right p \<noteq> 0
      then redraw k else k)"

text \<open>The dragged icon follows the pointer and is kept on the desktop.\<close>

definition clamp_icon :: "u32 \<Rightarrow> u32 \<Rightarrow> icon \<Rightarrow> icon" where
  "clamp_icon w h ic =
     (let ic = (if icon_x ic < 10 then ic\<lparr>icon_x := 10\<rparr> else ic);
          ic = (if icon_y ic < 26 then ic\<lparr>icon_y := 26\<rparr> else ic);
          ic = (if icon_x ic > sint w - 80 then ic\<lparr>icon_x := sint (w - 80)\<rparr> else ic)
      in if icon_y ic > sint h - 120 then ic\<lparr>icon_y := sint (h - 120)\<rparr> else ic)"

definition drag_icon :: "kernel \<Rightarrow> kernel" where
  "drag_icon k =
     (let s = k_shell k; i = nat (dragging_icon_idx s);
          ic = (icons s ! i)\<lparr>icon_x := mx k - drag_icon_off_x s, icon_y := my k - drag_icon_off_y s\<rparr>;
          ic = clamp_icon (fb_width (k_fb k)) (fb_height (k_fb k)) ic
      in redraw (on_shell (\<lambda>s. s\<lparr>icons := (icons s)[i := ic]\<rparr>) k))"

definition on_active_window :: "kernel \<Rightarrow> bool" where
  "on_active_window k =
     (case wm_get_active (k_wm k) of
        None \<Rightarrow> False
      | Some a \<Rightarrow>
          (let w = the_win a k; ch = (if win_minimized w then 24 else win_h w) in
           \<not> win_closed w \<and> in_box (mx k) (my k) (sint (win_x w)) (sint (win_x w + win_w w))
                                (sint (win_y w)) (sint (win_y w + ch))))"

definition icon_at :: "int \<Rightarrow> kernel \<Rightarrow> nat option" where
  "icon_at extra k =
     find_index (\<lambda>ic. in_box (mx k) (my k) (icon_x ic) (icon_x ic + icon_w ic)
                        (icon_y ic) (icon_y ic + icon_h ic + extra)) (icons (k_shell k))"

definition grab_icon :: "kernel \<Rightarrow> kernel" where
  "grab_icon k =
     (case icon_at 0 k of
        None \<Rightarrow> k
      | Some i \<Rightarrow>
          (let ic = icons (k_shell k) ! i in
           on_shell (\<lambda>s. s\<lparr>dragging_icon_idx := int i, drag_icon_off_x := mx k - icon_x ic,
                           drag_icon_off_y := my k - icon_y ic\<rparr>) k))"

definition step_icons :: "kernel \<Rightarrow> kernel" where
  "step_icons k =
     (if mouse_b_left (k_ps2 k) \<noteq> 0 then
        (if dragging_icon_idx (k_shell k) \<noteq> -1 then drag_icon k
         else if \<not> on_active_window k \<and> mouse_b_left (k_ps2 k) \<noteq> last_mbl (k_shell k) then grab_icon k
         else k)
      else on_shell (\<lambda>s. s\<lparr>dragging_icon_idx := -1\<rparr>) k)"

definition step_windows :: "kernel \<Rightarrow> kernel" where
  "step_windows k =
     (if dragging_icon_idx (k_shell k) = -1
      then k\<lparr>k_wm := wm_handle_mouse (mx k) (my k) (mouse_b_left (k_ps2 k) \<noteq> 0) (k_wm k)\<rparr> else k)"

definition step_hover :: "kernel \<Rightarrow> kernel" where
  "step_hover k =
     (let s = k_shell k in
      if start_menu_visible s \<and> (mx k \<noteq> last_mx s \<or> my k \<noteq> last_my s) \<and>
         mx k \<ge> 10 \<and> mx k \<le> 210 \<and> my k \<ge> from_bottom 350 k \<and> my k \<le> from_bottom 50 k
      then redraw k else k)"

section \<open>Input: clicks\<close>

definition click_context_menu :: "machine \<Rightarrow> kernel \<Rightarrow> kernel option" where
  "click_context_menu mc k = do {
     let s = k_shell k;
     k \<leftarrow> (if in_box (mx k) (my k) (menu_x s) (menu_x s + 150) (menu_y s) (menu_y s + 80) then
             (let click_offset_y = my k - menu_y s in
              if click_offset_y < 27 then Some (redraw k)
              else if click_offset_y < 54 then
                (let wp = (if wallpaper_mode k = 1 then 0 else 1)
                 in Some (redraw (k\<lparr>wallpaper_mode := wp, k_fb := fb_render_wallpaper wp (k_fb k)\<rparr>)))
              else launch_named mc ''settings'' None k)
           else Some k);
     Some (redraw (on_shell (\<lambda>s. s\<lparr>menu_visible := False\<rparr>) k))
   }"

definition in_rows :: "int \<Rightarrow> int \<Rightarrow> kernel \<Rightarrow> bool" where
  "in_rows a b k \<longleftrightarrow> my k \<ge> from_bottom a k \<and> my k \<le> from_bottom b k"

definition click_start_menu :: "machine \<Rightarrow> kernel \<Rightarrow> kernel option" where
  "click_start_menu mc k = do {
     k \<leftarrow> (if in_rows 348 320 k then launch_named mc ''browser'' None k
           else if in_rows 308 280 k then launch_named mc ''sysinfo'' None k
           else if in_rows 268 240 k then launch_named mc ''files'' None k
           else if in_rows 228 200 k then launch_named mc ''settings'' None k
           else if in_rows 188 160 k then launch_named mc ''player'' None k
           else if in_rows 148 120 k then launch_named mc ''imageviewer'' None k
           else if in_rows 98 70 k then
             Some (k\<lparr>c_trace := outw 0xB004 0x2000 (outw 0x604 0x2000 (c_trace k))\<rparr>)
           else Some k);
     Some (redraw (on_shell (\<lambda>s. s\<lparr>start_menu_visible := False\<rparr>) k))
   }"

text \<open>The task bar's buttons of the open windows lie side by side from \<open>tb_x\<close> on.\<close>

fun taskbar_hit :: "int \<Rightarrow> window list \<Rightarrow> nat \<Rightarrow> int \<Rightarrow> nat option" where
  "taskbar_hit x [] i tb_x = None"
| "taskbar_hit x (w # ws) i tb_x =
     (if win_closed w then taskbar_hit x ws (i + 1) tb_x
      else if x \<ge> tb_x \<and> x \<le> tb_x + 140 then Some i
      else taskbar_hit x ws (i + 1) (tb_x + 145))"

definition click_taskbar :: "kernel \<Rightarrow> kernel" where
  "click_taskbar k =
     (case taskbar_hit (mx k) (wm_get_windows (k_wm k)) 0 120 of
        None \<Rightarrow> k
      | Some i \<Rightarrow>
          (let m = (if win_minimized (the_win i k)
                    then upd_window i (\<lambda>w. w\<lparr>win_minimized := False\<rparr>) (k_wm k) else k_wm k)
           in redraw (k\<lparr>k_wm := wm_focus_window i m\<rparr>)))"

text \<open>A click relative to the window \<open>w\<close>: both ranges count from its corner.\<close>

definition in_window :: "window \<Rightarrow> int \<Rightarrow> int \<Rightarrow> int \<Rightarrow> int \<Rightarrow> kernel \<Rightarrow> bool" where
  "in_window w x0 x1 y0 y1 k \<longleftrightarrow>
     in_box (mx k) (my k) (sint (win_x w) + x0) (sint (win_x w) + x1)
       (sint (win_y w) + y0) (sint (win_y w) + y1)"

definition click_settings :: "window \<Rightarrow> kernel \<Rightarrow> kernel" where
  "click_settings w k =
     (let k = (if in_window w 10 110 30 55 k then redraw (k\<lparr>current_tab := 0\<rparr>)
               else if in_window w 115 215 30 55 k then redraw (k\<lparr>current_tab := 1\<rparr>)
               else if in_window w 220 320 30 55 k then redraw (k\<lparr>current_tab := 2\<rparr>)
               else k);
          paint = (\<lambda>k. redraw (k\<lparr>k_fb := fb_render_wallpaper (wallpaper_mode k) (k_fb k)\<rparr>))
      in if current_tab k = 0 then
           (if in_window w 20 200 90 120 k then paint (k\<lparr>ui_theme := 1\<rparr>)
            else if in_window w 20 200 130 160 k then paint (k\<lparr>ui_theme := 0\<rparr>)
            else if in_window w 20 200 200 230 k then paint (k\<lparr>wallpaper_mode := 1\<rparr>)
            else if in_window w 20 200 240 270 k then paint (k\<lparr>wallpaper_mode := 0\<rparr>)
            else k)
         else if current_tab k = 2 then
           (if in_window w 20 200 160 190 k
            then redraw (k\<lparr>c_sound := sound_enqueue 1000 200 (c_sound k)\<rparr>) else k)
         else k)"

definition enqueue_all :: "(u32 \<times> u32) list \<Rightarrow> sound \<Rightarrow> sound" where
  "enqueue_all ns s = fold (\<lambda>(f, d). sound_enqueue f d) ns s"

definition chiptune :: "(u32 \<times> u32) list" where
  "chiptune = [(261, 150), (0, 50), (329, 150), (0, 50), (392, 150), (0, 50), (523, 300)]"

definition success_alert :: "(u32 \<times> u32) list" where
  "success_alert = [(523, 100), (0, 20), (659, 100), (0, 20), (784, 100), (0, 20), (1046, 250)]"

definition click_player :: "hardware \<Rightarrow> window \<Rightarrow> kernel \<Rightarrow> kernel" where
  "click_player hw w k =
     (if in_window w 20 200 70 100 k then
        redraw (k\<lparr>player_selected_btn := 0, c_sound := enqueue_all chiptune (c_sound k)\<rparr>)
      else if in_window w 220 400 70 100 k then
        redraw (k\<lparr>player_selected_btn := 1, c_sound := enqueue_all success_alert (c_sound k)\<rparr>)
      else if in_window w 20 400 120 150 k then
        (let (s, tr) = sound_stop hw (c_sound k, c_trace k)
         in redraw (k\<lparr>player_selected_btn := 2, c_sound := s, c_trace := tr\<rparr>))
      else k)"

definition click_files :: "machine \<Rightarrow> window \<Rightarrow> kernel \<Rightarrow> kernel option" where
  "click_files mc w k =
     (if mx k \<ge> sint (win_x w) + 260 \<and> mx k \<le> sint (win_x w) + 580 then
        (let file_idx = c_div (my k - (sint (win_y w) + 90)) 20 in
         if file_idx \<ge> 0 \<and> file_idx < 64 then
           (case vfs_get_by_index file_idx (k_fs k) of
              None \<Rightarrow> Some k
            | Some j \<Rightarrow>
                (let name = f_name (k_fs k ! j) in
                 map_option redraw
                   (if has_suffix ''.bmp'' name then launch_named mc ''imageviewer'' (Some name) k
                    else launch_named mc ''yano'' (Some name) k)))
         else Some k)
      else Some k)"

text \<open>
  The click handlers of the active window, by its title. The code fetches the pointer once:
  a launch does not move the window.
\<close>

definition click_contents :: "machine \<Rightarrow> kernel \<Rightarrow> kernel option" where
  "click_contents mc k =
     (case wm_get_active (k_wm k) of
        None \<Rightarrow> Some k
      | Some a \<Rightarrow>
          (let w = the_win a k; is = (\<lambda>title. strcmp (win_text w k) title = 0) in
           if win_closed w then Some k
           else
             (let k = (if is ''Settings'' then click_settings w k else k);
                  k = (if is ''Sound Player'' then click_player (mc_hw mc) w k else k)
              in if is ''File Explorer'' then click_files mc w k else Some k)))"

definition click_desktop :: "machine \<Rightarrow> kernel \<Rightarrow> kernel option" where
  "click_desktop mc k =
     (if in_box (mx k) (my k) 10 110 (from_bottom 38 k) (from_bottom 8 k) then
        Some (redraw (on_shell (\<lambda>s. s\<lparr>start_menu_visible := \<not> start_menu_visible s\<rparr>) k))
      else do {
        k \<leftarrow> (if start_menu_visible (k_shell k) \<and>
                 in_box (mx k) (my k) 10 210 (from_bottom 400 k) (from_bottom 50 k)
              then click_start_menu mc k
              else if in_rows 38 8 k then Some (click_taskbar k)
              else Some k);
        k \<leftarrow> click_contents mc k;
        Some (if start_menu_visible (k_shell k) \<and> mx k > 210
              then redraw (on_shell (\<lambda>s. s\<lparr>start_menu_visible := False\<rparr>) k) else k)
      })"

definition step_click :: "machine \<Rightarrow> kernel \<Rightarrow> kernel option" where
  "step_click mc k =
     (if mouse_b_left (k_ps2 k) \<noteq> 0 \<and> mouse_b_left (k_ps2 k) \<noteq> last_mbl (k_shell k) then
        (if menu_visible (k_shell k) then click_context_menu mc k
         else
           (case icon_at 16 k of
              Some i \<Rightarrow>
                map_option (\<lambda>k. redraw (on_shell (\<lambda>s. s\<lparr>start_menu_visible := False\<rparr>) k))
                  (launch_named mc (icon_app (icons (k_shell k) ! i)) None k)
            | None \<Rightarrow> click_desktop mc k))
      else Some k)"

definition step_right :: "kernel \<Rightarrow> kernel" where
  "step_right k =
     (if mouse_b_right (k_ps2 k) \<noteq> 0 \<and> mouse_b_right (k_ps2 k) \<noteq> last_mbr (k_shell k)
      then redraw (on_shell (\<lambda>s. s\<lparr>menu_x := mx k, menu_y := my k, menu_visible := True\<rparr>) k)
      else k)"

text \<open>A key goes to the application whose title the active window's title starts with.\<close>

definition step_key :: "machine \<Rightarrow> kernel \<Rightarrow> kernel option" where
  "step_key mc k =
     (let (c, p) = ps2_get_last_key (k_ps2 k); k = k\<lparr>k_ps2 := p\<rparr> in
      if c \<noteq> NUL then
        (let k = redraw k in
         case wm_get_active (k_wm k) of
           None \<Rightarrow> Some k
         | Some a \<Rightarrow>
             if win_closed (the_win a k) then Some k
             else
               (case app_find_by_title (win_text (the_win a k) k) (k_apps k) of
                  None \<Rightarrow> Some k
                | Some app \<Rightarrow>
                    (case app_handle_key app of None \<Rightarrow> Some k | Some h \<Rightarrow> app_key mc h c k)))
      else Some k)"

section \<open>The picture\<close>

definition over_start :: "kernel \<Rightarrow> bool" where
  "over_start k \<longleftrightarrow> in_box (mx k) (my k) 10 110 (from_bottom 38 k) (from_bottom 8 k)"

definition draw_start_button :: "kernel \<Rightarrow> kernel" where
  "draw_start_button k =
     (let retro = (ui_theme k = 1); vis = start_menu_visible (k_shell k);
          b = (if over_start k then
                 (if retro then draw_retro_3d_panel 10 (bottom 38 k) 100 30 True
                  else fb_rect 10 (bottom 38 k) 100 30 0x4A90E2)
               else
                 (if retro then draw_retro_3d_panel 10 (bottom 38 k) 100 30 vis
                  else fb_rect 10 (bottom 38 k) 100 30 (if vis then 0x4A90E2 else 0x2C3E50)))
      in fb_do [b, fb_print ''START'' 35 (bottom 28 k) (if retro then 0x000000 else 0xFFFFFF)
                     (if retro then 0xC0C0C0 else if over_start k then 0x4A90E2 else 0x2C3E50)] k)"

definition short_title :: "string \<Rightarrow> string option" where
  "short_title title = do {
     t \<leftarrow> strncpy_term (replicate 16 NUL) title 15;
     Some (if strlen title > 15
           then t[12 := CHR ''.'', 13 := CHR ''.'', 14 := CHR ''.''] else t)
   }"

definition taskbar_button :: "kernel \<Rightarrow> window \<Rightarrow> int \<times> fb \<Rightarrow> (int \<times> fb) option" where
  "taskbar_button k w st =
     (let (tb_x, s) = st in
      if win_closed w then Some (tb_x, s)
      else do {
        let retro = (ui_theme k = 1);
        let is_sunken = (win_minimized w \<or> win_active w);
        let flat = (if is_sunken then 0x333333 else 0x222222);
        let s = (if retro then draw_retro_3d_panel (of_int tb_x) (bottom 38 k) 140 30 is_sunken s
                 else fb_rect (of_int tb_x) (bottom 38 k) 140 30 flat s);
        title \<leftarrow> short_title (win_text w k);
        Some (tb_x + 145, fb_print title (of_int (tb_x + 10)) (bottom 28 k)
                (if retro then 0x000000 else 0xFFFFFF) (if retro then 0xC0C0C0 else flat) s)
      })"

definition draw_taskbar :: "kernel \<Rightarrow> kernel option" where
  "draw_taskbar k = do {
     let k = fb_do [if ui_theme k = 1
                    then draw_retro_3d_panel 0 (bottom 45 k) (fb_width (k_fb k)) 45 False
                    else fb_rect 0 (bottom 45 k) (fb_width (k_fb k)) 45 0x1A1A1A] k;
     let k = draw_start_button k;
     (tb_x, s) \<leftarrow> fold (\<lambda>w st. Option.bind st (taskbar_button k w)) (wm_get_windows (k_wm k))
                   (Some (120, k_fb k));
     Some (k\<lparr>k_fb := s\<rparr>)
   }"

definition draw_clock :: "hardware \<Rightarrow> kernel \<Rightarrow> kernel option" where
  "draw_clock hw k = do {
     (time_str, tr) \<leftarrow> rtc_get_time_string hw (replicate 8 NUL) 8 (c_trace k);
     Some (fb_do [fb_print time_str (fb_width (k_fb k) - 60) (bottom 28 k)
                    (if ui_theme k = 1 then 0x000000 else 0xAAAAAA)
                    (if ui_theme k = 1 then 0xC0C0C0 else 0x1A1A1A)] (k\<lparr>c_trace := tr\<rparr>))
   }"

definition compose_desktop :: "machine \<Rightarrow> kernel \<Rightarrow> kernel option" where
  "compose_desktop mc k = do {
     let k = fb_do [fb_reset_cursor_backup, fb_clear_to_wallpaper] k;
     let k = fold draw_icon (icons (k_shell k)) k;
     k \<leftarrow> wm_draw_all mc k;
     k \<leftarrow> draw_workbench_bar k;
     k \<leftarrow> draw_taskbar k;
     k \<leftarrow> draw_clock (mc_hw mc) k;
     let k = (if menu_visible (k_shell k)
              then draw_context_menu (menu_x (k_shell k)) (menu_y (k_shell k)) k else k);
     let k = (if start_menu_visible (k_shell k) then draw_start_menu k else k);
     let k = (if task_switcher_visible (k_shell k) then draw_alt_tab_switcher k else k);
     Some (fb_do [fb_commit_desktop] k)
   }"

definition step_render :: "machine \<Rightarrow> kernel \<Rightarrow> kernel option" where
  "step_render mc k =
     (if full_redraw (k_shell k) then do {
        k \<leftarrow> compose_desktop mc k;
        Some (on_shell (\<lambda>s. s\<lparr>full_redraw := False\<rparr>) (fb_do [fb_show_cursor (mx k) (my k), fb_swap] k))
      }
      else if mx k \<noteq> last_mx (k_shell k) \<or> my k \<noteq> last_my (k_shell k) then
        Some (fb_do [fb_show_cursor (mx k) (my k), fb_swap] k)
      else Some k)"

definition step_remember :: "kernel \<Rightarrow> kernel" where
  "step_remember k =
     on_shell (\<lambda>s. s\<lparr>last_mx := mx k, last_my := my k,
                     last_mbl := mouse_b_left (k_ps2 k), last_mbr := mouse_b_right (k_ps2 k)\<rparr>) k"

section \<open>The loop\<close>

definition shell_init :: "machine \<Rightarrow> kernel \<Rightarrow> kernel option" where
  "shell_init mc k = do {
     fs \<leftarrow> vfs_init;
     let k = k\<lparr>k_fs := fs, k_wm := wm_init (k_wm k), k_apps := app_registry_init (k_apps k)\<rparr>;
     let k = run [htop_init, yano_init, sysinfo_init, browser_init, files_init, settings_init,
                  terminal_init, player_init, imageviewer_init] k;
     k \<leftarrow> launch_named mc ''terminal'' None k;
     Some (on_shell (\<lambda>s. s\<lparr>full_redraw := True, last_mx := -1, last_my := -1,
                           last_mbl := 0, last_mbr := 0\<rparr>) k)
   }"

definition shell_step :: "machine \<Rightarrow> kernel \<Rightarrow> kernel option" where
  "shell_step mc k = do {
     let k = run [step_super, step_alt, step_buttons, step_icons, step_windows, step_hover] k;
     k \<leftarrow> step_click mc k;
     k \<leftarrow> step_key mc (step_right k);
     k \<leftarrow> step_render mc k;
     Some (step_remember k)
   }"

text \<open>
  The loop as far as the interrupts in the list take it: the state in the last \<^verbatim>\<open>sleep\<close> that does
  not end, or \<open>None\<close> on a memory error. Every turn sleeps 5 ms, so it takes interrupts off the
  list unless the timer stands below 200 Hz; the fuel bounds the number of turns.
\<close>

fun shell_turns :: "machine \<Rightarrow> nat \<Rightarrow> irq list \<Rightarrow> kernel \<Rightarrow> kernel option" where
  "shell_turns mc 0 es k = Some k"
| "shell_turns mc (Suc fuel) es k = do {
     k \<leftarrow> shell_step mc k;
     (case sleep (mc_hw mc) 5 es k of
        None \<Rightarrow> Some (fold (irq_step (mc_hw mc)) es k)
      | Some (es, k) \<Rightarrow> shell_turns mc fuel es k)
   }"

end
