(* ===== verification/Boot.thy ===== *)
theory Boot
  imports Shell
begin

text \<open>
  The start of the kernel (\<^verbatim>\<open>kernel/kernel.c\<close>): \<^verbatim>\<open>kernel_main\<close> up to the first turn of the shell's loop. What the Limine boot loader hands
  over, and the addresses of the assembly stubs, are a record of parameters.
\<close>

section \<open>kernel_main\<close>

record boot_info =
  bi_framebuffer :: "(u32 list \<times> u64 \<times> u64 \<times> u64) option"
  bi_memmap :: "memmap_entry list"
  bi_hhdm :: u64
  bi_kernel_end :: u64
  bi_irq0_stub :: u64
  bi_irq1_stub :: u64
  bi_irq12_stub :: u64
  bi_cs :: u16

text \<open>\<open>Halted\<close> is the endless \<^verbatim>\<open>hlt\<close> loop without a frame buffer.\<close>

datatype boot_result = Halted kernel | Running kernel

definition k_log :: "(string \<Rightarrow> trace \<Rightarrow> trace option) \<Rightarrow> string \<Rightarrow> kernel \<Rightarrow> kernel option" where
  "k_log out msg k = map_option (\<lambda>tr. k\<lparr>c_trace := tr\<rparr>) (out msg (c_trace k))"

definition boot_memory :: "boot_info \<Rightarrow> kernel \<Rightarrow> kernel" where
  "boot_memory bi k = k\<lparr>c_mm := mm_init (bi_memmap bi) (bi_hhdm bi) (bi_kernel_end bi) (c_mm k)\<rparr>"

definition boot_buffers :: "kernel \<Rightarrow> kernel" where
  "boot_buffers k =
     (let (m, s) = fb_alloc_buffers (c_mm k, k_fb k);
          s = run [fb_clear 0x111111, fb_render_wallpaper (wallpaper_mode k)] s
      in k\<lparr>c_mm := m, k_fb := s\<rparr>)"

definition boot_interrupts :: "boot_info \<Rightarrow> kernel \<Rightarrow> kernel" where
  "boot_interrupts bi k =
     (let (idt, tr) = idt_init (bi_irq0_stub bi) (bi_irq1_stub bi) (bi_irq12_stub bi) (bi_cs bi)
                        (k_idt k, c_trace k)
      in k\<lparr>k_idt := idt, c_trace := tr\<rparr>)"

definition boot_timer :: "kernel \<Rightarrow> kernel option" where
  "boot_timer k = map_option (\<lambda>(p, tr). k\<lparr>c_pit := p, c_trace := tr\<rparr>) (pit_init 1000 (c_pit k, c_trace k))"

definition boot_scheduler :: "kernel \<Rightarrow> kernel option" where
  "boot_scheduler k = map_option (\<lambda>(m, s). k\<lparr>c_mm := m, c_sched := s\<rparr>) (scheduler_init (c_mm k, c_sched k))"

definition boot_input :: "hardware \<Rightarrow> kernel \<Rightarrow> kernel" where
  "boot_input hw k = (let (p, tr) = ps2_init hw (k_ps2 k, c_trace k) in k\<lparr>k_ps2 := p, c_trace := tr\<rparr>)"

definition boot_rest :: "machine \<Rightarrow> boot_info \<Rightarrow> kernel \<Rightarrow> kernel option" where
  "boot_rest mc bi k = do {
     let hw = mc_hw mc;
     k \<leftarrow> k_log (log_ok hw) ''Framebuffer initialized'' k;
     k \<leftarrow> k_log (log_ok hw) ''GDT initialized'' k;
     k \<leftarrow> k_log (log_ok hw) ''Paging ready'' k;
     k \<leftarrow> k_log (log_ok hw) ''Memory manager initialized'' (boot_memory bi k);
     k \<leftarrow> k_log (log_ok hw) ''GUI Buffers initialized'' (boot_buffers k);
     k \<leftarrow> k_log (log_ok hw) ''Interrupt Descriptor Table (IDT) active'' (boot_interrupts bi k);
     k \<leftarrow> boot_timer k;
     k \<leftarrow> k_log (log_ok hw) ''PIT hardware timer active'' k;
     k \<leftarrow> boot_scheduler k;
     k \<leftarrow> k_log (log_ok hw) ''Task Scheduler active'' k;
     k \<leftarrow> k_log (log_ok hw) ''PS/2 Input active (Interrupt-driven)'' (boot_input hw k);
     k \<leftarrow> k_log (log_ok hw) ''Welcome to Onken OS!'' k;
     shell_init mc k
   }"

definition kernel_main :: "machine \<Rightarrow> boot_info \<Rightarrow> kernel \<Rightarrow> boot_result option" where
  "kernel_main mc bi k = do {
     let k = k\<lparr>c_trace := serial_setup (c_trace k)\<rparr>;
     k \<leftarrow> k_log (log_info (mc_hw mc)) ''Onken OS booting...'' k;
     k \<leftarrow> k_log (log_info (mc_hw mc)) ''Limine protocol detected'' k;
     (case bi_framebuffer bi of
        None \<Rightarrow> map_option Halted (k_log (serial_write (mc_hw mc)) (''No framebuffer available!'' @ [CHR 0x0A]) k)
      | Some (screen, w, h, pitch) \<Rightarrow>
          map_option Running
            (boot_rest mc bi (k\<lparr>k_fb := fb_init_raw screen (ucast w) (ucast h) (ucast pitch) (k_fb k)\<rparr>)))
   }"

end
