(* ===== verification/TerminalLaws.thy ===== *)
theory TerminalLaws
  imports Terminal
begin

text \<open>
  What the terminal promises: the scroll-back keeps the last 40 lines, the command line is a
  text field of 127 characters, and the commands do to the file store what they say.
\<close>

section \<open>The invariant\<close>

definition line_ok :: "history_line \<Rightarrow> bool" where
  "line_ok l \<longleftrightarrow> length (hl_text l) = 128"

definition history_ok :: "terminal \<Rightarrow> bool" where
  "history_ok t \<longleftrightarrow> length (term_history t) = MAX_HISTORY \<and> (\<forall>l \<in> set (term_history t). line_ok l) \<and>
     history_count t \<le> MAX_HISTORY"

definition command_ok :: "terminal \<Rightarrow> bool" where
  "command_ok t \<longleftrightarrow> length (cmd_buf t) = MAX_CMD \<and> cmd_len t < MAX_CMD \<and>
     drop (cmd_len t) (cmd_buf t) = replicate (MAX_CMD - cmd_len t) NUL \<and>
     NUL \<notin> set (take (cmd_len t) (cmd_buf t)) \<and> length (current_dir t) = 64"

definition cmd_text :: "terminal \<Rightarrow> string" where
  "cmd_text t = take (cmd_len t) (cmd_buf t)"

definition term_texts :: "terminal \<Rightarrow> (string \<times> u32) list" where
  "term_texts t = map (\<lambda>l. (cstr (hl_text l), hl_color l)) (take (history_count t) (term_history t))"

lemma terminal_boot_ok: "history_ok terminal_boot" "command_ok terminal_boot"
  by (simp_all add: history_ok_def command_ok_def terminal_boot_def line_ok_def MAX_HISTORY_def MAX_CMD_def)

section \<open>The scroll-back\<close>

lemma put_line_eq:
  assumes "length (hl_text (hist ! i)) = 128"
  shows "\<exists>x. put_line i msg color hist = Some (hist[i := \<lparr>hl_text = x, hl_color = color\<rparr>]) \<and>
    length x = 128 \<and> cstr x = take 127 (cstr msg)"
proof -
  have l: "length (hl_text (hist ! i)) = Suc 127" using assms by simp
  then obtain x where x: "strncpy_term (hl_text (hist ! i)) msg 127 = Some x"
    by (simp add: strncpy_term_eq)
  from cstr_strncpy_term [OF l x] x show ?thesis by (auto simp: put_line_def)
qed

text \<open>The shifting loop drops the first line and doubles the last.\<close>

lemma shift_down:
  assumes "n < length xs"
  shows "for_up 0 n (\<lambda>i h. h[i := h ! (i + 1)]) xs = take n (tl xs) @ drop n xs"
  using assms
proof (induction n)
  case 0
  then show ?case by simp
next
  case (Suc n)
  then have n: "n < length (tl xs)" "n < length xs" by simp_all
  have d: "drop n xs = xs ! n # drop (Suc n) xs" using n by (simp add: Cons_nth_drop_Suc)
  have "for_up 0 (Suc n) (\<lambda>i h. h[i := h ! (i + 1)]) xs = (take n (tl xs) @ drop n xs)[n := xs ! Suc n]"
    using Suc n by (simp add: for_up_last nth_append)
  also have "\<dots> = take n (tl xs) @ xs ! Suc n # drop (Suc n) xs"
    using n by (simp add: d list_update_append)
  also have "\<dots> = take (Suc n) (tl xs) @ drop (Suc n) xs"
    using n by (simp add: take_Suc_conv_app_nth nth_tl)
  finally show ?case .
qed

lemma take_Suc_update: "n < length xs \<Longrightarrow> take (Suc n) (xs[n := x]) = take n xs @ [x]"
  by (simp add: take_Suc_conv_app_nth)

lemma set_shift: "set (take n (tl xs) @ drop n xs) \<subseteq> set xs"
  by (cases xs) (auto dest: in_set_takeD in_set_dropD)

lemma history_add_law:
  assumes "history_ok t"
  shows "\<exists>t'. term_history_add msg color t = Some t' \<and> history_ok t' \<and>
    term_texts t' = keep_last MAX_HISTORY (term_texts t @ [(take 127 (cstr msg), color)]) \<and>
    (cmd_buf t', cmd_len t', current_dir t') = (cmd_buf t, cmd_len t, current_dir t)"
proof (cases "history_count t < MAX_HISTORY")
  case True
  let ?n = "history_count t"
  have n: "?n < length (term_history t)" using assms True by (simp add: history_ok_def)
  then have "length (hl_text (term_history t ! ?n)) = 128"
    using assms by (simp add: history_ok_def line_ok_def)
  from put_line_eq [OF this, of msg color] obtain x where
    x: "put_line ?n msg color (term_history t) = Some ((term_history t)[?n := \<lparr>hl_text = x, hl_color = color\<rparr>])"
      "length x = 128" "cstr x = take 127 (cstr msg)" by blast
  have "\<forall>l \<in> set ((term_history t)[?n := \<lparr>hl_text = x, hl_color = color\<rparr>]). line_ok l"
    using assms x by (auto simp: history_ok_def line_ok_def dest!: set_update_subset_insert [THEN subsetD])
  moreover have "length (term_texts t) < MAX_HISTORY" using True by (simp add: term_texts_def)
  ultimately show ?thesis
    using True x assms take_Suc_update [OF n]
    by (auto simp: term_history_add_def history_ok_def term_texts_def)
next
  case False
  then have c: "history_count t = MAX_HISTORY" "length (term_history t) = 40"
    using assms by (simp_all add: history_ok_def MAX_HISTORY_def)
  let ?h = "take 39 (tl (term_history t)) @ drop 39 (term_history t)"
  have sh: "for_up 0 39 (\<lambda>i h. h[i := h ! (i + 1)]) (term_history t) = ?h"
    using c by (intro shift_down) simp
  have hl: "length ?h = 40" using c by simp
  note sub = set_shift [of 39 "term_history t"]
  have "?h ! 39 \<in> set (term_history t)" by (rule subsetD [OF sub nth_mem]) (simp only: hl)
  then have "length (hl_text (?h ! 39)) = 128" using assms by (simp add: history_ok_def line_ok_def)
  from put_line_eq [OF this, of msg color] obtain x where
    x: "put_line 39 msg color ?h = Some (?h[39 := \<lparr>hl_text = x, hl_color = color\<rparr>])"
      "length x = 128" "cstr x = take 127 (cstr msg)" by blast
  have "\<forall>l \<in> set ?h. line_ok l" using sub assms unfolding history_ok_def by blast
  then have ok: "\<forall>l \<in> set (?h[39 := \<lparr>hl_text = x, hl_color = color\<rparr>]). line_ok l"
    using x(2) set_update_subset_insert [of ?h 39 "\<lparr>hl_text = x, hl_color = color\<rparr>"] by (auto simp: line_ok_def)
  have "take 40 (?h[39 := \<lparr>hl_text = x, hl_color = color\<rparr>]) = tl (term_history t) @ [\<lparr>hl_text = x, hl_color = color\<rparr>]"
    using take_Suc_update [of 39 ?h] hl c by simp
  then have "term_texts (t\<lparr>term_history := ?h[39 := \<lparr>hl_text = x, hl_color = color\<rparr>], term_scroll_offset := 0\<rparr>)
      = tl (term_texts t) @ [(take 127 (cstr msg), color)]"
    using c x by (simp add: term_texts_def MAX_HISTORY_def map_tl)
  moreover have "keep_last MAX_HISTORY (term_texts t @ [(take 127 (cstr msg), color)])
      = tl (term_texts t) @ [(take 127 (cstr msg), color)]"
    using c by (cases "term_texts t") (auto simp: keep_last_def term_texts_def MAX_HISTORY_def)
  ultimately show ?thesis
    using c x sh ok hl by (auto simp: term_history_add_def history_ok_def MAX_HISTORY_def)
qed

definition add_message :: "string \<times> u32 \<Rightarrow> terminal \<Rightarrow> terminal option" where
  "add_message m t = term_history_add (fst m) (snd m) t"

interpretation scroll_back: bounded_log history_ok term_texts add_message
    "\<lambda>m. (take 127 (cstr (fst m)), snd m)" MAX_HISTORY "\<lambda>t. (cmd_buf t, cmd_len t, current_dir t)"
proof (unfold_locales, goal_cases)
  case (1 s m)
  then show ?case unfolding add_message_def by (rule history_add_law)
next
  case (2 s)
  then show ?case by (simp add: term_texts_def history_ok_def)
qed

lemma print_all_lift:
  "print_all ms k = map_option (\<lambda>t. k\<lparr>k_term := t\<rparr>) (add_all add_message ms (k_term k))"
proof (induction ms arbitrary: k)
  case Nil
  then show ?case by simp
next
  case (Cons m ms)
  then show ?case
    by (cases m) (cases "add_message m (k_term k)", simp_all add: print_to_shell_def add_message_def)
qed

text \<open>C13 (scroll_back_keeps_last): printing any list of lines succeeds, changes nothing but the terminal,
  and leaves in the scroll-back the last 40 of the old and the new lines, each cut to 127
  characters, in order.\<close>

theorem scroll_back_keeps_last:
  assumes "history_ok (k_term k)"
  shows "\<exists>t. print_all ms k = Some (k\<lparr>k_term := t\<rparr>) \<and> history_ok t \<and>
    term_texts t = keep_last 40 (term_texts (k_term k) @ map (\<lambda>m. (take 127 (cstr (fst m)), snd m)) ms)"
proof -
  from scroll_back.add_all_law [OF assms, of ms] obtain t where
    "add_all add_message ms (k_term k) = Some t" "history_ok t"
    "term_texts t = keep_last MAX_HISTORY (term_texts (k_term k) @ map (\<lambda>m. (take 127 (cstr (fst m)), snd m)) ms)"
    by blast
  then show ?thesis by (intro exI [of _ t]) (simp add: print_all_lift MAX_HISTORY_def split_beta)
qed

theorem scroll_back_keeps_last_witness:
  "\<exists>t. print_all (replicate 41 (''x'', 7)) (kernel_boot (\<lambda>_. 0)) = Some ((kernel_boot (\<lambda>_. 0))\<lparr>k_term := t\<rparr>) \<and>
     term_texts t = replicate 40 (''x'', 7)"
proof -
  let ?k = "kernel_boot (\<lambda>_. 0)"
  have k: "history_ok (k_term ?k)" "term_texts (k_term ?k) = []"
    using terminal_boot_ok by (simp_all add: kernel_boot_def term_texts_def terminal_boot_def)
  from scroll_back_keeps_last [OF k(1), of "replicate 41 (''x'', 7)"] k(2) show ?thesis
    by (auto simp: keep_last_def)
qed

text \<open>One line printed by a command.\<close>

lemma print_law:
  assumes "history_ok (k_term k)"
  shows "\<exists>t. print_to_shell msg color k = Some (k\<lparr>k_term := t\<rparr>) \<and> history_ok t \<and>
    term_texts t = keep_last MAX_HISTORY (term_texts (k_term k) @ [(take 127 (cstr msg), color)])"
proof -
  from history_add_law [OF assms, of msg color] obtain t where
    "term_history_add msg color (k_term k) = Some t" "history_ok t"
    "term_texts t = keep_last MAX_HISTORY (term_texts (k_term k) @ [(take 127 (cstr msg), color)])" by blast
  then show ?thesis by (intro exI [of _ t]) (simp add: print_to_shell_def)
qed

section \<open>The command line\<close>

lemma command_put:
  assumes "command_ok t" and "c \<noteq> NUL" and "cmd_len t < MAX_CMD - 1"
  shows "command_ok (t\<lparr>cmd_buf := (cmd_buf t)[cmd_len t := c], cmd_len := cmd_len t + 1\<rparr>)"
    and "cmd_text (t\<lparr>cmd_buf := (cmd_buf t)[cmd_len t := c], cmd_len := cmd_len t + 1\<rparr>) = cmd_text t @ [c]"
proof -
  let ?n = "cmd_len t" and ?b = "cmd_buf t"
  have n: "?n < length ?b" using assms by (simp add: command_ok_def)
  have tk: "take (Suc ?n) (?b[?n := c]) = take ?n ?b @ [c]" using n by (simp add: take_Suc_conv_app_nth)
  have "drop (Suc ?n) (?b[?n := c]) = drop (Suc ?n) ?b" by simp
  also have "\<dots> = tl (drop ?n ?b)" by (simp add: drop_Suc tl_drop)
  finally have "drop (Suc ?n) (?b[?n := c]) = replicate (MAX_CMD - Suc ?n) NUL"
    using assms(1) by (cases "MAX_CMD - ?n") (simp_all add: command_ok_def)
  with tk assms n show "command_ok (t\<lparr>cmd_buf := ?b[?n := c], cmd_len := ?n + 1\<rparr>)"
    by (auto simp: command_ok_def)
  from tk show "cmd_text (t\<lparr>cmd_buf := ?b[?n := c], cmd_len := ?n + 1\<rparr>) = cmd_text t @ [c]"
    by (simp add: cmd_text_def)
qed

lemma command_drop:
  assumes "command_ok t" and "cmd_len t > 0"
  shows "command_ok (t\<lparr>cmd_buf := (cmd_buf t)[cmd_len t - 1 := NUL], cmd_len := cmd_len t - 1\<rparr>)"
    and "cmd_text (t\<lparr>cmd_buf := (cmd_buf t)[cmd_len t - 1 := NUL], cmd_len := cmd_len t - 1\<rparr>) = butlast (cmd_text t)"
proof -
  let ?b = "cmd_buf t"
  obtain m where m: "cmd_len t = Suc m" using assms(2) by (cases "cmd_len t") auto
  have n: "m < length ?b" "Suc m \<le> length ?b" using assms(1) m by (simp_all add: command_ok_def)
  have "drop m (?b[m := NUL]) = NUL # drop (Suc m) ?b"
    using n by (simp add: Cons_nth_drop_Suc [symmetric] drop_update_swap)
  then have "drop m (?b[m := NUL]) = replicate (MAX_CMD - m) NUL"
    using assms(1) m by (simp add: command_ok_def Suc_diff_Suc flip: replicate_Suc)
  then show "command_ok (t\<lparr>cmd_buf := ?b[cmd_len t - 1 := NUL], cmd_len := cmd_len t - 1\<rparr>)"
    using assms(1) m set_take_subset_set_take [of m "Suc m" ?b] by (auto simp: command_ok_def)
  show "cmd_text (t\<lparr>cmd_buf := ?b[cmd_len t - 1 := NUL], cmd_len := cmd_len t - 1\<rparr>) = butlast (cmd_text t)"
    using n m by (simp add: cmd_text_def butlast_take)
qed

lemma length_cmd_text: "command_ok t \<Longrightarrow> length (cmd_text t) = cmd_len t"
  by (simp add: command_ok_def cmd_text_def)

lemma terminal_edit_law:
  assumes "command_ok t"
  shows "\<exists>t'. terminal_edit c t = Some t' \<and> command_ok t' \<and> cmd_text t' = edit_line (MAX_CMD - 1) c (cmd_text t) \<and>
    (term_history t', history_count t', current_dir t') = (term_history t, history_count t, current_dir t)"
proof -
  have len: "length (cmd_buf t) = MAX_CMD" "cmd_len t < MAX_CMD" using assms by (simp_all add: command_ok_def)
  consider (drop) "c = CHR 0x08" "cmd_len t > 0" | (put) "c \<noteq> CHR 0x08" "printable c" "cmd_len t < MAX_CMD - 1"
    | (none) "c = CHR 0x08 \<and> cmd_len t = 0 \<or> c \<noteq> CHR 0x08 \<and> \<not> (printable c \<and> cmd_len t < MAX_CMD - 1)"
    by auto
  then show ?thesis
  proof cases
    case drop
    then show ?thesis using command_drop [OF assms drop(2)] len
      by (auto simp: terminal_edit_def edit_line_def)
  next
    case put
    then have "c \<noteq> NUL" by (auto simp: printable_def)
    then show ?thesis using command_put [OF assms _ put(3)] put len length_cmd_text [OF assms]
      by (auto simp: terminal_edit_def edit_line_def printable_def)
  next
    case none
    then show ?thesis using assms length_cmd_text [OF assms]
      by (auto simp: terminal_edit_def edit_line_def printable_def)
  qed
qed

interpretation command_line: text_field command_ok cmd_text terminal_edit "edit_line (MAX_CMD - 1)"
    "\<lambda>t. (term_history t, history_count t, current_dir t)" "\<lambda>_. True"
  using terminal_edit_law by unfold_locales blast

text \<open>The active window is open, so keys reach the command line.\<close>

definition window_open :: "kernel \<Rightarrow> bool" where
  "window_open k \<longleftrightarrow> (\<exists>i. wm_get_active (k_wm k) = Some i \<and> \<not> win_closed (the_win i k))"

definition line_key :: "char \<Rightarrow> bool" where
  "line_key c \<longleftrightarrow> c \<notin> {CHR 0x0A, CHR 0x0D, CHR 0x09}"

lemma handle_key_lift:
  "window_open k \<Longrightarrow> (\<And>c. c \<in> set cs \<Longrightarrow> line_key c) \<Longrightarrow>
   type_all (terminal_handle_key mc) cs k = map_option (\<lambda>t. k\<lparr>k_term := t\<rparr>) (type_all terminal_edit cs (k_term k))"
proof (induction cs arbitrary: k)
  case Nil
  then show ?case by simp
next
  case (Cons c cs)
  from Cons.prems(1) obtain i where i: "wm_get_active (k_wm k) = Some i" "\<not> win_closed (the_win i k)"
    by (auto simp: window_open_def)
  have "window_open (k\<lparr>k_term := t\<rparr>)" for t
    using Cons.prems(1) by (simp add: window_open_def the_win_def)
  with Cons i show ?case
    by (cases "terminal_edit c (k_term k)") (auto simp: terminal_handle_key_def line_key_def)
qed

text \<open>C8 (terminal_typing): keys other than return and tab, typed into an open terminal, stay inside the
  command buffer and edit its text: a printable character goes to the end while there is room for
  127, backspace drops the last one; the scroll-back, the current directory and the rest of the kernel
  do not change.\<close>

theorem terminal_typing:
  assumes "command_ok (k_term k)" and "window_open k" and "\<forall>c \<in> set cs. line_key c"
  shows "\<exists>t. type_all (terminal_handle_key mc) cs k = Some (k\<lparr>k_term := t\<rparr>) \<and> command_ok t \<and>
    cmd_text t = fold (edit_line 127) cs (cmd_text (k_term k)) \<and>
    term_history t = term_history (k_term k) \<and> history_count t = history_count (k_term k) \<and>
    current_dir t = current_dir (k_term k)"
proof -
  from command_line.type_law [OF assms(1)] obtain t where
    "type_all terminal_edit cs (k_term k) = Some t" "command_ok t"
    "cmd_text t = fold (edit_line (MAX_CMD - 1)) cs (cmd_text (k_term k))"
    "term_history t = term_history (k_term k)" "history_count t = history_count (k_term k)"
    "current_dir t = current_dir (k_term k)" by blast
  then show ?thesis
    using handle_key_lift [OF assms(2)] assms(3) by (intro exI [of _ t]) (simp add: MAX_CMD_def)
qed

text \<open>A kernel with one open window.\<close>

definition demo_kernel :: kernel where
  "demo_kernel = (kernel_boot (\<lambda>_. 0))\<lparr>k_wm := wm_add_window 200 80 750 520 (Title ''Onken Terminal'')
     (Some DrawTerminal) wm_boot\<rparr>"

lemma demo_kernel_simps [simp]:
  "k_term demo_kernel = terminal_boot" "k_fs demo_kernel = vfs_zero" "window_open demo_kernel"
  "k_yano demo_kernel = yano_boot" "k_apps demo_kernel = \<lparr>reg_slots = replicate MAX_APPS None, reg_count = 0\<rparr>"
  "wm_get_active (k_wm demo_kernel) = Some 0" "\<not> win_closed (the_win 0 demo_kernel)"
  by (simp_all add: demo_kernel_def kernel_boot_def window_open_def the_win_def wm_get_active_def
      wm_add_window_def wm_boot_def MAX_WINDOWS_def set_active_flag_def Let_def)

definition demo_machine :: machine where
  "demo_machine = \<lparr>mc_hw = \<lparr>hw_inb = (\<lambda>_ _. 0), hw_inl = (\<lambda>_ _. 0xFFFFFFFF)\<rparr>,
     mc_cpu = (\<lambda>_. (0, 0, 0, 0)), mc_stbi = (\<lambda>_ m. (None, m))\<rparr>"

theorem terminal_typing_witness:
  "\<exists>t. type_all (terminal_handle_key demo_machine) [CHR ''l'', CHR ''x'', CHR 0x08, CHR ''s''] demo_kernel
     = Some (demo_kernel\<lparr>k_term := t\<rparr>) \<and> cmd_text t = ''ls''"
proof -
  let ?cs = "[CHR ''l'', CHR ''x'', CHR 0x08, CHR ''s'']"
  have "fold (edit_line 127) ?cs (cmd_text (k_term demo_kernel)) = ''ls''"
    by (simp add: cmd_text_def terminal_boot_def edit_line_def printable_def)
  with terminal_typing [of demo_kernel ?cs demo_machine] show ?thesis
    by (auto simp add: terminal_boot_ok line_key_def simp del: type_all.simps)
qed

section \<open>The return key\<close>

lemma command_cstr: "command_ok t \<Longrightarrow> cstr (cmd_buf t) = cmd_text t"
proof -
  assume a: "command_ok t"
  have "cstr (cmd_buf t) = cstr (cmd_text t @ replicate (MAX_CMD - cmd_len t) NUL)"
    using a by (metis append_take_drop_id cmd_text_def command_ok_def)
  also have "\<dots> = cmd_text t" using a by (simp add: cstr_append command_ok_def cmd_text_def)
  finally show ?thesis .
qed

lemma prompt_line_eq:
  "command_ok t \<Longrightarrow> prompt_line t =
     (if length (cstr (current_dir t)) + cmd_len t + 13 < 128
      then Some (''root@onken:'' @ cstr (current_dir t) @ ''$ '' @ cmd_text t) else None)"
  using length_cmd_text [of t]
  by (auto simp: prompt_line_def sprint_eq command_cstr cstr_append cstr_no_NUL command_ok_def cmd_text_def)

lemma command_enter: "command_ok t \<Longrightarrow> upd_at (cmd_len t) NUL (cmd_buf t) = Some (cmd_buf t)"
proof -
  assume a: "command_ok t"
  then have l: "cmd_len t < length (cmd_buf t)" by (simp add: command_ok_def)
  have "drop (cmd_len t) (cmd_buf t) ! 0 = NUL" using a by (simp add: command_ok_def)
  then have "cmd_buf t ! cmd_len t = NUL" using nth_drop [of "cmd_len t" "cmd_buf t" 0] l by simp
  then show ?thesis using l list_update_id [of "cmd_buf t" "cmd_len t"] by simp
qed

text \<open>C40 (terminal_enter_overflows): the command line takes 127 characters, but the line that the return
  key echoes is formatted into 128 characters with the prompt in front: at the root directory a
  command of more than 113 characters writes behind the array.\<close>

theorem terminal_enter_overflows:
  assumes "command_ok (k_term k)" and "wm_get_active (k_wm k) = Some i" and "\<not> win_closed (the_win i k)"
    and "cstr (current_dir (k_term k)) = ''/''" and "length (cmd_text (k_term k)) > 113"
  shows "terminal_handle_key mc (CHR 0x0A) k = None"
proof -
  have "cmd_len (k_term k) > 113" using assms(1,5) length_cmd_text by simp
  then have "prompt_line (k_term k) = None" using prompt_line_eq [OF assms(1)] assms(4) by simp
  then show ?thesis
    using assms(2,3)
    by (simp add: terminal_handle_key_def terminal_enter_def command_enter [OF assms(1)] del: upd_at_Some_iff)
qed

definition long_command :: terminal where
  "long_command = terminal_boot\<lparr>cmd_buf := replicate 114 (CHR ''a'') @ replicate 14 NUL, cmd_len := 114\<rparr>"

theorem terminal_enter_overflows_witness:
  "terminal_handle_key demo_machine (CHR 0x0A) (demo_kernel\<lparr>k_term := long_command\<rparr>) = None"
  by (rule terminal_enter_overflows [of _ 0])
    (simp_all add: long_command_def command_ok_def MAX_CMD_def terminal_boot_def cmd_text_def the_win_def
      demo_kernel_simps(7) [unfolded the_win_def])

section \<open>Words of a command\<close>

definition word :: "string \<Rightarrow> bool" where
  "word w \<longleftrightarrow> w \<noteq> [] \<and> CHR 0x20 \<notin> set w \<and> NUL \<notin> set w"

lemma strtok_cstr: "strtok (Some (cstr p)) delim l = strtok (Some p) delim l"
  by (simp add: strtok_def)

lemma word_spaces:
  assumes "word w"
  shows "dropWhile (\<lambda>c. c = CHR 0x20) (w @ r) = w @ r"
    and "takeWhile (\<lambda>c. c \<noteq> CHR 0x20) (w @ CHR 0x20 # r) = w" "takeWhile (\<lambda>c. c \<noteq> CHR 0x20) w = w"
    and "dropWhile (\<lambda>c. c \<noteq> CHR 0x20) (w @ CHR 0x20 # r) = CHR 0x20 # r" "dropWhile (\<lambda>c. c \<noteq> CHR 0x20) w = []"
    and "cstr w = w" "w \<noteq> []" "NUL \<notin> set r \<Longrightarrow> cstr (w @ CHR 0x20 # r) = w @ CHR 0x20 # r"
proof -
  have all: "\<forall>c \<in> set w. c \<noteq> CHR 0x20" using assms by (auto simp: word_def)
  then show "takeWhile (\<lambda>c. c \<noteq> CHR 0x20) (w @ CHR 0x20 # r) = w" "takeWhile (\<lambda>c. c \<noteq> CHR 0x20) w = w"
    "dropWhile (\<lambda>c. c \<noteq> CHR 0x20) (w @ CHR 0x20 # r) = CHR 0x20 # r" "dropWhile (\<lambda>c. c \<noteq> CHR 0x20) w = []"
    by (simp_all add: takeWhile_append2 dropWhile_append2 takeWhile_eq_all_conv dropWhile_eq_Nil_conv)
  show "dropWhile (\<lambda>c. c = CHR 0x20) (w @ r) = w @ r" using assms all by (cases w) (auto simp: word_def)
  show "cstr w = w" "w \<noteq> []" using assms by (simp_all add: word_def cstr_no_NUL)
  show "cstr (w @ CHR 0x20 # r) = w @ CHR 0x20 # r" if "NUL \<notin> set r"
    using that assms by (intro cstr_no_NUL) (auto simp: word_def)
qed

lemma is_delim_blank: "is_delim '' '' = (\<lambda>c. c = CHR 0x20)"
  by (rule ext) (simp add: is_delim_space)

lemma strtok_blank:
  "strtok (Some p) '' '' l =
     (let q = dropWhile (\<lambda>c. c = CHR 0x20) (cstr p); rest = dropWhile (\<lambda>c. c \<noteq> CHR 0x20) q in
      if q = [] then (None, None)
      else (Some (takeWhile (\<lambda>c. c \<noteq> CHR 0x20) q), if rest = [] then None else Some (tl rest)))"
  by (simp only: strtok_def Let_def is_delim_blank option.case option.distinct if_False)

lemma strtok_word:
  assumes w: "word w" and r: "NUL \<notin> set r"
  shows "strtok (Some (w @ CHR 0x20 # r)) '' '' l = (Some w, Some r)"
  unfolding strtok_blank word_spaces(8) [OF w r] Let_def word_spaces(1,2,4) [OF w]
  by (simp only: append_is_Nil_conv list.distinct list.sel if_False simp_thms)

lemma strtok_last_word:
  assumes w: "word w"
  shows "strtok (Some w) '' '' l = (Some w, None)"
  unfolding strtok_blank word_spaces(6) [OF w] Let_def word_spaces(1) [OF w, of "[]", unfolded append_Nil2]
    word_spaces(3,5) [OF w]
  by (simp only: word_spaces(7) [OF w] if_False if_True simp_thms)

text \<open>A command whose first word names no application is a built-in one.\<close>

lemma exec_builtin:
  assumes "cstr cmd = w @ CHR 0x20 # r" and "word w" and "length (cstr cmd) \<le> 127"
    and "app_find w (k_apps k) = None"
  shows "exec_command mc i cmd k = builtin mc i w (k\<lparr>last_strtok := Some r\<rparr>)"
proof -
  have len: "length (replicate MAX_CMD NUL) = Suc (MAX_CMD - 1)" by (simp add: MAX_CMD_def)
  then obtain temp where temp: "strncpy_term (replicate MAX_CMD NUL) cmd (MAX_CMD - 1) = Some temp"
    by (simp add: strncpy_term_eq)
  have "cstr temp = w @ CHR 0x20 # r"
    using cstr_strncpy_term [OF len temp] assms(1,3) by (simp add: MAX_CMD_def)
  moreover have "NUL \<notin> set r" using NUL_notin_cstr [of cmd] assms(1) by simp
  ultimately have "strtok (Some temp) '' '' (last_strtok k) = (Some w, Some r)"
    using strtok_word [OF assms(2), of r "last_strtok k"] strtok_cstr [of temp "'' ''" "last_strtok k"] by simp
  then show ?thesis using temp assms(4) by (simp add: exec_command_def)
qed

lemma next_token_Some:
  "last_strtok k = Some (w @ CHR 0x20 # r) \<Longrightarrow> word w \<Longrightarrow> NUL \<notin> set r \<Longrightarrow>
   next_token '' '' k = (Some w, k\<lparr>last_strtok := Some r\<rparr>)"
  using strtok_word [of w r "last_strtok k"] by (simp add: next_token_def strtok_def)

lemma next_token_last:
  "last_strtok k = Some w \<Longrightarrow> word w \<Longrightarrow> next_token '' '' k = (Some w, k\<lparr>last_strtok := None\<rparr>)"
  using strtok_last_word [of w "last_strtok k"] by (simp add: next_token_def strtok_def)

end
