(* ===== verification/KernelTypes.thy ===== *)
theory KernelTypes
  imports Boot TerminalLaws
begin

text \<open>
  The shape of the kernel's static state: sizes of the arrays, ranges of the indices, terminators,
  the registry and the windows that can exist. Every turn of the shell's loop keeps it.
\<close>

section \<open>The shape\<close>

definition fs_typed :: "vfs \<Rightarrow> bool" where
  "fs_typed fs \<longleftrightarrow> length fs = MAX_FILES \<and> (\<forall>f \<in> set fs. file_ok f)"

definition editor_typed :: "yano \<Rightarrow> bool" where
  "editor_typed y \<longleftrightarrow> yano_ok y \<and> take 7 (window_title y) = ''yano - ''"

text \<open>The windows the nine applications open.\<close>

definition app_windows :: "(title_ref \<times> draw_fn option) set" where
  "app_windows =
     {(Title ''htop'', Some DrawHtop), (YanoTitle, Some DrawYano), (Title ''System Info'', Some DrawSysinfo),
      (Title ''Onken Browser'', Some DrawBrowser), (Title ''File Explorer'', Some DrawFiles),
      (Title ''Settings'', Some DrawSettings), (Title ''Onken Terminal'', Some DrawTerminal),
      (Title ''Sound Player'', Some DrawPlayer), (Title ''Image Viewer'', Some DrawImageviewer)}"

definition wm_typed :: "wm \<Rightarrow> bool" where
  "wm_typed s \<longleftrightarrow> wm_ok s \<and> (\<forall>w \<in> set (wm_get_windows s). (win_title w, win_draw w) \<in> app_windows)"

definition term_typed :: "terminal \<Rightarrow> bool" where
  "term_typed t \<longleftrightarrow> history_ok t \<and> command_ok t"

definition icons_typed :: "shell \<Rightarrow> bool" where
  "icons_typed s \<longleftrightarrow> length (icons s) = 3 \<and> dragging_icon_idx s \<in> {-1..2}"

definition all_apps :: "app_entry list" where
  "all_apps = [htop_app, yano_app, sysinfo_app, browser_app, files_app, settings_app, terminal_app,
     player_app, imageviewer_app]"

definition kernel_typed :: "kernel \<Rightarrow> bool" where
  "kernel_typed k \<longleftrightarrow> term_typed (k_term k) \<and> editor_typed (k_yano k) \<and> fs_typed (k_fs k) \<and>
     wm_typed (k_wm k) \<and> icons_typed (k_shell k) \<and> sound_ok (c_sound k) \<and>
     length (current_image k) = 32 \<and> reg_entries (k_apps k) = all_apps"

text \<open>The shape of a result, if there is one.\<close>

definition typed :: "kernel option \<Rightarrow> bool" where
  "typed r \<longleftrightarrow> (\<forall>k. r = Some k \<longrightarrow> kernel_typed k)"

named_theorems typed_intros \<open>results keep the shape of the kernel's state\<close>

lemma typed_None [simp]: "typed None"
  by (simp add: typed_def)

lemma typed_Some [simp]: "typed (Some k) = kernel_typed k"
  by (simp add: typed_def)

lemma typedD: "typed r \<Longrightarrow> r = Some k \<Longrightarrow> kernel_typed k"
  by (simp add: typed_def)

lemma typed_bind: "typed r \<Longrightarrow> (\<And>k. r = Some k \<Longrightarrow> kernel_typed k \<Longrightarrow> typed (f k)) \<Longrightarrow> typed (Option.bind r f)"
  by (cases r) simp_all

lemma typed_bind_any: "(\<And>x. r = Some x \<Longrightarrow> typed (f x)) \<Longrightarrow> typed (Option.bind r f)"
  by (cases r) simp_all

text \<open>Binds of other results, by the type of the value: a text, a pair.\<close>

lemma typed_bind_list: "(\<And>x. r = Some x \<Longrightarrow> typed (f x)) \<Longrightarrow> typed (Option.bind r f)" for r :: "'a list option"
  by (rule typed_bind_any)

lemma typed_bind_pair: "(\<And>x. r = Some x \<Longrightarrow> typed (f x)) \<Longrightarrow> typed (Option.bind r f)" for r :: "('a \<times> 'b) option"
  by (rule typed_bind_any)

lemma typed_map: "(\<And>x. r = Some x \<Longrightarrow> kernel_typed (f x)) \<Longrightarrow> typed (map_option f r)"
  by (cases r) simp_all

lemma typed_map_kernel: "typed r \<Longrightarrow> (\<And>k. kernel_typed k \<Longrightarrow> kernel_typed (f k)) \<Longrightarrow> typed (map_option f r)"
  by (cases r) simp_all

lemma typed_for_up:
  assumes "typed r" and "\<And>i k. kernel_typed k \<Longrightarrow> typed (f i k)"
  shows "typed (for_up a b (\<lambda>i st. Option.bind st (f i)) r)"
  using assms by (intro for_up_keeps [where P = typed] typed_bind)

lemma typed_fields [simp]:
  "kernel_typed (k\<lparr>c_mm := m\<rparr>) = kernel_typed k" "kernel_typed (k\<lparr>c_sched := sc\<rparr>) = kernel_typed k"
  "kernel_typed (k\<lparr>c_pit := p\<rparr>) = kernel_typed k" "kernel_typed (k\<lparr>c_trace := tr\<rparr>) = kernel_typed k"
  "kernel_typed (k\<lparr>k_idt := it\<rparr>) = kernel_typed k" "kernel_typed (k\<lparr>k_ps2 := ps\<rparr>) = kernel_typed k"
  "kernel_typed (k\<lparr>k_fb := b\<rparr>) = kernel_typed k" "kernel_typed (k\<lparr>last_strtok := ls\<rparr>) = kernel_typed k"
  "kernel_typed (k\<lparr>ui_theme := th\<rparr>) = kernel_typed k" "kernel_typed (k\<lparr>wallpaper_mode := wp\<rparr>) = kernel_typed k"
  "kernel_typed (k\<lparr>current_tab := tb\<rparr>) = kernel_typed k"
  "kernel_typed (k\<lparr>player_selected_btn := pb\<rparr>) = kernel_typed k"
  by (simp_all add: kernel_typed_def)

lemma typed_stores [typed_intros]:
  "kernel_typed k \<Longrightarrow> term_typed t \<Longrightarrow> kernel_typed (k\<lparr>k_term := t\<rparr>)"
  "kernel_typed k \<Longrightarrow> editor_typed y \<Longrightarrow> kernel_typed (k\<lparr>k_yano := y\<rparr>)"
  "kernel_typed k \<Longrightarrow> fs_typed fs \<Longrightarrow> kernel_typed (k\<lparr>k_fs := fs\<rparr>)"
  "kernel_typed k \<Longrightarrow> wm_typed m \<Longrightarrow> kernel_typed (k\<lparr>k_wm := m\<rparr>)"
  "kernel_typed k \<Longrightarrow> icons_typed s \<Longrightarrow> kernel_typed (k\<lparr>k_shell := s\<rparr>)"
  "kernel_typed k \<Longrightarrow> sound_ok sd \<Longrightarrow> kernel_typed (k\<lparr>c_sound := sd\<rparr>)"
  "kernel_typed k \<Longrightarrow> length img = 32 \<Longrightarrow> kernel_typed (k\<lparr>current_image := img\<rparr>)"
  by (simp_all add: kernel_typed_def)

lemma typedE:
  assumes "kernel_typed k"
  shows "term_typed (k_term k)" "editor_typed (k_yano k)" "fs_typed (k_fs k)" "wm_typed (k_wm k)"
    "icons_typed (k_shell k)" "sound_ok (c_sound k)" "length (current_image k) = 32"
    "reg_entries (k_apps k) = all_apps"
  using assms by (simp_all add: kernel_typed_def)

section \<open>The file table\<close>

lemma fs_typed_nth: "fs_typed fs \<Longrightarrow> i < length fs \<Longrightarrow> file_ok (fs ! i)"
  by (simp add: fs_typed_def)

lemma fs_typed_update: "fs_typed fs \<Longrightarrow> file_ok f \<Longrightarrow> fs_typed (fs[i := f])"
  by (auto simp: fs_typed_def dest: set_update_subset_insert [THEN subsetD])

lemma vfs_create_typed:
  assumes "fs_typed fs" and "vfs_create n fs = Some (r, fs')"
  shows "fs_typed fs'"
proof (cases "vfs_open n fs")
  case (Some i)
  then show ?thesis using assms by (simp add: vfs_create_unfold)
next
  case None
  show ?thesis
  proof (cases "find_index (\<lambda>f. \<not> f_used f) fs")
    case f: None
    have "fs' = fs" using assms(2) unfolding vfs_create_unfold None f option.case by simp
    then show ?thesis using assms(1) by simp
  next
    case (Some i)
    then have i: "i < length fs" using find_index_SomeD by blast
    then have len: "length (f_name (fs ! i)) = Suc 31" using fs_typed_nth [OF assms(1)] by (simp add: file_ok_def)
    obtain nm where nm: "strncpy_term (f_name (fs ! i)) n 31 = Some nm"
      using len by (simp add: strncpy_term_eq)
    have "fs' = fs[i := (fs ! i)\<lparr>f_name := nm, f_used := True, f_size := 0\<rparr>]"
      using assms(2) unfolding vfs_create_unfold None Some option.case nm by simp
    moreover have "file_ok ((fs ! i)\<lparr>f_name := nm, f_used := True, f_size := 0\<rparr>)"
      using fs_typed_nth [OF assms(1) i] cstr_strncpy_term [OF len nm] by (simp add: file_ok_def)
    ultimately show ?thesis using fs_typed_update [OF assms(1)] by simp
  qed
qed

lemma vfs_write_typed: "fs_typed fs \<Longrightarrow> vfs_write n d len fs = Some (r, fs') \<Longrightarrow> fs_typed fs'"
  by (auto simp: vfs_write_def memcpy_eq Let_def file_ok_def split: option.splits if_splits
      dest!: vfs_open_SomeD intro!: fs_typed_update dest: fs_typed_nth)

lemma vfs_remove_typed: "fs_typed fs \<Longrightarrow> fs_typed (snd (vfs_remove n fs))"
  by (auto simp: vfs_remove_unfold file_ok_def split: option.splits
      dest!: vfs_open_SomeD intro!: fs_typed_update dest: fs_typed_nth)

section \<open>Windows\<close>

lemma wm_typed_ids:
  "wm_typed s \<longleftrightarrow> wm_ok s \<and> (\<forall>x \<in># wm_ids s. (fst x, fst (snd x)) \<in> app_windows)"
  by (simp add: wm_typed_def wm_ids_def win_id_def)

lemma wm_keeps_typed: "wm_typed s \<Longrightarrow> wm_keeps s t \<Longrightarrow> wm_typed t"
  by (simp add: wm_typed_ids wm_keeps_def)

lemma wm_typed_ok: "wm_typed s \<Longrightarrow> wm_ok s"
  by (simp add: wm_typed_def)

lemma wm_steps_typed [typed_intros]:
  "wm_typed s \<Longrightarrow> wm_typed (wm_handle_mouse x y b s)" "wm_typed s \<Longrightarrow> wm_typed (wm_cycle_depth s)"
  "wm_typed s \<Longrightarrow> wm_typed (upd_window i (\<lambda>w. w\<lparr>win_closed := c\<rparr>) s)"
  "wm_typed s \<Longrightarrow> wm_typed (upd_window i (\<lambda>w. w\<lparr>win_minimized := c\<rparr>) s)"
  by (auto intro!: wm_keeps_typed [OF _ wm_handle_mouse_keeps] wm_keeps_typed [OF _ wm_cycle_keeps]
      wm_keeps_typed [OF _ upd_window_keeps] wm_typed_ok simp: win_id_def)

lemma wm_focus_typed: "wm_typed s \<Longrightarrow> i < window_count s \<Longrightarrow> wm_typed (wm_focus_window i s)"
  by (rule wm_keeps_typed [OF _ wm_focus_keeps]) (simp_all add: wm_typed_ok)

lemma wm_add_typed:
  assumes "wm_typed s" and "(title, draw) \<in> app_windows"
  shows "wm_typed (wm_add_window x y w h title draw s)"
proof (cases "window_count s \<ge> MAX_WINDOWS")
  case True
  then show ?thesis using assms(1) by (simp add: wm_add_window_def)
next
  case False
  let ?w = "\<lparr>win_x = x, win_y = y, win_w = w, win_h = h, win_title = title, win_color = 0xC0C0C0,
    win_active = True, win_closed = False, win_minimized = False, win_draw = draw\<rparr>"
  let ?s = "s\<lparr>wm_windows := (wm_windows s)[window_count s := ?w], window_count := window_count s + 1\<rparr>"
  have n: "window_count s < length (wm_windows s)" using assms(1) False by (simp add: wm_typed_def wm_ok_def)
  have "wm_get_windows ?s = wm_get_windows s @ [?w]"
    using n by (simp add: wm_get_windows_def take_Suc_conv_app_nth)
  then have t: "wm_typed ?s"
    using assms False by (auto simp: wm_typed_def wm_ok_def)
  have "wm_typed (set_active_flag False (active_window s) ?s)"
    by (rule wm_keeps_typed [OF t set_active_flag_keeps [OF wm_typed_ok [OF t]]])
  then have "wm_typed ((set_active_flag False (active_window s) ?s)\<lparr>active_window := Some (window_count s)\<rparr>)"
    by (auto simp: wm_typed_ids wm_ok_def set_active_flag_def upd_window_def split: option.splits)
  moreover have "wm_add_window x y w h title draw s
      = (set_active_flag False (active_window s) ?s)\<lparr>active_window := Some (window_count s)\<rparr>"
    using False by (simp add: wm_add_window_def set_active_flag_def upd_window_def Let_def split: option.splits)
  ultimately show ?thesis by simp
qed

section \<open>The editor\<close>

lemma yano_open_file_typed:
  assumes "yano_ok y" and "fs_typed fs" and "yano_open_file a (y, fs) = Some (y', fs')"
  shows "yano_ok y' \<and> window_title y' = window_title y \<and> fs_typed fs'"
proof -
  have len: "length (current_filename y) = Suc 31" using assms(1) by (simp add: yano_ok_def)
  then obtain fname where fname: "strncpy_term (current_filename y) a 31 = Some fname"
    by (simp add: strncpy_term_eq)
  note fn = cstr_strncpy_term [OF len fname]
  show ?thesis
    using assms fname fn
    by (auto simp: yano_open_file_def yano_ok_def memcpy_eq YANO_BUF_SIZE_def Let_def
        split: option.splits if_splits bind_splits intro: vfs_create_typed)
qed

lemma yano_welcome_short: "NUL \<notin> set yano_welcome" "length yano_welcome < 100"
  by (simp_all add: yano_welcome_def)

lemma yano_open_new_typed:
  assumes "yano_ok y" and "yano_open_new y = Some y'"
  shows "yano_ok y' \<and> window_title y' = window_title y"
  using assms yano_welcome_short
  by (auto simp: yano_open_new_def yano_ok_def strncpy_eq strlen_cstr YANO_BUF_SIZE_def nth_append
      cstr_no_NUL cstr_append replicate_append_same split: option.splits bind_splits)

lemma yano_load_typed:
  assumes "editor_typed y" and "fs_typed fs" and "yano_load args (y, fs) = Some (y', fs')"
  shows "editor_typed y' \<and> fs_typed fs'"
proof -
  define y0 where "y0 = y\<lparr>yano_buf := replicate YANO_BUF_SIZE NUL, yano_len := 0\<rparr>"
  have y0: "yano_ok y0" "length (window_title y0) = 64"
    using assms(1) by (simp_all add: y0_def editor_typed_def yano_ok_def YANO_BUF_SIZE_def)
  have "memset (yano_buf y) 0 YANO_BUF_SIZE = Some (replicate YANO_BUF_SIZE NUL)"
    using assms(1) by (simp add: memset_eq editor_typed_def yano_ok_def char_of_def)
  then obtain y1 title n where
    st: "(case args of
            Some a \<Rightarrow> if strlen a > 0 then yano_open_file a (y0, fs)
                       else map_option (\<lambda>y. (y, fs)) (yano_open_new y0)
          | None \<Rightarrow> map_option (\<lambda>y. (y, fs)) (yano_open_new y0)) = Some (y1, fs')"
      and t: "xsprintf (window_title y1) ''yano - %s'' [AStr (current_filename y1)] = Some (title, n)"
      and y': "y' = y1\<lparr>window_title := title\<rparr>"
    using assms(3) unfolding yano_load_def y0_def by (simp add: bind_eq_Some_conv Let_def) blast
  have y1: "yano_ok y1 \<and> window_title y1 = window_title y0 \<and> fs_typed fs'"
    using st assms(2) by (cases args)
      (auto split: if_splits dest: yano_open_file_typed [OF y0(1) assms(2)] yano_open_new_typed [OF y0(1)])
  have "length title = 64" "take 7 title = ''yano - ''"
    using t y1 y0(2) by (auto simp: xsprintf_def split: if_splits)
  then show ?thesis using y1 y' by (simp add: editor_typed_def yano_ok_def)
qed

lemma yano_type_typed: "editor_typed y \<Longrightarrow> yano_type c y = Some y' \<Longrightarrow> editor_typed y'"
  using yano_type_text [of y c]
  by (auto simp: editor_typed_def yano_type_def yano_put_def split: if_splits bind_splits option.splits)

section \<open>Launches\<close>

lemma open_window_typed [typed_intros]:
  "kernel_typed k \<Longrightarrow> (title, Some draw) \<in> app_windows \<Longrightarrow> typed (open_window x y w h title draw name k)"
  by (auto simp: open_window_def sys_create_task_def split: option.splits
      intro!: typed_map typed_stores wm_add_typed dest: typedE(4))

lemma create_write_typed:
  "kernel_typed k \<Longrightarrow> vfs_create n (k_fs k) = Some (r, fs) \<Longrightarrow> vfs_write m d len fs = Some (r', fs') \<Longrightarrow> fs_typed fs'"
  by (blast dest: vfs_create_typed [OF typedE(3)] vfs_write_typed)

lemma write_typed: "kernel_typed k \<Longrightarrow> vfs_write m d len (k_fs k) = Some (r', fs') \<Longrightarrow> fs_typed fs'"
  by (blast dest: vfs_write_typed [OF typedE(3)])

lemma launch_typed:
  assumes "kernel_typed k"
  shows "typed (htop_launch args k)" "typed (sysinfo_launch args k)" "typed (browser_launch args k)"
    "typed (files_launch args k)" "typed (settings_launch args k)" "typed (player_launch args k)"
  using assms
  by (simp_all add: htop_launch_def sysinfo_launch_def browser_launch_def files_launch_def
      settings_launch_def player_launch_def open_window_typed app_windows_def)

lemma yano_launch_typed: "kernel_typed k \<Longrightarrow> typed (yano_launch args k)"
  unfolding yano_launch_def
proof (rule typed_bind_any)
  fix p assume k: "kernel_typed k" and p: "yano_load args (k_yano k, k_fs k) = Some p"
  obtain y fs where yf: "p = (y, fs)" by (cases p)
  have "editor_typed y \<and> fs_typed fs" using yano_load_typed typedE(2,3) [OF k] p yf by blast
  then show "typed (case p of (y, fs) \<Rightarrow>
      open_window 180 100 600 400 YanoTitle DrawYano ''yano'' (k\<lparr>k_yano := y, k_fs := fs\<rparr>))"
    using k by (simp add: yf open_window_typed typed_stores app_windows_def)
qed

lemma imageviewer_launch_typed: "kernel_typed k \<Longrightarrow> typed (imageviewer_launch args k)"
  unfolding imageviewer_launch_def
proof (rule typed_bind_any)
  fix img assume k: "kernel_typed k"
    and img: "(case args of
              Some a \<Rightarrow> if strlen a > 0 then strncpy_term (current_image k) a 31
                         else strncpy (current_image k) ''logo.png'' 31
            | None \<Rightarrow> strncpy (current_image k) ''logo.png'' 31) = Some img"
  have l: "length (current_image k) = Suc 31" using typedE(7) [OF k] by simp
  have "strncpy_term (current_image k) a 31 = Some img \<Longrightarrow> length img = 32" for a
    using cstr_strncpy_term(2) [OF l] by simp
  moreover have "strncpy (current_image k) a 31 = Some img \<Longrightarrow> length img = 32" for a
    using l by (auto simp: strncpy_eq split: if_splits)
  ultimately have "length img = 32" using img by (auto split: option.splits if_splits)
  then show "typed (open_window 150 100 400 340 (Title ''Image Viewer'') DrawImageviewer ''imageviewer''
      (k\<lparr>current_image := img\<rparr>))"
    using k by (simp add: open_window_typed typed_stores app_windows_def)
qed

section \<open>The terminal's commands\<close>

lemma history_add_typed: "term_typed t \<Longrightarrow> term_history_add msg color t = Some t' \<Longrightarrow> term_typed t'"
proof -
  assume t: "term_typed t" and add: "term_history_add msg color t = Some t'"
  from history_add_law [of t msg color] t obtain u where
    u: "term_history_add msg color t = Some u" "history_ok u"
      "cmd_buf u = cmd_buf t" "cmd_len u = cmd_len t" "current_dir u = current_dir t"
    unfolding term_typed_def by blast
  then have "t' = u" using add by simp
  with t u(2-5) show ?thesis by (simp add: term_typed_def command_ok_def)
qed

lemma print_typed [typed_intros]: "kernel_typed k \<Longrightarrow> typed (print_to_shell msg color k)"
  unfolding print_to_shell_def by (rule typed_map) (simp add: typed_stores(1) history_add_typed [OF typedE(1)])

lemma print_fmt_typed [typed_intros]: "kernel_typed k \<Longrightarrow> typed (print_fmt n fmt args color k)"
  unfolding print_fmt_def by (intro typed_bind_any print_typed)

lemma print_all_typed [typed_intros]: "kernel_typed k \<Longrightarrow> typed (print_all ms k)"
proof (induction ms arbitrary: k)
  case (Cons m ms)
  then show ?case by (cases m) (simp add: typed_bind print_typed)
qed simp

lemma next_token_fields [simp]:
  "kernel_typed (snd (next_token d k)) = kernel_typed k" "k_fs (snd (next_token d k)) = k_fs k"
  "k_term (snd (next_token d k)) = k_term k" "k_apps (snd (next_token d k)) = k_apps k"
  by (simp_all add: next_token_def split_beta)

lemma with_file_typed [typed_intros]:
  assumes "kernel_typed k" and "\<And>f k. kernel_typed k \<Longrightarrow> typed (act f k)"
  shows "typed (with_file usage missing act k)"
  using assms by (simp add: with_file_def split_beta print_typed split: option.split)

lemma show_fastfetch_typed [typed_intros]: "kernel_typed k \<Longrightarrow> typed (show_fastfetch mc k)"
  unfolding show_fastfetch_def Let_def split_beta
  by (intro typed_bind_list typed_bind_pair typed_bind print_all_typed print_fmt_typed) simp_all

lemma cat_loop_typed: "kernel_typed k \<Longrightarrow> typed (cat_loop cs acc k)"
  by (induction cs acc k rule: cat_loop.induct) (auto intro!: typed_bind print_typed)

lemma pci_lines_typed: "kernel_typed k \<Longrightarrow> typed (pci_lines ds k)"
  by (induction ds arbitrary: k) (auto intro!: typed_bind print_fmt_typed)

lemma hexdump_loop_typed: "kernel_typed k \<Longrightarrow> typed (hexdump_loop data i k)"
proof (induction data i k rule: hexdump_loop.induct)
  case (1 data i k)
  then show ?case
    by (subst hexdump_loop.simps) (auto intro!: typed_bind_list typed_bind print_typed simp: print_typed)
qed

lemma help_typed: "kernel_typed k \<Longrightarrow> typed (cmd_help k)"
  unfolding cmd_help_def
  by (intro typed_bind print_all_typed typed_for_up)
    (auto simp: help_app_def intro: print_fmt_typed split: option.split)

text \<open>\<^verbatim>\<open>ls\<close> carries a flag through its loop.\<close>

lemma ls_typed: "kernel_typed k \<Longrightarrow> typed (cmd_ls k)"
proof -
  assume k: "kernel_typed k"
  have row: "typed (map_option fst (ls_row i (k, b)))" if "kernel_typed k" for i k b
    using print_fmt_typed [OF that]
    by (auto simp: ls_row_def Let_def typed_def that split: option.splits bind_splits)
  have "typed (map_option fst (for_up 0 64 (\<lambda>i st. Option.bind st (ls_row i)) (Some (k, False))))"
    if "kernel_typed k" for k
  proof (rule for_up_keeps [where P = "\<lambda>r. typed (map_option fst r)"])
    fix i and t :: "(kernel \<times> bool) option"
    assume "typed (map_option fst t)"
    then show "typed (map_option fst (Option.bind t (ls_row i)))"
      using row by (cases t) auto
  qed (simp add: that)
  then have "kernel_typed k'" if "kernel_typed k"
      "for_up 0 64 (\<lambda>i st. Option.bind st (ls_row i)) (Some (k, False)) = Some (k', b)" for k k' b
    using that by (auto simp: typed_def)
  then show ?thesis
    unfolding cmd_ls_def using k
    by (intro typed_bind typed_bind_pair print_typed) (auto simp: print_typed split: prod.split)
qed

lemma file_commands_typed:
  assumes "kernel_typed k"
  shows "typed (cmd_cat k)" "typed (cmd_touch k)" "typed (cmd_rm k)" "typed (cmd_hexdump k)"
    "typed (cmd_echo k)" "typed (cmd_wc k)" "typed (cmd_stat k)"
proof -
  show "typed (cmd_cat k)" "typed (cmd_hexdump k)" "typed (cmd_wc k)" "typed (cmd_stat k)"
    unfolding cmd_cat_def cmd_hexdump_def cmd_wc_def cmd_stat_def split_beta Let_def
    by (intro with_file_typed assms cat_loop_typed hexdump_loop_typed print_fmt_typed typed_bind; simp)+
  show "typed (cmd_touch k)"
    using assms unfolding cmd_touch_def split_beta Let_def
    by (auto intro!: typed_bind_pair print_fmt_typed print_typed typed_stores(3) split: option.split
        dest: vfs_create_typed [OF typedE(3)])
  show "typed (cmd_rm k)"
    using assms unfolding cmd_rm_def split_beta Let_def
    by (auto intro!: print_fmt_typed print_typed typed_stores(3) vfs_remove_typed typedE(3) split: option.split)
  show "typed (cmd_echo k)"
    using assms unfolding cmd_echo_def split_beta Let_def by (simp add: print_typed split: option.split)
qed

lemma other_commands_typed:
  assumes "kernel_typed k"
  shows "typed (cmd_pci mc k)" "typed (cmd_date mc k)" "typed (cmd_mem k)" "typed (cmd_exit w k)"
    "typed (cmd_write k)" "typed (cmd_cp k)"
proof -
  show "typed (cmd_pci mc k)" "typed (cmd_date mc k)" "typed (cmd_mem k)"
    using assms unfolding cmd_pci_def cmd_date_def cmd_mem_def split_beta Let_def
    by (simp_all add: typed_bind typed_bind_pair print_fmt_typed pci_lines_typed)
  show "typed (cmd_exit w k)"
    using assms unfolding cmd_exit_def sys_destroy_task_def
    by (intro typed_map) (simp add: typed_stores(4) wm_steps_typed(3) typedE(4))
  show "typed (cmd_write k)"
    using assms unfolding cmd_write_def split_beta Let_def
    by (auto intro!: typed_bind_pair print_typed typed_stores(3) split: option.split if_splits
        dest: create_write_typed write_typed)
  show "typed (cmd_cp k)"
    using assms unfolding cmd_cp_def split_beta Let_def
    by (auto intro!: typed_bind_pair print_typed typed_stores(3) split: option.split
        dest: create_write_typed)
qed

lemma cd_typed: "kernel_typed k \<Longrightarrow> typed (cmd_cd k)"
  unfolding cmd_cd_def split_beta Let_def
proof (rule typed_map)
  fix d assume k: "kernel_typed k"
    and "strncpy (current_dir (k_term (snd (next_token '' '' k))))
      (case fst (next_token '' '' k) of Some a \<Rightarrow> a | None \<Rightarrow> ''/'') 63 = Some d"
  then have "length d = 64"
    using typedE(1) [OF k] by (auto simp: term_typed_def command_ok_def strncpy_eq split: if_splits)
  then have "term_typed ((k_term k)\<lparr>current_dir := d\<rparr>)"
    using typedE(1) [OF k] by (simp add: term_typed_def history_ok_def command_ok_def)
  then show "kernel_typed ((snd (next_token '' '' k))\<lparr>k_term := (k_term (snd (next_token '' '' k)))\<lparr>current_dir := d\<rparr>\<rparr>)"
    using k by (intro typed_stores(1)) simp_all
qed

lemma clear_typed: "term_typed t \<Longrightarrow> term_typed (t\<lparr>history_count := 0\<rparr>)"
  by (simp add: term_typed_def history_ok_def command_ok_def)

lemma fresh_line_typed:
  "term_typed t \<Longrightarrow> memset (cmd_buf t) 0 MAX_CMD = Some buf \<Longrightarrow> term_typed (t\<lparr>cmd_len := 0, cmd_buf := buf\<rparr>)"
  by (auto simp: term_typed_def history_ok_def command_ok_def memset_eq char_of_def MAX_CMD_def)

lemma terminal_launch_typed: "kernel_typed k \<Longrightarrow> typed (terminal_launch mc args k)"
  unfolding terminal_launch_def
proof (rule typed_bind_list)
  fix buf assume k: "kernel_typed k" and buf: "memset (cmd_buf (k_term k)) 0 MAX_CMD = Some buf"
  have "term_typed ((k_term k)\<lparr>history_count := 0, cmd_len := 0, cmd_buf := buf\<rparr>)"
    using fresh_line_typed [OF typedE(1) [OF k] buf]
    by (simp add: term_typed_def history_ok_def command_ok_def)
  then show "typed (Option.bind (open_window 200 80 750 520 (Title ''Onken Terminal'') DrawTerminal ''terminal''
      (k\<lparr>k_term := (k_term k)\<lparr>history_count := 0, cmd_len := 0, cmd_buf := buf\<rparr>\<rparr>)) (show_fastfetch mc))"
    using k by (intro typed_bind open_window_typed show_fastfetch_typed typed_stores)
      (simp_all add: app_windows_def)
qed

lemma launch_app_typed: "kernel_typed k \<Longrightarrow> typed (launch_app mc a args k)"
  by (simp add: launch_app_def launch_typed yano_launch_typed imageviewer_launch_typed terminal_launch_typed split: app_id.split)

lemma run_app_typed: "kernel_typed k \<Longrightarrow> typed (run_app mc app k)"
  unfolding run_app_def split_beta Let_def
  by (intro typed_bind launch_app_typed) (auto intro: print_fmt_typed split: option.split)

lemma builtin_typed: "kernel_typed k \<Longrightarrow> typed (builtin mc w a k)"
  by (simp add: builtin_def Let_def help_typed ls_typed file_commands_typed other_commands_typed cd_typed
      show_fastfetch_typed print_all_typed print_fmt_typed typed_stores(1) clear_typed typedE(1)
      del: print_all.simps)

lemma exec_command_typed: "kernel_typed k \<Longrightarrow> typed (exec_command mc w cmd k)"
  unfolding exec_command_def split_beta Let_def
  by (intro typed_bind_list) (simp add: run_app_typed builtin_typed split: option.split)

section \<open>Keys\<close>

lemma enter_typed: "kernel_typed k \<Longrightarrow> typed (terminal_enter mc w k)"
proof -
  assume k: "kernel_typed k"
  have up: "upd_at (cmd_len (k_term k)) NUL (cmd_buf (k_term k)) = Some (cmd_buf (k_term k))"
    using typedE(1) [OF k] by (simp add: command_enter term_typed_def del: upd_at_Some_iff)
  have same: "k\<lparr>k_term := (k_term k)\<lparr>cmd_buf := cmd_buf (k_term k)\<rparr>\<rparr> = k" by simp
  show ?thesis
    unfolding terminal_enter_def up bind.bind_lunit Let_def same
    by (intro typed_bind typed_bind_list print_typed exec_command_typed k)
      (simp_all add: typed_stores(1) fresh_line_typed typedE(1))
qed

lemma edit_typed: "term_typed t \<Longrightarrow> terminal_edit c t = Some t' \<Longrightarrow> term_typed t'"
  using terminal_edit_law [of t c] by (auto simp: term_typed_def history_ok_def)

lemma put_typed:
  "term_typed t \<Longrightarrow> c \<noteq> NUL \<Longrightarrow> cmd_len t < MAX_CMD - 1 \<Longrightarrow>
   term_typed (t\<lparr>cmd_buf := (cmd_buf t)[cmd_len t := c], cmd_len := cmd_len t + 1\<rparr>)"
  using command_put(1) [of t c] by (simp add: term_typed_def history_ok_def)

lemma tab_append_typed:
  "term_typed t \<Longrightarrow> NUL \<notin> set cs \<Longrightarrow> tab_append cs t = Some t' \<Longrightarrow> term_typed t'"
proof (induction cs arbitrary: t)
  case (Cons c cs)
  let ?t = "t\<lparr>cmd_buf := (cmd_buf t)[cmd_len t := c], cmd_len := cmd_len t + 1\<rparr>"
  show ?case
  proof (cases "cmd_len t < MAX_CMD - 2")
    case True
    then have "term_typed ?t" using Cons.prems(1,2) by (intro put_typed) auto
    moreover have "tab_append cs ?t = Some t'"
      using Cons.prems(3) True by (auto simp: upd_at_def split: if_splits bind_splits)
    ultimately show ?thesis using Cons.IH Cons.prems(2) by simp
  next
    case False
    then show ?thesis using Cons.prems by simp
  qed
qed simp

lemma tab_complete_typed:
  assumes "term_typed t" and "NUL \<notin> set cs" and "tab_complete cs t = Some t'"
  shows "term_typed t'"
proof -
  obtain t1 where t1: "term_typed t1" and
    r: "(if cmd_len t1 < MAX_CMD - 1
         then Option.bind (upd_at (cmd_len t1) (CHR 0x20) (cmd_buf t1))
                (\<lambda>buf. Some (t1\<lparr>cmd_buf := buf, cmd_len := cmd_len t1 + 1\<rparr>))
         else Some t1) = Some t'"
    using assms tab_append_typed by (auto simp: tab_complete_def bind_eq_Some_conv)
  show ?thesis
    using t1 r put_typed [OF t1, of "CHR 0x20"] by (auto split: if_splits bind_splits)
qed

lemma list_matches_typed: "kernel_typed k \<Longrightarrow> typed (list_matches ms line k)"
proof (induction ms arbitrary: line k)
  case Nil
  then show ?case by (simp add: print_typed)
next
  case (Cons m ms)
  have "typed (Option.bind (strncat l m 127) (\<lambda>l. Option.bind (strncat l ''  '' 127) (\<lambda>l. list_matches ms l k)))"
    if "kernel_typed k" for l k
    using Cons.IH that by (intro typed_bind_list)
  then show ?case using Cons.prems
    by (auto intro!: typed_bind typed_bind_list print_typed simp: Cons.IH)
qed

lemma tab_typed: "kernel_typed k \<Longrightarrow> typed (terminal_tab k)"
proof (cases "cmd_len (k_term k) > 0")
  case True
  assume k: "kernel_typed k"
  have up: "upd_at (cmd_len (k_term k)) NUL (cmd_buf (k_term k)) = Some (cmd_buf (k_term k))"
    using typedE(1) [OF k] by (simp add: command_enter term_typed_def del: upd_at_Some_iff)
  have same: "k\<lparr>k_term := (k_term k)\<lparr>cmd_buf := cmd_buf (k_term k)\<rparr>\<rparr> = k" by simp
  have fin: "typed (map_option (\<lambda>t. k\<lparr>k_term := t\<rparr>) (tab_complete (drop n (cstr m)) (k_term k)))" for n m
    using in_set_dropD [of NUL n "cstr m"] NUL_notin_cstr [of m]
    by (intro typed_map typed_stores(1) k tab_complete_typed [OF typedE(1) [OF k]]) auto
  have many: "typed (Option.bind (prompt_line (k_term k)) (\<lambda>full_cmd.
      Option.bind (print_to_shell full_cmd 0x888888 k) (list_matches ms (replicate 128 NUL))))" for ms
    by (intro typed_bind_list typed_bind print_typed k list_matches_typed)
  show ?thesis
    unfolding terminal_tab_def up bind.bind_lunit Let_def same
    using fin many k by (simp split: list.split)
next
  case False
  then show "kernel_typed k \<Longrightarrow> typed (terminal_tab k)" by (simp add: terminal_tab_def)
qed

lemma terminal_key_typed: "kernel_typed k \<Longrightarrow> typed (terminal_handle_key mc c k)"
  unfolding terminal_handle_key_def
  by (auto simp: enter_typed tab_typed split: option.split
      intro!: typed_map typed_stores(1) dest: edit_typed [OF typedE(1)])

lemma save_typed:
  assumes "kernel_typed k" and "yano_save y (k_fs k) = Some fs"
  shows "fs_typed fs"
proof -
  obtain r1 fs1 r where
    w: "(if vfs_open (current_filename y) (k_fs k) = None then vfs_create (current_filename y) (k_fs k)
         else Some (0, k_fs k)) = Some (r1, fs1)"
      "vfs_write (current_filename y) (yano_buf y) (yano_len y) fs1 = Some (r, fs)"
    using assms(2) by (auto simp: yano_save_def vfs_save_def bind_eq_Some_conv)
  have "fs_typed fs1"
    using w(1) assms(1) vfs_create_typed [OF typedE(3) [OF assms(1)]] by (auto simp: typedE(3) split: if_splits)
  then show ?thesis using w(2) by (rule vfs_write_typed)
qed

lemma yano_key_typed: "kernel_typed k \<Longrightarrow> typed (yano_handle_key c k)"
proof -
  assume k: "kernel_typed k"
  have "typed (map_option (\<lambda>fs. k\<lparr>k_fs := fs\<rparr>) (yano_save (k_yano k) (k_fs k)))"
    using k by (intro typed_map typed_stores(3) save_typed)
  moreover have "typed (map_option (\<lambda>y. k\<lparr>k_yano := y\<rparr>) (yano_type c (k_yano k)))"
    by (intro typed_map typed_stores(2) k yano_type_typed [OF typedE(2) [OF k]])
  ultimately show ?thesis
    using k by (simp add: yano_handle_key_def typed_stores(4) wm_steps_typed(3) typedE(4) split: option.split)
qed

lemma app_key_typed: "kernel_typed k \<Longrightarrow> typed (app_key mc a c k)"
  by (simp add: app_key_def terminal_key_typed yano_key_typed split: app_id.split)

end
