(* ===== verification/ShellTypes.thy ===== *)
theory ShellTypes
  imports KernelTypes
begin

text \<open>
  Every part of a turn of the shell's loop keeps the shape of the kernel's state, and with it two
  facts about the whole kernel: a key reaches the application whose window is active, and the
  icons stay on the desktop.
\<close>

section \<open>Drawing\<close>

lemma fb_do_typed [simp]: "kernel_typed (fb_do fs k) = kernel_typed k"
  by (simp add: fb_do_def)

lemma on_shell_typed: "kernel_typed k \<Longrightarrow> icons_typed (f (k_shell k)) \<Longrightarrow> kernel_typed (on_shell f k)"
  by (simp add: on_shell_def typed_stores)

lemma redraw_typed [simp]: "kernel_typed k \<Longrightarrow> kernel_typed (redraw k)"
  using typedE(5) by (simp add: redraw_def on_shell_typed icons_typed_def)

lemma scroll_typed: "term_typed t \<Longrightarrow> term_typed (t\<lparr>term_scroll_offset := n\<rparr>)"
  by (simp add: term_typed_def history_ok_def command_ok_def)

lemma term_scroll_typed: "kernel_typed k \<Longrightarrow> kernel_typed (term_scroll i k)"
  unfolding term_scroll_def Let_def
  by (intro typed_stores(1) scroll_typed typedE(1)) (simp_all add: typed_stores(1) scroll_typed typedE(1))

lemma terminal_draw_typed: "kernel_typed k \<Longrightarrow> kernel_typed (terminal_draw i k)"
  unfolding terminal_draw_def Let_def split_beta typed_fields by (rule term_scroll_typed) (simp only: fb_do_typed)

lemma files_draw_typed: "kernel_typed k \<Longrightarrow> typed (files_draw i k)"
  unfolding files_draw_def Let_def split_beta by (intro typed_bind_any) simp

lemma draw_typed:
  assumes "kernel_typed k"
  shows "typed (htop_draw i k)" "typed (yano_draw i k)" "typed (sysinfo_draw i k)"
    "kernel_typed (browser_draw i k)" "kernel_typed (player_draw i k)"
  using assms unfolding htop_draw_def yano_draw_def sysinfo_draw_def browser_draw_def player_draw_def Let_def split_beta
  by (auto intro!: typed_bind_any)

lemma settings_draw_typed: "kernel_typed k \<Longrightarrow> typed (settings_draw cpu i k)"
  unfolding settings_draw_def Let_def by (auto intro!: typed_map)

lemma imageviewer_draw_typed: "kernel_typed k \<Longrightarrow> typed (imageviewer_draw stbi i k)"
  unfolding imageviewer_draw_def Let_def split_beta by (intro typed_bind_any) (auto split: option.split)

lemma draw_content_typed: "kernel_typed k \<Longrightarrow> typed (draw_content mc f i k)"
  by (simp add: draw_content_def draw_typed terminal_draw_typed files_draw_typed settings_draw_typed
      imageviewer_draw_typed split: draw_fn.split)

lemma draw_window_typed: "kernel_typed k \<Longrightarrow> typed (draw_window mc b i k)"
  by (simp add: draw_window_def Let_def draw_content_typed split: option.split)

lemma wm_draw_all_typed: "kernel_typed k \<Longrightarrow> typed (wm_draw_all mc k)"
  unfolding wm_draw_all_def
  by (intro typed_bind typed_for_up) (auto simp: draw_inactive_def draw_window_typed split: option.split)

section \<open>Input\<close>

lemma launch_named_typed: "kernel_typed k \<Longrightarrow> typed (launch_named mc name args k)"
  by (simp add: launch_named_def launch_app_typed split: option.split)

text \<open>Storing in the shell's fields that have no shape keeps the shape.\<close>

lemma shell_fields_typed [simp]:
  "icons_typed (s\<lparr>start_menu_visible := b\<rparr>) = icons_typed s" "icons_typed (s\<lparr>menu_visible := b\<rparr>) = icons_typed s"
  "icons_typed (s\<lparr>menu_x := i\<rparr>) = icons_typed s" "icons_typed (s\<lparr>menu_y := i\<rparr>) = icons_typed s"
  "icons_typed (s\<lparr>task_switcher_visible := b\<rparr>) = icons_typed s" "icons_typed (s\<lparr>drag_icon_off_x := i\<rparr>) = icons_typed s"
  "icons_typed (s\<lparr>drag_icon_off_y := i\<rparr>) = icons_typed s" "icons_typed (s\<lparr>last_super := b\<rparr>) = icons_typed s"
  "icons_typed (s\<lparr>last_alt := b\<rparr>) = icons_typed s" "icons_typed (s\<lparr>full_redraw := b\<rparr>) = icons_typed s"
  "icons_typed (s\<lparr>last_mx := i\<rparr>) = icons_typed s" "icons_typed (s\<lparr>last_my := i\<rparr>) = icons_typed s"
  "icons_typed (s\<lparr>last_mbl := u\<rparr>) = icons_typed s" "icons_typed (s\<lparr>last_mbr := u\<rparr>) = icons_typed s"
  by (simp_all add: icons_typed_def)

lemma keys_typed:
  "kernel_typed k \<Longrightarrow> kernel_typed (step_super k)" "kernel_typed k \<Longrightarrow> kernel_typed (step_alt k)"
  "kernel_typed k \<Longrightarrow> kernel_typed (step_buttons k)" "kernel_typed k \<Longrightarrow> kernel_typed (step_hover k)"
  "kernel_typed k \<Longrightarrow> kernel_typed (step_right k)" "kernel_typed k \<Longrightarrow> kernel_typed (step_remember k)"
  unfolding step_super_def step_alt_def step_buttons_def step_hover_def step_right_def step_remember_def Let_def split_beta
  by (auto intro!: on_shell_typed redraw_typed typed_stores(4) wm_steps_typed typedE(4,5))

lemma icons_step_typed: "kernel_typed k \<Longrightarrow> kernel_typed (step_icons k)"
proof -
  assume k: "kernel_typed k"
  then have s: "length (icons (k_shell k)) = 3" "dragging_icon_idx (k_shell k) \<in> {-1..2}"
    using typedE(5) [OF k] by (simp_all add: icons_typed_def)
  have "kernel_typed (drag_icon k)"
    using k s by (auto simp: drag_icon_def Let_def icons_typed_def intro!: redraw_typed on_shell_typed)
  moreover have "kernel_typed (grab_icon k)"
    using k s by (auto simp: grab_icon_def icon_at_def Let_def icons_typed_def intro!: on_shell_typed
        split: option.split dest!: find_index_SomeD)
  moreover have "kernel_typed (on_shell (\<lambda>s. s\<lparr>dragging_icon_idx := -1\<rparr>) k)"
    using k s by (auto simp: icons_typed_def intro!: on_shell_typed)
  ultimately show ?thesis using k by (simp add: step_icons_def)
qed

lemma windows_step_typed: "kernel_typed k \<Longrightarrow> kernel_typed (step_windows k)"
  by (simp add: step_windows_def typed_stores(4) wm_steps_typed typedE(4))

lemma taskbar_hit_Some: "taskbar_hit x ws i tb = Some j \<Longrightarrow> i \<le> j \<and> j < i + length ws"
  by (induction x ws i tb rule: taskbar_hit.induct) (auto split: if_splits)

lemma taskbar_typed: "kernel_typed k \<Longrightarrow> kernel_typed (click_taskbar k)"
proof (cases "taskbar_hit (mx k) (wm_get_windows (k_wm k)) 0 120")
  case (Some i)
  assume k: "kernel_typed k"
  have i: "i < window_count (k_wm k)" using taskbar_hit_Some [OF Some] by (simp add: wm_get_windows_def)
  have "wm_typed (wm_focus_window i (upd_window i (\<lambda>w. w\<lparr>win_minimized := False\<rparr>) (k_wm k)))"
    "wm_typed (wm_focus_window i (k_wm k))"
    using i wm_steps_typed(4) [OF typedE(4) [OF k]] typedE(4) [OF k]
    by (intro wm_focus_typed; simp add: upd_window_def)+
  then show ?thesis using k by (simp add: click_taskbar_def Some Let_def typed_stores(4))
qed (simp add: click_taskbar_def)

lemma enqueue_typed: "sound_ok s \<Longrightarrow> sound_ok (sound_enqueue f d s)"
  using sound_enqueue_notes by blast

lemma enqueue_all_typed: "sound_ok s \<Longrightarrow> sound_ok (enqueue_all ns s)"
  unfolding enqueue_all_def by (induction ns arbitrary: s) (auto simp: enqueue_typed)

lemma sound_stop_typed: "sound_ok s \<Longrightarrow> sound_ok (fst (sound_stop hw (s, tr)))"
  by (simp add: sound_stop_def sound_ok_def Let_def split_beta)

lemma settings_click_typed: "kernel_typed k \<Longrightarrow> kernel_typed (click_settings w k)"
  by (simp add: click_settings_def Let_def typed_stores(6) enqueue_typed typedE(6))

lemma player_click_typed: "kernel_typed k \<Longrightarrow> kernel_typed (click_player hw w k)"
  by (simp add: click_player_def Let_def split_beta typed_stores(6) enqueue_all_typed sound_stop_typed typedE(6))

lemma files_click_typed: "kernel_typed k \<Longrightarrow> typed (click_files mc w k)"
  by (auto simp: click_files_def Let_def launch_named_typed typed_map_kernel split: option.split)

lemma contents_click_typed: "kernel_typed k \<Longrightarrow> typed (click_contents mc k)"
  by (simp add: click_contents_def Let_def settings_click_typed player_click_typed files_click_typed split: option.split)

lemma start_menu_typed: "kernel_typed k \<Longrightarrow> typed (click_start_menu mc k)"
  unfolding click_start_menu_def
  by (intro typed_bind) (auto simp: launch_named_typed on_shell_typed typedE(5))

lemma context_menu_typed: "kernel_typed k \<Longrightarrow> typed (click_context_menu mc k)"
  unfolding click_context_menu_def Let_def
  by (intro typed_bind) (auto simp: launch_named_typed on_shell_typed typedE(5))

lemma desktop_click_typed: "kernel_typed k \<Longrightarrow> typed (click_desktop mc k)"
  unfolding click_desktop_def
  by (auto intro!: typed_bind simp: start_menu_typed taskbar_typed contents_click_typed on_shell_typed typedE(5))

lemma step_click_typed: "kernel_typed k \<Longrightarrow> typed (step_click mc k)"
  unfolding step_click_def
  by (auto intro!: typed_map_kernel on_shell_typed redraw_typed
      simp: context_menu_typed desktop_click_typed launch_named_typed typedE(5) split: option.split)

lemma step_key_typed: "kernel_typed k \<Longrightarrow> typed (step_key mc k)"
  unfolding step_key_def Let_def split_beta
  by (auto simp: app_key_typed split: option.split)

section \<open>The turn\<close>

lemma fold_fb_typed: "kernel_typed (k\<lparr>k_fb := b\<rparr>) = kernel_typed k"
  by simp

lemma menus_typed:
  "kernel_typed k \<Longrightarrow> kernel_typed (draw_icon ic k)" "kernel_typed k \<Longrightarrow> kernel_typed (draw_context_menu x y k)"
  "kernel_typed k \<Longrightarrow> kernel_typed (draw_start_menu k)" "kernel_typed k \<Longrightarrow> kernel_typed (draw_alt_tab_switcher k)"
  "kernel_typed k \<Longrightarrow> typed (draw_workbench_bar k)" "kernel_typed k \<Longrightarrow> kernel_typed (draw_start_button k)"
  unfolding draw_icon_def draw_context_menu_def draw_start_menu_def draw_alt_tab_switcher_def draw_workbench_bar_def
    draw_start_button_def Let_def split_beta
  by (auto intro!: typed_bind_any)

lemma taskbar_draw_typed: "kernel_typed k \<Longrightarrow> typed (draw_taskbar k)" "kernel_typed k \<Longrightarrow> typed (draw_clock hw k)"
  unfolding draw_taskbar_def draw_clock_def Let_def split_beta
  by (intro typed_bind_any; simp add: menus_typed(6))+

lemma compose_typed: "kernel_typed k \<Longrightarrow> typed (compose_desktop mc k)"
proof -
  assume k: "kernel_typed k"
  have "kernel_typed (fold draw_icon ics k)" if "kernel_typed k" for ics k
    using that by (induction ics arbitrary: k) (auto simp: menus_typed)
  then show ?thesis
    unfolding compose_desktop_def Let_def using k
    by (intro typed_bind wm_draw_all_typed) (simp_all add: menus_typed taskbar_draw_typed)
qed

lemma step_render_typed: "kernel_typed k \<Longrightarrow> typed (step_render mc k)"
  unfolding step_render_def by (auto intro!: typed_bind compose_typed on_shell_typed simp: typedE(5))

lemma shell_step_typed: "kernel_typed k \<Longrightarrow> typed (shell_step mc k)"
  unfolding shell_step_def Let_def
  by (intro typed_bind step_click_typed step_key_typed step_render_typed)
    (simp_all add: keys_typed icons_step_typed windows_step_typed)

section \<open>From the start of the shell through its loop\<close>

lemma irq_typed: "kernel_typed k \<Longrightarrow> kernel_typed (irq_step hw e k)"
proof (cases e)
  case Tick
  assume k: "kernel_typed k"
  obtain sc idle where sc: "scheduler_tick (c_sched k, idle_ticks (c_pit k)) = (sc, idle)" by force
  have "sound_ok (fst (sound_tick hw p (c_sound k, tr)))" for p tr
    by (rule sound_tick_ok [OF typedE(6) [OF k]])
  then show ?thesis using k by (simp add: Tick irq0_handler_def Let_def split_beta typed_stores(6))
qed (simp_all add: Let_def split_beta)

lemma sleep_typed: "kernel_typed k \<Longrightarrow> sleep_until hw target es k = Some (es', k') \<Longrightarrow> kernel_typed k'"
  by (induction hw target es k rule: sleep_until.induct) (auto simp: irq_typed split: if_splits)

lemma turns_typed: "kernel_typed k \<Longrightarrow> typed (shell_turns mc n es k)"
proof (induction n arbitrary: es k)
  case (Suc n)
  have irqs: "kernel_typed (fold (irq_step hw) es k)" if "kernel_typed k" for hw es k
    using that by (induction es arbitrary: k) (auto simp: irq_typed)
  show ?case
    using Suc sleep_typed
    by (auto simp: irqs sleep_def intro!: typed_bind shell_step_typed split: option.split)
qed simp

text \<open>A kernel whose terminal window waits for input, with nothing to redraw.\<close>

definition idle_kernel :: kernel where
  "idle_kernel = (kernel_boot (\<lambda>_. 0))\<lparr>k_fs := one_file,
     k_wm := wm_add_window 200 80 750 520 (Title ''Onken Terminal'') (Some DrawTerminal) wm_boot,
     k_apps := \<lparr>reg_slots = map Some all_apps, reg_count = 9\<rparr>,
     k_shell := shell_boot\<lparr>full_redraw := False, last_mx := mouse_x ps2_boot, last_my := mouse_y ps2_boot\<rparr>\<rparr>"

lemma wm_boot_typed: "wm_typed wm_boot"
  by (simp add: wm_typed_def wm_ok_def wm_boot_def wm_get_windows_def MAX_WINDOWS_def)

lemma idle_typed: "kernel_typed idle_kernel"
proof -
  have "wm_typed (k_wm idle_kernel)"
    by (simp add: idle_kernel_def wm_add_typed wm_boot_typed app_windows_def)
  moreover have "reg_entries (k_apps idle_kernel) = all_apps"
    by (simp add: idle_kernel_def reg_entries_def all_apps_def)
  ultimately show ?thesis
    using one_file_ok terminal_boot_ok yano_boot_ok sound_boot_ok
    by (simp add: kernel_typed_def idle_kernel_def kernel_boot_def term_typed_def editor_typed_def yano_boot_def
        vfs_ok_def fs_typed_def icons_typed_def shell_boot_def boot_icons_def)
qed

section \<open>The key reaches the window\<close>

lemma win_at: "wm_typed s \<Longrightarrow> active_window s = Some a \<Longrightarrow> wm_windows s ! a \<in> set (wm_get_windows s)"
proof -
  assume s: "wm_typed s" "active_window s = Some a"
  then have "a < window_count s" "window_count s \<le> length (wm_windows s)" by (auto simp: wm_typed_def wm_ok_def)
  then show ?thesis by (metis in_set_conv_nth length_take min.absorb2 nth_take wm_get_windows_def)
qed

text \<open>The test of \<^verbatim>\<open>app_find_by_title\<close>, on the registry of the nine applications.\<close>

definition title_matches :: "string \<Rightarrow> app_entry \<Rightarrow> bool" where
  "title_matches t a \<longleftrightarrow> strcmp (app_title a) t = 0 \<or> strncmp (app_title a) t (strlen (app_title a)) = 0"

lemma find_by_title: "app_find_by_title t r = List.find (title_matches t) (reg_entries r)"
  by (simp add: app_find_by_title_def title_matches_def [abs_def])

lemma found_titles:
  "List.find (title_matches ''htop'') all_apps = Some htop_app"
  "List.find (title_matches ''System Info'') all_apps = Some sysinfo_app"
  "List.find (title_matches ''Onken Browser'') all_apps = Some browser_app"
  "List.find (title_matches ''File Explorer'') all_apps = Some files_app"
  "List.find (title_matches ''Settings'') all_apps = Some settings_app"
  "List.find (title_matches ''Onken Terminal'') all_apps = Some terminal_app"
  "List.find (title_matches ''Sound Player'') all_apps = Some player_app"
  "List.find (title_matches ''Image Viewer'') all_apps = Some imageviewer_app"
  by code_simp+

lemma title_finds_app:
  assumes "kernel_typed k" and "(win_title w, win_draw w) \<in> app_windows"
  shows "\<exists>app. app_find_by_title (win_text w k) (k_apps k) = Some app \<and> win_draw w = Some (app_draw app) \<and>
    app_handle_key app =
      (if win_draw w = Some DrawTerminal then Some Terminal else if win_draw w = Some DrawYano then Some Yano else None)"
proof -
  define ttl where "ttl = window_title (k_yano k)"
  have "take 7 ttl = ''yano - ''" using typedE(2) [OF assms(1)] by (simp add: editor_typed_def ttl_def)
  then have y: "ttl = ''yano - '' @ drop 7 ttl" by (metis append_take_drop_id)
  have yano: "app_find_by_title ttl (k_apps k) = Some yano_app"
    by (subst y) (simp add: app_find_by_title_def typedE(8) [OF assms(1)] all_apps_def htop_app_def yano_app_def)
  show ?thesis
    using assms(2) yano
    by (auto simp: app_windows_def win_text_def found_titles ttl_def find_by_title typedE(8) [OF assms(1)]
        htop_app_def yano_app_def sysinfo_app_def browser_app_def files_app_def settings_app_def
        terminal_app_def player_app_def imageviewer_app_def)
qed

text \<open>C5 (keys_reach_window): in a turn of the loop a pressed key goes to the application that draws
  the active window: the terminal's handler for the terminal's window, the editor's handler for an
  editor window whatever file its title names, and to no handler for the other seven applications.\<close>

theorem keys_reach_window:
  assumes "kernel_typed k" and "wm_get_active (k_wm k) = Some a" and "\<not> win_closed (the_win a k)"
    and "last_key (k_ps2 k) \<noteq> NUL"
  defines "k1 \<equiv> redraw (k\<lparr>k_ps2 := (k_ps2 k)\<lparr>last_key := NUL\<rparr>\<rparr>)"
  shows "step_key mc k =
    (case win_draw (the_win a k) of
       Some DrawTerminal \<Rightarrow> terminal_handle_key mc (last_key (k_ps2 k)) k1
     | Some DrawYano \<Rightarrow> yano_handle_key (last_key (k_ps2 k)) k1
     | _ \<Rightarrow> Some k1)"
proof -
  have w: "(win_title (the_win a k), win_draw (the_win a k)) \<in> app_windows"
    using win_at [of "k_wm k" a] assms(1,2) typedE(4) by (auto simp: wm_typed_def the_win_def wm_get_active_def)
  have k1: "wm_get_active (k_wm k1) = Some a" "the_win a k1 = the_win a k" "k_apps k1 = k_apps k"
    "win_text v k1 = win_text v k" for v
    using assms(2) by (simp_all add: k1_def redraw_def on_shell_def the_win_def win_text_def split: title_ref.split)
  from title_finds_app [OF assms(1) w] obtain app where
    "app_find_by_title (win_text (the_win a k) k) (k_apps k) = Some app" "win_draw (the_win a k) = Some (app_draw app)"
    "app_handle_key app = (if win_draw (the_win a k) = Some DrawTerminal then Some Terminal
       else if win_draw (the_win a k) = Some DrawYano then Some Yano else None)" by blast
  then show ?thesis
    using assms(3,4) k1
    by (simp add: step_key_def ps2_get_last_key_def Let_def k1_def [symmetric] app_key_def split: draw_fn.split)
qed

theorem keys_reach_window_witness:
  "step_key demo_machine (idle_kernel\<lparr>k_ps2 := ps2_boot\<lparr>last_key := CHR ''l''\<rparr>\<rparr>) =
     terminal_handle_key demo_machine (CHR ''l'')
       (redraw (idle_kernel\<lparr>k_ps2 := ps2_boot\<lparr>last_key := NUL\<rparr>\<rparr>))"
proof -
  let ?k = "idle_kernel\<lparr>k_ps2 := ps2_boot\<lparr>last_key := CHR ''l''\<rparr>\<rparr>"
  have w: "wm_get_active (k_wm ?k) = Some 0" "\<not> win_closed (the_win 0 ?k)" "win_draw (the_win 0 ?k) = Some DrawTerminal"
    by (simp_all add: idle_kernel_def the_win_def wm_get_active_def wm_add_window_def wm_boot_def MAX_WINDOWS_def
        set_active_flag_def Let_def)
  have "kernel_typed ?k" using idle_typed by simp
  from keys_reach_window [OF this w(1,2), of demo_machine] w(3) show ?thesis by simp
qed

section \<open>Icons\<close>

definition on_desktop :: "u32 \<Rightarrow> u32 \<Rightarrow> icon \<Rightarrow> bool" where
  "on_desktop w h ic \<longleftrightarrow> 10 \<le> icon_x ic \<and> icon_x ic \<le> uint w - 80 \<and> 26 \<le> icon_y ic \<and> icon_y ic \<le> uint h - 120"

lemma sint_room: "uint c \<le> uint w \<Longrightarrow> uint w < 2 ^ 31 \<Longrightarrow> sint (w - c) = uint w - uint c" for w c :: u32
proof -
  assume a: "uint c \<le> uint w" "uint w < 2 ^ 31"
  have "0 \<le> uint c" by (rule unsigned_greater_eq)
  with a have "uint w - uint c < 2 ^ 31" by linarith
  with a show ?thesis by (simp add: sint_eq_if uint_sub_if')
qed

lemma clamp_on_desktop:
  assumes "90 \<le> uint w" "146 \<le> uint h" "uint w < 2 ^ 31" "uint h < 2 ^ 31"
  shows "on_desktop w h (clamp_icon w h ic)"
proof -
  have "sint (w - 80) = uint w - 80" "sint (h - 120) = uint h - 120" "sint w = uint w" "sint h = uint h"
    using assms sint_room [of 80 w] sint_room [of 120 h] sint_room [of 0 w] sint_room [of 0 h] by simp_all
  then show ?thesis using assms by (auto simp: on_desktop_def clamp_icon_def Let_def)
qed

text \<open>The fact \<open>icons_stay\<close>: on a screen of at least 90 by 146 pixels a step of dragging leaves every icon
  on the desktop - at least 10 pixels from the left edge, below the bar at the top, 80 pixels from the
  right edge and 120 from the bottom - and moves at most the icon that is being dragged.\<close>

theorem icons_stay:
  assumes "icons_typed (k_shell k)" and "\<forall>ic \<in> set (icons (k_shell k)). on_desktop w h ic"
    and "w = fb_width (k_fb k)" and "h = fb_height (k_fb k)"
    and "90 \<le> uint w" "146 \<le> uint h" "uint w < 2 ^ 31" "uint h < 2 ^ 31"
  shows "(\<forall>ic \<in> set (icons (k_shell (step_icons k))). on_desktop w h ic) \<and>
    length (icons (k_shell (step_icons k))) = 3 \<and>
    (\<forall>i < 3. int i \<noteq> dragging_icon_idx (k_shell k) \<longrightarrow> icons (k_shell (step_icons k)) ! i = icons (k_shell k) ! i)"
proof -
  have drag: "icons (k_shell (drag_icon k)) = (icons (k_shell k))[nat (dragging_icon_idx (k_shell k)) :=
      clamp_icon w h ((icons (k_shell k) ! nat (dragging_icon_idx (k_shell k)))
        \<lparr>icon_x := mouse_x (k_ps2 k) - drag_icon_off_x (k_shell k), icon_y := mouse_y (k_ps2 k) - drag_icon_off_y (k_shell k)\<rparr>)]"
    using assms(3,4) by (simp add: drag_icon_def Let_def redraw_def on_shell_def)
  have grab: "icons (k_shell (grab_icon k)) = icons (k_shell k)"
    by (simp add: grab_icon_def Let_def on_shell_def split: option.split)
  have len: "length (icons (k_shell k)) = 3" "-1 \<le> dragging_icon_idx (k_shell k)"
    using assms(1) by (auto simp: icons_typed_def)
  show ?thesis
  proof (cases "mouse_b_left (k_ps2 k) \<noteq> 0 \<and> dragging_icon_idx (k_shell k) \<noteq> -1")
    case True
    then have s: "step_icons k = drag_icon k" by (simp add: step_icons_def)
    have "0 \<le> dragging_icon_idx (k_shell k)" using True len(2) by simp
    then show ?thesis
      using assms(2) len(1) clamp_on_desktop [OF assms(5-8)]
      unfolding s drag by (auto simp: nth_list_update dest!: set_update_subset_insert [THEN subsetD])
  next
    case False
    then have "icons (k_shell (step_icons k)) = icons (k_shell k)"
      by (auto simp: step_icons_def grab on_shell_def)
    then show ?thesis using assms(2) len(1) by simp
  qed
qed

text \<open>The pointer in the upper left corner drags the first icon against the edges.\<close>

theorem icons_stay_witness:
  "icons (k_shell (step_icons (idle_kernel\<lparr>k_fb := fb_boot\<lparr>fb_width := 1280, fb_height := 720\<rparr>,
      k_ps2 := ps2_boot\<lparr>mouse_x := 0, mouse_y := 0, mouse_b_left := 1\<rparr>,
      k_shell := shell_boot\<lparr>dragging_icon_idx := 0\<rparr>\<rparr>))) ! 0 = (boot_icons ! 0)\<lparr>icon_x := 10, icon_y := 26\<rparr> \<and>
   list_all (on_desktop 1280 720) (icons (k_shell (step_icons (idle_kernel\<lparr>k_fb := fb_boot\<lparr>fb_width := 1280, fb_height := 720\<rparr>,
      k_ps2 := ps2_boot\<lparr>mouse_x := 0, mouse_y := 0, mouse_b_left := 1\<rparr>,
      k_shell := shell_boot\<lparr>dragging_icon_idx := 0\<rparr>\<rparr>))))"
proof -
  let ?k = "idle_kernel\<lparr>k_fb := fb_boot\<lparr>fb_width := 1280, fb_height := 720\<rparr>,
      k_ps2 := ps2_boot\<lparr>mouse_x := 0, mouse_y := 0, mouse_b_left := 1\<rparr>,
      k_shell := shell_boot\<lparr>dragging_icon_idx := 0\<rparr>\<rparr>"
  have "icons (k_shell (step_icons ?k)) ! 0 = (boot_icons ! 0)\<lparr>icon_x := 10, icon_y := 26\<rparr>"
    by (simp add: step_icons_def drag_icon_def redraw_def on_shell_def shell_boot_def boot_icons_def clamp_icon_def Let_def)
  moreover have "icons_typed (k_shell ?k)" "\<forall>ic \<in> set (icons (k_shell ?k)). on_desktop 1280 720 ic"
    by (simp_all add: icons_typed_def shell_boot_def boot_icons_def on_desktop_def)
  with icons_stay [of ?k 1280 720] have "list_all (on_desktop 1280 720) (icons (k_shell (step_icons ?k)))"
    by (simp add: list_all_iff)
  ultimately show ?thesis by blast
qed

end
