(* ===== verification/TerminalTab.thy ===== *)
theory TerminalTab
  imports TerminalLaws
begin

text \<open>
  Completion in the terminal: the word under the cursor, and what the tab key makes of a single match.
\<close>

section \<open>The word under the cursor\<close>

lemma word_back_word:
  "CHR 0x20 \<notin> set w \<Longrightarrow> pre = [] \<or> last pre = CHR 0x20 \<Longrightarrow> word_back (pre @ w @ r) (length pre + length w) = length pre"
proof (induction w arbitrary: r rule: rev_induct)
  case Nil
  then show ?case by (cases pre rule: rev_cases) (simp_all add: nth_append)
next
  case (snoc c w)
  then show ?case using snoc.IH [of "c # r"] by (auto simp: nth_append)
qed

lemma strncmp_append: "strncmp s (t @ r) (length t) = strncmp s t (length t)"
proof (induction t arbitrary: s)
  case (Cons c t)
  then show ?case by (cases s) auto
qed simp

lemma match_prefix:
  assumes "NUL \<notin> set w" and "strncmp m (w @ r) (length w) = 0"
  shows "cstr m = w @ drop (length w) (cstr m)"
proof -
  have p: "take (length w) m = w" using assms by (simp add: strncmp_append strncmp_prefix_iff)
  then have "m = w @ drop (length w) m" by (metis append_take_drop_id)
  then have "cstr m = w @ cstr (drop (length w) m)" by (metis assms(1) cstr_append)
  then show ?thesis by simp
qed

section \<open>Typing the rest of a match\<close>

text \<open>The command line with another buffer and length.\<close>

abbreviation with_line :: "char list \<Rightarrow> nat \<Rightarrow> terminal \<Rightarrow> terminal" where
  "with_line buf n t \<equiv> t\<lparr>cmd_buf := buf, cmd_len := n\<rparr>"

lemma tab_append_law:
  assumes "command_ok t" and "NUL \<notin> set cs"
  shows "\<exists>buf n. tab_append cs t = Some (with_line buf n t) \<and> command_ok (with_line buf n t) \<and>
    cmd_text (with_line buf n t) = (if cmd_len t \<le> MAX_CMD - 2 then take (MAX_CMD - 2) (cmd_text t @ cs) else cmd_text t)"
  using assms
proof (induction cs arbitrary: t)
  case Nil
  then show ?case
    using length_cmd_text [OF Nil.prems(1)] by (intro exI [of _ "cmd_buf t"] exI [of _ "cmd_len t"]) simp
next
  case (Cons c cs)
  show ?case
  proof (cases "cmd_len t < MAX_CMD - 2")
    case True
    let ?t = "with_line ((cmd_buf t)[cmd_len t := c]) (cmd_len t + 1) t"
    have room: "cmd_len t < MAX_CMD - 1" "cmd_len t < length (cmd_buf t)"
      using Cons.prems(1) True by (auto simp: command_ok_def)
    have c: "c \<noteq> NUL" "NUL \<notin> set cs" using Cons.prems(2) by auto
    note put = command_put [OF Cons.prems(1) c(1) room(1)]
    from Cons.IH [OF put(1) c(2)] obtain buf n where
      "tab_append cs ?t = Some (with_line buf n ?t)" "command_ok (with_line buf n ?t)"
      "cmd_text (with_line buf n ?t) = (if cmd_len ?t \<le> MAX_CMD - 2 then take (MAX_CMD - 2) (cmd_text ?t @ cs) else cmd_text ?t)"
      by blast
    then show ?thesis
      using True room put(2) by (intro exI [of _ buf] exI [of _ n]) (simp add: upd_at_def del: take_append)
  next
    case False
    then show ?thesis
      using Cons.prems(1) length_cmd_text [OF Cons.prems(1)]
      by (intro exI [of _ "cmd_buf t"] exI [of _ "cmd_len t"]) simp
  qed
qed

lemma tab_complete_law:
  assumes "command_ok t" and "NUL \<notin> set cs"
  shows "\<exists>buf n. tab_complete cs t = Some (with_line buf n t) \<and> command_ok (with_line buf n t) \<and>
    cmd_text (with_line buf n t) = (if cmd_len t \<le> MAX_CMD - 2 then take (MAX_CMD - 2) (cmd_text t @ cs) @ '' '' else cmd_text t)"
proof -
  from tab_append_law [OF assms] obtain buf n where
    t1: "tab_append cs t = Some (with_line buf n t)" "command_ok (with_line buf n t)"
      "cmd_text (with_line buf n t) = (if cmd_len t \<le> MAX_CMD - 2 then take (MAX_CMD - 2) (cmd_text t @ cs) else cmd_text t)"
    by blast
  have len: "n = length (cmd_text (with_line buf n t))" using length_cmd_text [OF t1(2)] by simp
  have all: "length (cmd_text t) = cmd_len t" "cmd_len t < MAX_CMD" using length_cmd_text [OF assms(1)] assms(1) by (simp_all add: command_ok_def)
  show ?thesis
  proof (cases "cmd_len t \<le> MAX_CMD - 2")
    case True
    then have "n = length (take (MAX_CMD - 2) (cmd_text t @ cs))" using len t1(3) by simp
    then have "n \<le> MAX_CMD - 2" by (simp only: length_take min.cobounded2)
    then have room: "n < MAX_CMD - 1" "n < length buf" using t1(2) by (simp_all add: command_ok_def MAX_CMD_def)
    have sp: "CHR 0x20 \<noteq> NUL" by simp
    from command_put [OF t1(2) sp] room t1(1,3) True show ?thesis
      by (intro exI [of _ "buf[n := CHR 0x20]"] exI [of _ "n + 1"]) (simp add: tab_complete_def upd_at_def)
  next
    case False
    then have "n = MAX_CMD - 1" using len t1(3) all by simp
    then show ?thesis using t1 False by (intro exI [of _ buf] exI [of _ n]) (simp add: tab_complete_def)
  qed
qed

text \<open>C20 (tab_completes): when the tab key is pressed behind a word that is the beginning of exactly one
  candidate - a command or an application for the first word, a file for a later one - the rest of
  the candidate is typed behind the word, up to 126 characters in the line, and a space behind it; a line of
  127 characters stays as it is. Only the buffer of the line and its length change in the whole kernel.\<close>

theorem tab_completes:
  assumes "command_ok (k_term k)" and "cmd_text (k_term k) = pre @ w" and "pre @ w \<noteq> []"
    and "pre = [] \<or> last pre = CHR 0x20" and "CHR 0x20 \<notin> set w"
    and "filter (\<lambda>n. strncmp n w (length w) = 0)
           (if pre = [] then builtins @ app_names (k_apps k) else file_names (k_fs k)) = [m]"
  shows "\<exists>buf n. terminal_tab k = Some (k\<lparr>k_term := (k_term k)\<lparr>cmd_buf := buf, cmd_len := n\<rparr>\<rparr>) \<and>
    command_ok ((k_term k)\<lparr>cmd_buf := buf, cmd_len := n\<rparr>) \<and>
    cmd_text ((k_term k)\<lparr>cmd_buf := buf, cmd_len := n\<rparr>) =
      (if length (pre @ w) \<le> 126 then take 126 (pre @ cstr m) @ '' '' else pre @ w)"
proof -
  let ?t = "k_term k" and ?n = "length pre + length w"
  have "length (cmd_text ?t) = ?n" "0 < ?n" using assms(2,3) by auto
  then have n: "cmd_len ?t = ?n" "0 < ?n" using length_cmd_text [OF assms(1)] by simp_all
  have wN: "NUL \<notin> set w" using assms(1,2) by (auto simp: command_ok_def cmd_text_def)
  have buf: "cmd_buf ?t = pre @ w @ replicate (MAX_CMD - ?n) NUL"
    using assms(1,2) n(1) append_take_drop_id [of ?n "cmd_buf ?t"] by (simp add: command_ok_def cmd_text_def)
  let ?word = "w @ replicate (MAX_CMD - ?n) NUL"
  have "0 < MAX_CMD - ?n" using assms(1) n(1) by (simp add: command_ok_def)
  then have len: "strlen ?word = length w"
    using wN by (simp add: strlen_cstr cstr_append)
  have found: "tab_matches ?word (if pre = [] then builtins @ app_names (k_apps k) else file_names (k_fs k)) = [m]"
    using assms(6) by (simp add: tab_matches_def len strncmp_append)
  have "m \<in> set (filter (\<lambda>n. strncmp n w (length w) = 0)
           (if pre = [] then builtins @ app_names (k_apps k) else file_names (k_fs k)))"
    unfolding assms(6) by simp
  then have m: "cstr m = w @ drop (length w) (cstr m)"
    using match_prefix [OF wN, of m "[]"] by auto
  let ?rest = "drop (length w) (cstr m)"
  have "NUL \<notin> set ?rest" using NUL_notin_cstr [of m] in_set_dropD [of NUL "length w" "cstr m"] by auto
  from tab_complete_law [OF assms(1) this] obtain b l where
    t': "tab_complete ?rest ?t = Some (with_line b l ?t)" "command_ok (with_line b l ?t)"
      "cmd_text (with_line b l ?t) = (if cmd_len ?t \<le> MAX_CMD - 2 then take (MAX_CMD - 2) (cmd_text ?t @ ?rest) @ '' '' else cmd_text ?t)"
    by blast
  have "cmd_text ?t @ ?rest = pre @ cstr m" using assms(2) m by simp
  then have line: "cmd_text (with_line b l ?t) = (if length (pre @ w) \<le> 126 then take 126 (pre @ cstr m) @ '' '' else pre @ w)"
    using t'(3) n(1) assms(2) by (simp add: MAX_CMD_def)
  have wb: "word_back (cmd_buf ?t) ?n = length pre" "drop (length pre) (cmd_buf ?t) = ?word"
    using word_back_word [OF assms(5,4), of "replicate (MAX_CMD - ?n) NUL"] by (simp_all add: buf)
  have same: "k\<lparr>k_term := ?t\<lparr>cmd_buf := cmd_buf ?t\<rparr>\<rparr> = k" by simp
  have "terminal_tab k = Some (k\<lparr>k_term := with_line b l ?t\<rparr>)"
    unfolding terminal_tab_def command_enter [OF assms(1), unfolded n(1)] bind.bind_lunit Let_def same n(1) wb
    using n(2) found len t'(1) by simp
  with t'(2) line show ?thesis by blast
qed

text \<open>\<^verbatim>\<open>hexd\<close> at the start of a line names one command.\<close>

definition tab_kernel :: kernel where
  "tab_kernel = demo_kernel\<lparr>k_term := terminal_boot\<lparr>cmd_buf := ''hexd'' @ replicate 124 NUL, cmd_len := 4\<rparr>\<rparr>"

text \<open>A line of 123 characters that ends in the beginning of a file's name: three of the four missing fit.\<close>

definition long_line :: kernel where
  "long_line = demo_kernel\<lparr>k_fs := one_file, k_term := terminal_boot\<lparr>
     cmd_buf := replicate 119 (CHR ''a'') @ '' new'' @ replicate 5 NUL, cmd_len := 123\<rparr>\<rparr>"

lemma one_file_names: "file_names one_file = [''new.txt'' @ replicate 25 NUL]"
proof -
  let ?f = "\<lambda>i. case vfs_get_by_index (int i) one_file of None \<Rightarrow> [] | Some j \<Rightarrow> [f_name (one_file ! j)]"
  have "?f i = []" if "i \<in> set [1..<64]" for i
    using that by (simp add: vfs_get_by_index_def one_file_def vfs_zero_def MAX_FILES_def)
  then have "concat (map ?f [1..<64]) = []" by simp
  moreover have "[0..<64] = 0 # [1..<64]" by (simp add: upt_conv_Cons)
  moreover have "?f 0 = [''new.txt'' @ replicate 25 NUL]"
    by (simp add: vfs_get_by_index_def one_file_def vfs_zero_def MAX_FILES_def)
  ultimately show ?thesis by (simp add: file_names_def)
qed

theorem tab_completes_witness:
  "(\<exists>buf n. terminal_tab tab_kernel = Some (tab_kernel\<lparr>k_term := (k_term tab_kernel)\<lparr>cmd_buf := buf, cmd_len := n\<rparr>\<rparr>) \<and>
     cmd_text ((k_term tab_kernel)\<lparr>cmd_buf := buf, cmd_len := n\<rparr>) = ''hexdump '') \<and>
   (\<exists>buf n. terminal_tab long_line = Some (long_line\<lparr>k_term := (k_term long_line)\<lparr>cmd_buf := buf, cmd_len := n\<rparr>\<rparr>) \<and>
     cmd_text ((k_term long_line)\<lparr>cmd_buf := buf, cmd_len := n\<rparr>) = replicate 119 (CHR ''a'') @ '' new.tx '')"
proof
  let ?t = "k_term tab_kernel"
  have t: "command_ok ?t" "cmd_text ?t = [] @ ''hexd''"
    by (simp_all add: tab_kernel_def terminal_boot_def command_ok_def cmd_text_def MAX_CMD_def)
  have one: "filter (\<lambda>n. strncmp n ''hexd'' (length ''hexd'') = 0)
    (if [] = ([] :: string) then builtins @ app_names (k_apps tab_kernel) else file_names (k_fs tab_kernel)) = [''hexdump'']"
    by (simp add: tab_kernel_def builtins_def app_names_def reg_entries_def)
  from tab_completes [OF t _ _ _ one] show "\<exists>buf n. terminal_tab tab_kernel =
      Some (tab_kernel\<lparr>k_term := (k_term tab_kernel)\<lparr>cmd_buf := buf, cmd_len := n\<rparr>\<rparr>) \<and>
    cmd_text ((k_term tab_kernel)\<lparr>cmd_buf := buf, cmd_len := n\<rparr>) = ''hexdump ''" by auto
next
  let ?t = "k_term long_line" and ?pre = "replicate 119 (CHR ''a'') @ '' ''"
  have t: "command_ok ?t" "cmd_text ?t = ?pre @ ''new''"
    by (simp_all add: long_line_def terminal_boot_def command_ok_def cmd_text_def MAX_CMD_def)
  have one: "filter (\<lambda>n. strncmp n ''new'' (length ''new'') = 0)
    (if ?pre = [] then builtins @ app_names (k_apps long_line) else file_names (k_fs long_line)) = [''new.txt'' @ replicate 25 NUL]"
    by (simp add: long_line_def one_file_names)
  have cut: "take 126 (?pre @ cstr (''new.txt'' @ replicate 25 NUL)) @ '' '' = replicate 119 (CHR ''a'') @ '' new.tx ''"
    by simp
  have "?pre = [] \<or> last ?pre = CHR 0x20" "CHR 0x20 \<notin> set ''new''" "?pre @ ''new'' \<noteq> []" by simp_all
  from tab_completes [OF t this(3,1,2) one] cut show "\<exists>buf n. terminal_tab long_line =
      Some (long_line\<lparr>k_term := (k_term long_line)\<lparr>cmd_buf := buf, cmd_len := n\<rparr>\<rparr>) \<and>
    cmd_text ((k_term long_line)\<lparr>cmd_buf := buf, cmd_len := n\<rparr>) = replicate 119 (CHR ''a'') @ '' new.tx ''" by auto
qed

end
