(* ===== verification/ShellRuns.thy ===== *)
theory ShellRuns
  imports ShellTypes TerminalTab
begin

text \<open>
  Turns of the shell's loop that reach their end: with no new click, with a key other than return and
  with windows that format no unbounded number, no store of the turn leaves its array.
\<close>

section \<open>Screens whose picture fits its buffers\<close>

definition plain_draws :: "draw_fn option set" where
  "plain_draws = {Some DrawTerminal, Some DrawYano, Some DrawFiles, Some DrawBrowser, Some DrawPlayer}"

text \<open>The two numbers of the bar that the classic theme draws: \<^verbatim>\<open>xsprintf\<close> cannot print the least integer.\<close>

definition bar_numbers :: "kernel \<Rightarrow> bool" where
  "bar_numbers k \<longleftrightarrow>
     (let mem = sys_get_mem_info k in
      sint (ucast ((total_memory mem - used_memory mem) div 1024 div 1024) :: u32) \<noteq> - (2 ^ 31) \<and>
      sint (ucast (sys_uptime k div 1000) :: u32) \<noteq> - (2 ^ 31))"

definition plain_screen :: "kernel \<Rightarrow> bool" where
  "plain_screen k \<longleftrightarrow> (ui_theme k = 1 \<longrightarrow> bar_numbers k) \<and>
     (\<forall>w \<in> set (wm_get_windows (k_wm k)). win_draw w \<in> plain_draws)"


lemma numbers_fields [simp]:
  "bar_numbers (k\<lparr>k_fb := b\<rparr>) = bar_numbers k" "bar_numbers (k\<lparr>k_term := t\<rparr>) = bar_numbers k"
  "bar_numbers (k\<lparr>k_yano := y\<rparr>) = bar_numbers k" "bar_numbers (k\<lparr>k_fs := fs\<rparr>) = bar_numbers k"
  "bar_numbers (k\<lparr>k_ps2 := p\<rparr>) = bar_numbers k" "bar_numbers (k\<lparr>c_trace := tr\<rparr>) = bar_numbers k"
  "bar_numbers (k\<lparr>k_shell := sh\<rparr>) = bar_numbers k" "bar_numbers (k\<lparr>k_wm := m\<rparr>) = bar_numbers k"
  by (simp_all add: bar_numbers_def sys_get_mem_info_def sys_uptime_def
        mm_get_info_def KernelState.mm_boot_def uptime_ms_def pit_boot_def)

lemma plain_fields [simp]:
  "plain_screen (k\<lparr>k_fb := b\<rparr>) = plain_screen k" "plain_screen (k\<lparr>k_term := t\<rparr>) = plain_screen k"
  "plain_screen (k\<lparr>k_yano := y\<rparr>) = plain_screen k" "plain_screen (k\<lparr>k_fs := fs\<rparr>) = plain_screen k"
  "plain_screen (k\<lparr>k_ps2 := p\<rparr>) = plain_screen k" "plain_screen (k\<lparr>c_trace := tr\<rparr>) = plain_screen k"
  "plain_screen (fb_do ops k) = plain_screen k" "plain_screen (on_shell f k) = plain_screen k"
  "plain_screen (redraw k) = plain_screen k"
  by (simp_all add: plain_screen_def fb_do_def on_shell_def redraw_def)


text \<open>A result with the shape of the kernel's state and a plain screen.\<close>

definition ends_well :: "kernel option \<Rightarrow> bool" where
  "ends_well r \<longleftrightarrow> (\<exists>k. r = Some k \<and> kernel_typed k \<and> plain_screen k)"

lemma ends_well_Some [simp]: "ends_well (Some k) \<longleftrightarrow> kernel_typed k \<and> plain_screen k"
  by (simp add: ends_well_def)

lemma ends_well_bind: "ends_well r \<Longrightarrow> (\<And>k. kernel_typed k \<Longrightarrow> plain_screen k \<Longrightarrow> ends_well (f k)) \<Longrightarrow> ends_well (Option.bind r f)"
  by (auto simp: ends_well_def)

lemma ends_well_for_up:
  assumes "ends_well r" and "\<And>i k. a \<le> i \<Longrightarrow> i < b \<Longrightarrow> kernel_typed k \<Longrightarrow> plain_screen k \<Longrightarrow> ends_well (f i k)"
  shows "ends_well (for_up a b (\<lambda>i st. Option.bind st (f i)) r)"
  by (rule for_up_keeps [where P = ends_well]) (use assms in \<open>auto intro: ends_well_bind\<close>)

section \<open>Keys\<close>













section \<open>The picture\<close>






lemma scroll_plain [simp]: "plain_screen (term_scroll i k) = plain_screen k"
  by (simp add: term_scroll_def Let_def)





text \<open>Drawing changes no window.\<close>

lemma fb_do_wm [simp]: "k_wm (fb_do ops k) = k_wm k"
  by (simp add: fb_do_def)

lemma scroll_wm [simp]: "k_wm (term_scroll i k) = k_wm k"
  by (simp add: term_scroll_def Let_def)













section \<open>The turn\<close>


















end
