(* ===== verification/TerminalFiles.thy ===== *)
theory TerminalFiles
  imports TerminalLaws
begin

text \<open>
  What the terminal's file commands do: \<^verbatim>\<open>cp\<close> copies, \<^verbatim>\<open>wc\<close> counts, \<^verbatim>\<open>hexdump\<close> never leaves its line
  array.
\<close>

section \<open>Copying a file\<close>

definition table_full :: "vfs \<Rightarrow> bool" where
  "table_full fs \<longleftrightarrow> (\<forall>f \<in> set fs. f_used f)"

text \<open>The creation does not touch the source's slot, so the write sees the source's text.\<close>

lemma copy_law:
  assumes ok: "vfs_ok fs" and short: "short_name d" and src: "vfs_open s fs = Some f1"
  shows "\<exists>r1 fs1 r2 fs2. vfs_create d fs = Some (r1, fs1) \<and>
    vfs_write d (f_data (fs1 ! f1)) (f_size (fs1 ! f1)) fs1 = Some (r2, fs2) \<and> vfs_ok fs2 \<and>
    (if vfs_lookup fs d = None \<and> table_full fs then fs2 = fs
     else vfs_lookup fs2 = (\<lambda>m. if cstr m = cstr d then vfs_lookup fs s else vfs_lookup fs m))"
proof -
  note f1 = vfs_open_SomeD [OF src]
  then have c: "file_contents (fs ! f1) = take (min (f_size (fs ! f1)) MAX_FILE_SIZE) (f_data (fs ! f1))"
    and l: "f_size (fs ! f1) \<le> length (f_data (fs ! f1))"
    using vfs_ok_file [OF ok, of f1] by (simp_all add: file_contents_def file_ok_def)
  have s: "vfs_lookup fs s = Some (file_contents (fs ! f1))" using src by (simp add: vfs_lookup_def)
  obtain r1 fs1 where r1: "vfs_create d fs = Some (r1, fs1)" "vfs_ok fs1"
    "if r1 = 0 then vfs_lookup fs1 = (\<lambda>m. if cstr m = cstr d
        then Some (case vfs_lookup fs d of None \<Rightarrow> [] | Some c \<Rightarrow> c) else vfs_lookup fs m)
     else r1 = -1 \<and> fs1 = fs \<and> vfs_lookup fs d = None"
    using vfs_create_law [OF ok short] by blast
  have same: "fs1 ! f1 = fs ! f1" and full: "r1 = 0 \<longleftrightarrow> \<not> (vfs_lookup fs d = None \<and> table_full fs)"
    using r1(1) f1 by (atomize(full), cases rule: vfs_create_cases [OF ok, of d])
      (auto simp: vfs_lookup_def table_full_def all_set_conv_all_nth nth_list_update)
  obtain r2 fs2 where r2: "vfs_write d (f_data (fs ! f1)) (f_size (fs ! f1)) fs1 = Some (r2, fs2)" "vfs_ok fs2"
    "if vfs_lookup fs1 d = None then r2 = -1 \<and> fs2 = fs1
     else r2 = 0 \<and> vfs_lookup fs2 = (\<lambda>m. if cstr m = cstr d
       then Some (take (min (f_size (fs ! f1)) MAX_FILE_SIZE) (f_data (fs ! f1))) else vfs_lookup fs1 m)"
    using vfs_write_law [OF r1(2) l, of d] by blast
  have "if vfs_lookup fs d = None \<and> table_full fs then fs2 = fs
     else vfs_lookup fs2 = (\<lambda>m. if cstr m = cstr d then vfs_lookup fs s else vfs_lookup fs m)"
    using r1(3) r2(3) full by (cases "r1 = 0") (auto simp: s c fun_eq_iff)
  with r1(1) r2(1,2) same show ?thesis by auto
qed

text \<open>C9 (cp_copies): the command \<^verbatim>\<open>cp\<close> with an existing source and a destination of at most 31
  characters leaves a well-formed file table in which the destination has the source's contents and
  every other file is as before; only when the table is full and the destination is new does the
  table stay as it was. In both cases the last line of the scroll-back says ''Copied.''.\<close>

theorem cp_copies:
  assumes "vfs_ok (k_fs k)" and "history_ok (k_term k)" and "app_find ''cp'' (k_apps k) = None"
    and "word s" and "word d" and "cstr cmd = ''cp '' @ s @ '' '' @ d"
    and "length (cstr cmd) \<le> 127" and "length d \<le> 31" and "vfs_lookup (k_fs k) s = Some c"
  shows "\<exists>fs t. exec_command mc i cmd k = Some (k\<lparr>k_fs := fs, k_term := t, last_strtok := None\<rparr>) \<and>
    vfs_ok fs \<and> history_ok t \<and> last (term_texts t) = (''Copied.'', 0x00FF00) \<and>
    (if vfs_lookup (k_fs k) d = None \<and> table_full (k_fs k) then fs = k_fs k
     else vfs_lookup fs = (\<lambda>m. if cstr m = d then Some c else vfs_lookup (k_fs k) m))"
proof -
  have cd: "cstr d = d" "short_name d" "NUL \<notin> set d" using assms(5,8) by (simp_all add: word_spaces(6) short_name_def word_def)
  obtain f1 where f1: "vfs_open s (k_fs k) = Some f1" using assms(9) by (auto simp: vfs_lookup_def)
  from copy_law [OF assms(1) cd(2) f1, unfolded assms(9) cd(1)] obtain r1 fs1 r2 fs2 where
    cp: "vfs_create d (k_fs k) = Some (r1, fs1)"
      "vfs_write d (f_data (fs1 ! f1)) (f_size (fs1 ! f1)) fs1 = Some (r2, fs2)" "vfs_ok fs2"
      "if vfs_lookup (k_fs k) d = None \<and> table_full (k_fs k) then fs2 = k_fs k
       else vfs_lookup fs2 = (\<lambda>m. if cstr m = d then Some c else vfs_lookup (k_fs k) m)"
    by blast
  let ?k = "k\<lparr>last_strtok := None, k_fs := fs2\<rparr>"
  from print_law [of ?k "''Copied.''" "0x00FF00"] assms(2) obtain t where
    t: "print_to_shell ''Copied.'' 0x00FF00 ?k = Some (?k\<lparr>k_term := t\<rparr>)" "history_ok t"
      "term_texts t = keep_last MAX_HISTORY (term_texts (k_term k) @ [(take 127 (cstr ''Copied.''), 0x00FF00)])"
    by auto
  have last: "last (term_texts t) = (''Copied.'', 0x00FF00)"
    unfolding t(3) by (simp add: keep_last_def MAX_HISTORY_def last_drop cstr_no_NUL)
  have w: "word ''cp''" by (simp add: word_def)
  have tok: "next_token '' '' (k\<lparr>last_strtok := Some (s @ CHR 0x20 # d)\<rparr>) = (Some s, k\<lparr>last_strtok := Some d\<rparr>)"
    "next_token '' '' (k\<lparr>last_strtok := Some d\<rparr>) = (Some d, k\<lparr>last_strtok := None\<rparr>)"
    using assms(4,5) cd(3) by (simp_all add: next_token_Some next_token_last)
  have "exec_command mc i cmd k = builtin mc i ''cp'' (k\<lparr>last_strtok := Some (s @ CHR 0x20 # d)\<rparr>)"
    by (rule exec_builtin [OF _ w assms(7,3)]) (simp add: assms(6))
  also have "\<dots> = cmd_cp (k\<lparr>last_strtok := Some (s @ CHR 0x20 # d)\<rparr>)" by (simp add: builtin_def)
  also have "\<dots> = Some (?k\<lparr>k_term := t\<rparr>)"
    using f1 cp t(1) by (simp add: cmd_cp_def tok)
  finally show ?thesis using cp(3,4) t(2) last by (intro exI [of _ fs2] exI [of _ t]) simp
qed


definition copy_kernel :: kernel where
  "copy_kernel = demo_kernel\<lparr>k_fs := one_file\<rparr>"

lemma copy_kernel_facts:
  "vfs_ok (k_fs copy_kernel)" "history_ok (k_term copy_kernel)" "app_find n (k_apps copy_kernel) = None"
  "vfs_lookup (k_fs copy_kernel) ''new.txt'' = Some ''hi''" "\<not> table_full (k_fs copy_kernel)"
proof -
  have "one_file ! 1 \<in> set one_file" by (rule nth_mem) (simp add: one_file_def vfs_zero_def MAX_FILES_def)
  moreover have "\<not> f_used (one_file ! 1)" by (simp add: one_file_def vfs_zero_def MAX_FILES_def)
  ultimately show "\<not> table_full (k_fs copy_kernel)" by (auto simp: table_full_def copy_kernel_def)
qed (simp_all add: copy_kernel_def one_file_ok one_file_lookup terminal_boot_ok app_find_def reg_entries_def)

theorem cp_copies_witness:
  "\<exists>fs t. exec_command demo_machine 0 ''cp new.txt b'' copy_kernel
       = Some (copy_kernel\<lparr>k_fs := fs, k_term := t, last_strtok := None\<rparr>) \<and>
     vfs_lookup fs ''b'' = Some ''hi'' \<and> vfs_lookup fs ''new.txt'' = Some ''hi'' \<and>
     last (term_texts t) = (''Copied.'', 0x00FF00)"
proof -
  note f = copy_kernel_facts
  have w: "word ''new.txt''" "word ''b''" by (simp_all add: word_def)
  have c: "cstr ''cp new.txt b'' = ''cp '' @ ''new.txt'' @ '' '' @ ''b''"
    "length (cstr ''cp new.txt b'') \<le> 127" "length ''b'' \<le> 31" by simp_all
  from cp_copies [OF f(1,2,3) w c f(4), of demo_machine 0] f(5) obtain fs t where
    "exec_command demo_machine 0 ''cp new.txt b'' copy_kernel
       = Some (copy_kernel\<lparr>k_fs := fs, k_term := t, last_strtok := None\<rparr>)"
    "last (term_texts t) = (''Copied.'', 0x00FF00)"
    "vfs_lookup fs = (\<lambda>m. if cstr m = ''b'' then Some ''hi'' else vfs_lookup (k_fs copy_kernel) m)" by auto
  then show ?thesis by (intro exI [of _ fs] exI [of _ t]) (simp add: f(4))
qed

section \<open>Counting\<close>

text \<open>What \<^verbatim>\<open>wc\<close> means by a word: a maximal run of characters that are not blank.\<close>

definition blank :: "char \<Rightarrow> bool" where
  "blank c \<longleftrightarrow> c \<in> {CHR 0x20, CHR 0x0A, CHR 0x09, CHR 0x0D}"

function words_of :: "string \<Rightarrow> string list" where
  "words_of s =
     (case dropWhile blank s of
        [] \<Rightarrow> []
      | c # cs \<Rightarrow> takeWhile (\<lambda>c. \<not> blank c) (c # cs) # words_of (dropWhile (\<lambda>c. \<not> blank c) cs))"
  by pat_completeness auto
termination
proof (relation "measure length", goal_cases)
  case (2 s c cs)
  then have "length (c # cs) \<le> length s" using length_dropWhile_le [of blank s] by metis
  then show ?case using length_dropWhile_le [of "\<lambda>c. \<not> blank c" cs] by simp
qed simp

declare words_of.simps [simp del]

lemma words_of_Nil [simp]: "words_of [] = []"
  by (simp add: words_of.simps)

lemma words_of_blank: "blank c \<Longrightarrow> words_of (c # cs) = words_of cs"
  by (simp add: words_of.simps [of "c # cs"] words_of.simps [of cs])

lemma words_of_drop: "words_of (dropWhile blank s) = words_of s"
  by (induction s) (simp_all add: words_of_blank)

lemma words_of_word:
  "\<not> blank c \<Longrightarrow> words_of (c # cs) = takeWhile (\<lambda>c. \<not> blank c) (c # cs) # words_of (dropWhile (\<lambda>c. \<not> blank c) cs)"
  by (simp add: words_of.simps [of "c # cs"])

lemma words_of_length: "length (words_of s) \<le> length s"
proof (induction s rule: words_of.induct)
  case (1 s)
  show ?case
  proof (cases "dropWhile blank s")
    case Nil
    then show ?thesis by (simp only: words_of.simps [of s] list.case list.size zero_le)
  next
    case (Cons c cs)
    have "length (c # cs) \<le> length s" using length_dropWhile_le [of blank s] by (simp add: Cons)
    moreover have "length (words_of (dropWhile (\<lambda>c. \<not> blank c) cs)) \<le> length cs"
      using 1 [OF Cons] length_dropWhile_le [of "\<lambda>c. \<not> blank c" cs] by simp
    ultimately show ?thesis by (simp add: words_of.simps [of s] Cons)
  qed
qed

text \<open>Inside a word the loop has already counted it.\<close>

lemma wc_loop_eq:
  "wc_loop s (n, l, in_word) =
     (n + length (words_of (if in_word then dropWhile (\<lambda>c. \<not> blank c) s else s)),
      l + count_list s (CHR 0x0A))"
proof (induction s "(n, l, in_word)" arbitrary: n l in_word rule: wc_loop.induct)
  case 1
  then show ?case by simp
next
  case (2 c cs n l in_word)
  then show ?case
    by (cases "blank c") (auto simp: words_of_blank words_of_word blank_def)
qed

text \<open>A command on one existing file runs on that file, with all tokens used up.\<close>

lemma exec_with_file:
  assumes "cstr cmd = w @ '' '' @ n" and "word w" and "word n" and "length (cstr cmd) \<le> 127"
    and "app_find w (k_apps k) = None" and "vfs_open n (k_fs k) = Some j"
    and "\<And>k. builtin mc i w k = with_file usage missing act k"
  shows "exec_command mc i cmd k = act (k_fs k ! j) (k\<lparr>last_strtok := None\<rparr>)"
proof -
  have "exec_command mc i cmd k = builtin mc i w (k\<lparr>last_strtok := Some n\<rparr>)"
    by (rule exec_builtin [OF _ assms(2,4,5)]) (simp add: assms(1))
  then show ?thesis using assms(3,6) by (simp add: assms(7) with_file_def next_token_last)
qed

text \<open>A formatted line of a command that fits its array and has no terminator inside.\<close>

lemma print_fmt_law:
  assumes "history_ok (k_term k)" and "xfmt (cstr fmt) args = Some out" and "length out < n"
    and "NUL \<notin> set out" and "n \<le> 128"
  shows "\<exists>t. print_fmt n fmt args color k = Some (k\<lparr>k_term := t\<rparr>) \<and> history_ok t \<and>
    term_texts t = keep_last MAX_HISTORY (term_texts (k_term k) @ [(out, color)])"
  using print_law [OF assms(1), of out color] assms(2-5)
  by (auto simp: print_fmt_def sprint_Some cstr_no_NUL)

text \<open>C16 (wc_counts): the command \<^verbatim>\<open>wc\<close> on an existing file prints as its one line the number of line
  feeds, the number of maximal runs of characters other than space, tab, line feed and carriage
  return, and the number of characters of the file.\<close>

theorem wc_counts:
  assumes "vfs_ok (k_fs k)" and "history_ok (k_term k)" and "app_find ''wc'' (k_apps k) = None"
    and "word n" and "cstr cmd = ''wc '' @ n" and "length (cstr cmd) \<le> 127"
    and "vfs_lookup (k_fs k) n = Some c"
  shows "\<exists>t. exec_command mc i cmd k = Some (k\<lparr>last_strtok := None, k_term := t\<rparr>) \<and> history_ok t \<and>
    term_texts t = keep_last 40 (term_texts (k_term k) @
      [(''  '' @ dec_text (int (count_list c (CHR 0x0A))) @ '' lines, '' @
        dec_text (int (length (words_of c))) @ '' words, '' @
        dec_text (int (length c)) @ '' bytes'', 0xFFFFFF)])"
proof -
  obtain j where j: "vfs_open n (k_fs k) = Some j" "c = file_contents (k_fs k ! j)"
    using assms(7) by (auto simp: vfs_lookup_def)
  have size: "length c = f_size (k_fs k ! j)" "length c \<le> 16384"
    using vfs_open_SomeD [OF j(1)] vfs_ok_file [OF assms(1), of j]
    by (auto simp: j(2) file_contents_def file_ok_def MAX_FILE_SIZE_def)
  have data: "f_size (k_fs k ! j) = length c" "take (length c) (f_data (k_fs k ! j)) = c"
    using size(1) j(2) by (simp_all add: file_contents_def)
  have counts: "count_list c (CHR 0x0A) \<le> 16384" "length (words_of c) \<le> 16384"
    using size(2) count_le_length [of c "CHR 0x0A"] words_of_length [of c] by simp_all
  let ?out = "''  '' @ dec_text (int (count_list c (CHR 0x0A))) @ '' lines, '' @
        dec_text (int (length (words_of c))) @ '' words, '' @ dec_text (int (length c)) @ '' bytes''"
  let ?args = "[AInt (int (count_list c (CHR 0x0A))), AInt (int (length (words_of c))), AInt (int (length c))]"
  let ?k = "k\<lparr>last_strtok := None\<rparr>"
  have fmt: "xfmt (cstr ''  %d lines, %d words, %d bytes'') ?args = Some ?out"
    using size(2) counts by simp
  have fits: "length ?out < 64"
    using dec_text_length_nat [of 5 "int (count_list c (CHR 0x0A))"]
      dec_text_length_nat [of 5 "int (length (words_of c))"] dec_text_length_nat [of 5 "int (length c)"] size(2) counts
    by simp
  have h: "history_ok (k_term ?k)" and out: "NUL \<notin> set ?out" and n: "64 \<le> (128::nat)"
    using assms(2) by (simp_all add: dec_text_no_NUL)
  from print_fmt_law [OF h fmt fits out n, of "0xFFFFFF"] obtain t where
    t: "print_fmt 64 ''  %d lines, %d words, %d bytes'' ?args 0xFFFFFF ?k = Some (?k\<lparr>k_term := t\<rparr>)"
      "history_ok t" "term_texts t = keep_last MAX_HISTORY (term_texts (k_term ?k) @ [(?out, 0xFFFFFF)])" by blast
  have run: "exec_command mc i cmd k = (\<lambda>f k. let (words, lines) = wc_loop (take (f_size f) (f_data f)) (0, 0, False)
            in print_fmt 64 ''  %d lines, %d words, %d bytes''
                 [AInt (int lines), AInt (int words), AInt (int (f_size f))] 0xFFFFFF k)
        (k_fs k ! j) (k\<lparr>last_strtok := None\<rparr>)"
    by (rule exec_with_file [where w = "''wc''" and n = n])
      (use assms j in \<open>auto simp: word_def builtin_def cmd_wc_def\<close>)
  have "exec_command mc i cmd k = Some (k\<lparr>last_strtok := None, k_term := t\<rparr>)"
    unfolding run by (simp only: data wc_loop_eq if_False add_0 prod.case Let_def t(1))
  with t(2,3) show ?thesis by (intro exI [of _ t]) (simp add: MAX_HISTORY_def)
qed

theorem wc_counts_witness:
  "\<exists>t. exec_command demo_machine 0 ''wc new.txt'' copy_kernel = Some (copy_kernel\<lparr>last_strtok := None, k_term := t\<rparr>) \<and>
     term_texts t = [(''  0 lines, 1 words, 2 bytes'', 0xFFFFFF)]"
proof -
  have w: "word ''new.txt''" "cstr ''wc new.txt'' = ''wc '' @ ''new.txt''" "length (cstr ''wc new.txt'') \<le> 127"
    by (simp_all add: word_def)
  have n: "words_of ''hi'' = [''hi'']" by (simp add: words_of_word blank_def)
  have d: "dec_text 0 = ''0''" "dec_text 1 = ''1''" "dec_text 2 = ''2''" by code_simp+
  have e: "term_texts (k_term copy_kernel) = []" by (simp add: copy_kernel_def terminal_boot_def term_texts_def)
  from wc_counts [OF copy_kernel_facts(1,2,3) w copy_kernel_facts(4), of demo_machine 0] obtain t where
    "exec_command demo_machine 0 ''wc new.txt'' copy_kernel = Some (copy_kernel\<lparr>last_strtok := None, k_term := t\<rparr>)"
    "term_texts t = keep_last 40 ([] @ [(''  '' @ dec_text (int (count_list ''hi'' (CHR 0x0A))) @ '' lines, '' @
        dec_text (int (length (words_of ''hi''))) @ '' words, '' @ dec_text (int (length ''hi'')) @ '' bytes'', 0xFFFFFF)])"
    unfolding e by blast
  then show ?thesis by (intro exI [of _ t]) (simp add: n d keep_last_def)
qed

section \<open>Dumping\<close>

text \<open>Every line of a dump starts with the unsupported \<^verbatim>\<open>%x\<close> of its format and fits the array.\<close>

lemma length_hex_cell [simp]: "length (hex_cell data i j) = (if j = 7 then 4 else 3)"
  by (simp add: hex_cell_def Let_def)

definition hex_text :: "string \<Rightarrow> nat \<Rightarrow> string" where
  "hex_text data i = ''%x  '' @ concat (map (hex_cell data i) [0..<16]) @ '' |'' @
     map hex_char (take 16 (drop i data)) @ ''|''"

lemma length_hex_text: "length (hex_text data i) \<le> 72"
proof -
  have "length (concat (map (hex_cell data i) [0..<16])) = 49" by (simp add: length_concat o_def upt_rec)
  then show ?thesis by (simp add: hex_text_def)
qed

lemma hex_line_eq: "hex_line data i = Some (hex_text data i)"
proof -
  have f: "xfmt (cstr ''%08x  '') args = Some ''%x  ''" for args
    by (simp add: xfmt_conversion parse_spec_def eat_def)
  have "xsprintf (replicate 128 NUL) ''%08x  '' [AInt (int i)] = Some (''%x  '' @ [NUL] @ replicate 123 NUL, 4)"
    using xsprintf_Some [OF f, of "replicate 128 NUL" "[AInt (int i)]"] by simp
  then show ?thesis using length_hex_text [of data i] by (simp add: hex_line_def hex_text_def del: replicate.simps)
qed

lemma hex_text_no_NUL: "NUL \<notin> set (hex_text data i)"
proof -
  have "hex_digit n \<noteq> NUL" if "n < 16" for n
  proof -
    have "hex_digit n \<in> set ''0123456789abcdef''" unfolding hex_digit_def using that by (intro nth_mem) simp
    then show ?thesis by auto
  qed
  moreover have "(of_char c :: nat) div 16 < 16" for c
    using nat_of_char_less_256 [of c] by (simp add: less_mult_imp_div_less)
  ultimately have "NUL \<notin> set (hex_cell data i j)" for j
    by (auto simp: hex_cell_def Let_def simp del: of_char_of dest: sym)
  moreover have "NUL \<noteq> hex_char c" for c by (auto simp: hex_char_def)
  ultimately show ?thesis by (simp add: hex_text_def image_iff)
qed

text \<open>The lines of a dump: 42 at most, and then the remark.\<close>

definition dump_rows :: "string \<Rightarrow> nat" where
  "dump_rows data = (length data + 15) div 16"

definition dump_from :: "string \<Rightarrow> nat \<Rightarrow> (string \<times> u32) list" where
  "dump_from data j = map (\<lambda>j. (hex_text data (16 * j), 0xFFFFFF)) [j..<min 42 (dump_rows data)] @
     (if dump_rows data > 41 then [(''... (truncated)'', 0x888888)] else [])"

lemma dump_rows_iff: "16 * j < length data \<longleftrightarrow> j < dump_rows data"
  by (auto simp: dump_rows_def)

lemma hexdump_loop_eq: "j \<le> 41 \<Longrightarrow> hexdump_loop data (16 * j) k = print_all (dump_from data j) k"
proof (induction "41 - j" arbitrary: j k)
  case 0
  then have j: "j = 41" by simp
  then show ?case
    using dump_rows_iff [of 41 data]
    by (subst hexdump_loop.simps) (auto simp: dump_from_def hex_line_eq upt_rec [of 41] split: Option.bind_split)
next
  case (Suc n)
  then have j: "j \<le> 40" by simp
  have IH: "hexdump_loop data (16 + 16 * j) k = print_all (dump_from data (Suc j)) k" for k
    using Suc.hyps(1) [of "Suc j" k] Suc.hyps(2) by simp
  show ?case
  proof (cases "j < dump_rows data")
    case True
    then have "dump_from data j = (hex_text data (16 * j), 0xFFFFFF) # dump_from data (Suc j)"
      using j by (simp add: dump_from_def upt_conv_Cons)
    then show ?thesis using True j
      by (subst hexdump_loop.simps) (simp add: dump_rows_iff hex_line_eq IH add.commute)
  next
    case False
    then show ?thesis using j by (subst hexdump_loop.simps) (simp add: dump_rows_iff dump_from_def)
  qed
qed

text \<open>The fact \<open>hexdump_fits\<close>: the command \<^verbatim>\<open>hexdump\<close> on an existing file never writes outside its line
  array of 128 characters: it prints one line of at most 72 characters per 16 bytes of the file, and
  stops with a remark after 42 lines.\<close>

theorem hexdump_fits:
  assumes "history_ok (k_term k)" and "app_find ''hexdump'' (k_apps k) = None"
    and "word n" and "cstr cmd = ''hexdump '' @ n" and "length (cstr cmd) \<le> 127"
    and "vfs_lookup (k_fs k) n = Some c"
  shows "\<exists>t ms. exec_command mc i cmd k = Some (k\<lparr>last_strtok := None, k_term := t\<rparr>) \<and> history_ok t \<and>
    term_texts t = keep_last 40 (term_texts (k_term k) @ ms) \<and>
    length ms = min 42 ((length c + 15) div 16) + (if (length c + 15) div 16 > 41 then 1 else 0) \<and>
    (\<forall>j < min 42 ((length c + 15) div 16). ms ! j = (hex_text c (16 * j), 0xFFFFFF) \<and> length (hex_text c (16 * j)) \<le> 72)"
proof -
  obtain j where j: "vfs_open n (k_fs k) = Some j" "c = file_contents (k_fs k ! j)"
    using assms(6) by (auto simp: vfs_lookup_def)
  have "exec_command mc i cmd k = hexdump_loop (take (f_size (k_fs k ! j)) (f_data (k_fs k ! j))) 0 (k\<lparr>last_strtok := None\<rparr>)"
    using exec_with_file [where w = "''hexdump''" and n = n and cmd = cmd and k = k and j = j and
        act = "\<lambda>f. hexdump_loop (take (f_size f) (f_data f)) 0" and mc = mc and i = i] assms j
    by (auto simp: word_def builtin_def cmd_hexdump_def)
  then have run: "exec_command mc i cmd k = print_all (dump_from c 0) (k\<lparr>last_strtok := None\<rparr>)"
    using hexdump_loop_eq [of 0 c "k\<lparr>last_strtok := None\<rparr>"] by (simp add: j(2) file_contents_def)
  have h: "history_ok (k_term (k\<lparr>last_strtok := None\<rparr>))" using assms(1) by simp
  from scroll_back.add_all_law [OF h, of "dump_from c 0"] obtain t where
    t: "add_all add_message (dump_from c 0) (k_term k) = Some t" "history_ok t"
      "term_texts t = keep_last MAX_HISTORY (term_texts (k_term k) @ map (\<lambda>m. (take 127 (cstr (fst m)), snd m)) (dump_from c 0))"
    by auto
  have "map (\<lambda>m. (take 127 (cstr (fst m)), snd m)) (dump_from c 0) = dump_from c 0"
    by (auto intro!: map_idI simp: dump_from_def cstr_no_NUL hex_text_no_NUL intro: le_trans [OF length_hex_text])
  with t(3) have texts: "term_texts t = keep_last 40 (term_texts (k_term k) @ dump_from c 0)"
    by (simp add: MAX_HISTORY_def)
  have run2: "exec_command mc i cmd k = Some (k\<lparr>last_strtok := None, k_term := t\<rparr>)"
    using run t(1) by (simp add: print_all_lift)
  have "length (dump_from c 0) = min 42 ((length c + 15) div 16) + (if (length c + 15) div 16 > 41 then 1 else 0)"
    "\<forall>j < min 42 ((length c + 15) div 16). dump_from c 0 ! j = (hex_text c (16 * j), 0xFFFFFF)"
    by (auto simp: dump_from_def dump_rows_def nth_append)
  then show ?thesis using texts run2 t(2) length_hex_text by blast
qed

theorem hexdump_fits_witness:
  "\<exists>t. exec_command demo_machine 0 ''hexdump new.txt'' copy_kernel = Some (copy_kernel\<lparr>last_strtok := None, k_term := t\<rparr>) \<and>
     term_texts t = [(hex_text ''hi'' 0, 0xFFFFFF)] \<and> take 10 (hex_text ''hi'' 0) = ''%x  68 69 ''"
proof -
  have w: "word ''new.txt''" "cstr ''hexdump new.txt'' = ''hexdump '' @ ''new.txt''"
    "length (cstr ''hexdump new.txt'') \<le> 127" by (simp_all add: word_def)
  have e: "term_texts (k_term copy_kernel) = []" by (simp add: copy_kernel_def terminal_boot_def term_texts_def)
  have x: "take 10 (hex_text ''hi'' 0) = ''%x  68 69 ''"
    by (simp add: hex_text_def upt_rec hex_cell_def hex_digit_def)
  from hexdump_fits [OF copy_kernel_facts(2,3) w copy_kernel_facts(4), of demo_machine 0] obtain t ms where
    t: "exec_command demo_machine 0 ''hexdump new.txt'' copy_kernel = Some (copy_kernel\<lparr>last_strtok := None, k_term := t\<rparr>)"
      "term_texts t = keep_last 40 ([] @ ms)" "length ms = 1" "ms ! 0 = (hex_text ''hi'' 0, 0xFFFFFF)"
    unfolding e by auto
  then have "ms = [(hex_text ''hi'' 0, 0xFFFFFF)]" by (cases ms) auto
  with t x show ?thesis by (intro exI [of _ t]) (simp add: keep_last_def)
qed

end
