(* ===== verification/BootRuns.thy ===== *)
theory BootRuns
  imports ShellTypes TerminalFiles
begin

text \<open>
  The start of the kernel runs to its end: the serial log, memory, the frame buffer, interrupts,
  the timer, the task list, the RAM disk and the registry come up in the order of
  \<^verbatim>\<open>kernel_main\<close>, and the first terminal prints its banner.
\<close>

section \<open>Results that change the terminal only\<close>

definition prints :: "kernel \<Rightarrow> kernel option \<Rightarrow> bool" where
  "prints k r \<longleftrightarrow> (\<exists>t. r = Some (k\<lparr>k_term := t\<rparr>) \<and> history_ok t)"

lemma prints_bind:
  assumes "prints k r" and "\<And>t. history_ok t \<Longrightarrow> prints k (f (k\<lparr>k_term := t\<rparr>))"
  shows "prints k (Option.bind r f)"
  using assms by (auto simp: prints_def)

lemma prints_all: "history_ok t \<Longrightarrow> prints k (print_all ms (k\<lparr>k_term := t\<rparr>))"
  using scroll_back.add_all_law [of t ms] by (auto simp: prints_def print_all_lift)

lemma prints_all_first: "history_ok (k_term k) \<Longrightarrow> prints k (print_all ms k)"
  using prints_all [of "k_term k" k ms] by simp

lemma prints_fmt:
  assumes "history_ok t" and "\<exists>out. xfmt (cstr fmt) args = Some out \<and> length out < n"
  shows "prints k (print_fmt n fmt args color (k\<lparr>k_term := t\<rparr>))"
proof -
  obtain out where "xfmt (cstr fmt) args = Some out" "length out < n" using assms(2) by blast
  then show ?thesis
    using print_law [of "k\<lparr>k_term := t\<rparr>" "cstr out" color] assms(1)
    by (auto simp: prints_def print_fmt_def sprint_Some)
qed

section \<open>The banner\<close>

lemma brand_string_returns: "\<exists>out. cpuid_get_brand_string cpu (replicate 64 NUL) = Some out \<and> length (cstr out) \<le> 64"
proof -
  have "\<exists>out. cpuid_get_brand_string cpu (replicate 64 NUL) = Some out \<and> length out = 64"
  proof (cases "fst (cpu 0x80000000) < 0x80000004")
    case True
    then show ?thesis
      by (cases "cpu 0"; cases "cpu 0x80000000")
        (simp add: cpuid_get_brand_string_def cpuid_get_vendor_def store_bytes_def poke_def)
  next
    case False
    let ?b = "brand_bytes cpu @ [NUL] @ drop 49 (replicate 64 NUL)"
    have l: "49 \<le> length (replicate 64 NUL)" by simp
    have "cpuid_get_brand_string cpu (replicate 64 NUL) = Option.bind (Some ?b) (\<lambda>b. Some (trim_front b))"
      unfolding brand_stores [OF l, of cpu, symmetric]
      using False by (cases "cpu 0x80000000") (simp add: cpuid_get_brand_string_def)
    moreover have "length (trim_front ?b) = 64" by (subst length_trim_front) (simp_all add: brand_bytes_def)
    ultimately show ?thesis by simp
  qed
  then show ?thesis by (metis length_cstr_le)
qed

lemma pci_function_count:
  "length (fst st) \<le> n \<Longrightarrow> length (fst (pci_scan_function hw n b d i st)) \<le> n"
  by (auto simp: pci_scan_function_def Let_def split_beta)

lemma pci_device_count: "length (fst st) \<le> n \<Longrightarrow> length (fst (pci_scan_device hw n b j st)) \<le> n"
  by (auto simp: pci_scan_device_def Let_def split_beta
      intro!: for_up_keeps [where P = "\<lambda>st. length (fst st) \<le> n"] pci_function_count)

lemma pci_count: "length (fst (pci_enumerate_devices hw n tr)) \<le> n"
  unfolding pci_enumerate_devices_def
  by (rule for_up_keeps [where P = "\<lambda>st. length (fst st) \<le> n"])
    (auto simp: pci_scan_bus_def intro!: for_up_keeps [where P = "\<lambda>st. length (fst st) \<le> n"] pci_device_count)

lemma file_count_bound: "vfs_file_count fs \<le> 64"
proof -
  have "for_up 0 n (\<lambda>i c. if vfs_get_by_index (int i) fs \<noteq> None then c + 1 else c) 0 \<le> n" for n :: nat
    by (induction n) (auto simp: for_up_last)
  then show ?thesis by (simp add: vfs_file_count_def)
qed

text \<open>A byte of the clock, decoded in either mode.\<close>

definition small_int :: "int \<Rightarrow> bool" where
  "small_int v \<longleftrightarrow> \<bar>v\<bar> < 100000"

lemma u8_bound: "0 \<le> uint v" "uint v < 256" for v :: u8
  using uint_lt2p [of v] by simp_all

lemma bcd_byte_table: "\<forall>n \<in> set [0..<256]. \<bar>bcd_to_int (int n)\<bar> < 1000 \<and> \<bar>bcd_hour_to_int (int n)\<bar> < 1000"
  by code_simp

lemma bcd_bounds: "\<bar>bcd_to_int (uint v)\<bar> < 1000" "\<bar>bcd_hour_to_int (uint v)\<bar> < 1000" for v :: u8
proof -
  have "unat v \<in> set [0..<256]" using unsigned_less [of v, where ?'a = nat] by simp
  from bspec [OF bcd_byte_table this]
  show "\<bar>bcd_to_int (uint v)\<bar> < 1000" "\<bar>bcd_hour_to_int (uint v)\<bar> < 1000" by simp_all
qed

lemma small_int_text: "small_int v \<Longrightarrow> v \<noteq> - (2 ^ 31) \<and> length (dec_text v) \<le> 11"
  by (auto simp: small_int_def intro!: dec_text_length)

lemma datetime_bounds:
  "small_int (dt_year (rtc_convert rb s))" "small_int (dt_month (rtc_convert rb s))"
  "small_int (dt_day (rtc_convert rb s))" "small_int (dt_hour (rtc_convert rb s))"
  "small_int (dt_minute (rtc_convert rb s))" "small_int (dt_second (rtc_convert rb s))"
proof -
  have h: "\<bar>(v + 12) mod 24\<bar> < 100000" for v :: int
    using pos_mod_bound [of 24 "v + 12"] pos_mod_sign [of 24 "v + 12"] by linarith
  have b: "\<bar>uint v\<bar> < 1000" for v :: u8 using uint_lt2p [of v] by simp
  have u: "uint v < 98000" "uint v < 100000" for v :: u8 using uint_lt2p [of v] by simp_all
  note bounds = u bcd_bounds [THEN less_trans] b [THEN less_trans] h
  have y: "\<bar>bcd_to_int (uint v) + 2000\<bar> < 100000" "\<bar>uint v + 2000\<bar> < 100000" for v :: u8
    using bcd_bounds(1) [of v] b [of v] by linarith+
  show "small_int (dt_year (rtc_convert rb s))" "small_int (dt_month (rtc_convert rb s))"
  "small_int (dt_day (rtc_convert rb s))" "small_int (dt_hour (rtc_convert rb s))"
  "small_int (dt_minute (rtc_convert rb s))" "small_int (dt_second (rtc_convert rb s))"
    by (auto simp: rtc_convert_def small_int_def Let_def intro: bounds y)
qed

section \<open>The banner\<close>

definition banner_ready :: "machine \<Rightarrow> kernel \<Rightarrow> bool" where
  "banner_ready mc k \<longleftrightarrow>
     (\<exists>regs. steady_chip (mc_hw mc) regs) \<and> unat (fb_width (k_fb k)) < 2 ^ 31 \<and> unat (fb_height (k_fb k)) < 2 ^ 31 \<and>
     unat (total_mem_bytes (c_mm k)) < 2 ^ 50 \<and> unat (kmalloc_bytes (c_mm k)) < 2 ^ 50"

definition printable :: "u32 \<Rightarrow> bool" where
  "printable v \<longleftrightarrow> sint v \<noteq> - (2 ^ 31)"

lemma printable_text: "printable v \<Longrightarrow> sint v \<noteq> - (2 ^ 31) \<and> length (dec_text (sint v)) \<le> 11"
proof -
  assume "printable v"
  moreover have "- (2 ^ 31) \<le> sint v" "sint v < 2 ^ 31" using sint_ge [of v] sint_lt [of v] by simp_all
  ultimately show ?thesis by (auto simp: printable_def intro!: dec_text_length)
qed

lemma printable_iff: "printable v \<longleftrightarrow> unat v \<noteq> 2 ^ 31"
proof -
  have v: "sint v = (if uint v < 2 ^ 31 then uint v else uint v - 2 ^ 32)" by (simp add: sint_eq_if)
  have "s \<noteq> - (2 ^ 31) \<longleftrightarrow> u \<noteq> 2 ^ 31" if "s = (if i < 2 ^ 31 then i else i - 2 ^ 32)" "i = int u"
    for s i :: int and u :: nat
    using that by (auto split: if_splits)
  from this [OF v uint_nat] show ?thesis unfolding printable_def .
qed

lemma printable_small: "unat v < 2 ^ 31 \<Longrightarrow> printable v"
  unfolding printable_iff by linarith

lemma printable_minus:
  assumes "unat v < 2 ^ 30" and "unat w < 2 ^ 30"
  shows "printable (v - w)"
proof (cases "unat w \<le> unat v")
  case True
  then have "unat (v - w) = unat v - unat w" using unat_sub_if' [of v w] by simp
  with assms(1) show ?thesis unfolding printable_iff by simp
next
  case False
  then have "unat (v - w) = unat v + 2 ^ 32 - unat w" using unat_sub_if' [of v w] by simp
  with assms False show ?thesis unfolding printable_iff by simp
qed

lemma megabytes: "unat v < 2 ^ 50 \<Longrightarrow> unat (ucast (v div 1024 div 1024) :: u32) < 2 ^ 30" for v :: u64
proof -
  assume assms: "unat v < 2 ^ 50"
  have "unat (v div 1024 div 1024) = unat v div 1024 div 1024" by (simp add: unat_div)
  also have "\<dots> < 2 ^ 30" using assms by simp
  finally show ?thesis by (simp add: unsigned_ucast_eq take_bit_eq_mod)
qed

lemma banner_prints:
  assumes "banner_ready mc k" and "history_ok (k_term k)"
  shows "\<exists>tr. prints (k\<lparr>c_trace := tr\<rparr>) (show_fastfetch mc k)"
proof -
  from assms(1) obtain regs where chip: "steady_chip (mc_hw mc) regs" by (auto simp: banner_ready_def)
  let ?s = "\<lparr>rs_second = regs 0, rs_minute = regs 2, rs_hour = regs 4, rs_day = regs 7, rs_month = regs 8, rs_year = regs 9\<rparr>"
  have "holds_sample regs ?s" by (simp add: holds_sample_def)
  from rtc_get_datetime_steady [OF chip this, of "c_trace k"] obtain tr where
    tr: "rtc_get_datetime (mc_hw mc) (c_trace k) = Some (rtc_convert (regs 0x0B) ?s, tr)" by blast
  define dt where "dt = rtc_convert (regs 0x0B) ?s"
  obtain devs tr2 where devs: "pci_enumerate_devices (mc_hw mc) 32 tr = (devs, tr2)"
    by (cases "pci_enumerate_devices (mc_hw mc) 32 tr")
  have nd: "length devs \<le> 32" using pci_count [of "mc_hw mc" 32 tr] by (simp add: devs)
  obtain brand where brand: "cpuid_get_brand_string (mc_cpu mc) (replicate 64 NUL) = Some brand" "length (cstr brand) \<le> 64"
    using brand_string_returns by blast
  define a where "a = (ucast (total_mem_bytes (c_mm k) div 1024 div 1024) :: u32)"
  define b where "b = (ucast (kmalloc_bytes (c_mm k) div 1024 div 1024) :: u32)"
  have ab: "unat a < 2 ^ 30" "unat b < 2 ^ 30"
    using assms(1) by (simp_all only: a_def b_def banner_ready_def megabytes)
  define up where "up = (ucast (uptime_ms (c_pit k) div 1000) :: u32)"
  have ups: "unat (up div 60) < 2 ^ 31" "unat (up mod 60) < 2 ^ 31"
    using unat_less_2p [of up] by (simp_all add: unat_div unat_mod less_trans [OF mod_less_divisor])
  have wh: "unat (fb_width (k_fb k)) < 2 ^ 31" "unat (fb_height (k_fb k)) < 2 ^ 31"
    using assms(1) by (simp_all add: banner_ready_def)
  have counts: "int (length devs) \<noteq> - (2 ^ 31)" "length (dec_text (int (length devs))) \<le> 11"
    "int (vfs_file_count (k_fs k)) \<noteq> - (2 ^ 31)" "length (dec_text (int (vfs_file_count (k_fs k)))) \<le> 11"
    using nd file_count_bound [of "k_fs k"] by (auto intro!: dec_text_length)
  note small = printable_text [OF printable_small [OF ups(1)]] printable_text [OF printable_small [OF ups(2)]]
    printable_text [OF printable_small [OF wh(1)]] printable_text [OF printable_small [OF wh(2)]]
    printable_text [OF printable_small [OF less_trans [OF ab(1)]]] printable_text [OF printable_small [OF less_trans [OF ab(2)]]]
    printable_text [OF printable_minus [OF ab]]
  note dates = datetime_bounds [of "regs 0x0B" ?s, folded dt_def, THEN small_int_text]
  note run = show_fastfetch_def Let_def tr [folded dt_def] devs brand(1) bind.bind_lunit prod.case
     sys_get_mem_info_def mm_get_info_def mem_info.simps a_def [symmetric] b_def [symmetric] up_def [symmetric] dec32_def
  have "prints (k\<lparr>c_trace := tr2\<rparr>) (show_fastfetch mc k)"
    unfolding run
    by (intro prints_bind prints_fmt prints_all_first prints_all)
      (use assms(2) brand(2) small dates counts in simp_all)
  then show ?thesis ..
qed

section \<open>The start-up sequence\<close>

lemma log_runs:
  assumes "serial_ready hw"
  shows "\<exists>tr. k_log (log_ok hw) msg k = Some (k\<lparr>c_trace := tr\<rparr>)"
    and "\<exists>tr. k_log (log_info hw) msg k = Some (k\<lparr>c_trace := tr\<rparr>)"
proof -
  have w: "\<exists>t'. serial_write hw s tr = Some t'" for s tr
    using serial_put_all_ready [OF assms] by (simp add: serial_write_def)
  have "\<exists>t'. log_ok hw msg tr = Some t'" "\<exists>t'. log_info hw msg tr = Some t'" for tr
    using w by (simp_all add: log_ok_def log_info_def bind_eq_Some_conv) blast+
  then show "\<exists>tr. k_log (log_ok hw) msg k = Some (k\<lparr>c_trace := tr\<rparr>)"
    "\<exists>tr. k_log (log_info hw) msg k = Some (k\<lparr>c_trace := tr\<rparr>)"
    unfolding k_log_def by (metis option.map(2))+
qed

lemma task_create_runs:
  assumes "sched_ok s"
  shows "\<exists>m' s'. task_create n k (m, s) = Some (length (cells s), m', s') \<and> sched_ok s' \<and>
    task_pids s' = task_pids s @ [next_pid s] \<and> next_pid s' = next_pid s + 1 \<and>
    length (cells s') = Suc (length (cells s)) \<and> m' = snd (kmalloc task_t_size m)"
proof -
  from assms obtain "is" where "sched_chain s is" by (auto simp: sched_ok_def)
  from task_create_chain [OF this, of n k m] task_create_refines [OF assms, of n k m] show ?thesis by auto
qed

lemma current_ok: "sched_ok s \<Longrightarrow> i < length (cells s) \<Longrightarrow> sched_ok (s\<lparr>current_task := Some i\<rparr>)"
  by (auto simp: sched_ok_def sched_chain_def)

lemma scheduler_init_runs:
  "\<exists>m' s'. scheduler_init (m, sched_boot) = Some (m', s') \<and> sched_ok s' \<and> task_pids s' = [1, 2, 3] \<and>
    next_pid s' = 4 \<and> m' = snd (kmalloc task_t_size (snd (kmalloc task_t_size (snd (kmalloc task_t_size m)))))"
proof -
  have b: "task_pids sched_boot = []" "next_pid sched_boot = 1" "sched_boot\<lparr>task_list := None\<rparr> = sched_boot"
    "cells sched_boot = []"
    by (simp_all add: task_pids_def sys_get_tasks_def task_get_list_def sched_boot_def)
  obtain m1 s1 where 1: "task_create ''init'' 1 (m, sched_boot) = Some (0, m1, s1)" "sched_ok s1"
    "task_pids s1 = [1]" "next_pid s1 = 2" "length (cells s1) = 1" "m1 = snd (kmalloc task_t_size m)"
    using task_create_runs [OF sched_boot_ok, of "''init''" 1 m] by (auto simp: b)
  obtain m2 s2 where 2: "task_create ''window_manager'' 1 (m1, s1) = Some (1, m2, s2)" "sched_ok s2"
    "task_pids s2 = [1, 2]" "next_pid s2 = 3" "length (cells s2) = 2" "m2 = snd (kmalloc task_t_size m1)"
    using task_create_runs [OF 1(2), of "''window_manager''" 1 m1] by (auto simp: 1)
  obtain m3 s3 where 3: "task_create ''terminal'' 1 (m2, s2) = Some (2, m3, s3)" "sched_ok s3"
    "task_pids s3 = [1, 2, 3]" "next_pid s3 = 4" "length (cells s3) = 3" "m3 = snd (kmalloc task_t_size m2)"
    using task_create_runs [OF 2(2), of "''terminal''" 1 m2] by (auto simp: 2)
  have "scheduler_init (m, sched_boot) = Some (m3, s3\<lparr>current_task := Some 0\<rparr>)"
    by (simp add: scheduler_init_def b 1(1) 2(1) 3(1))
  moreover have "sched_ok (s3\<lparr>current_task := Some 0\<rparr>)" using current_ok [OF 3(2)] 3(5) by simp
  moreover have "task_pids (s3\<lparr>current_task := Some 0\<rparr>) = task_pids s3"
    by (simp add: task_pids_def sys_get_tasks_def task_get_list_def)
  ultimately show ?thesis using 3(3,4) 1(6) 2(6) 3(6) by simp
qed

section \<open>The desktop comes up\<close>

lemma registry_start:
  "k_apps k = app_registry_init r \<Longrightarrow>
   reg_entries (k_apps (run [htop_init, yano_init, sysinfo_init, browser_init, files_init, settings_init,
     terminal_init, player_init, imageviewer_init] k)) = all_apps"
  by (simp add: run_def htop_init_def yano_init_def sysinfo_init_def browser_init_def files_init_def settings_init_def
      terminal_init_def player_init_def imageviewer_init_def app_register_def app_registry_init_def MAX_APPS_def
      reg_entries_def all_apps_def numeral_eq_Suc)

lemma find_terminal: "reg_entries r = all_apps \<Longrightarrow> app_find ''terminal'' r = Some terminal_app"
  by (simp add: app_find_def strcmp_zero_iff all_apps_def htop_app_def yano_app_def sysinfo_app_def browser_app_def
      files_app_def settings_app_def terminal_app_def)

lemma open_window_runs:
  assumes "sched_ok (c_sched k)"
  shows "\<exists>s. open_window x y w h title draw name k =
      Some (k\<lparr>k_wm := wm_add_window x y w h title (Some draw) (k_wm k), c_mm := snd (kmalloc task_t_size (c_mm k)), c_sched := s\<rparr>) \<and>
    task_pids s = task_pids (c_sched k) @ [next_pid (c_sched k)] \<and> sched_ok s"
proof -
  from task_create_runs [OF assms, of name 1 "c_mm k"] obtain s where
    "task_create name 1 (c_mm k, c_sched k) = Some (length (cells (c_sched k)), snd (kmalloc task_t_size (c_mm k)), s)"
    "sched_ok s" "task_pids s = task_pids (c_sched k) @ [next_pid (c_sched k)]" by blast
  then show ?thesis by (intro exI [of _ s]) (simp add: open_window_def sys_create_task_def)
qed

lemma kmalloc_less:
  "unat (kmalloc_bytes (snd (kmalloc n m))) < unat (kmalloc_bytes m) + 2 ^ 32"
proof -
  have "unat (kmalloc_bytes (snd (kmalloc n m))) \<le> unat (kmalloc_bytes m) + unat (ucast ((n + 15) AND NOT 15) :: u64)"
    by (simp add: kmalloc_def Let_def unat_word_ariths)
  also have "unat (ucast ((n + 15) AND NOT 15) :: u64) \<le> unat ((n + 15) AND NOT 15)"
    by (simp add: unsigned_ucast_eq take_bit_eq_mod)
  also have "\<dots> < 2 ^ 32" using unat_less_2p [of "(n + 15) AND NOT 15"] by simp
  finally show ?thesis by simp
qed

lemma kmalloc_total [simp]: "total_mem_bytes (snd (kmalloc n m)) = total_mem_bytes m"
  by (simp add: kmalloc_def Let_def)

definition reaches :: "('a \<Rightarrow> bool) \<Rightarrow> 'a option \<Rightarrow> bool" where
  "reaches Q r \<longleftrightarrow> (\<exists>x. r = Some x \<and> Q x)"

text \<open>The state before the desktop: the screen, the memory and the tasks are up, the rest is as loaded.\<close>

definition before_shell :: "u32 \<Rightarrow> u32 \<Rightarrow> kernel \<Rightarrow> bool" where
  "before_shell w h k \<longleftrightarrow> fb_ok w h (k_fb k) \<and> sched_ok (c_sched k) \<and> task_pids (c_sched k) = [1, 2, 3] \<and>
     next_pid (c_sched k) = 4 \<and> unat (total_mem_bytes (c_mm k)) < 2 ^ 50 \<and> unat (kmalloc_bytes (c_mm k)) < 2 ^ 40 \<and>
     k_wm k = wm_boot \<and> k_term k = terminal_boot \<and> k_yano k = yano_boot \<and> k_shell k = shell_boot \<and>
     c_sound k = sound_boot \<and> length (current_image k) = 32"

definition desktop_up :: "u32 \<Rightarrow> u32 \<Rightarrow> kernel \<Rightarrow> bool" where
  "desktop_up w h k \<longleftrightarrow> kernel_typed k \<and> fb_ok w h (k_fb k) \<and> vfs_ok (k_fs k) \<and> sched_ok (c_sched k) \<and>
     task_pids (c_sched k) = [1, 2, 3, 4] \<and> active_window (k_wm k) = Some 0 \<and>
     map win_title (wm_get_windows (k_wm k)) = [Title ''Onken Terminal'']"

lemma wm_init_boot [simp]: "wm_init wm_boot = wm_boot"
  by (simp add: wm_init_def wm_boot_def)

lemma first_window:
  "active_window (wm_add_window x y w h title draw wm_boot) = Some 0"
  "map win_title (wm_get_windows (wm_add_window x y w h title draw wm_boot)) = [title]"
  by (simp_all add: wm_add_window_def wm_boot_def MAX_WINDOWS_def set_active_flag_def wm_get_windows_def
      numeral_eq_Suc Let_def)

lemma start_typed:
  assumes "before_shell w h k" and "vfs_ok fs" and "reg_entries a = all_apps"
  shows "kernel_typed (k\<lparr>k_fs := fs, k_wm := wm_init (k_wm k), k_apps := a\<rparr>)"
  using assms wm_boot_typed terminal_boot_ok yano_boot_ok sound_boot_ok
  by (simp add: before_shell_def kernel_typed_def term_typed_def editor_typed_def yano_boot_def
      vfs_ok_def fs_typed_def icons_typed_def shell_boot_def boot_icons_def)

lemma terminal_launch_runs:
  assumes "before_shell w h k" and "steady_chip (mc_hw mc) regs" and "kernel_typed (k\<lparr>k_fs := fs, k_wm := wm_boot, k_apps := a\<rparr>)"
    and "vfs_ok fs"
  shows "reaches (desktop_up w h) (terminal_launch mc args (k\<lparr>k_fs := fs, k_wm := wm_boot, k_apps := a\<rparr>))"
proof -
  let ?k = "k\<lparr>k_fs := fs, k_wm := wm_boot, k_apps := a\<rparr>"
  let ?t = "terminal_boot\<lparr>history_count := 0, cmd_len := 0, cmd_buf := replicate MAX_CMD NUL\<rparr>"
  let ?k1 = "?k\<lparr>k_term := ?t\<rparr>"
  have buf: "memset (cmd_buf terminal_boot) 0 MAX_CMD = Some (replicate MAX_CMD NUL)"
    by (simp add: memset_eq terminal_boot_def char_of_def)
  note b = assms(1) [unfolded before_shell_def]
  have "sched_ok (c_sched ?k1)" using b by simp
  from open_window_runs [OF this, of 200 80 750 520 "Title ''Onken Terminal''" DrawTerminal "''terminal''"] obtain s where
    s: "open_window 200 80 750 520 (Title ''Onken Terminal'') DrawTerminal ''terminal'' ?k1 =
      Some (?k1\<lparr>k_wm := wm_add_window 200 80 750 520 (Title ''Onken Terminal'') (Some DrawTerminal) (k_wm ?k1),
        c_mm := snd (kmalloc task_t_size (c_mm ?k1)), c_sched := s\<rparr>)"
    "task_pids s = task_pids (c_sched ?k1) @ [next_pid (c_sched ?k1)]" "sched_ok s" by blast
  let ?k2 = "?k1\<lparr>k_wm := wm_add_window 200 80 750 520 (Title ''Onken Terminal'') (Some DrawTerminal) (k_wm ?k1),
        c_mm := snd (kmalloc task_t_size (c_mm ?k1)), c_sched := s\<rparr>"
  have run: "terminal_launch mc args ?k = show_fastfetch mc ?k2"
    using b by (simp add: terminal_launch_def buf s(1))
  have "fb_ok w h (k_fb ?k2)" using b by simp
  from screen_size [OF this] fb_ok_simps(1,2) [OF this]
  have "banner_ready mc ?k2"
    using b assms(2) kmalloc_less [of task_t_size "c_mm k"] by (auto simp: banner_ready_def)
  moreover have "history_ok (k_term ?k2)"
    using terminal_boot_ok(1) by (simp add: history_ok_def)
  ultimately obtain tr t where r: "show_fastfetch mc ?k2 = Some (?k2\<lparr>c_trace := tr, k_term := t\<rparr>)"
    using banner_prints by (fastforce simp: prints_def)
  let ?k3 = "?k2\<lparr>c_trace := tr, k_term := t\<rparr>"
  have final: "terminal_launch mc args ?k = Some ?k3" by (simp only: run r)
  have "kernel_typed ?k3" using terminal_launch_typed [OF assms(3), of mc args] unfolding final typed_Some .
  then have "desktop_up w h ?k3" using b s(2,3) assms(4) by (simp add: desktop_up_def first_window)
  then show ?thesis unfolding reaches_def final by blast
qed

lemma shell_init_runs:
  assumes "before_shell w h k" and "steady_chip (mc_hw mc) regs"
  shows "reaches (desktop_up w h) (shell_init mc k)"
proof -
  obtain fs where fs: "vfs_init = Some fs" "vfs_ok fs" using vfs_init_law by blast
  let ?k = "k\<lparr>k_fs := fs, k_wm := wm_init (k_wm k), k_apps := app_registry_init (k_apps k)\<rparr>"
  let ?inits = "[htop_init, yano_init, sysinfo_init, browser_init, files_init, settings_init,
     terminal_init, player_init, imageviewer_init]"
  obtain a where a: "run ?inits ?k = k\<lparr>k_fs := fs, k_wm := wm_init (k_wm k), k_apps := a\<rparr>"
    by (simp add: run_def htop_init_def yano_init_def sysinfo_init_def browser_init_def files_init_def settings_init_def
      terminal_init_def player_init_def imageviewer_init_def)
  have "k_apps ?k = app_registry_init (k_apps k)" by simp
  from registry_start [OF this] have reg: "reg_entries a = all_apps" unfolding a by simp
  have wm: "wm_init (k_wm k) = wm_boot" using assms(1) by (simp add: before_shell_def)
  let ?k1 = "k\<lparr>k_fs := fs, k_wm := wm_boot, k_apps := a\<rparr>"
  have "kernel_typed ?k1" using start_typed [OF assms(1) fs(2) reg] unfolding wm .
  from terminal_launch_runs [OF assms this fs(2), of None] obtain k2 where
    k2: "terminal_launch mc None ?k1 = Some k2" "desktop_up w h k2"
    by (auto simp: reaches_def)
  have "app_find ''terminal'' (k_apps ?k1) = Some terminal_app" using find_terminal [OF reg] by simp
  then have "launch_named mc ''terminal'' None ?k1 = Some k2"
    by (simp add: launch_named_def launch_app_def terminal_app_def k2(1))
  let ?f = "\<lambda>s. s\<lparr>full_redraw := True, last_mx := -1, last_my := -1, last_mbl := 0, last_mbr := 0\<rparr>"
  have "desktop_up w h (on_shell ?f k2)"
    using k2(2) by (simp add: desktop_up_def kernel_typed_def on_shell_def icons_typed_def)
  moreover have "shell_init mc k = Some (on_shell ?f k2)"
    unfolding shell_init_def fs(1) bind.bind_lunit Let_def a unfolding wm by (simp add: \<open>launch_named mc ''terminal'' None ?k1 = Some k2\<close>)
  ultimately show ?thesis by (auto simp: reaches_def)
qed

text \<open>What the boot loader hands over: a frame buffer of 32-bit pixels without padding between the
  rows, and a memory map of less than a petabyte.\<close>

definition screen_given :: "boot_info \<Rightarrow> u32 \<Rightarrow> u32 \<Rightarrow> bool" where
  "screen_given bi w h \<longleftrightarrow>
     (case bi_framebuffer bi of None \<Rightarrow> False
      | Some (screen, width, height, pitch) \<Rightarrow>
          ucast width = w \<and> ucast height = h \<and> (ucast pitch :: u32) div 4 = w \<and> 0 < unat w \<and> 0 < unat h \<and>
          unat w * unat h * 4 < 2 ^ 32 \<and> length screen = unat w * unat h)"

lemma buffers_up:
  assumes "fb_width s = w" "fb_height s = h" "fb_pitch s div 4 = w" "0 < unat w" "0 < unat h"
    and "unat w * unat h * 4 < 2 ^ 32" and "length (fb_screen s) = unat w * unat h"
    and "length (cursor_backup s) = 1024" "\<not> fb_fault s"
  shows "fb_ok w h (snd (fb_alloc_buffers (m, s)))"
    and "total_mem_bytes (fst (fb_alloc_buffers (m, s))) = total_mem_bytes m"
    and "unat (kmalloc_bytes (fst (fb_alloc_buffers (m, s)))) < unat (kmalloc_bytes m) + 2 ^ 34"
proof -
  let ?n = "w * h * 4" let ?m = "\<lambda>m. snd (kmalloc ?n m)"
  have "unat (w * h) = unat w * unat h mod 2 ^ 32" by (simp add: unat_word_ariths)
  also have "\<dots> = unat w * unat h" by (rule mod_less) (use assms(6) in linarith)
  finally have "unat ?n = unat w * unat h * 4 mod 2 ^ 32" by (simp add: unat_word_ariths)
  also have "\<dots> = unat w * unat h * 4" by (rule mod_less [OF assms(6)])
  finally have "unat ?n = unat w * unat h * 4" .
  then have "unat (fb_width s * fb_height s * 4) div 4 = unat w * unat h" by (simp add: assms(1,2))
  then show "fb_ok w h (snd (fb_alloc_buffers (m, s)))"
    using assms by (simp add: fb_alloc_buffers_def fb_ok_def ram_pixels_def Let_def split_beta)
  show "total_mem_bytes (fst (fb_alloc_buffers (m, s))) = total_mem_bytes m"
    by (simp add: fb_alloc_buffers_def Let_def split_beta)
  have "fst (fb_alloc_buffers (m, s)) = ?m (?m (?m (?m m)))"
    by (simp add: fb_alloc_buffers_def Let_def split_beta assms(1,2))
  then show "unat (kmalloc_bytes (fst (fb_alloc_buffers (m, s)))) < unat (kmalloc_bytes m) + 2 ^ 34"
    using kmalloc_less [of ?n "?m (?m (?m m))"] kmalloc_less [of ?n "?m (?m m)"]
      kmalloc_less [of ?n "?m m"] kmalloc_less [of ?n m] by simp
qed

lemma reaches_log:
  "serial_ready hw \<Longrightarrow> (\<And>tr. reaches Q (f (k\<lparr>c_trace := tr\<rparr>))) \<Longrightarrow> reaches Q (Option.bind (k_log (log_ok hw) msg k) f)"
  "serial_ready hw \<Longrightarrow> (\<And>tr. reaches Q (f (k\<lparr>c_trace := tr\<rparr>))) \<Longrightarrow> reaches Q (Option.bind (k_log (log_info hw) msg k) f)"
  using log_runs [of hw msg k] by (auto simp: reaches_def)

definition loaded :: "kernel \<Rightarrow> bool" where
  "loaded k \<longleftrightarrow> c_sched k = sched_boot \<and> kmalloc_bytes (c_mm k) = 0 \<and>
     k_wm k = wm_boot \<and> k_term k = terminal_boot \<and> k_yano k = yano_boot \<and> k_shell k = shell_boot \<and>
     c_sound k = sound_boot \<and> length (current_image k) = 32"

lemma reaches_timer:
  "(\<And>p tr. reaches Q (f (k\<lparr>c_pit := p, c_trace := tr\<rparr>))) \<Longrightarrow> reaches Q (Option.bind (boot_timer k) f)"
  by (simp add: boot_timer_def pit_init_def Let_def)

lemma reaches_scheduler:
  assumes "c_sched k = sched_boot"
    and "\<And>m s. sched_ok s \<Longrightarrow> task_pids s = [1, 2, 3] \<Longrightarrow> next_pid s = 4 \<Longrightarrow>
      total_mem_bytes m = total_mem_bytes (c_mm k) \<Longrightarrow>
      unat (kmalloc_bytes m) < unat (kmalloc_bytes (c_mm k)) + 2 ^ 34 \<Longrightarrow> reaches Q (f (k\<lparr>c_mm := m, c_sched := s\<rparr>))"
  shows "reaches Q (Option.bind (boot_scheduler k) f)"
proof -
  let ?m = "\<lambda>m. snd (kmalloc task_t_size m)"
  from scheduler_init_runs [of "c_mm k"] obtain s where
    s: "scheduler_init (c_mm k, sched_boot) = Some (?m (?m (?m (c_mm k))), s)"
      "sched_ok s" "task_pids s = [1, 2, 3]" "next_pid s = 4" by blast
  have "unat (kmalloc_bytes (?m (?m (?m (c_mm k))))) < unat (kmalloc_bytes (c_mm k)) + 2 ^ 34"
    using kmalloc_less [of task_t_size "?m (?m (c_mm k))"] kmalloc_less [of task_t_size "?m (c_mm k)"]
      kmalloc_less [of task_t_size "c_mm k"] by simp
  then have "reaches Q (f (k\<lparr>c_mm := ?m (?m (?m (c_mm k))), c_sched := s\<rparr>))" using s(2-4) by (intro assms(2)) simp_all
  then show ?thesis by (simp add: boot_scheduler_def assms(1) s(1))
qed

text \<open>Interrupts and input change their own part of the state and the trace.\<close>

lemma boot_interrupts_frame [simp]:
  "k_fb (boot_interrupts bi k) = k_fb k" "c_mm (boot_interrupts bi k) = c_mm k"
  "c_sched (boot_interrupts bi k) = c_sched k" "k_wm (boot_interrupts bi k) = k_wm k"
  "k_term (boot_interrupts bi k) = k_term k" "k_yano (boot_interrupts bi k) = k_yano k"
  "k_shell (boot_interrupts bi k) = k_shell k" "c_sound (boot_interrupts bi k) = c_sound k"
  "current_image (boot_interrupts bi k) = current_image k"
  by (simp_all add: boot_interrupts_def split: prod.split)

lemma boot_input_frame [simp]:
  "k_fb (boot_input hw k) = k_fb k" "c_mm (boot_input hw k) = c_mm k"
  "c_sched (boot_input hw k) = c_sched k" "k_wm (boot_input hw k) = k_wm k"
  "k_term (boot_input hw k) = k_term k" "k_yano (boot_input hw k) = k_yano k"
  "k_shell (boot_input hw k) = k_shell k" "c_sound (boot_input hw k) = c_sound k"
  "current_image (boot_input hw k) = current_image k"
  by (simp_all add: boot_input_def split: prod.split)

lemma mm_init_counts:
  "total_mem_bytes (mm_init es off ke m) = sum_list (map e_length (filter usable es))"
  "kmalloc_bytes (mm_init es off ke m) = kmalloc_bytes m"
  using mm_scan_total [of es 0 0 0] by (simp_all add: mm_init_def Let_def split_beta)

lemma boot_rest_runs:
  assumes "serial_ready (mc_hw mc)" and "steady_chip (mc_hw mc) regs" and "loaded k"
    and fb: "fb_width (k_fb k) = w" "fb_height (k_fb k) = h" "fb_pitch (k_fb k) div 4 = w" "0 < unat w" "0 < unat h"
      "unat w * unat h * 4 < 2 ^ 32" "length (fb_screen (k_fb k)) = unat w * unat h"
      "length (cursor_backup (k_fb k)) = 1024" "\<not> fb_fault (k_fb k)"
    and "unat (sum_list (map e_length (filter usable (bi_memmap bi)))) < 2 ^ 50"
  shows "reaches (desktop_up w h) (boot_rest mc bi k)"
proof -
  let ?m = "mm_init (bi_memmap bi) (bi_hhdm bi) (bi_kernel_end bi) (c_mm k)"
  let ?b = "fb_alloc_buffers (?m, k_fb k)"
  let ?fb = "run [fb_clear 0x111111, fb_render_wallpaper (wallpaper_mode k)] (snd ?b)"
  have fbok: "fb_ok w h ?fb"
    using buffers_up(1) [OF fb, of ?m] by (simp add: run_def fb_clear_ok fb_render_wallpaper_ok)
  have mem: "unat (total_mem_bytes (fst ?b)) < 2 ^ 50" "unat (kmalloc_bytes (fst ?b)) < 2 ^ 34"
    using buffers_up(2,3) [OF fb, of ?m] assms(3,13) by (simp_all add: mm_init_counts loaded_def)
  have bufs: "boot_buffers (boot_memory bi (k\<lparr>c_trace := tr, c_trace := ta, c_trace := tb\<rparr>)\<lparr>c_trace := tc\<rparr>)
      = k\<lparr>c_mm := fst ?b, k_fb := ?fb, c_trace := tc\<rparr>" for tr ta tb tc
    by (simp add: boot_buffers_def boot_memory_def split_beta Let_def)
  show ?thesis
    unfolding boot_rest_def Let_def
  proof (intro reaches_log(1) assms(1), unfold bufs, intro reaches_timer reaches_log(1) reaches_scheduler assms(1)
      shell_init_runs [OF _ assms(2)], goal_cases)
    case 1
    then show ?case using assms(3) by (simp add: loaded_def)
  next
    case 2
    then show ?case using assms(3) fbok mem by (simp add: before_shell_def loaded_def)
  qed
qed

text \<open>C2 (boot_reaches_shell): on a machine whose serial transmitter answers ready and whose clock stands
  still, with a frame buffer of unpadded 32-bit rows and a memory map below 2 ^ 50 bytes,
  \<^verbatim>\<open>kernel_main\<close> runs to the shell's loop without a store outside an array: every static array has
  its size, the screen buffers fit the screen, the RAM disk is well formed, the task list is 1, 2, 3
  and 4, and the only window is the terminal's, active.\<close>

theorem boot_reaches_shell:
  assumes "serial_ready (mc_hw mc)" and "steady_chip (mc_hw mc) regs" and "screen_given bi w h"
    and "unat (sum_list (map e_length (filter usable (bi_memmap bi)))) < 2 ^ 50"
  shows "\<exists>k. kernel_main mc bi (kernel_boot r) = Some (Running k) \<and> kernel_typed k \<and> fb_ok w h (k_fb k) \<and>
    vfs_ok (k_fs k) \<and> sched_ok (c_sched k) \<and> task_pids (c_sched k) = [1, 2, 3, 4] \<and>
    active_window (k_wm k) = Some 0 \<and> map win_title (wm_get_windows (k_wm k)) = [Title ''Onken Terminal'']"
proof -
  obtain screen width height pitch where bi: "bi_framebuffer bi = Some (screen, width, height, pitch)"
    and given: "ucast width = w" "ucast height = h" "(ucast pitch :: u32) div 4 = w" "0 < unat w" "0 < unat h"
      "unat w * unat h * 4 < 2 ^ 32" "length screen = unat w * unat h"
    using assms(3) by (auto simp: screen_given_def split: option.splits)
  let ?k = "\<lambda>tr. (kernel_boot r)\<lparr>c_trace := tr, k_fb := fb_init_raw screen (ucast width) (ucast height) (ucast pitch) fb_boot\<rparr>"
  have rest: "reaches (desktop_up w h) (boot_rest mc bi (?k tr))" for tr
    using given
    by (intro boot_rest_runs [OF assms(1,2) _ _ _ _ _ _ _ _ _ _ assms(4)])
      (simp_all add: loaded_def kernel_boot_def mm_boot_def fb_init_raw_def fb_boot_def)
  have "reaches (\<lambda>x. \<exists>k. x = Running k \<and> desktop_up w h k) (kernel_main mc bi (kernel_boot r))"
    unfolding kernel_main_def Let_def bi option.case prod.case
  proof (intro reaches_log(2) assms(1), goal_cases)
    case (1 tr tr')
    from rest [of tr'] show ?case by (auto simp: reaches_def kernel_boot_def)
  qed
  then show ?thesis by (auto simp: reaches_def desktop_up_def)
qed

definition demo_boot :: boot_info where
  "demo_boot = \<lparr>bi_framebuffer = Some (replicate 8 0, 4, 2, 16),
     bi_memmap = [\<lparr>e_base = 0x100000, e_length = 0x10000000, e_type = 0\<rparr>], bi_hhdm = 0xFFFF800000000000,
     bi_kernel_end = 0, bi_irq0_stub = 0x1000, bi_irq1_stub = 0x1010, bi_irq12_stub = 0x1020, bi_cs = 0x28\<rparr>"

definition answering_machine :: machine where
  "answering_machine = demo_machine\<lparr>mc_hw := \<lparr>hw_inb = (\<lambda>_ p. if p = 0x71 then 0 else 0x20), hw_inl = (\<lambda>_ _. 0)\<rparr>\<rparr>"

theorem boot_reaches_shell_witness:
  "\<exists>k. kernel_main answering_machine demo_boot (kernel_boot (\<lambda>_. 0)) = Some (Running k) \<and> kernel_typed k \<and>
    fb_ok 4 2 (k_fb k) \<and> task_pids (c_sched k) = [1, 2, 3, 4]"
proof -
  have "serial_ready (mc_hw answering_machine)" by (simp add: serial_ready_def answering_machine_def)
  moreover have "steady_chip (mc_hw answering_machine) (\<lambda>_. 0)" by (simp add: steady_chip_def answering_machine_def)
  moreover have "screen_given demo_boot 4 2" by (simp add: screen_given_def demo_boot_def)
  moreover have "unat (sum_list (map e_length (filter usable (bi_memmap demo_boot)))) < 2 ^ 50"
    by (simp add: demo_boot_def usable_def LIMINE_MEMMAP_USABLE_def)
  ultimately show ?thesis
    using boot_reaches_shell [of answering_machine "\<lambda>_. 0" demo_boot 4 2 "\<lambda>_. 0"] by blast
qed

end
