(* ===== verification/BosPath.thy ===== *)
theory BosPath
  imports CString
begin

text \<open>
  Path names of the BoredOS file layer (\<^verbatim>\<open>fs/vfs.c\<close>): \<^verbatim>\<open>vfs_normalize_path\<close> and the comparisons
  the mount table uses, with the reference definition that a path is a list of components.
\<close>

section \<open>The routines\<close>

abbreviation slash :: char where
  "slash \<equiv> CHR ''/''"

definition VFS_MAX_PATH :: nat where
  "VFS_MAX_PATH = 1024"

definition VFS_MAX_NAME :: nat where
  "VFS_MAX_NAME = 256"

definition vfs_starts_with :: "string \<Rightarrow> string \<Rightarrow> bool" where
  "vfs_starts_with str prefix \<longleftrightarrow> take (strlen prefix) (cstr str) = cstr prefix"

text \<open>
  The comparison of at most \<open>n\<close> characters: unlike \<^verbatim>\<open>strncmp\<close> of the C library it looks for the
  end of the text only after a match.
\<close>

fun vfs_strncmp :: "string \<Rightarrow> string \<Rightarrow> nat \<Rightarrow> int" where
  "vfs_strncmp a b 0 = 0"
| "vfs_strncmp [] [] (Suc n) = 0"
| "vfs_strncmp [] (d # ds) (Suc n) = - of_char d"
| "vfs_strncmp (c # cs) [] (Suc n) = of_char c"
| "vfs_strncmp (c # cs) (d # ds) (Suc n) =
     (if c \<noteq> d then of_char c - of_char d else if c = NUL then 0 else vfs_strncmp cs ds n)"

text \<open>The character at an index of a text; the terminator behind its end.\<close>

definition char_at :: "string \<Rightarrow> nat \<Rightarrow> char" where
  "char_at s i = (if i < length (cstr s) then cstr s ! i else NUL)"

definition vfs_path_is_parent :: "string \<Rightarrow> string \<Rightarrow> bool" where
  "vfs_path_is_parent parent child =
     (let plen = strlen parent in
      if vfs_strncmp parent child plen \<noteq> 0 then False
      else if char_at child plen = NUL then True
      else if char_at child plen = slash then True
      else if plen = 1 \<and> char_at parent 0 = slash then True
      else False)"

text \<open>
  The component at the front, of at most 63 characters, as the copying loop stores it in its
  row of \<^verbatim>\<open>parts\<close>, and the text behind it and one slash.
\<close>

definition first_comp :: "string \<Rightarrow> string" where
  "first_comp s = take 63 (takeWhile (\<lambda>c. c \<noteq> slash) s)"

definition skip_slash :: "string \<Rightarrow> string" where
  "skip_slash s = (if s \<noteq> [] \<and> hd s = slash then tl s else s)"

definition after_comp :: "string \<Rightarrow> string" where
  "after_comp s = skip_slash (drop (length (first_comp s)) s)"

lemma after_comp_shorter: "c \<noteq> slash \<Longrightarrow> length (after_comp (c # s)) \<le> length s"
  by (auto simp: after_comp_def first_comp_def skip_slash_def)

text \<open>
  The rows of \<^verbatim>\<open>parts\<close> below \<^verbatim>\<open>depth\<close>. A store to a row that \<^verbatim>\<open>parts\<close> does not have gives \<open>None\<close>.
\<close>

definition PARTS :: nat where
  "PARTS = 32"

function cwd_parts :: "string list \<Rightarrow> string \<Rightarrow> string list option" where
  "cwd_parts ps [] = Some ps"
| "cwd_parts ps (c # s) =
     (if c = slash then cwd_parts ps s
      else if length ps \<ge> PARTS then None
      else let ps = ps @ [first_comp (c # s)] in
           if length ps \<ge> PARTS then Some ps else cwd_parts ps (after_comp (c # s)))"
  by pat_completeness auto
termination
  by (relation "measure (length o snd)") (auto simp: less_Suc_eq_le after_comp_shorter)

function path_parts :: "string list \<Rightarrow> string \<Rightarrow> string list option" where
  "path_parts ps [] = Some ps"
| "path_parts ps (c # s) =
     (if c = slash then path_parts ps s
      else if length ps \<ge> PARTS then None
      else let p = first_comp (c # s) in
           if p = ''.'' then path_parts ps (after_comp (c # s))
           else if p = ''..'' then path_parts (butlast ps) (after_comp (c # s))
           else let ps = ps @ [p] in
                if length ps \<ge> PARTS then Some ps else path_parts ps (after_comp (c # s)))"
  by pat_completeness auto
termination
  by (relation "measure (length o snd)") (auto simp: less_Suc_eq_le after_comp_shorter)

text \<open>
  The loop that writes the parts to the result array, up to its position 1022; the separator and
  the terminator are written wherever the position stands.
\<close>

definition put_part :: "string \<Rightarrow> string \<Rightarrow> string" where
  "put_part out p = out @ take (VFS_MAX_PATH - 2 - length out) p"

fun join_parts :: "string \<Rightarrow> string list \<Rightarrow> string option" where
  "join_parts out [] = (if length out < VFS_MAX_PATH then Some out else None)"
| "join_parts out [p] = join_parts (put_part out p) []"
| "join_parts out (p # q # ps) =
     (let out = put_part out p in
      if length out < VFS_MAX_PATH then join_parts (out @ [slash]) (q # ps) else None)"

definition vfs_normalize_path :: "string option \<Rightarrow> string \<Rightarrow> string option" where
  "vfs_normalize_path cwd path = do {
     let path = cstr path;
     ps \<leftarrow> (case cwd of
              None \<Rightarrow> Some []
            | Some d \<Rightarrow> if char_at path 0 \<noteq> slash then cwd_parts [] (skip_slash (cstr d)) else Some []);
     ps \<leftarrow> path_parts ps (skip_slash path);
     join_parts [slash] ps
   }"

section \<open>Paths as lists of components\<close>

text \<open>The pieces between the slashes, and the text of a list of components.\<close>

function comps :: "string \<Rightarrow> string list" where
  "comps [] = []"
| "comps (c # s) =
     (if c = slash then comps s
      else takeWhile (\<lambda>c. c \<noteq> slash) (c # s) # comps (dropWhile (\<lambda>c. c \<noteq> slash) (c # s)))"
  by pat_completeness auto
termination
  by (relation "measure length") (auto simp: less_Suc_eq_le length_dropWhile_le)

fun path_text :: "string list \<Rightarrow> string" where
  "path_text [] = []"
| "path_text (p # ps) = slash # p @ path_text ps"

definition root_text :: "string list \<Rightarrow> string" where
  "root_text ps = (if ps = [] then [slash] else path_text ps)"

text \<open>Following the components: a dot stays, two dots leave the last component.\<close>

fun walk :: "string list \<Rightarrow> string list \<Rightarrow> string list" where
  "walk ps [] = ps"
| "walk ps (c # cs) = walk (if c = ''.'' then ps else if c = ''..'' then butlast ps else ps @ [c]) cs"

definition short_comps :: "string \<Rightarrow> bool" where
  "short_comps s \<longleftrightarrow> (\<forall>c \<in> set (comps s). length c \<le> 63)"

lemma comps_skip: "comps (skip_slash s) = comps s"
  by (cases s) (auto simp: skip_slash_def)

lemma comps_slash: "comps (slash # s) = comps s"
  by simp

lemma first_comp_whole:
  assumes "length (takeWhile (\<lambda>c. c \<noteq> slash) s) \<le> 63"
  shows "first_comp s = takeWhile (\<lambda>c. c \<noteq> slash) s" and "comps (after_comp s) = comps (dropWhile (\<lambda>c. c \<noteq> slash) s)"
  using assms by (simp_all add: first_comp_def after_comp_def comps_skip dropWhile_eq_drop)

lemma cwd_parts_take:
  "short_comps s \<Longrightarrow> length ps < PARTS \<Longrightarrow> cwd_parts ps s = Some (take PARTS (ps @ comps s))"
proof (induction ps s rule: cwd_parts.induct)
  case (1 ps)
  then show ?case by simp
next
  case (2 ps c s)
  show ?case
  proof (cases "c = slash")
    case True
    then show ?thesis using 2 by (simp add: short_comps_def)
  next
    case False
    let ?p = "takeWhile (\<lambda>c. c \<noteq> slash) (c # s)"
    have l: "length ?p \<le> 63" using False "2.prems"(1) by (simp add: short_comps_def)
    note fc = first_comp_whole [OF l]
    have "cwd_parts (ps @ [?p]) (after_comp (c # s)) = Some (take PARTS ((ps @ [?p]) @ comps (after_comp (c # s))))"
      if "length (ps @ [?p]) < PARTS"
      using False "2.prems" fc that by (intro "2.IH"(2)) (auto simp: short_comps_def)
    moreover have "PARTS - length ps = Suc 0" if "\<not> length (ps @ [?p]) < PARTS" using "2.prems"(2) that by simp
    ultimately show ?thesis using False "2.prems"(2) fc by (auto simp: Let_def)
  qed
qed

lemma cwd_parts_eq:
  "short_comps s \<Longrightarrow> length (comps s) < PARTS \<Longrightarrow> cwd_parts [] s = Some (comps s)"
  by (simp add: cwd_parts_take PARTS_def)

text \<open>With all rows in use, the first character of another component is stored behind them.\<close>

lemma path_parts_full: "length ps \<ge> PARTS \<Longrightarrow> comps s \<noteq> [] \<Longrightarrow> path_parts ps s = None"
  by (induction ps s rule: path_parts.induct) (auto split: if_splits)

lemma path_parts_eq:
  "short_comps s \<Longrightarrow> length ps + length (comps s) < PARTS \<Longrightarrow> path_parts ps s = Some (walk ps (comps s))"
proof (induction ps s rule: path_parts.induct)
  case (1 ps)
  then show ?case by simp
next
  case (2 ps c s)
  show ?case
  proof (cases "c = slash")
    case True
    then show ?thesis using 2 by (simp add: short_comps_def)
  next
    case False
    define q where "q = takeWhile (\<lambda>c. c \<noteq> slash) (c # s)"
    have l: "length q \<le> 63" using False "2.prems"(1) by (simp add: short_comps_def q_def)
    have fc: "first_comp (c # s) = q" and cs: "comps (c # s) = q # comps (after_comp (c # s))"
      using False first_comp_whole [of "c # s"] l by (simp_all add: q_def)
    have sh: "short_comps (after_comp (c # s))"
      using "2.prems"(1) unfolding short_comps_def cs by simp
    have len: "length ps + length (comps (after_comp (c # s))) < PARTS - 1" "length ps < PARTS"
      using "2.prems"(2) unfolding cs by simp_all
    note steps = False fc cs len
    consider "q = ''.''" | "q = ''..''" | "q \<noteq> ''.''" "q \<noteq> ''..''" by blast
    then show ?thesis
    proof cases
      case 1
      then have "path_parts ps (after_comp (c # s)) = Some (walk ps (comps (after_comp (c # s))))"
        using False "2.prems" fc sh len by (intro "2.IH"(2)) auto
      then show ?thesis using steps 1 by (simp del: comps.simps)
    next
      case 2
      then have "path_parts (butlast ps) (after_comp (c # s)) = Some (walk (butlast ps) (comps (after_comp (c # s))))"
        using False "2.prems" fc sh len by (intro "2.IH"(3)) auto
      then show ?thesis using steps 2 by (simp del: comps.simps)
    next
      case 3
      then have "path_parts (ps @ [q]) (after_comp (c # s)) = Some (walk (ps @ [q]) (comps (after_comp (c # s))))"
        using False "2.prems" fc sh len by (intro "2.IH"(4)) auto
      then show ?thesis using steps 3 by (simp add: Let_def PARTS_def del: comps.simps)
    qed
  qed
qed

lemma join_parts_eq:
  "length (out @ p @ path_text ps) \<le> VFS_MAX_PATH - 2 \<Longrightarrow> join_parts out (p # ps) = Some (out @ p @ path_text ps)"
proof (induction ps arbitrary: out p)
  case Nil
  then show ?case by (simp add: put_part_def VFS_MAX_PATH_def)
next
  case (Cons q ps)
  then have "join_parts ((out @ p) @ [slash]) (q # ps) = Some (((out @ p) @ [slash]) @ q @ path_text ps)"
    by (intro Cons.IH) (simp add: VFS_MAX_PATH_def)
  then show ?case using Cons.prems by (simp add: put_part_def VFS_MAX_PATH_def)
qed

lemma join_root: "length (root_text ps) \<le> VFS_MAX_PATH - 2 \<Longrightarrow> join_parts [slash] ps = Some (root_text ps)"
  using join_parts_eq [of "[slash]" "hd ps" "tl ps"]
  by (cases ps) (auto simp: root_text_def VFS_MAX_PATH_def)

section \<open>The normal form\<close>

definition absolute :: "string \<Rightarrow> bool" where
  "absolute p \<longleftrightarrow> char_at p 0 = slash"

definition resolve :: "string \<Rightarrow> string \<Rightarrow> string list" where
  "resolve d p = walk (if absolute p then [] else comps (cstr d)) (comps (cstr p))"

definition path_fits :: "string \<Rightarrow> string \<Rightarrow> bool" where
  "path_fits d p \<longleftrightarrow> short_comps (cstr d) \<and> short_comps (cstr p) \<and>
     length (comps (cstr d)) + length (comps (cstr p)) < PARTS \<and> length (root_text (resolve d p)) \<le> VFS_MAX_PATH - 2"

lemma char_at_cstr [simp]: "char_at (cstr s) i = char_at s i"
  by (simp add: char_at_def)

lemma normalize_eq: "path_fits d p \<Longrightarrow> vfs_normalize_path (Some d) p = Some (root_text (resolve d p))"
  by (auto simp: vfs_normalize_path_def path_fits_def resolve_def absolute_def cwd_parts_eq path_parts_eq
      short_comps_def comps_skip join_root)

lemma comps_pieces: "c \<in> set (comps s) \<Longrightarrow> c \<noteq> [] \<and> slash \<notin> set c \<and> set c \<subseteq> set s"
proof (induction s rule: comps.induct)
  case 1
  then show ?case by simp
next
  case (2 x s)
  show ?case
  proof (cases "x = slash")
    case True
    then show ?thesis using 2 by auto
  next
    case False
    let ?r = "dropWhile (\<lambda>c. c \<noteq> slash) (x # s)"
    from "2.prems" False have "c = takeWhile (\<lambda>c. c \<noteq> slash) (x # s) \<or> c \<in> set (comps ?r)" by simp
    then show ?thesis
    proof
      assume "c = takeWhile (\<lambda>c. c \<noteq> slash) (x # s)"
      then show ?thesis using False by (auto dest: set_takeWhileD)
    next
      assume "c \<in> set (comps ?r)"
      then have "c \<noteq> [] \<and> slash \<notin> set c \<and> set c \<subseteq> set ?r" using "2.IH"(2) False by blast
      then show ?thesis using set_dropWhileD [of _ "\<lambda>c. c \<noteq> slash" "x # s"] by blast
    qed
  qed
qed

lemma walk_set: "set (walk ps cs) \<subseteq> set ps \<union> (set cs - {''.'', ''..''})"
proof (induction cs arbitrary: ps)
  case (Cons c cs)
  have "set (butlast ps) \<subseteq> set ps" by (auto dest: in_set_butlastD)
  then show ?case using Cons.IH [of ps] Cons.IH [of "butlast ps"] Cons.IH [of "ps @ [c]"] by auto
qed simp

lemma walk_plain: "''.'' \<notin> set cs \<Longrightarrow> ''..'' \<notin> set cs \<Longrightarrow> walk ps cs = ps @ cs"
  by (induction cs arbitrary: ps) auto

lemma comps_path_text: "\<forall>c \<in> set ps. c \<noteq> [] \<and> slash \<notin> set c \<Longrightarrow> comps (path_text ps) = ps"
proof (induction ps)
  case (Cons p ps)
  obtain x xs where p: "p = x # xs" "x \<noteq> slash" using Cons.prems by (cases p) auto
  have t: "takeWhile (\<lambda>c. c \<noteq> slash) (path_text ps) = []" "dropWhile (\<lambda>c. c \<noteq> slash) (path_text ps) = path_text ps"
    by (cases ps; simp)+
  have "\<And>y. y \<in> set p \<Longrightarrow> y \<noteq> slash" using Cons.prems by auto
  then have "comps (p @ path_text ps) = p # comps (path_text ps)"
    using p t by (simp add: takeWhile_append2 dropWhile_append2)
  then show ?case using Cons by simp
qed simp

lemma comps_root_text: "\<forall>c \<in> set ps. c \<noteq> [] \<and> slash \<notin> set c \<Longrightarrow> comps (root_text ps) = ps"
  by (simp add: root_text_def comps_path_text)

lemma set_path_text: "set (path_text ps) \<subseteq> {slash} \<union> (\<Union>c \<in> set ps. set c)"
  by (induction ps) auto

text \<open>C27 (normalize_canonical): a path whose components fit their rows and whose result fits its array
  normalizes to the absolute path of the components it leads to from the working directory; the
  result has no empty, dot or dot-dot component and normalizes to itself from every directory.\<close>

theorem normalize_canonical:
  assumes "path_fits d p" and "''.'' \<notin> set (comps (cstr d))" and "''..'' \<notin> set (comps (cstr d))"
  shows "vfs_normalize_path (Some d) p = Some (root_text (resolve d p))
    \<and> comps (root_text (resolve d p)) = resolve d p
    \<and> set (resolve d p) \<inter> {[], ''.'', ''..''} = {}
    \<and> (path_fits e (root_text (resolve d p)) \<longrightarrow>
        vfs_normalize_path (Some e) (root_text (resolve d p)) = Some (root_text (resolve d p)))"
proof -
  let ?q = "resolve d p"
  have sub: "set ?q \<subseteq> (set (comps (cstr d)) \<union> set (comps (cstr p))) - {''.'', ''..''}"
    using walk_set [of "if absolute p then [] else comps (cstr d)" "comps (cstr p)"] assms(2,3)
    by (auto simp: resolve_def)
  then have piece: "c \<noteq> [] \<and> slash \<notin> set c \<and> NUL \<notin> set c" if "c \<in> set ?q" for c
    using that comps_pieces [of c "cstr d"] comps_pieces [of c "cstr p"] NUL_notin_cstr [of d] NUL_notin_cstr [of p]
    by blast
  then have c: "comps (root_text ?q) = ?q" by (intro comps_root_text) blast
  have nul: "NUL \<notin> set (root_text ?q)" using set_path_text [of ?q] piece by (auto simp: root_text_def)
  have abs: "absolute (root_text ?q)"
    using nul by (cases ?q) (auto simp: absolute_def char_at_def root_text_def cstr_no_NUL)
  have "resolve e (root_text ?q) = ?q"
    using sub abs c nul by (simp add: resolve_def [of e] cstr_no_NUL walk_plain subset_Diff_insert)
  then show ?thesis using normalize_eq [of e "root_text ?q"] normalize_eq [OF assms(1)] c piece sub by auto
qed

theorem normalize_canonical_witness:
  "vfs_normalize_path (Some ''/home/me'') ''../you//./notes/'' = Some ''/home/you/notes'' \<and>
   vfs_normalize_path (Some ''/tmp'') ''/home/you/notes'' = Some ''/home/you/notes''"
proof -
  have r: "resolve ''/home/me'' ''../you//./notes/'' = [''home'', ''you'', ''notes'']"
    by (simp add: resolve_def absolute_def char_at_def)
  have f: "path_fits ''/home/me'' ''../you//./notes/''" "path_fits ''/tmp'' ''/home/you/notes''"
    using r by (simp_all add: path_fits_def short_comps_def PARTS_def root_text_def VFS_MAX_PATH_def
        resolve_def absolute_def char_at_def)
  show ?thesis
    using normalize_canonical [OF f(1), of "''/tmp''"] f(2) by (simp add: r root_text_def)
qed

section \<open>Paths that leave their arrays\<close>

text \<open>The fact \<open>normalize_deep_cwd_overflows\<close>: from a working directory of 32 components, every relative path
  makes \<^verbatim>\<open>vfs_normalize_path\<close> store behind the rows of \<^verbatim>\<open>parts\<close>.\<close>

theorem normalize_deep_cwd_overflows:
  assumes "short_comps (cstr d)" and "length (comps (cstr d)) \<ge> 32" and "\<not> absolute p" and "comps (cstr p) \<noteq> []"
  shows "vfs_normalize_path (Some d) p = None"
proof -
  have "cwd_parts [] (skip_slash (cstr d)) = Some (take PARTS (comps (cstr d)))"
    using cwd_parts_take [of "skip_slash (cstr d)" "[]"] assms(1) by (simp add: comps_skip short_comps_def PARTS_def)
  moreover have "path_parts (take PARTS (comps (cstr d))) (skip_slash (cstr p)) = None"
    using assms(2,4) by (intro path_parts_full) (simp_all add: comps_skip PARTS_def)
  ultimately show ?thesis using assms(3) by (simp add: vfs_normalize_path_def absolute_def)
qed

theorem normalize_deep_cwd_overflows_witness:
  "vfs_normalize_path (Some (path_text (replicate 32 ''d''))) ''x'' = None"
proof (rule normalize_deep_cwd_overflows)
  have n: "NUL \<notin> set (path_text (replicate 32 ''d''))" using set_path_text [of "replicate 32 ''d''"] by auto
  have c: "comps (cstr (path_text (replicate 32 ''d''))) = replicate 32 ''d''"
    unfolding cstr_no_NUL [OF n] by (rule comps_path_text) simp
  show "short_comps (cstr (path_text (replicate 32 ''d'')))" by (simp add: short_comps_def c)
  show "length (comps (cstr (path_text (replicate 32 ''d'')))) \<ge> 32" by (simp add: c)
  show "\<not> absolute ''x''" "comps (cstr ''x'') \<noteq> []" by (simp_all add: absolute_def char_at_def)
qed

text \<open>The writer stops copying characters at position 1022 and goes on writing separators.\<close>

lemma join_parts_full:
  "length out \<ge> VFS_MAX_PATH - 2 \<Longrightarrow> length out + length ps > VFS_MAX_PATH \<Longrightarrow> ps \<noteq> [] \<Longrightarrow> join_parts out ps = None"
  by (induction out ps rule: join_parts.induct) (auto simp: put_part_def VFS_MAX_PATH_def Let_def)

lemma join_parts_long:
  "k \<le> 15 \<Longrightarrow> length out = 1 + 64 * k \<Longrightarrow> \<forall>p \<in> set ps. length p = 63 \<Longrightarrow> length ps + k \<ge> 18 \<Longrightarrow> join_parts out ps = None"
proof (induction "15 - k" arbitrary: k out ps)
  case 0
  then have k: "k = 15" "length out = 961" by simp_all
  obtain p q qs where ps: "ps = p # q # qs" using 0 by (cases ps; cases "tl ps") auto
  then have "length p = 63" "length qs \<ge> 1" "qs \<noteq> []" using 0 k by (cases qs; auto)+
  then have "join_parts (put_part out p @ [slash]) (q # qs) = None"
    using k by (intro join_parts_full) (simp_all add: put_part_def VFS_MAX_PATH_def)
  then show ?case by (simp add: ps Let_def)
next
  case (Suc n)
  obtain p q qs where ps: "ps = p # q # qs" using Suc by (cases ps; cases "tl ps") auto
  have put: "put_part out p = out @ p" using Suc ps by (simp add: put_part_def VFS_MAX_PATH_def)
  have "join_parts (out @ p @ [slash]) (q # qs) = None"
    using Suc.hyps(2) Suc.prems ps by (intro Suc.hyps(1) [of "k + 1"]) auto
  then show ?case by (simp add: ps put Let_def)
qed

text \<open>The fact \<open>normalize_long_overflows\<close>: an absolute path of 18 to 31 components of 63 characters makes the
  writer of the result leave the array of 1024 characters that every caller passes.\<close>

theorem normalize_long_overflows:
  assumes "\<forall>c \<in> set ps. length c = 63 \<and> slash \<notin> set c \<and> NUL \<notin> set c" and "18 \<le> length ps" and "length ps < 32"
  shows "vfs_normalize_path cwd (path_text ps) = None"
proof -
  have plain: "\<forall>c \<in> set ps. c \<noteq> [] \<and> slash \<notin> set c" using assms(1) by fastforce
  have nul: "NUL \<notin> set (path_text ps)" using set_path_text [of ps] assms(1) by auto
  have c: "comps (path_text ps) = ps" by (rule comps_path_text [OF plain])
  have "''.'' \<notin> set ps" "''..'' \<notin> set ps" using assms(1) by fastforce+
  then have "path_parts [] (skip_slash (path_text ps)) = Some ps"
    using path_parts_eq [of "skip_slash (path_text ps)" "[]"] assms(1,3) c
    by (simp add: comps_skip short_comps_def PARTS_def walk_plain)
  moreover have "join_parts [slash] ps = None"
    using assms(1,2) by (intro join_parts_long [of 0]) simp_all
  moreover have "absolute (path_text ps)"
    using assms(2) nul by (cases ps) (auto simp: absolute_def char_at_def cstr_no_NUL)
  ultimately show ?thesis
    using nul by (auto simp: vfs_normalize_path_def absolute_def cstr_no_NUL Let_def split: option.split)
qed

theorem normalize_long_overflows_witness:
  "vfs_normalize_path None (path_text (replicate 18 (replicate 63 (CHR ''a'')))) = None"
  by (rule normalize_long_overflows) simp_all

section \<open>One path above another\<close>

lemma vfs_strncmp_prefix: "NUL \<notin> set t \<Longrightarrow> vfs_strncmp s t (length t) = 0 \<longleftrightarrow> take (length t) s = t"
proof (induction t arbitrary: s)
  case (Cons c t)
  then show ?case by (cases s) auto
qed simp

lemma vfs_strncmp_swap: "vfs_strncmp s t n = 0 \<longleftrightarrow> vfs_strncmp t s n = 0"
  by (induction s t n rule: vfs_strncmp.induct) auto

definition boundary :: "string \<Rightarrow> bool" where
  "boundary t \<longleftrightarrow> t = [] \<or> hd t = slash"

lemma boundary_path_text: "boundary (path_text ps)"
  by (cases ps) (simp_all add: boundary_def)

lemma boundary_word:
  assumes "slash \<notin> set p" and "boundary t"
  shows "takeWhile (\<lambda>c. c \<noteq> slash) (p @ t) = p" and "dropWhile (\<lambda>c. c \<noteq> slash) (p @ t) = t"
proof -
  have "\<And>y. y \<in> set p \<Longrightarrow> y \<noteq> slash" using assms(1) by auto
  moreover have "takeWhile (\<lambda>c. c \<noteq> slash) t = []" "dropWhile (\<lambda>c. c \<noteq> slash) t = t"
    using assms(2) by (cases t; simp add: boundary_def)+
  ultimately show "takeWhile (\<lambda>c. c \<noteq> slash) (p @ t) = p" "dropWhile (\<lambda>c. c \<noteq> slash) (p @ t) = t"
    by (simp_all add: takeWhile_append2 dropWhile_append2)
qed

definition clean :: "string list \<Rightarrow> bool" where
  "clean ps \<longleftrightarrow> (\<forall>c \<in> set ps. c \<noteq> [] \<and> slash \<notin> set c \<and> NUL \<notin> set c)"

lemma clean_Cons [simp]: "clean (p # ps) \<longleftrightarrow> p \<noteq> [] \<and> slash \<notin> set p \<and> NUL \<notin> set p \<and> clean ps"
  by (auto simp: clean_def)

lemma clean_Nil [simp]: "clean []"
  by (simp add: clean_def)

lemma path_text_prefix:
  "clean ps \<Longrightarrow> clean qs \<Longrightarrow> boundary t \<Longrightarrow> path_text qs = path_text ps @ t \<Longrightarrow> \<exists>rs. qs = ps @ rs \<and> t = path_text rs"
proof (induction ps arbitrary: qs)
  case (Cons p ps)
  then obtain q qs' where qs: "qs = q # qs'" by (cases qs) auto
  then have eq: "q @ path_text qs' = p @ (path_text ps @ t)" using Cons.prems by simp
  have b: "boundary (path_text ps @ t)" using Cons.prems(3) boundary_path_text [of ps] by (cases ps) (auto simp: boundary_def)
  have "q = p" "path_text qs' = path_text ps @ t"
    using boundary_word [of q "path_text qs'"] boundary_word [of p "path_text ps @ t"] b eq
      boundary_path_text [of qs'] Cons.prems(1,2) qs by auto
  then show ?case using Cons.IH [of qs'] Cons.prems qs by auto
qed simp

lemma clean_no_NUL: "clean ps \<Longrightarrow> NUL \<notin> set (path_text ps)"
  using set_path_text [of ps] by (auto simp: clean_def)

text \<open>The test of the mount table: the mount's path in front, then a slash or the end.\<close>

lemma mount_match_iff:
  assumes "clean ms" and "clean qs"
  shows "vfs_strncmp (path_text qs) (path_text ms) (length (path_text ms)) = 0 \<and>
      char_at (path_text qs) (length (path_text ms)) \<in> {slash, NUL} \<longleftrightarrow> (\<exists>rs. qs = ms @ rs)"
    (is "?c \<longleftrightarrow> ?p")
proof
  have n: "NUL \<notin> set (path_text ms)" "NUL \<notin> set (path_text qs)" using assms by (simp_all add: clean_no_NUL)
  let ?l = "length (path_text ms)"
  { assume ?c
    then have t: "take ?l (path_text qs) = path_text ms" and c: "char_at (path_text qs) ?l \<in> {slash, NUL}"
      using vfs_strncmp_prefix [OF n(1)] by auto
    then have "path_text qs = path_text ms @ drop ?l (path_text qs)" by (metis append_take_drop_id)
    moreover have "boundary (drop ?l (path_text qs))"
    proof (cases "?l < length (path_text qs)")
      case True
      then have "char_at (path_text qs) ?l = path_text qs ! ?l" using n by (simp add: char_at_def cstr_no_NUL)
      moreover have "path_text qs ! ?l \<noteq> NUL" using True n(2) nth_mem by metis
      ultimately show ?thesis using c True by (simp add: boundary_def hd_drop_conv_nth)
    qed (simp add: boundary_def)
    ultimately show ?p using path_text_prefix [OF assms] by blast }
  { assume ?p
    then obtain rs where qs: "qs = ms @ rs" by blast
    have split: "path_text (ms @ rs) = path_text ms @ path_text rs" for ms rs by (induction ms) auto
    have "char_at (path_text qs) ?l \<in> {slash, NUL}"
      using n boundary_path_text [of rs] by (cases "path_text rs") (auto simp: qs split char_at_def cstr_no_NUL nth_append boundary_def)
    then show ?c using vfs_strncmp_prefix [OF n(1)] by (simp add: qs split) }
qed

lemma parent_iff:
  assumes "clean ps" and "clean qs"
  shows "vfs_path_is_parent (root_text ps) (root_text qs) \<longleftrightarrow> (\<exists>rs. qs = ps @ rs)"
proof (cases "ps = []")
  case True
  then show ?thesis
    by (cases qs) (auto simp: vfs_path_is_parent_def root_text_def char_at_def)
next
  case False
  have n: "NUL \<notin> set (path_text ps)" "NUL \<notin> set (path_text qs)" using assms by (simp_all add: clean_no_NUL)
  have two: "1 < length (path_text ps)" using False assms(1) by (cases ps) (auto simp: neq_Nil_conv)
  show ?thesis
  proof (cases "qs = []")
    case True
    obtain p ps' c cs where "ps = (c # cs) # ps'" using False assms(1) by (cases ps) (auto simp: neq_Nil_conv)
    then show ?thesis using True assms(1) by (auto simp: vfs_path_is_parent_def root_text_def strlen_cstr Let_def)
  next
    case qs: False
    show ?thesis
      using mount_match_iff [OF assms] False qs two n
        vfs_strncmp_swap [of "path_text ps" "path_text qs"]
      by (auto simp: vfs_path_is_parent_def root_text_def strlen_cstr cstr_no_NUL Let_def)
  qed
qed

text \<open>The fact \<open>parent_is_prefix\<close>: on normalized paths \<^verbatim>\<open>vfs_path_is_parent\<close> tests whether the components of
  one path are the first components of the other.\<close>

theorem parent_is_prefix:
  assumes "clean ps" and "clean qs"
  shows "vfs_path_is_parent (root_text ps) (root_text qs) \<longleftrightarrow> (\<exists>rs. qs = ps @ rs)"
  by (rule parent_iff [OF assms])

theorem parent_is_prefix_witness:
  "vfs_path_is_parent ''/mnt'' ''/mnt/sda1'' \<and> \<not> vfs_path_is_parent ''/mnt'' ''/mntx'' \<and> vfs_path_is_parent ''/'' ''/mnt''"
  using parent_is_prefix [of "[''mnt'']" "[''mnt'', ''sda1'']"] parent_is_prefix [of "[''mnt'']" "[''mntx'']"]
    parent_is_prefix [of "[]" "[''mnt'']"]
  by (simp add: root_text_def)

end
