(* ===== verification/BosVfs.thy ===== *)
theory BosVfs
  imports BosPath
begin

text \<open>
  The virtual file system of BoredOS (\<^verbatim>\<open>fs/vfs.c\<close>): the mount table, the table of open files and
  the operations that pass a path or a handle to the file system behind it.

  A file system is a record of functions, as in the code; \<open>'s\<close> is the type of the state they share.
  The disks of the disk manager and the working directory of the current process are arguments.
  A \<^verbatim>\<open>vfs_file_t*\<close> and a \<^verbatim>\<open>vfs_mount_t*\<close> are indices of the two static arrays. A result \<open>None\<close> is a
  store outside an array or the use of a null pointer. The arrays a caller passes to be filled are
  always there: the checks for null ones are left out. The spin lock is not modelled: there is one
  thread.
\<close>

section \<open>State\<close>

definition VFS_MAX_MOUNTS :: nat where
  "VFS_MAX_MOUNTS = 16"

definition VFS_MAX_OPEN_FILES :: nat where
  "VFS_MAX_OPEN_FILES = 64"

record vfs_dirent =
  de_name :: string
  de_size :: u32
  de_is_directory :: u8
  de_start_cluster :: u32
  de_write_date :: u16
  de_write_time :: u16

record vfs_statfs =
  total_blocks :: u64
  free_blocks :: u64
  block_size :: u64

text \<open>What the \<^verbatim>\<open>void*\<close> of an open file points to: a handle of a file system, or a disk.\<close>

datatype handle = FsHandle u64 | DiskHandle nat

record 's vfs_ops =
  op_open :: "(u64 \<Rightarrow> string \<Rightarrow> string \<Rightarrow> 's \<Rightarrow> u64 \<times> 's) option"
  op_close :: "(u64 \<Rightarrow> handle \<Rightarrow> 's \<Rightarrow> 's) option"
  op_read :: "(u64 \<Rightarrow> handle \<Rightarrow> string \<Rightarrow> int \<Rightarrow> 's \<Rightarrow> int \<times> string \<times> 's) option"
  op_write :: "(u64 \<Rightarrow> handle \<Rightarrow> string \<Rightarrow> int \<Rightarrow> 's \<Rightarrow> int \<times> 's) option"
  op_seek :: "(u64 \<Rightarrow> handle \<Rightarrow> int \<Rightarrow> int \<Rightarrow> 's \<Rightarrow> int \<times> 's) option"
  op_readdir :: "(u64 \<Rightarrow> string \<Rightarrow> vfs_dirent list \<Rightarrow> int \<Rightarrow> 's \<Rightarrow> int \<times> vfs_dirent list \<times> 's) option"
  op_mkdir :: "(u64 \<Rightarrow> string \<Rightarrow> 's \<Rightarrow> bool \<times> 's) option"
  op_rmdir :: "(u64 \<Rightarrow> string \<Rightarrow> 's \<Rightarrow> bool \<times> 's) option"
  op_unlink :: "(u64 \<Rightarrow> string \<Rightarrow> 's \<Rightarrow> bool \<times> 's) option"
  op_rename :: "(u64 \<Rightarrow> string \<Rightarrow> string \<Rightarrow> 's \<Rightarrow> bool \<times> 's) option"
  op_exists :: "(u64 \<Rightarrow> string \<Rightarrow> 's \<Rightarrow> bool \<times> 's) option"
  op_is_dir :: "(u64 \<Rightarrow> string \<Rightarrow> 's \<Rightarrow> bool \<times> 's) option"
  op_get_info :: "(u64 \<Rightarrow> string \<Rightarrow> vfs_dirent \<Rightarrow> 's \<Rightarrow> int \<times> vfs_dirent \<times> 's) option"
  op_statfs :: "(u64 \<Rightarrow> vfs_statfs \<Rightarrow> 's \<Rightarrow> int \<times> vfs_statfs \<times> 's) option"
  op_get_position :: "(handle \<Rightarrow> 's \<Rightarrow> u32) option"
  op_get_size :: "(handle \<Rightarrow> 's \<Rightarrow> u32) option"

record 's vfs_mount =
  m_path :: string
  m_path_len :: nat
  m_ops :: "'s vfs_ops option"
  m_private :: u64
  m_device :: string
  m_fs_type :: string
  m_active :: bool

record vfs_open_file =
  o_handle :: handle
  o_mount :: "nat option"
  o_valid :: bool
  o_position :: u64
  o_is_device :: bool

record 's vfs_state =
  mounts :: "'s vfs_mount list"
  mount_count :: nat
  open_files :: "vfs_open_file list"
  fs_world :: 's
  vfs_log :: string

record 's disk =
  d_devname :: string
  d_total_sectors :: u32
  d_read_sector :: "u32 \<Rightarrow> 's \<Rightarrow> int \<times> string \<times> 's"

abbreviation vlog :: "string \<Rightarrow> 's vfs_state \<Rightarrow> 's vfs_state" where
  "vlog msg v \<equiv> v\<lparr>vfs_log := vfs_log v @ msg\<rparr>"

definition line :: "string \<Rightarrow> string" where
  "line msg = msg @ [CHR 0x0A]"

section \<open>Look-ups\<close>

text \<open>\<^verbatim>\<open>disk_get_by_name\<close> of \<^verbatim>\<open>dev/disk_manager.c\<close>.\<close>

definition disk_get_by_name :: "string \<Rightarrow> 's disk list \<Rightarrow> nat option" where
  "disk_get_by_name devname ds = find_index (\<lambda>d. strcmp (d_devname d) devname = 0) ds"

text \<open>The loop of \<^verbatim>\<open>vfs_resolve_mount\<close>: the best mount so far and its length.\<close>

fun best_mount :: "string \<Rightarrow> nat \<Rightarrow> 's vfs_mount list \<Rightarrow> nat option \<times> int \<Rightarrow> nat option \<times> int" where
  "best_mount path i [] best = best"
| "best_mount path i (m # ms) (best, best_len) =
     best_mount path (Suc i) ms
       (if \<not> m_active m then (best, best_len)
        else if m_path_len m = 1 \<and> char_at (m_path m) 0 = slash
        then (if best_len < 1 then (Some i, 1) else (best, best_len))
        else if vfs_strncmp path (m_path m) (m_path_len m) = 0 \<and>
                char_at path (m_path_len m) \<in> {slash, NUL} \<and> int (m_path_len m) > best_len
        then (Some i, int (m_path_len m)) else (best, best_len))"

definition vfs_resolve_mount :: "string \<Rightarrow> 's vfs_state \<Rightarrow> nat option \<times> string" where
  "vfs_resolve_mount path v =
     (let (best, best_len) = best_mount path 0 (take (mount_count v) (mounts v)) (None, -1)
      in (best, dropWhile (\<lambda>c. c = slash) (drop (nat best_len) (cstr path))))"

definition the_mount :: "nat \<Rightarrow> 's vfs_state \<Rightarrow> 's vfs_mount" where
  "the_mount i v = mounts v ! i"

text \<open>The path of a caller: the current process's directory, or the root when there is no process.\<close>

definition vfs_normalize_process_path :: "string option \<Rightarrow> string \<Rightarrow> string option" where
  "vfs_normalize_process_path proc_cwd path =
     vfs_normalize_path (Some (case proc_cwd of Some d \<Rightarrow> d | None \<Rightarrow> ''/'')) path"

section \<open>The table of open files\<close>

definition upd_file :: "nat \<Rightarrow> (vfs_open_file \<Rightarrow> vfs_open_file) \<Rightarrow> 's vfs_state \<Rightarrow> 's vfs_state" where
  "upd_file i f v = v\<lparr>open_files := (open_files v)[i := f (open_files v ! i)]\<rparr>"

definition vfs_alloc_file :: "'s vfs_state \<Rightarrow> (nat \<times> 's vfs_state) option" where
  "vfs_alloc_file v =
     map_option (\<lambda>i. (i, upd_file i (\<lambda>f. f\<lparr>o_valid := True, o_handle := FsHandle 0, o_mount := None,
                                          o_position := 0, o_is_device := False\<rparr>) v))
       (find_index (\<lambda>f. \<not> o_valid f) (open_files v))"

definition vfs_free_file :: "nat \<Rightarrow> 's vfs_state \<Rightarrow> 's vfs_state" where
  "vfs_free_file i v =
     upd_file i (\<lambda>f. f\<lparr>o_valid := False, o_handle := FsHandle 0, o_mount := None, o_position := 0,
                       o_is_device := False\<rparr>) v"

definition vfs_init :: "'s vfs_state \<Rightarrow> 's vfs_state" where
  "vfs_init v =
     vlog (line ''[VFS] Ready'') (v\<lparr>mounts := map (\<lambda>m. m\<lparr>m_active := False\<rparr>) (mounts v),
       open_files := map (\<lambda>f. f\<lparr>o_valid := False\<rparr>) (open_files v), mount_count := 0\<rparr>)"

section \<open>Mounting\<close>

text \<open>\<^verbatim>\<open>vfs_strcpy\<close> into an array of \<open>n\<close> characters.\<close>

definition strcpy_into :: "nat \<Rightarrow> string \<Rightarrow> string option" where
  "strcpy_into n s = (if strlen s < n then Some (cstr s) else None)"

definition same_path :: "string \<Rightarrow> 's vfs_mount \<Rightarrow> bool" where
  "same_path p m \<longleftrightarrow> m_active m \<and> strcmp (m_path m) p = 0"

definition vfs_mount ::
    "string \<Rightarrow> string option \<Rightarrow> string option \<Rightarrow> 's vfs_ops option \<Rightarrow> u64 \<Rightarrow> 's vfs_state \<Rightarrow>
     (bool \<times> 's vfs_state) option" where
  "vfs_mount mount_path device fs_type ops fs_private v =
     (if mount_count v \<ge> VFS_MAX_MOUNTS then Some (False, vlog (line ''[VFS] ERROR: Mount table full'') v)
      else if \<exists>m \<in> set (take (mount_count v) (mounts v)). same_path mount_path m
      then Some (False, vlog (line (''[VFS] ERROR: Mount point already in use: '' @ cstr mount_path)) v)
      else do {
        let dev = (case device of Some d \<Rightarrow> d | None \<Rightarrow> ''none'');
        p \<leftarrow> strcpy_into 256 mount_path;
        d \<leftarrow> strcpy_into 32 dev;
        t \<leftarrow> strcpy_into 16 (case fs_type of Some t \<Rightarrow> t | None \<Rightarrow> ''unknown'');
        let v = v\<lparr>mounts := (mounts v)[mount_count v :=
                   \<lparr>m_path = p, m_path_len = strlen mount_path, m_ops = ops, m_private = fs_private,
                    m_device = d, m_fs_type = t, m_active = True\<rparr>],
                 mount_count := mount_count v + 1\<rparr>;
        t \<leftarrow> fs_type;
        Some (True, vlog (line (''[VFS] Mounted '' @ cstr t @ '' ('' @ cstr dev @ '') at '' @ cstr mount_path)) v)
      })"

text \<open>The loop of \<^verbatim>\<open>vfs_umount\<close> that closes the files of the mount.\<close>

definition close_on :: "nat \<Rightarrow> nat \<Rightarrow> 's vfs_state option \<Rightarrow> 's vfs_state option" where
  "close_on i j r = do {
     v \<leftarrow> r;
     let f = open_files v ! j;
     if o_valid f \<and> o_mount f = Some i then do {
       ops \<leftarrow> m_ops (the_mount i v);
       let v = (case op_close ops of
                  None \<Rightarrow> v
                | Some close \<Rightarrow> v\<lparr>fs_world := close (m_private (the_mount i v)) (o_handle f) (fs_world v)\<rparr>);
       Some (vfs_free_file j v)
     } else Some v
   }"

definition remove_mount :: "nat \<Rightarrow> 's vfs_state \<Rightarrow> 's vfs_state" where
  "remove_mount i v =
     (let ms = (mounts v)[i := (the_mount i v)\<lparr>m_active := False\<rparr>];
          ms = for_up i (mount_count v - 1) (\<lambda>k ms. ms[k := ms ! (k + 1)]) ms
      in v\<lparr>mounts := ms, mount_count := mount_count v - 1\<rparr>)"

definition vfs_umount :: "string \<Rightarrow> 's vfs_state \<Rightarrow> (bool \<times> 's vfs_state) option" where
  "vfs_umount mount_path v =
     (case find_index (same_path mount_path) (take (mount_count v) (mounts v)) of
        None \<Rightarrow> Some (False, v)
      | Some i \<Rightarrow> do {
          v \<leftarrow> for_up 0 VFS_MAX_OPEN_FILES (close_on i) (Some v);
          let v = vlog (line (''[VFS] Unmounted '' @ cstr (m_path (the_mount i v)))) v;
          Some (True, remove_mount i v)
        })"

section \<open>File operations\<close>

definition dev_prefix :: string where
  "dev_prefix = ''/dev/''"

text \<open>The path handed to a file system: the root of the mount when nothing is left.\<close>

definition or_root :: "string \<Rightarrow> string" where
  "or_root rel = (if rel = [] then ''/'' else rel)"

text \<open>Opening on a mount: an entry of the table first, which goes back when the file system says no.\<close>

definition open_on_mount ::
    "nat \<Rightarrow> string \<Rightarrow> string \<Rightarrow> 's vfs_state \<Rightarrow> (nat option \<times> 's vfs_state) option" where
  "open_on_mount m rel mode v = do {
     ops \<leftarrow> m_ops (the_mount m v);
     Some (case op_open ops of
             None \<Rightarrow> (None, v)
           | Some opn \<Rightarrow>
               (case vfs_alloc_file v of
                  None \<Rightarrow> (None, vlog (line ''[VFS] ERROR: No free file handles'') v)
                | Some (i, v) \<Rightarrow>
                    (let v = upd_file i (\<lambda>f. f\<lparr>o_mount := Some m\<rparr>) v;
                         (h, w) = opn (m_private (the_mount m v)) (or_root rel) (cstr mode) (fs_world v);
                         v = v\<lparr>fs_world := w\<rparr>
                     in if h = 0 then (None, vfs_free_file i v)
                        else (Some i, upd_file i (\<lambda>f. f\<lparr>o_handle := FsHandle h\<rparr>) v))))
   }"

text \<open>The block device that a path below \<^verbatim>\<open>/dev\<close> names, when at most the root is mounted above it.\<close>

definition device_of :: "'s disk list \<Rightarrow> string \<Rightarrow> nat option \<Rightarrow> 's vfs_state \<Rightarrow> nat option" where
  "device_of ds norm mount v =
     (if vfs_starts_with norm dev_prefix \<and>
         (case mount of None \<Rightarrow> True | Some m \<Rightarrow> m_path_len (the_mount m v) = 1)
      then disk_get_by_name (drop 5 norm) ds else None)"

definition vfs_open ::
    "'s disk list \<Rightarrow> string option \<Rightarrow> string option \<Rightarrow> string option \<Rightarrow> 's vfs_state \<Rightarrow>
     (nat option \<times> 's vfs_state) option" where
  "vfs_open ds cwd path mode v =
     (case (path, mode) of
        (Some path, Some mode) \<Rightarrow> do {
          norm \<leftarrow> vfs_normalize_process_path cwd path;
          let (mount, rel) = vfs_resolve_mount norm v;
          (case (device_of ds norm mount v, vfs_alloc_file v) of
             (Some d, Some (i, v)) \<Rightarrow>
               Some (Some i, upd_file i (\<lambda>f. f\<lparr>o_mount := Some 0, o_handle := DiskHandle d,
                                            o_is_device := True, o_position := 0\<rparr>) v)
           | _ \<Rightarrow> (case mount of None \<Rightarrow> Some (None, v) | Some m \<Rightarrow> open_on_mount m rel mode v))
        }
      | _ \<Rightarrow> Some (None, v))"

definition usable_file :: "nat option \<Rightarrow> 's vfs_state \<Rightarrow> (nat \<times> nat) option" where
  "usable_file file v =
     (case file of
        None \<Rightarrow> None
      | Some i \<Rightarrow> (case (o_valid (open_files v ! i), o_mount (open_files v ! i)) of
                    (True, Some m) \<Rightarrow> Some (i, m)
                  | _ \<Rightarrow> None))"

definition vfs_close :: "nat option \<Rightarrow> 's vfs_state \<Rightarrow> 's vfs_state option" where
  "vfs_close file v =
     (case file of
        None \<Rightarrow> Some v
      | Some i \<Rightarrow>
          if \<not> o_valid (open_files v ! i) then Some v
          else (case o_mount (open_files v ! i) of
                  None \<Rightarrow> Some (vfs_free_file i v)
                | Some m \<Rightarrow> do {
                    ops \<leftarrow> m_ops (the_mount m v);
                    let v = (case op_close ops of
                               None \<Rightarrow> v
                             | Some close \<Rightarrow> v\<lparr>fs_world := close (m_private (the_mount m v))
                                                 (o_handle (open_files v ! i)) (fs_world v)\<rparr>);
                    Some (vfs_free_file i v)
                  }))"

text \<open>
  One turn of the reading loop of a raw disk: \<open>None\<close> on a store outside the caller's buffer, and
  a chunk of no bytes when the loop is left.
\<close>

definition read_chunk ::
    "'s disk \<Rightarrow> u32 \<Rightarrow> nat \<Rightarrow> nat \<Rightarrow> nat \<Rightarrow> string \<times> 's \<Rightarrow> (nat \<times> string \<times> 's) option" where
  "read_chunk d sector offset done len st =
     (let (buf, w) = st in
      if sector \<ge> d_total_sectors d then Some (0, buf, w)
      else (let (r, bytes, w) = d_read_sector d sector w in
            if r \<noteq> 0 then Some (0, buf, w)
            else (let k = min (512 - offset) (len - done); part = take k (drop offset bytes)
                  in if done + length part \<le> length buf then Some (k, poke done part buf, w) else None)))"

text \<open>The turns that start at the front of a sector. Each reads something or is the last.\<close>

function read_sectors ::
    "'s disk \<Rightarrow> u32 \<Rightarrow> nat \<Rightarrow> nat \<Rightarrow> string \<times> 's \<Rightarrow> (nat \<times> string \<times> 's) option" where
  "read_sectors d sector done len (buf, w) =
     (if done \<ge> len then Some (done, buf, w)
      else case read_chunk d sector 0 done len (buf, w) of
             None \<Rightarrow> None
           | Some (k, buf, w) \<Rightarrow>
               if k = 0 then Some (done, buf, w) else read_sectors d (sector + 1) (done + k) len (buf, w))"
  by pat_completeness auto
termination
  by (relation "measure (\<lambda>(d, sector, done, len, st). len - done)") auto

definition read_device ::
    "'s disk \<Rightarrow> u64 \<Rightarrow> nat \<Rightarrow> string \<times> 's \<Rightarrow> (nat \<times> string \<times> 's) option" where
  "read_device d position len st =
     (let sector = ucast (position div 512); offset = unat (position mod 512) in
      if len = 0 then Some (0, st)
      else case read_chunk d sector offset 0 len st of
             None \<Rightarrow> None
           | Some (k, st) \<Rightarrow> if k = 0 then Some (0, st) else read_sectors d (sector + 1) k len st)"

definition vfs_read ::
    "'s disk list \<Rightarrow> nat option \<Rightarrow> string \<Rightarrow> int \<Rightarrow> 's vfs_state \<Rightarrow> (int \<times> string \<times> 's vfs_state) option" where
  "vfs_read ds file buf len v =
     (case usable_file file v of
        None \<Rightarrow> Some (-1, buf, v)
      | Some (i, m) \<Rightarrow>
          (case (o_is_device (open_files v ! i), o_handle (open_files v ! i)) of
             (True, DiskHandle d) \<Rightarrow> do {
               (n, buf, w) \<leftarrow> read_device (ds ! d) (o_position (open_files v ! i)) (unat (of_int len :: u32))
                                (buf, fs_world v);
               Some (to_int32 n, buf, upd_file i (\<lambda>f. f\<lparr>o_position := o_position f + of_nat n\<rparr>) (v\<lparr>fs_world := w\<rparr>))
             }
           | (True, FsHandle _) \<Rightarrow> Some (-1, buf, v)
           | _ \<Rightarrow> do {
               ops \<leftarrow> m_ops (the_mount m v);
               (case op_read ops of
                  None \<Rightarrow> Some (-1, buf, v)
                | Some rd \<Rightarrow>
                    (let (r, buf, w) = rd (m_private (the_mount m v)) (o_handle (open_files v ! i)) buf len (fs_world v);
                         v = v\<lparr>fs_world := w\<rparr>
                     in Some (r, buf, if r > 0 then upd_file i (\<lambda>f. f\<lparr>o_position := o_position f + of_int r\<rparr>) v
                                      else v)))
             }))"

definition vfs_write :: "nat option \<Rightarrow> string \<Rightarrow> int \<Rightarrow> 's vfs_state \<Rightarrow> (int \<times> 's vfs_state) option" where
  "vfs_write file buf len v =
     (case usable_file file v of
        None \<Rightarrow> Some (-1, v)
      | Some (i, m) \<Rightarrow> do {
          ops \<leftarrow> m_ops (the_mount m v);
          (case op_write ops of
             None \<Rightarrow> Some (-1, v)
           | Some wr \<Rightarrow>
               (let (r, w) = wr (m_private (the_mount m v)) (o_handle (open_files v ! i)) buf len (fs_world v)
                in Some (r, v\<lparr>fs_world := w\<rparr>)))
        })"

text \<open>
  The new position on a raw disk. The end is computed in 32 bits, and the limit in 64.
\<close>

definition seek_device :: "'s disk \<Rightarrow> int \<Rightarrow> int \<Rightarrow> u64 \<Rightarrow> u64" where
  "seek_device d offset whence position =
     (let new_pos = (if whence = 0 then of_int offset
                     else if whence = 1 then position + of_int offset
                     else if whence = 2 then ucast (d_total_sectors d * 512 + of_int offset :: u32)
                     else position);
          limit = ucast (d_total_sectors d) * 512
      in if new_pos > limit then limit else new_pos)"

definition vfs_seek ::
    "'s disk list \<Rightarrow> nat option \<Rightarrow> int \<Rightarrow> int \<Rightarrow> 's vfs_state \<Rightarrow> (int \<times> 's vfs_state) option" where
  "vfs_seek ds file offset whence v =
     (case usable_file file v of
        None \<Rightarrow> Some (-1, v)
      | Some (i, m) \<Rightarrow>
          (case (o_is_device (open_files v ! i), o_handle (open_files v ! i)) of
             (True, DiskHandle d) \<Rightarrow>
               Some (0, upd_file i (\<lambda>f. f\<lparr>o_position := seek_device (ds ! d) offset whence (o_position f)\<rparr>) v)
           | (True, FsHandle _) \<Rightarrow> Some (-1, v)
           | (False, h) \<Rightarrow> do {
               ops \<leftarrow> m_ops (the_mount m v);
               (case op_seek ops of
                  None \<Rightarrow> Some (-1, v)
                | Some sk \<Rightarrow>
                    (let (r, w) = sk (m_private (the_mount m v)) h offset whence (fs_world v);
                         v = v\<lparr>fs_world := w\<rparr>
                     in Some (r, if r \<noteq> 0 then v
                                 else case op_get_position ops of
                                        Some pos \<Rightarrow> upd_file i (\<lambda>f. f\<lparr>o_position := ucast (pos h (fs_world v))\<rparr>) v
                                      | None \<Rightarrow>
                                          upd_file i (\<lambda>f. f\<lparr>o_position :=
                                            if whence = 0 then of_int offset
                                            else if whence = 1 then o_position f + of_int offset
                                            else o_position f\<rparr>) v)))
             }))"

definition vfs_file_position :: "nat option \<Rightarrow> 's vfs_state \<Rightarrow> u32 option" where
  "vfs_file_position file v =
     (case usable_file file v of
        None \<Rightarrow> Some 0
      | Some (i, m) \<Rightarrow>
          if o_is_device (open_files v ! i) then Some (ucast (o_position (open_files v ! i)))
          else do {
            ops \<leftarrow> m_ops (the_mount m v);
            Some (case op_get_position ops of None \<Rightarrow> 0 | Some pos \<Rightarrow> pos (o_handle (open_files v ! i)) (fs_world v))
          })"

definition vfs_file_size :: "'s disk list \<Rightarrow> nat option \<Rightarrow> 's vfs_state \<Rightarrow> u32 option" where
  "vfs_file_size ds file v =
     (case usable_file file v of
        None \<Rightarrow> Some 0
      | Some (i, m) \<Rightarrow>
          (case (o_is_device (open_files v ! i), o_handle (open_files v ! i)) of
             (True, DiskHandle d) \<Rightarrow> Some (d_total_sectors (ds ! d) * 512)
           | (True, FsHandle _) \<Rightarrow> Some 0
           | (False, h) \<Rightarrow> do {
               ops \<leftarrow> m_ops (the_mount m v);
               Some (case op_get_size ops of None \<Rightarrow> 0 | Some sz \<Rightarrow> sz h (fs_world v))
             }))"

section \<open>Listing a directory\<close>

text \<open>
  A name is looked for among the entries so far and, if there is room, added behind them. The
  fields the code does not assign keep what the caller's array holds.
\<close>

definition add_name ::
    "string \<Rightarrow> (vfs_dirent \<Rightarrow> vfs_dirent) \<Rightarrow> int \<Rightarrow> int \<times> vfs_dirent list \<Rightarrow> (int \<times> vfs_dirent list) option" where
  "add_name name fill max_n st =
     (let (count, es) = st in
      if \<exists>e \<in> set (take (nat count) es). strcmp (de_name e) name = 0 then Some st
      else if count > int (length es) then None
      else if count < max_n
      then (if 0 \<le> count \<and> nat count < length es
            then Some (count + 1, es[nat count := fill ((es ! nat count)\<lparr>de_name := cstr name\<rparr>)]) else None)
      else Some st)"

definition as_directory :: "vfs_dirent \<Rightarrow> vfs_dirent" where
  "as_directory e = e\<lparr>de_is_directory := 1, de_size := 0, de_start_cluster := 0\<rparr>"

text \<open>The first component of a mount point below a directory.\<close>

definition mount_below :: "string \<Rightarrow> 's vfs_mount \<Rightarrow> string option" where
  "mount_below norm m =
     (if \<not> m_active m \<or> strcmp (m_path m) norm = 0 \<or> \<not> vfs_path_is_parent norm (m_path m) then None
      else (let sub = skip_slash (drop (strlen norm) (cstr (m_path m)))
            in if sub = [] then None else Some (take (VFS_MAX_NAME - 1) (takeWhile (\<lambda>c. c \<noteq> slash) sub))))"

fun list_mounts :: "string \<Rightarrow> 's vfs_mount list \<Rightarrow> int \<Rightarrow> int \<times> vfs_dirent list \<Rightarrow> (int \<times> vfs_dirent list) option" where
  "list_mounts norm [] max_n st = Some st"
| "list_mounts norm (m # ms) max_n st =
     (case mount_below norm m of
        None \<Rightarrow> list_mounts norm ms max_n st
      | Some name \<Rightarrow> Option.bind (add_name name as_directory max_n st) (list_mounts norm ms max_n))"

fun list_names :: "string list \<Rightarrow> int \<Rightarrow> int \<times> vfs_dirent list \<Rightarrow> (int \<times> vfs_dirent list) option" where
  "list_names [] max_n st = Some st"
| "list_names (n # ns) max_n st = Option.bind (add_name n as_directory max_n st) (list_names ns max_n)"

definition as_disk :: "'s disk \<Rightarrow> vfs_dirent \<Rightarrow> vfs_dirent" where
  "as_disk d e = e\<lparr>de_size := d_total_sectors d * 512, de_is_directory := 0, de_start_cluster := 0,
                   de_write_date := 0, de_write_time := 0\<rparr>"

fun list_disks :: "'s disk list \<Rightarrow> int \<Rightarrow> int \<times> vfs_dirent list \<Rightarrow> (int \<times> vfs_dirent list) option" where
  "list_disks [] max_n st = Some st"
| "list_disks (d # ds) max_n st =
     (if fst st < max_n then Option.bind (add_name (d_devname d) (as_disk d) max_n st) (list_disks ds max_n)
      else Some st)"

definition virtual_dirs :: "string list" where
  "virtual_dirs = [''dev'', ''sys'', ''proc'']"

text \<open>The number of entries a file system has listed, none when it reports an error.\<close>

definition count_of :: "int \<Rightarrow> int" where
  "count_of count = (if count < 0 then 0 else count)"

definition vfs_list_directory ::
    "'s disk list \<Rightarrow> string option \<Rightarrow> string option \<Rightarrow> vfs_dirent list \<Rightarrow> int \<Rightarrow> 's vfs_state \<Rightarrow>
     (int \<times> vfs_dirent list \<times> 's vfs_state) option" where
  "vfs_list_directory ds cwd path entries max_n v =
     (case path of
        None \<Rightarrow> Some (-1, entries, v)
      | Some path \<Rightarrow> do {
          norm \<leftarrow> vfs_normalize_process_path cwd path;
          let (mount, rel) = vfs_resolve_mount norm v;
          (count, es, w) \<leftarrow>
            (case mount of
               None \<Rightarrow> Some (0, entries, fs_world v)
             | Some m \<Rightarrow> do {
                 ops \<leftarrow> m_ops (the_mount m v);
                 Some (case op_readdir ops of
                         None \<Rightarrow> (0, entries, fs_world v)
                       | Some rd \<Rightarrow> rd (m_private (the_mount m v)) (or_root rel) entries max_n (fs_world v))
               });
          let v = v\<lparr>fs_world := w\<rparr>;
          st \<leftarrow> list_mounts norm (take (mount_count v) (mounts v)) max_n (count_of count, es);
          st \<leftarrow> (if norm = ''/'' then list_names virtual_dirs max_n st else Some st);
          (count, es) \<leftarrow> (if norm = ''/dev'' then list_disks ds max_n st else Some st);
          Some (count, es, v)
        })"

section \<open>Changing and asking for names\<close>

definition change_path ::
    "('s vfs_ops \<Rightarrow> (u64 \<Rightarrow> string \<Rightarrow> 's \<Rightarrow> bool \<times> 's) option) \<Rightarrow> string \<Rightarrow> 's vfs_state \<Rightarrow> (bool \<times> 's vfs_state) option" where
  "change_path sel norm v =
     (let (mount, rel) = vfs_resolve_mount norm v in
      case mount of
        None \<Rightarrow> Some (False, v)
      | Some m \<Rightarrow>
          if vfs_starts_with norm dev_prefix \<and> rel = [] then Some (False, v)
          else do {
            ops \<leftarrow> m_ops (the_mount m v);
            Some (case sel ops of
                    None \<Rightarrow> (False, v)
                  | Some f \<Rightarrow> (let (r, w) = f (m_private (the_mount m v)) rel (fs_world v) in (r, v\<lparr>fs_world := w\<rparr>)))
          })"

definition vfs_mkdir :: "string option \<Rightarrow> string option \<Rightarrow> 's vfs_state \<Rightarrow> (bool \<times> 's vfs_state) option" where
  "vfs_mkdir cwd path v =
     (case path of
        None \<Rightarrow> Some (False, v)
      | Some path \<Rightarrow> do { norm \<leftarrow> vfs_normalize_process_path cwd path; change_path op_mkdir norm v })"

definition protected :: "string \<Rightarrow> bool" where
  "protected norm \<longleftrightarrow> norm = ''/'' \<or> norm = ''/dev''"

definition vfs_rmdir :: "string option \<Rightarrow> string option \<Rightarrow> 's vfs_state \<Rightarrow> (bool \<times> 's vfs_state) option" where
  "vfs_rmdir cwd path v =
     (case path of
        None \<Rightarrow> Some (False, v)
      | Some path \<Rightarrow> do {
          norm \<leftarrow> vfs_normalize_process_path cwd path;
          if protected norm then Some (False, v) else change_path op_rmdir norm v
        })"

definition vfs_delete :: "string option \<Rightarrow> string option \<Rightarrow> 's vfs_state \<Rightarrow> (bool \<times> 's vfs_state) option" where
  "vfs_delete cwd path v =
     (case path of
        None \<Rightarrow> Some (False, v)
      | Some path \<Rightarrow> do {
          norm \<leftarrow> vfs_normalize_process_path cwd path;
          if protected norm then Some (False, v) else change_path op_unlink norm v
        })"

definition vfs_rename ::
    "string option \<Rightarrow> string option \<Rightarrow> string option \<Rightarrow> 's vfs_state \<Rightarrow> (bool \<times> 's vfs_state) option" where
  "vfs_rename cwd old_path new_path v =
     (case (old_path, new_path) of
        (Some old_path, Some new_path) \<Rightarrow> do {
          norm_old \<leftarrow> vfs_normalize_process_path cwd old_path;
          norm_new \<leftarrow> vfs_normalize_process_path cwd new_path;
          let (mount_old, rel_old) = vfs_resolve_mount norm_old v;
          let (mount_new, rel_new) = vfs_resolve_mount norm_new v;
          (case mount_old of
             None \<Rightarrow> Some (False, v)
           | Some m \<Rightarrow>
               if mount_old \<noteq> mount_new then Some (False, v)
               else do {
                 ops \<leftarrow> m_ops (the_mount m v);
                 Some (case op_rename ops of
                         None \<Rightarrow> (False, v)
                       | Some f \<Rightarrow>
                           if rel_old = [] \<or> rel_new = [] then (False, v)
                           else (let (r, w) = f (m_private (the_mount m v)) rel_old rel_new (fs_world v)
                                 in (r, v\<lparr>fs_world := w\<rparr>)))
               })
        }
      | _ \<Rightarrow> Some (False, v))"

definition virtual_path :: "string \<Rightarrow> bool" where
  "virtual_path norm \<longleftrightarrow> norm = ''/dev'' \<or> norm = ''/sys'' \<or> norm = ''/proc''"

definition device_at :: "'s disk list \<Rightarrow> string \<Rightarrow> nat option" where
  "device_at ds norm =
     (if vfs_starts_with norm dev_prefix then disk_get_by_name (drop 5 norm) ds else None)"

text \<open>The last question of a query: to the file system, unless the path is its root.\<close>

definition ask_fs ::
    "('s vfs_ops \<Rightarrow> (u64 \<Rightarrow> string \<Rightarrow> 's \<Rightarrow> bool \<times> 's) option) \<Rightarrow> nat \<Rightarrow> string \<Rightarrow> 's vfs_state \<Rightarrow>
     (bool \<times> 's vfs_state) option" where
  "ask_fs sel m rel v = do {
     ops \<leftarrow> m_ops (the_mount m v);
     Some (case sel ops of
             None \<Rightarrow> (False, v)
           | Some f \<Rightarrow> (let (r, w) = f (m_private (the_mount m v)) rel (fs_world v) in (r, v\<lparr>fs_world := w\<rparr>)))
   }"

definition vfs_exists ::
    "'s disk list \<Rightarrow> string option \<Rightarrow> string option \<Rightarrow> 's vfs_state \<Rightarrow> (bool \<times> 's vfs_state) option" where
  "vfs_exists ds cwd path v =
     (case path of
        None \<Rightarrow> Some (False, v)
      | Some path \<Rightarrow> do {
          norm \<leftarrow> vfs_normalize_process_path cwd path;
          if norm = ''/'' then Some (True, v)
          else if \<exists>m \<in> set (take (mount_count v) (mounts v)). m_active m \<and> vfs_starts_with (m_path m) norm
          then Some (True, v)
          else if virtual_path norm then Some (True, v)
          else if device_at ds norm \<noteq> None then Some (True, v)
          else (let (mount, rel) = vfs_resolve_mount norm v in
                case mount of
                  None \<Rightarrow> Some (False, v)
                | Some m \<Rightarrow> do {
                    ops \<leftarrow> m_ops (the_mount m v);
                    if op_exists ops = None then Some (False, v)
                    else if rel = [] then Some (True, v) else ask_fs op_exists m rel v
                  })
        })"

definition vfs_is_directory ::
    "'s disk list \<Rightarrow> string option \<Rightarrow> string option \<Rightarrow> 's vfs_state \<Rightarrow> (bool \<times> 's vfs_state) option" where
  "vfs_is_directory ds cwd path v =
     (case path of
        None \<Rightarrow> Some (False, v)
      | Some path \<Rightarrow> do {
          norm \<leftarrow> vfs_normalize_process_path cwd path;
          if norm = ''/'' then Some (True, v)
          else if \<exists>m \<in> set (take (mount_count v) (mounts v)). m_active m \<and> vfs_path_is_parent norm (m_path m)
          then Some (True, v)
          else if virtual_path norm then Some (True, v)
          else if device_at ds norm \<noteq> None then Some (False, v)
          else (let (mount, rel) = vfs_resolve_mount norm v in
                case mount of
                  None \<Rightarrow> Some (False, v)
                | Some m \<Rightarrow> if rel = [] then Some (True, v) else ask_fs op_is_dir m rel v)
        })"

definition vfs_statfs ::
    "string option \<Rightarrow> string option \<Rightarrow> vfs_statfs \<Rightarrow> 's vfs_state \<Rightarrow> (int \<times> vfs_statfs \<times> 's vfs_state) option" where
  "vfs_statfs cwd path stat v =
     (case path of
        None \<Rightarrow> Some (-1, stat, v)
      | Some path \<Rightarrow> do {
          norm \<leftarrow> vfs_normalize_process_path cwd path;
          (case fst (vfs_resolve_mount norm v) of
             None \<Rightarrow> Some (-1, stat, v)
           | Some m \<Rightarrow> do {
               ops \<leftarrow> m_ops (the_mount m v);
               Some (case op_statfs ops of
                       Some f \<Rightarrow> (let (r, stat, w) = f (m_private (the_mount m v)) stat (fs_world v)
                                  in (r, stat, v\<lparr>fs_world := w\<rparr>))
                     | None \<Rightarrow> (0, \<lparr>total_blocks = 0, free_blocks = 0, block_size = 512\<rparr>, v))
             })
        })"

definition plain_info :: "string \<Rightarrow> u32 \<Rightarrow> u8 \<Rightarrow> vfs_dirent \<Rightarrow> vfs_dirent option" where
  "plain_info name sz dir info =
     map_option (\<lambda>n. info\<lparr>de_name := n, de_size := sz, de_is_directory := dir, de_start_cluster := 0,
                          de_write_date := 0, de_write_time := 0\<rparr>)
       (strcpy_into VFS_MAX_NAME name)"

text \<open>The part of a path behind its last slash.\<close>

definition last_part :: "string \<Rightarrow> string" where
  "last_part s = rev (takeWhile (\<lambda>c. c \<noteq> slash) (rev (cstr s)))"

definition vfs_get_info ::
    "'s disk list \<Rightarrow> string option \<Rightarrow> string option \<Rightarrow> vfs_dirent \<Rightarrow> 's vfs_state \<Rightarrow>
     (int \<times> vfs_dirent \<times> 's vfs_state) option" where
  "vfs_get_info ds cwd path info v =
     (case path of
        None \<Rightarrow> Some (-1, info, v)
      | Some path \<Rightarrow> do {
          norm \<leftarrow> vfs_normalize_process_path cwd path;
          let found = map_option (\<lambda>e. (0, e, v));
          if norm = ''/'' then found (plain_info ''/'' 0 1 info)
          else if virtual_path norm then found (plain_info (drop 1 norm) 0 1 info)
          else if \<exists>m \<in> set (take (mount_count v) (mounts v)).
                    m_active m \<and> vfs_path_is_parent norm (m_path m) \<and> strcmp (m_path m) norm \<noteq> 0
          then found (plain_info (last_part norm) 0 1 info)
          else (case device_at ds norm of
                  Some d \<Rightarrow> found (plain_info (d_devname (ds ! d)) (d_total_sectors (ds ! d) * 512) 0 info)
                | None \<Rightarrow>
                    (let (mount, rel) = vfs_resolve_mount norm v in
                     case mount of
                       None \<Rightarrow> Some (-1, info, v)
                     | Some m \<Rightarrow> do {
                         ops \<leftarrow> m_ops (the_mount m v);
                         (case op_get_info ops of
                            None \<Rightarrow> Some (-1, info, v)
                          | Some f \<Rightarrow>
                              if rel = [] then found (plain_info (m_device (the_mount m v)) 0 1 info)
                              else (let (r, info, w) = f (m_private (the_mount m v)) rel info (fs_world v)
                                    in Some (r, info, v\<lparr>fs_world := w\<rparr>)))
                       }))
        })"

definition vfs_get_mount_count :: "'s vfs_state \<Rightarrow> nat" where
  "vfs_get_mount_count v = mount_count v"

definition vfs_get_mount :: "int \<Rightarrow> 's vfs_state \<Rightarrow> nat option" where
  "vfs_get_mount index v =
     (if index < 0 \<or> index \<ge> int (mount_count v) then None
      else if \<not> m_active (the_mount (nat index) v) then None else Some (nat index))"

definition vfs_automount_partition :: "string \<Rightarrow> 's vfs_state \<Rightarrow> 's vfs_state" where
  "vfs_automount_partition devname v =
     vlog (line (''[VFS] Auto-mount requested for '' @ cstr devname @ '' at /mnt/'' @ take 57 (cstr devname))) v"

end
