(* ===== verification/BosHandles.thy ===== *)
theory BosHandles
  imports Main
begin

text \<open>
  The contract of a pool of handles: the open files of the virtual file system and the blocks of
  the heap are both handed out and taken back.
\<close>

text \<open>
  What is handed out was free, what is given back is free again, as long as the invariant holds,
  which both keep. A client that runs any calls then holds every used handle exactly once.
\<close>

datatype ('a, 'h) table_event = Acquire 'a | Release 'h

fun table_run ::
    "('a \<Rightarrow> 's \<Rightarrow> ('h option \<times> 's) option) \<Rightarrow> ('h \<Rightarrow> 's \<Rightarrow> 's option) \<Rightarrow> ('a, 'h) table_event list \<Rightarrow>
     'h list \<times> 's \<Rightarrow> ('h list \<times> 's) option" where
  "table_run acq rel [] st = Some st"
| "table_run acq rel (Acquire a # es) (held, s) =
     (case acq a s of
        None \<Rightarrow> None
      | Some (r, s) \<Rightarrow> table_run acq rel es (case r of None \<Rightarrow> held | Some i \<Rightarrow> i # held, s))"
| "table_run acq rel (Release i # es) (held, s) =
     (if i \<in> set held
      then (case rel i s of None \<Rightarrow> None | Some s \<Rightarrow> table_run acq rel es (remove1 i held, s))
      else table_run acq rel es (held, s))"

locale handle_table =
  fixes used :: "'s \<Rightarrow> 'h set"
    and acq :: "'a \<Rightarrow> 's \<Rightarrow> ('h option \<times> 's) option"
    and rel :: "'h \<Rightarrow> 's \<Rightarrow> 's option"
    and inv :: "'s \<Rightarrow> bool"
  assumes acquire_none: "inv s \<Longrightarrow> acq a s = Some (None, s') \<Longrightarrow> inv s' \<and> used s' = used s"
    and acquire_some: "inv s \<Longrightarrow> acq a s = Some (Some i, s') \<Longrightarrow> inv s' \<and> i \<notin> used s \<and> used s' = insert i (used s)"
    and release_law: "inv s \<Longrightarrow> i \<in> used s \<Longrightarrow> rel i s = Some s' \<Longrightarrow> inv s' \<and> used s' = used s - {i}"
begin

lemma run_distinct:
  "table_run acq rel es (held, s) = Some (held', s') \<Longrightarrow> inv s \<Longrightarrow> distinct held \<Longrightarrow> set held = used s \<Longrightarrow>
   inv s' \<and> distinct held' \<and> set held' = used s'"
proof (induction es arbitrary: held s)
  case (Cons e es)
  show ?case
  proof (cases e)
    case (Acquire a)
    then obtain r t where acq: "acq a s = Some (r, t)"
      "table_run acq rel es (case r of None \<Rightarrow> held | Some i \<Rightarrow> i # held, t) = Some (held', s')"
      using Cons.prems(1) by (auto split: option.splits)
    show ?thesis
      using Cons.IH [OF acq(2)] acquire_none [of s a t] acquire_some [of s a _ t] acq(1) Cons.prems(2-4)
      by (cases r) auto
  next
    case (Release i)
    show ?thesis
    proof (cases "i \<in> set held")
      case True
      then obtain t where rel: "rel i s = Some t" "table_run acq rel es (remove1 i held, t) = Some (held', s')"
        using Cons.prems(1) Release by (auto split: option.splits)
      show ?thesis
        using Cons.IH [OF rel(2)] release_law [OF _ _ rel(1)] Cons.prems(2-4) True by (simp add: distinct_remove1)
    next
      case False
      then show ?thesis using Cons.IH Cons.prems Release by simp
    qed
  qed
qed simp

end

end
