(* ===== verification/BosVfsLaws.thy ===== *)
theory BosVfsLaws
  imports BosVfs BosHandles
begin

text \<open>
  What the virtual file system of BoredOS promises: a path is served by the mount with the longest
  path above it, open and close hand out and take back one entry of the table; and where the code
  departs from it: a mount's index outlives the compaction of the table, a disk is handed to a file
  system as if it were its handle, the end of a large disk wraps.
\<close>

section \<open>The longest mount\<close>

text \<open>A mount table as \<^verbatim>\<open>vfs_mount\<close> fills it from normalized paths.\<close>

definition mount_ok :: "'s vfs_mount \<Rightarrow> bool" where
  "mount_ok m \<longleftrightarrow> (\<exists>ms. clean ms \<and> m_path m = root_text ms) \<and> m_path_len m = length (m_path m)"

definition mount_comps :: "'s vfs_mount \<Rightarrow> string list" where
  "mount_comps m = comps (m_path m)"

definition serves :: "'s vfs_mount \<Rightarrow> string list \<Rightarrow> bool" where
  "serves m qs \<longleftrightarrow> m_active m \<and> (\<exists>rs. qs = mount_comps m @ rs)"

lemma mount_okD:
  assumes "mount_ok m"
  shows "clean (mount_comps m)" and "m_path m = root_text (mount_comps m)" and "m_path_len m = length (m_path m)"
  using assms comps_root_text by (auto simp: mount_ok_def mount_comps_def clean_def)

lemma root_text_length: "clean ms \<Longrightarrow> length (root_text ms) = 1 \<longleftrightarrow> ms = []"
  by (cases ms) (auto simp: root_text_def neq_Nil_conv)

text \<open>The test of one mount by the loop of \<^verbatim>\<open>vfs_resolve_mount\<close>.\<close>

lemma mount_test:
  assumes "mount_ok m" and "clean qs"
  shows "m_path_len m = 1 \<and> char_at (m_path m) 0 = slash \<longleftrightarrow> mount_comps m = []"
    and "mount_comps m \<noteq> [] \<Longrightarrow> vfs_strncmp (root_text qs) (m_path m) (m_path_len m) = 0 \<and>
      char_at (root_text qs) (m_path_len m) \<in> {slash, NUL} \<longleftrightarrow> (\<exists>rs. qs = mount_comps m @ rs)"
proof -
  note m = mount_okD [OF assms(1)]
  show "m_path_len m = 1 \<and> char_at (m_path m) 0 = slash \<longleftrightarrow> mount_comps m = []"
    using m root_text_length [OF m(1)] by (auto simp: root_text_def char_at_def)
  assume ne: "mount_comps m \<noteq> []"
  then have p: "m_path m = path_text (mount_comps m)" using m(2) by (simp add: root_text_def)
  show "vfs_strncmp (root_text qs) (m_path m) (m_path_len m) = 0 \<and>
      char_at (root_text qs) (m_path_len m) \<in> {slash, NUL} \<longleftrightarrow> (\<exists>rs. qs = mount_comps m @ rs)"
  proof (cases "qs = []")
    case False
    then show ?thesis using mount_match_iff [OF m(1) assms(2)] m(3) p by (simp add: root_text_def)
  next
    case True
    obtain x c cs xs where "mount_comps m = (c # cs) # xs" using ne m(1) by (cases "mount_comps m") (auto simp: neq_Nil_conv)
    then show ?thesis using True p m(3) m(1) by (auto simp: root_text_def)
  qed
qed

definition best_so_far :: "string list \<Rightarrow> 's vfs_mount list \<Rightarrow> nat option \<times> int \<Rightarrow> bool" where
  "best_so_far qs ms best \<longleftrightarrow>
     (\<forall>m \<in> set ms. serves m qs \<longrightarrow> int (length (m_path m)) \<le> snd best) \<and>
     (case fst best of
        None \<Rightarrow> snd best = -1
      | Some i \<Rightarrow> i < length ms \<and> serves (ms ! i) qs \<and> snd best = int (length (m_path (ms ! i))))"

lemma best_mount_law:
  assumes "clean qs"
  shows "\<forall>m \<in> set (ms @ ns). mount_ok m \<Longrightarrow> best_so_far qs ms best \<Longrightarrow>
    best_so_far qs (ms @ ns) (best_mount (root_text qs) (length ms) ns best)"
proof (induction ns arbitrary: ms best)
  case (Cons m ns)
  obtain b l where best: "best = (b, l)" by (cases best)
  have m: "mount_ok m" using Cons.prems(1) by simp
  note test = mount_test [OF m assms] and pl = mount_okD(3) [OF m]
  let ?root = "m_path_len m = 1 \<and> char_at (m_path m) 0 = slash"
  let ?hit = "vfs_strncmp (root_text qs) (m_path m) (m_path_len m) = 0 \<and>
      char_at (root_text qs) (m_path_len m) \<in> {slash, NUL}"
  define b1 where "b1 =
       (if \<not> m_active m then (b, l) else if ?root then (if l < 1 then (Some (length ms), 1) else (b, l))
        else if ?hit \<and> int (m_path_len m) > l then (Some (length ms), int (m_path_len m)) else (b, l))"
  have old: "best_so_far qs ms (b, l)" using Cons.prems(2) best by simp
  have serves_eq: "serves m qs \<longleftrightarrow> m_active m \<and> (?root \<or> \<not> ?root \<and> ?hit)"
    using test by (auto simp: serves_def)
  have keep: "best_so_far qs (ms @ [m]) (b, l)" if "serves m qs \<Longrightarrow> int (length (m_path m)) \<le> l"
    using old that by (auto simp: best_so_far_def nth_append split: option.splits)
  have take_m: "best_so_far qs (ms @ [m]) (Some (length ms), int (length (m_path m)))"
    if "serves m qs" "l < int (length (m_path m))"
    using old that by (fastforce simp: best_so_far_def)
  have "best_so_far qs (ms @ [m]) b1"
    using keep take_m serves_eq pl by (auto simp: b1_def)
  moreover have "best_mount (root_text qs) (length ms) (m # ns) best
      = best_mount (root_text qs) (length (ms @ [m])) ns b1"
    unfolding best b1_def best_mount.simps conj_assoc by simp
  ultimately show ?case using Cons.IH [of "ms @ [m]" b1] Cons.prems(1) by simp
qed simp

text \<open>Of two mounts that serve a path, the one with more components has the longer text.\<close>

lemma path_text_append: "path_text (ms @ rs) = path_text ms @ path_text rs"
  by (induction ms) auto

lemma longer_text:
  assumes "qs = as @ rs" and "qs = bs @ ts" and "length (root_text as) \<le> length (root_text bs)" and "clean qs"
  shows "length as \<le> length bs"
proof (rule ccontr)
  assume "\<not> length as \<le> length bs"
  then obtain c cs where as: "as = bs @ c # cs"
    using assms(1,2) by (metis append_eq_append_conv_if append_take_drop_id linear neq_Nil_conv self_append_conv append.right_neutral)
  have "c \<noteq> []" using assms(1,4) as by (auto simp: clean_def)
  then have "length (root_text bs) < length (root_text as)"
    using as by (cases bs) (auto simp: root_text_def path_text_append neq_Nil_conv)
  then show False using assms(3) by simp
qed

lemma comps_dropWhile: "comps (dropWhile (\<lambda>c. c = slash) s) = comps s"
  by (induction s) auto

text \<open>C28 (resolve_longest_mount): on a table of normalized mount points \<^verbatim>\<open>vfs_resolve_mount\<close> finds the active
  mount with the most components in front of the path, and the path below it; it finds none only
  when no active mount lies above the path.\<close>

theorem resolve_longest_mount:
  assumes "\<forall>m \<in> set (take (mount_count v) (mounts v)). mount_ok m" and "clean qs"
  shows "case vfs_resolve_mount (root_text qs) v of
      (None, rel) \<Rightarrow> \<forall>m \<in> set (take (mount_count v) (mounts v)). \<not> serves m qs
    | (Some i, rel) \<Rightarrow> i < mount_count v \<and> serves (the_mount i v) qs \<and>
        qs = mount_comps (the_mount i v) @ comps rel \<and>
        (\<forall>m \<in> set (take (mount_count v) (mounts v)). serves m qs \<longrightarrow>
           length (mount_comps m) \<le> length (mount_comps (the_mount i v)))"
proof -
  let ?ms = "take (mount_count v) (mounts v)"
  obtain b l where best: "best_mount (root_text qs) 0 ?ms (None, -1) = (b, l)" by fastforce
  have "best_so_far qs [] (None, -1)" by (simp add: best_so_far_def)
  then have law: "best_so_far qs ?ms (b, l)"
    using best_mount_law [OF assms(2), of "[]" ?ms "(None, -1)"] assms(1) best by simp
  have n: "NUL \<notin> set (root_text qs)" using clean_no_NUL [OF assms(2)] by (simp add: root_text_def)
  show ?thesis
  proof (cases b)
    case None
    then show ?thesis using law best by (force simp: vfs_resolve_mount_def best_so_far_def)
  next
    case (Some i)
    then have i: "i < length ?ms" "serves (?ms ! i) qs" "l = int (length (m_path (?ms ! i)))"
      and all: "\<forall>m \<in> set ?ms. serves m qs \<longrightarrow> length (m_path m) \<le> length (m_path (?ms ! i))"
      using law by (auto simp: best_so_far_def)
    have mi: "?ms ! i = the_mount i v" using i(1) by (simp add: the_mount_def)
    let ?m = "the_mount i v"
    have ok: "mount_ok ?m" using assms(1) i(1) mi nth_mem by metis
    obtain rs where rs: "qs = mount_comps ?m @ rs" using i(2) mi by (auto simp: serves_def)
    have "comps (drop (length (m_path ?m)) (root_text qs)) = rs"
    proof (cases "mount_comps ?m = []")
      case True
      then have "drop (length (m_path ?m)) (root_text qs) = tl (root_text qs)"
        using mount_okD(2) [OF ok] by (simp add: root_text_def drop_Suc)
      moreover have "comps (root_text qs) = qs" using assms(2) by (intro comps_root_text) (auto simp: clean_def)
      moreover have "root_text qs = slash # tl (root_text qs)" by (cases qs) (simp_all add: root_text_def)
      ultimately show ?thesis using rs True by (metis append_Nil comps_slash)
    next
      case False
      then have "drop (length (m_path ?m)) (root_text qs) = path_text rs"
        using mount_okD(2) [OF ok] rs by (simp add: root_text_def path_text_append)
      then show ?thesis using assms(2) rs by (simp add: comps_path_text clean_def)
    qed
    moreover have "length (mount_comps m) \<le> length (mount_comps ?m)" if m: "m \<in> set ?ms" and sv: "serves m qs" for m
    proof -
      obtain ts where ts: "qs = mount_comps m @ ts" using sv by (auto simp: serves_def)
      have "length (root_text (mount_comps m)) \<le> length (root_text (mount_comps ?m))"
        using all m sv mi mount_okD(2) [OF ok] mount_okD(2) [of m] assms(1) by metis
      then show ?thesis by (rule longer_text [OF ts rs _ assms(2)])
    qed
    ultimately show ?thesis
      using Some i mi rs best n by (auto simp: vfs_resolve_mount_def cstr_no_NUL comps_dropWhile)
  qed
qed

text \<open>A small system for the examples.\<close>

definition empty_ops :: "unit vfs_ops" where
  "empty_ops = \<lparr>op_open = Some (\<lambda>p path mode w. (1, w)), op_close = Some (\<lambda>p h w. w), op_read = None,
     op_write = None, op_seek = None, op_readdir = None, op_mkdir = None, op_rmdir = None, op_unlink = None,
     op_rename = None, op_exists = None, op_is_dir = None, op_get_info = None, op_statfs = None,
     op_get_position = None, op_get_size = None\<rparr>"

definition mount_on :: "string list \<Rightarrow> u64 \<Rightarrow> 's vfs_ops \<Rightarrow> 's vfs_mount" where
  "mount_on ms priv ops = \<lparr>m_path = root_text ms, m_path_len = length (root_text ms), m_ops = Some ops,
     m_private = priv, m_device = ''none'', m_fs_type = ''ramfs'', m_active = True\<rparr>"

definition closed_file :: vfs_open_file where
  "closed_file = \<lparr>o_handle = FsHandle 0, o_mount = None, o_valid = False, o_position = 0, o_is_device = False\<rparr>"

definition small_vfs :: "unit vfs_state" where
  "small_vfs = \<lparr>mounts = [mount_on [] 1 empty_ops, mount_on [''mnt''] 2 empty_ops], mount_count = 2,
     open_files = [closed_file, closed_file, closed_file], fs_world = (), vfs_log = []\<rparr>"

definition taken_file :: "nat \<Rightarrow> vfs_open_file" where
  "taken_file m = \<lparr>o_handle = FsHandle 1, o_mount = Some m, o_valid = True, o_position = 0, o_is_device = False\<rparr>"

lemmas vfs_run_defs = vfs_open_def vfs_normalize_process_path_def vfs_normalize_path_def PARTS_def VFS_MAX_PATH_def
  first_comp_def after_comp_def skip_slash_def char_at_def put_part_def vfs_resolve_mount_def device_of_def dev_prefix_def
  vfs_starts_with_def open_on_mount_def vfs_alloc_file_def upd_file_def the_mount_def or_root_def mount_on_def root_text_def

lemma small_mounts_ok: "\<forall>m \<in> set (take (mount_count small_vfs) (mounts small_vfs)). mount_ok m"
  by (auto simp: small_vfs_def mount_on_def mount_ok_def intro: exI [of _ "[]"] exI [of _ "[''mnt'']"])

theorem resolve_longest_mount_witness:
  "vfs_resolve_mount ''/mnt/b/c'' small_vfs = (Some 1, ''b/c'') \<and>
   [''mnt'', ''b'', ''c''] = mount_comps (the_mount 1 small_vfs) @ comps ''b/c''"
proof -
  have "vfs_resolve_mount ''/mnt/b/c'' small_vfs = (Some 1, ''b/c'')"
    by (simp add: small_vfs_def vfs_run_defs)
  then show ?thesis
    using resolve_longest_mount [OF small_mounts_ok, of "[''mnt'', ''b'', ''c'']"] by (simp add: root_text_def)
qed

section \<open>Handles\<close>

definition used_handles :: "'s vfs_state \<Rightarrow> nat set" where
  "used_handles v = {i. i < length (open_files v) \<and> o_valid (open_files v ! i)}"

definition open_request ::
    "'s disk list \<Rightarrow> string option \<Rightarrow> string option \<times> string option \<Rightarrow> 's vfs_state \<Rightarrow> (nat option \<times> 's vfs_state) option" where
  "open_request ds cwd pm v = vfs_open ds cwd (fst pm) (snd pm) v"

definition close_request :: "nat \<Rightarrow> 's vfs_state \<Rightarrow> 's vfs_state option" where
  "close_request i v = vfs_close (Some i) v"

lemma used_world [simp]:
  "used_handles (v\<lparr>fs_world := w\<rparr>) = used_handles v" "used_handles (v\<lparr>vfs_log := l\<rparr>) = used_handles v"
  by (simp_all add: used_handles_def)

lemma used_upd_file:
  "i < length (open_files v) \<Longrightarrow> used_handles (upd_file i f v) =
     (if o_valid (f (open_files v ! i)) then insert i (used_handles v) else used_handles v - {i})"
  by (auto simp: used_handles_def upd_file_def nth_list_update)

lemma alloc_file_SomeD:
  assumes "vfs_alloc_file v = Some (i, u)"
  shows "i < length (open_files v)" "i \<notin> used_handles v" "used_handles u = insert i (used_handles v)"
    "length (open_files u) = length (open_files v)" "mounts u = mounts v" "fs_world u = fs_world v" "o_valid (open_files u ! i)"
  using assms find_index_SomeD [of "\<lambda>f. \<not> o_valid f" "open_files v" i]
  by (auto simp: vfs_alloc_file_def used_upd_file) (auto simp: used_handles_def upd_file_def)

lemma upd_file_keeps [simp]:
  "length (open_files (upd_file i f v)) = length (open_files v)" "mounts (upd_file i f v) = mounts v"
  "fs_world (upd_file i f v) = fs_world v"
  by (simp_all add: upd_file_def)

lemma used_free:
  "i < length (open_files v) \<Longrightarrow> used_handles (vfs_free_file i v) = used_handles v - {i}"
  by (simp add: vfs_free_file_def used_upd_file)

lemma used_upd_keep [simp]:
  "(\<And>x. o_valid (f x) = o_valid x) \<Longrightarrow> used_handles (upd_file i f v) = used_handles v"
proof -
  assume f: "\<And>x. o_valid (f x) = o_valid x"
  have "o_valid ((open_files v)[i := f (open_files v ! i)] ! j) = o_valid (open_files v ! j)"
    if "j < length (open_files v)" for j
    using that f [of "open_files v ! i"] by (cases "j = i") simp_all
  then show ?thesis by (auto simp: used_handles_def upd_file_def)
qed

definition pool_step :: "nat set \<Rightarrow> nat option \<Rightarrow> nat set \<Rightarrow> bool" where
  "pool_step us r us' \<longleftrightarrow> (case r of None \<Rightarrow> us' = us | Some i \<Rightarrow> i \<notin> us \<and> us' = insert i us)"

lemma open_on_mount_law:
  assumes "open_on_mount m rel mode v = Some (r, u)"
  shows "pool_step (used_handles v) r (used_handles u)"
proof -
  from assms obtain ops where ops: "m_ops (the_mount m v) = Some ops"
    by (auto simp: open_on_mount_def split: bind_splits)
  show ?thesis
  proof (cases "op_open ops")
    case None
    then show ?thesis using assms ops by (simp add: open_on_mount_def pool_step_def)
  next
    case opn: (Some opn)
    show ?thesis
    proof (cases "vfs_alloc_file v")
      case None
      then show ?thesis using assms ops opn by (auto simp: open_on_mount_def pool_step_def)
    next
      case (Some p)
      then obtain i t where a: "vfs_alloc_file v = Some (i, t)" by (cases p) auto
      note al = alloc_file_SomeD [OF a]
      let ?t = "upd_file i (\<lambda>f. f\<lparr>o_mount := Some m\<rparr>) t"
      obtain h w where hw: "opn (m_private (the_mount m ?t)) (or_root rel) (cstr mode) (fs_world ?t) = (h, w)" by fastforce
      have "r = (if h = 0 then None else Some i)"
        and "u = (if h = 0 then vfs_free_file i (?t\<lparr>fs_world := w\<rparr>)
                  else upd_file i (\<lambda>f. f\<lparr>o_handle := FsHandle h\<rparr>) (?t\<lparr>fs_world := w\<rparr>))"
        using assms ops opn a hw by (auto simp: open_on_mount_def Let_def split: if_splits)
      moreover have "used_handles ?t = insert i (used_handles v)" using al(3) by simp
      moreover have "i < length (open_files (?t\<lparr>fs_world := w\<rparr>))" using al(1,4) by simp
      ultimately show ?thesis using al(2) used_free [of i "?t\<lparr>fs_world := w\<rparr>"] by (simp add: pool_step_def)
    qed
  qed
qed

lemma open_law:
  assumes "vfs_open ds cwd path mode v = Some (r, u)"
  shows "pool_step (used_handles v) r (used_handles u)"
proof (cases "path = None \<or> mode = None")
  case True
  then show ?thesis using assms by (auto simp: vfs_open_def pool_step_def split: option.splits)
next
  case False
  then obtain p md where pm: "path = Some p" "mode = Some md" by auto
  then obtain norm where norm: "vfs_normalize_process_path cwd p = Some norm"
    using assms by (auto simp: vfs_open_def split: bind_splits)
  obtain mount rel where m: "vfs_resolve_mount norm v = (mount, rel)" by fastforce
  show ?thesis
  proof (cases "device_of ds norm mount v \<noteq> None \<and> vfs_alloc_file v \<noteq> None")
    case True
    then obtain d i t where d: "device_of ds norm mount v = Some d" and a: "vfs_alloc_file v = Some (i, t)" by auto
    then have "r = Some i" "u = upd_file i (\<lambda>f. f\<lparr>o_mount := Some 0, o_handle := DiskHandle d,
        o_is_device := True, o_position := 0\<rparr>) t"
      using assms pm norm m by (auto simp: vfs_open_def)
    then show ?thesis using alloc_file_SomeD [OF a] by (simp add: pool_step_def)
  next
    case False
    then have "(case mount of None \<Rightarrow> Some (None, v) | Some k \<Rightarrow> open_on_mount k rel md v) = Some (r, u)"
      using assms pm norm m by (auto simp: vfs_open_def split: option.splits)
    then show ?thesis using open_on_mount_law by (cases mount) (auto simp: pool_step_def)
  qed
qed

lemma close_law:
  assumes "i \<in> used_handles v" and "vfs_close (Some i) v = Some u"
  shows "used_handles u = used_handles v - {i}"
  using assms
  by (auto simp: vfs_close_def Let_def used_handles_def vfs_free_file_def upd_file_def nth_list_update
      split: option.splits if_splits bind_splits)

interpretation file_handles: handle_table used_handles "open_request ds cwd" close_request "\<lambda>v. True" for ds cwd
proof (unfold_locales, goal_cases)
  case (1 s a s')
  then show ?case using open_law [of ds cwd "fst a" "snd a" s None s'] by (simp add: open_request_def pool_step_def)
next
  case (2 s a i s')
  then show ?case using open_law [of ds cwd "fst a" "snd a" s "Some i" s'] by (simp add: open_request_def pool_step_def)
next
  case (3 s i s')
  then show ?case by (auto simp: close_request_def dest: close_law)
qed

text \<open>C29 (vfs_handles_distinct): any sequence of opens, failing ones included, and closes of held handles
  leaves the client with distinct handles, and they are exactly the entries of the table in use.\<close>

theorem vfs_handles_distinct:
  assumes "used_handles v = {}" and "table_run (open_request ds cwd) close_request es ([], v) = Some (held, u)"
  shows "distinct held \<and> set held = used_handles u"
  using file_handles.run_distinct [OF assms(2)] assms(1) by simp

lemma small_vfs_runs:
  "vfs_open [] None (Some ''/a'') (Some ''r'') small_vfs =
     Some (Some 0, small_vfs\<lparr>open_files := [taken_file 0, closed_file, closed_file]\<rparr>)"
  "vfs_open [] None (Some ''/mnt/b'') (Some ''r'') (small_vfs\<lparr>open_files := [taken_file 0, closed_file, closed_file]\<rparr>) =
     Some (Some 1, small_vfs\<lparr>open_files := [taken_file 0, taken_file 1, closed_file]\<rparr>)"
  "vfs_close (Some 0) (small_vfs\<lparr>open_files := [taken_file 0, taken_file 1, closed_file]\<rparr>) =
     Some (small_vfs\<lparr>open_files := [closed_file, taken_file 1, closed_file]\<rparr>)"
  by (simp_all add: small_vfs_def taken_file_def empty_ops_def closed_file_def vfs_run_defs vfs_close_def vfs_free_file_def
      eval_nat_numeral Let_def)

theorem vfs_handles_distinct_witness:
  "\<exists>held u. table_run (open_request [] None) close_request
      [Acquire (Some ''/a'', Some ''r''), Acquire (Some ''/mnt/b'', Some ''r''), Release 0] ([], small_vfs) = Some (held, u) \<and>
    held = [1] \<and> distinct held \<and> set held = used_handles u"
proof -
  let ?es = "[Acquire (Some ''/a'', Some ''r''), Acquire (Some ''/mnt/b'', Some ''r''), Release 0]"
  have "used_handles small_vfs = {}"
    by (auto simp: used_handles_def small_vfs_def closed_file_def nth_Cons split: nat.splits)
  moreover obtain u where "table_run (open_request [] None) close_request ?es ([], small_vfs) = Some ([1], u)"
    by (simp add: open_request_def close_request_def small_vfs_runs [unfolded One_nat_def])
  ultimately show ?thesis using vfs_handles_distinct by blast
qed

section \<open>Indices that outlive the compaction\<close>

lemma close_on_keeps:
  assumes "m_ops (the_mount i v) \<noteq> None" and "o_mount (open_files v ! f) \<noteq> Some i"
  shows "\<exists>u. for_up 0 n (close_on i) (Some v) = Some u \<and> mounts u = mounts v \<and> mount_count u = mount_count v \<and>
    open_files u ! f = open_files v ! f"
proof (rule for_up_keeps [where P = "\<lambda>r. \<exists>u. r = Some u \<and> mounts u = mounts v \<and> mount_count u = mount_count v \<and>
    open_files u ! f = open_files v ! f"])
  fix j and r :: "'a vfs_state option"
  assume "\<exists>u. r = Some u \<and> mounts u = mounts v \<and> mount_count u = mount_count v \<and> open_files u ! f = open_files v ! f"
  then obtain u where u: "r = Some u" "mounts u = mounts v" "mount_count u = mount_count v" "open_files u ! f = open_files v ! f"
    by blast
  obtain ops where ops: "m_ops (the_mount i u) = Some ops" using assms(1) u(2) by (auto simp: the_mount_def)
  show "\<exists>u. close_on i j r = Some u \<and> mounts u = mounts v \<and> mount_count u = mount_count v \<and> open_files u ! f = open_files v ! f"
    using u ops assms(2)
    by (cases "j = f") (auto simp: close_on_def vfs_free_file_def upd_file_def Let_def split: option.split)
qed simp

lemma shift_mounts_nth:
  assumes "i < n" and "n \<le> length ms"
  shows "\<forall>j < length ms. for_up i (n - 1) (\<lambda>k ms. ms[k := ms ! (k + 1)]) ms ! j =
      (if i \<le> j \<and> j < n - 1 then ms ! (j + 1) else ms ! j)"
proof -
  have "length (for_up i (n - 1) (\<lambda>k ms. ms[k := ms ! (k + 1)]) ms) = length ms \<and>
    (\<forall>j < length ms. for_up i (n - 1) (\<lambda>k ms. ms[k := ms ! (k + 1)]) ms ! j =
      (if i \<le> j \<and> j < n - 1 then ms ! (j + 1) else ms ! j))"
  proof (rule for_up_inv [where P = "\<lambda>k t. length t = length ms \<and>
      (\<forall>j < length ms. t ! j = (if i \<le> j \<and> j < k then ms ! (j + 1) else ms ! j))"], goal_cases)
    case (2 k t)
    then show ?case using assms by (auto simp: nth_list_update less_Suc_eq)
  qed (use assms in auto)
  then show ?thesis by blast
qed

text \<open>C32 (umount_strands_files): unmounting one file system moves the later ones down by one place, but
  their open files keep the index: a read on a file of the next mount is served, with that
  file's handle, by the mount after it.\<close>

theorem umount_strands_files:
  assumes "find_index (same_path p) (take (mount_count v) (mounts v)) = Some i" and "m_ops (the_mount i v) \<noteq> None"
    and "i < j" and "j + 1 < mount_count v" and "mount_count v \<le> length (mounts v)"
    and "o_valid (open_files v ! f)" and "o_mount (open_files v ! f) = Some j" and "\<not> o_is_device (open_files v ! f)"
    and "m_ops (the_mount (j + 1) v) = Some ops" and "op_read ops = Some rd"
  shows "\<exists>u. vfs_umount p v = Some (True, u) \<and>
    map_option (\<lambda>(r, buf, _). (r, buf)) (vfs_read ds (Some f) buf n u) =
      (let (r, buf, w) = rd (m_private (the_mount (j + 1) v)) (o_handle (open_files v ! f)) buf n (fs_world u)
       in Some (r, buf))"
proof -
  have "o_mount (open_files v ! f) \<noteq> Some i" using assms(3,7) by simp
  from close_on_keeps [OF assms(2) this, of VFS_MAX_OPEN_FILES] obtain t where
    t: "for_up 0 VFS_MAX_OPEN_FILES (close_on i) (Some v) = Some t" "mounts t = mounts v" "mount_count t = mount_count v"
      "open_files t ! f = open_files v ! f" by blast
  let ?u = "remove_mount i (vlog (line (''[VFS] Unmounted '' @ cstr (m_path (the_mount i t)))) t)"
  have un: "vfs_umount p v = Some (True, ?u)" by (simp add: vfs_umount_def assms(1) t(1))
  have "i < mount_count v" using assms(3,4) by simp
  then have "the_mount j ?u = mounts v ! (j + 1)"
    using shift_mounts_nth [of i "mount_count v" "(mounts v)[i := (mounts v ! i)\<lparr>m_active := False\<rparr>]"] assms(3,4,5)
    by (simp add: remove_mount_def the_mount_def t(2,3) Let_def)
  moreover have "open_files ?u ! f = open_files v ! f" by (simp add: remove_mount_def t(4))
  ultimately have "map_option (\<lambda>(r, buf, _). (r, buf)) (vfs_read ds (Some f) buf n ?u) =
      (let (r, buf, w) = rd (m_private (the_mount (j + 1) v)) (o_handle (open_files v ! f)) buf n (fs_world ?u)
       in Some (r, buf))"
    using assms(6-10) by (simp add: vfs_read_def usable_file_def the_mount_def Let_def split_beta split: handle.split)
  then show ?thesis using un by blast
qed

definition reads_back :: "unit vfs_ops" where
  "reads_back = empty_ops\<lparr>op_read := Some (\<lambda>p h buf n w. (of_nat (unat p), buf, w))\<rparr>"

definition three_mounts :: "unit vfs_state" where
  "three_mounts = \<lparr>mounts = [mount_on [''a''] 1 reads_back, mount_on [''b''] 2 reads_back, mount_on [''c''] 3 reads_back],
     mount_count = 3, open_files = [\<lparr>o_handle = FsHandle 7, o_mount = Some 1, o_valid = True, o_position = 0, o_is_device = False\<rparr>],
     fs_world = (), vfs_log = []\<rparr>"

theorem umount_strands_files_witness:
  "map_option (\<lambda>(r, buf, _). (r, buf)) (vfs_read [] (Some 0) [] 1 three_mounts) = Some (2, []) \<and>
   (\<exists>u. vfs_umount ''/a'' three_mounts = Some (True, u) \<and>
     map_option (\<lambda>(r, buf, _). (r, buf)) (vfs_read [] (Some 0) [] 1 u) = Some (3, []))"
proof -
  have "vfs_read [] (Some 0) [] 1 three_mounts \<noteq> None" and
    before: "map_option (\<lambda>(r, buf, _). (r, buf)) (vfs_read [] (Some 0) [] 1 three_mounts) = Some (2, [])"
    by (simp_all add: vfs_read_def usable_file_def three_mounts_def the_mount_def mount_on_def reads_back_def empty_ops_def)
  have "find_index (same_path ''/a'') (take (mount_count three_mounts) (mounts three_mounts)) = Some 0"
    by (simp add: three_mounts_def same_path_def mount_on_def root_text_def)
  from umount_strands_files [OF this, of 1 0 reads_back "\<lambda>p h buf n w. (of_nat (unat p), buf, w)" "[]" "[]" 1]
  show ?thesis
    using before by (simp add: three_mounts_def the_mount_def mount_on_def reads_back_def empty_ops_def)
qed

section \<open>What a listing holds\<close>

definition listed :: "int \<times> vfs_dirent list \<Rightarrow> string list" where
  "listed st = map (\<lambda>e. cstr (de_name e)) (take (nat (fst st)) (snd st))"

definition listing :: "int \<times> vfs_dirent list \<Rightarrow> bool" where
  "listing st \<longleftrightarrow> 0 \<le> fst st \<and> fst st \<le> int (length (snd st)) \<and> distinct (listed st)"

text \<open>A listing that has grown keeps its names and has no name twice.\<close>

definition grown :: "int \<times> vfs_dirent list \<Rightarrow> int \<times> vfs_dirent list \<Rightarrow> bool" where
  "grown st st' \<longleftrightarrow> listing st' \<and> fst st \<le> fst st' \<and> set (listed st) \<subseteq> set (listed st')"

definition holds_name :: "int \<Rightarrow> string \<Rightarrow> int \<times> vfs_dirent list \<Rightarrow> bool" where
  "holds_name max_n name st \<longleftrightarrow> cstr name \<in> set (listed st) \<or> max_n \<le> fst st"

lemma grown_refl: "listing st \<Longrightarrow> grown st st"
  by (simp add: grown_def)

lemma grown_trans: "grown a b \<Longrightarrow> grown b c \<Longrightarrow> grown a c"
  by (auto simp: grown_def)

lemma grown_listing: "grown a b \<Longrightarrow> listing b"
  by (simp add: grown_def)

lemma grown_holds: "holds_name max_n name a \<Longrightarrow> grown a b \<Longrightarrow> holds_name max_n name b"
  by (auto simp: holds_name_def grown_def)

lemma add_name_grows:
  assumes "listing st" and "add_name name fill max_n st = Some st'" and "\<And>e. de_name (fill e) = de_name e"
  shows "grown st st' \<and> holds_name max_n name st'"
proof -
  obtain c es where st: "st = (c, es)" by (cases st)
  have c: "0 \<le> c" "c \<le> int (length es)" using assms(1) st by (auto simp: listing_def)
  show ?thesis
  proof (cases "cstr name \<in> set (listed st) \<or> max_n \<le> c")
    case True
    then have "st' = st"
      using assms(2) st c by (auto simp: add_name_def strcmp_zero_iff listed_def image_iff split: if_splits)
    then show ?thesis using True assms(1) st by (auto simp: holds_name_def grown_refl)
  next
    case False
    let ?e = "fill ((es ! nat c)\<lparr>de_name := cstr name\<rparr>)"
    have "\<not> (\<exists>e \<in> set (take (nat c) es). strcmp (de_name e) name = 0)"
      using False st by (auto simp: listed_def strcmp_zero_iff image_iff)
    then have st': "st' = (c + 1, es[nat c := ?e])" and len: "nat c < length es"
      using assms(2) st False c by (auto simp: add_name_def split: if_splits)
    have "nat (c + 1) = Suc (nat c)" using c by simp
    then have "listed st' = listed st @ [cstr name]"
      using st st' len c assms(3) by (simp add: listed_def take_Suc_conv_app_nth)
    then show ?thesis using assms(1) False st st' len c by (auto simp: grown_def listing_def holds_name_def)
  qed
qed

lemma list_mounts_grows:
  "listing st \<Longrightarrow> list_mounts norm ms max_n st = Some st' \<Longrightarrow>
   grown st st' \<and> (\<forall>m \<in> set ms. \<forall>name. mount_below norm m = Some name \<longrightarrow> holds_name max_n name st')"
proof (induction ms arbitrary: st)
  case (Cons m ms)
  show ?case
  proof (cases "mount_below norm m")
    case None
    then show ?thesis using Cons by simp
  next
    case (Some name)
    then obtain t where t: "add_name name as_directory max_n st = Some t" "list_mounts norm ms max_n t = Some st'"
      using Cons.prems(2) by (auto split: bind_splits)
    have "grown st t \<and> holds_name max_n name t"
      by (rule add_name_grows [OF Cons.prems(1) t(1)]) (simp add: as_directory_def)
    then show ?thesis using Cons.IH [OF grown_listing t(2), of st] Some by (auto dest: grown_trans grown_holds)
  qed
qed (simp add: grown_refl)

lemma list_names_grows:
  "listing st \<Longrightarrow> list_names ns max_n st = Some st' \<Longrightarrow> grown st st' \<and> (\<forall>n \<in> set ns. holds_name max_n n st')"
proof (induction ns arbitrary: st)
  case (Cons n ns)
  then obtain t where t: "add_name n as_directory max_n st = Some t" "list_names ns max_n t = Some st'"
    by (auto split: bind_splits)
  have "grown st t \<and> holds_name max_n n t"
    by (rule add_name_grows [OF Cons.prems(1) t(1)]) (simp add: as_directory_def)
  then show ?case using Cons.IH [OF grown_listing t(2), of st] by (auto dest: grown_trans grown_holds)
qed (simp add: grown_refl)

lemma list_disks_grows:
  "listing st \<Longrightarrow> list_disks ds max_n st = Some st' \<Longrightarrow>
   grown st st' \<and> (\<forall>d \<in> set ds. holds_name max_n (d_devname d) st')"
proof (induction ds arbitrary: st)
  case (Cons d ds)
  show ?case
  proof (cases "fst st < max_n")
    case True
    then obtain t where t: "add_name (d_devname d) (as_disk d) max_n st = Some t" "list_disks ds max_n t = Some st'"
      using Cons.prems(2) by (auto split: bind_splits)
    have "grown st t \<and> holds_name max_n (d_devname d) t"
      by (rule add_name_grows [OF Cons.prems(1) t(1)]) (simp add: as_disk_def)
    then show ?thesis using Cons.IH [OF grown_listing t(2), of st] by (auto dest: grown_trans grown_holds)
  next
    case False
    then show ?thesis using Cons.prems by (auto simp: grown_refl holds_name_def)
  qed
qed (simp add: grown_refl)

text \<open>What a file system answers to a listing of its own.\<close>

definition readdir_ok :: "vfs_dirent list \<Rightarrow> int \<Rightarrow> 's vfs_mount \<Rightarrow> bool" where
  "readdir_ok entries max_n m \<longleftrightarrow>
     (\<forall>ops rd path w. m_ops m = Some ops \<longrightarrow> op_readdir ops = Some rd \<longrightarrow>
        (case rd (m_private m) path entries max_n w of (c, es, w') \<Rightarrow> listing (count_of c, es)))"

lemma readdir_okD:
  assumes "readdir_ok entries max_n m" and "m_ops m = Some ops" and "op_readdir ops = Some rd"
    and "rd (m_private m) path entries max_n w = (c, es, w')"
  shows "listing (count_of c, es)"
proof -
  have "case rd (m_private m) path entries max_n w of (c, es, w') \<Rightarrow> listing (count_of c, es)"
    using assms(1-3) by (simp add: readdir_ok_def)
  then show ?thesis using assms(4) by simp
qed

lemma empty_listing [simp]: "listing (0, es)"
  by (simp add: listing_def listed_def)

lemma best_mount_in_table:
  "fst (best_mount path i ms best) = Some k \<Longrightarrow> fst best = Some k \<or> i \<le> k \<and> k < i + length ms"
  by (induction path i ms best rule: best_mount.induct) (fastforce split: if_splits)+

lemma resolved_in_table:
  assumes "vfs_resolve_mount path v = (Some m, rel)"
  shows "the_mount m v \<in> set (take (mount_count v) (mounts v))"
proof -
  let ?ms = "take (mount_count v) (mounts v)"
  have "fst (best_mount path 0 ?ms (None, -1)) = Some m"
    using assms by (auto simp: vfs_resolve_mount_def split: prod.splits)
  then have "m < length ?ms" using best_mount_in_table [of path 0 ?ms "(None, -1)" m] by simp
  then show ?thesis using nth_mem [of m ?ms] by (simp add: the_mount_def)
qed

text \<open>C30 (listing_complete): a listing holds no name twice when the file systems' own do not, and unless it is
  full it holds the first component of every mount point below the directory, the three
  virtual directories at the root, and every disk in /dev.\<close>

theorem listing_complete:
  assumes "vfs_list_directory ds cwd (Some path) entries max_n v = Some (n, es, u)"
    and "vfs_normalize_process_path cwd path = Some norm"
    and "\<forall>m \<in> set (take (mount_count v) (mounts v)). readdir_ok entries max_n m"
  shows "listing (n, es) \<and>
    (n < max_n \<longrightarrow>
       (\<forall>m \<in> set (take (mount_count v) (mounts v)). \<forall>name. mount_below norm m = Some name \<longrightarrow> cstr name \<in> set (listed (n, es))) \<and>
       (norm = ''/'' \<longrightarrow> set virtual_dirs \<subseteq> set (listed (n, es))) \<and>
       (norm = ''/dev'' \<longrightarrow> (\<forall>d \<in> set ds. cstr (d_devname d) \<in> set (listed (n, es)))))"
proof -
  obtain mount rel where res: "vfs_resolve_mount norm v = (mount, rel)" by fastforce
  obtain c0 es0 w where listed: "(case mount of
               None \<Rightarrow> Some (0, entries, fs_world v)
             | Some m \<Rightarrow> do {
                 ops \<leftarrow> m_ops (the_mount m v);
                 Some (case op_readdir ops of
                         None \<Rightarrow> (0, entries, fs_world v)
                       | Some rd \<Rightarrow> rd (m_private (the_mount m v)) (or_root rel) entries max_n (fs_world v))
               }) = Some (c0, es0, w)"
    and rest: "do {
          st \<leftarrow> list_mounts norm (take (mount_count v) (mounts v)) max_n (count_of c0, es0);
          st \<leftarrow> (if norm = ''/'' then list_names virtual_dirs max_n st else Some st);
          (if norm = ''/dev'' then list_disks ds max_n st else Some st) } = Some (n, es)"
    using assms(1,2) res by (auto simp: vfs_list_directory_def split: bind_splits)
  have own: "listing (count_of c0, es0)"
  proof (cases mount)
    case None
    then show ?thesis using listed by (simp add: count_of_def)
  next
    case (Some m)
    then obtain ops where ops: "m_ops (the_mount m v) = Some ops" using listed by (auto split: bind_splits)
    show ?thesis
    proof (cases "op_readdir ops")
      case None
      then show ?thesis using listed Some ops by (simp add: count_of_def)
    next
      case rd: (Some rd)
      show ?thesis
        by (rule readdir_okD [OF bspec [OF assms(3) resolved_in_table] ops rd]) (use listed Some ops rd res in auto)
    qed
  qed
  obtain s1 where s1: "list_mounts norm (take (mount_count v) (mounts v)) max_n (count_of c0, es0) = Some s1"
    using rest by (auto split: bind_splits)
  obtain s2 where s2: "(if norm = ''/'' then list_names virtual_dirs max_n s1 else Some s1) = Some s2"
      "(if norm = ''/dev'' then list_disks ds max_n s2 else Some s2) = Some (n, es)"
    using rest s1 by (auto split: bind_splits)
  have l1: "listing s1" and
    below: "\<forall>m \<in> set (take (mount_count v) (mounts v)). \<forall>name. mount_below norm m = Some name \<longrightarrow> holds_name max_n name s1"
    using list_mounts_grows [OF own s1] by (auto dest: grown_listing)
  have g2: "grown s1 s2 \<and> (norm = ''/'' \<longrightarrow> (\<forall>n \<in> set virtual_dirs. holds_name max_n n s2))"
    using s2(1) list_names_grows [OF l1] grown_refl [OF l1] by (auto split: if_splits)
  then have g3: "grown s2 (n, es) \<and> (norm = ''/dev'' \<longrightarrow> (\<forall>d \<in> set ds. holds_name max_n (d_devname d) (n, es)))"
    using s2(2) list_disks_grows [of s2] grown_refl [of s2] grown_listing by (auto split: if_splits)
  have virt: "cstr d = d" if "d \<in> set virtual_dirs" for d using that by (auto simp: virtual_dirs_def)
  have up: "holds_name max_n x (n, es)" if "holds_name max_n x s1 \<or> holds_name max_n x s2" for x
    using that g2 g3 grown_holds by blast
  have held: "cstr x \<in> set (listed (n, es))" if "holds_name max_n x (n, es)" and "n < max_n" for x
    using that by (simp add: holds_name_def)
  have "listing (n, es)" using g3 grown_listing by blast
  moreover have "\<forall>m \<in> set (take (mount_count v) (mounts v)). \<forall>name. mount_below norm m = Some name \<longrightarrow>
      cstr name \<in> set (listed (n, es))" if "n < max_n"
    using below up held [OF _ that] by blast
  moreover have "set virtual_dirs \<subseteq> set (listed (n, es))" if "n < max_n" and "norm = ''/''"
    using g2 up held [OF _ that(1)] virt that(2) by (metis subsetI)
  moreover have "\<forall>d \<in> set ds. cstr (d_devname d) \<in> set (listed (n, es))" if "n < max_n" and "norm = ''/dev''"
    using g3 held [OF _ that(1)] that(2) by blast
  ultimately show ?thesis by blast
qed

definition no_entry :: vfs_dirent where
  "no_entry = \<lparr>de_name = [], de_size = 0, de_is_directory = 0, de_start_cluster = 0, de_write_date = 0, de_write_time = 0\<rparr>"

definition listing_ops :: "unit vfs_ops" where
  "listing_ops = empty_ops\<lparr>op_readdir := Some (\<lambda>p path es n w. (1, es[0 := no_entry\<lparr>de_name := ''dev''\<rparr>], w))\<rparr>"

definition listed_vfs :: "unit vfs_state" where
  "listed_vfs = small_vfs\<lparr>mounts := [mount_on [] 1 listing_ops, mount_on [''mnt''] 2 empty_ops]\<rparr>"

theorem listing_complete_witness:
  "\<exists>n es u. vfs_list_directory [] None (Some ''/'') (replicate 5 no_entry) 5 listed_vfs = Some (n, es, u) \<and> n = 4 \<and>
     listing (n, es) \<and> ''mnt'' \<in> set (listed (n, es)) \<and> set virtual_dirs \<subseteq> set (listed (n, es))"
proof -
  have norm: "vfs_normalize_process_path None ''/'' = Some ''/''"
    by (simp add: vfs_run_defs)
  have "listed_vfs\<lparr>fs_world := ()\<rparr> = listed_vfs" by simp
  moreover have "vfs_resolve_mount ''/'' listed_vfs = (Some 0, [])"
    by (simp add: listed_vfs_def small_vfs_def vfs_run_defs)
  ultimately obtain es where run:
    "vfs_list_directory [] None (Some ''/'') (replicate 5 no_entry) 5 listed_vfs = Some (4, es, listed_vfs)"
    by (simp add: vfs_list_directory_def norm listed_vfs_def small_vfs_def the_mount_def mount_on_def root_text_def
        listing_ops_def empty_ops_def or_root_def count_of_def add_name_def mount_below_def as_directory_def vfs_path_is_parent_def
        virtual_dirs_def skip_slash_def char_at_def no_entry_def eval_nat_numeral VFS_MAX_NAME_def vfs_starts_with_def)
  have ok: "\<forall>m \<in> set (take (mount_count listed_vfs) (mounts listed_vfs)). readdir_ok (replicate 5 no_entry) 5 m"
    by (simp add: listed_vfs_def small_vfs_def mount_on_def readdir_ok_def listing_ops_def empty_ops_def listing_def listed_def count_of_def
        eval_nat_numeral)
  have "mount_below ''/'' (mount_on [''mnt''] 2 empty_ops) = Some ''mnt''"
    by (simp add: mount_below_def mount_on_def root_text_def vfs_path_is_parent_def skip_slash_def char_at_def
        VFS_MAX_NAME_def vfs_starts_with_def)
  then have "\<exists>m \<in> set (take (mount_count listed_vfs) (mounts listed_vfs)). mount_below ''/'' m = Some ''mnt''"
    by (simp add: listed_vfs_def small_vfs_def)
  then show ?thesis
    using listing_complete [OF run norm ok] run by force
qed

text \<open>What makes a name exist: the test of \<^verbatim>\<open>vfs_exists\<close> compares texts, not components.\<close>

lemma starts_with_path_text:
  assumes "clean (as @ (c @ d) # bs)" and "c \<noteq> []"
  shows "vfs_starts_with (path_text (as @ (c @ d) # bs)) (path_text (as @ [c]))"
proof -
  have "clean (as @ [c])" using assms by (auto simp: clean_def)
  then have "NUL \<notin> set (path_text (as @ [c]))" by (rule clean_no_NUL)
  moreover have "path_text (as @ (c @ d) # bs) = path_text (as @ [c]) @ d @ path_text bs"
    by (simp add: path_text_append)
  ultimately show ?thesis
    using clean_no_NUL [OF assms(1)] by (simp add: vfs_starts_with_def cstr_no_NUL strlen_cstr)
qed

text \<open>The fact \<open>exists_by_prefix\<close>: below a mount point /a/name every beginning of the name exists, whatever the file systems
  hold, although the mount table does not make it a directory.\<close>

theorem exists_by_prefix:
  assumes "m \<in> set (take (mount_count v) (mounts v))" and "m_active m"
    and "m_path m = root_text (as @ (c @ d) # bs)" and "clean (as @ (c @ d) # bs)" and "c \<noteq> []" and "d \<noteq> []"
    and "vfs_normalize_process_path cwd path = Some (root_text (as @ [c]))"
  shows "vfs_exists ds cwd (Some path) v = Some (True, v) \<and> \<not> vfs_path_is_parent (root_text (as @ [c])) (m_path m)"
proof -
  have "clean (as @ [c])" using assms(4,5) by (auto simp: clean_def)
  then have "\<not> vfs_path_is_parent (root_text (as @ [c])) (root_text (as @ (c @ d) # bs))"
    using assms(4,6) by (simp add: parent_iff)
  moreover have "vfs_starts_with (m_path m) (root_text (as @ [c]))"
    using starts_with_path_text [OF assms(4,5)] assms(3) by (simp add: root_text_def)
  then have "\<exists>m \<in> set (take (mount_count v) (mounts v)). m_active m \<and> vfs_starts_with (m_path m) (root_text (as @ [c]))"
    using assms(1,2) by blast
  ultimately show ?thesis using assms(3,7) by (simp add: vfs_exists_def)
qed

definition root_only :: "unit vfs_state" where
  "root_only = small_vfs\<lparr>mounts := [mount_on [] 1 (empty_ops\<lparr>op_exists := Some (\<lambda>p path w. (False, w))\<rparr>), mount_on [''mnt''] 2 empty_ops]\<rparr>"

theorem exists_by_prefix_witness:
  "vfs_exists [] None (Some ''/mn'') root_only = Some (True, root_only) \<and> \<not> vfs_path_is_parent ''/mn'' ''/mnt'' \<and>
   vfs_exists [] None (Some ''/tn'') root_only = Some (False, root_only)"
proof -
  have norm: "vfs_normalize_process_path None ''/mn'' = Some ''/mn''" "vfs_normalize_process_path None ''/tn'' = Some ''/tn''"
    by (simp_all add: vfs_run_defs)
  have m: "mount_on [''mnt''] 2 empty_ops \<in> set (take (mount_count root_only) (mounts root_only))"
    by (simp add: root_only_def small_vfs_def)
  have "vfs_exists [] None (Some ''/tn'') root_only = Some (False, root_only)"
    using norm(2)
    by (simp add: vfs_exists_def root_only_def small_vfs_def mount_on_def root_text_def vfs_starts_with_def virtual_path_def
        device_at_def dev_prefix_def vfs_resolve_mount_def char_at_def the_mount_def empty_ops_def ask_fs_def)
  then show ?thesis
    using exists_by_prefix [OF m, of "[]" "''mn''" "''t''" "[]" None "''/mn''" "[]"] norm(1)
    by (simp add: mount_on_def root_text_def)
qed

section \<open>The end of a disk\<close>

text \<open>The fact \<open>seek_end_of_disk\<close>: seeking to the end of a raw disk reaches it only when the disk is smaller than 4 GB;
  beyond that the position is the size modulo \<open>2^32\<close>. It never lies behind the end.\<close>

theorem seek_end_of_disk:
  "unat (seek_device d 0 2 p) = unat (d_total_sectors d) * 512 mod 2 ^ 32 \<and>
   unat (seek_device d off wh p) \<le> unat (d_total_sectors d) * 512"
proof -
  have small: "unat (d_total_sectors d) * 512 < 2 ^ 41"
    using unsigned_less [of "d_total_sectors d"] by simp
  have lim: "unat (ucast (d_total_sectors d) * 512 :: u64) = unat (d_total_sectors d) * 512"
    using small by (simp add: unat_word_ariths unsigned_ucast_eq take_bit_eq_mod)
  have e: "unat (d_total_sectors d * 512 :: u32) = unat (d_total_sectors d) * 512 mod 2 ^ 32"
    by (simp add: unat_word_ariths)
  show ?thesis
    unfolding seek_device_def Let_def using lim e small
    by (auto simp: word_less_nat_alt unsigned_ucast_eq take_bit_eq_mod not_less)
qed

end
