(* ===== verification/BosQueues.thy ===== *)
theory BosQueues
  imports Timer
begin

text \<open>
  The two ring buffers of BoredOS: the queue of work for idle processors (\<^verbatim>\<open>sys/work_queue.c\<close>) and
  the terminals, each with a ring for output and one for input (\<^verbatim>\<open>sys/tty.c\<close>). Both are shown to
  be first-in-first-out queues through one contract, which extends that of the sound queue.

  The spin locks are not modelled: every operation is one step. A function pointer of a work item
  is a name, and what it does is the argument \<open>exec\<close> of the operations that call it.
\<close>

section \<open>Work queue\<close>

definition WORK_QUEUE_SIZE :: nat where
  "WORK_QUEUE_SIZE = 64"

record 'f work_item =
  wi_fn :: "'f option"
  wi_arg :: u64

record 'f work_queue =
  work_slots :: "'f work_item list"
  wq_head :: nat
  wq_tail :: nat

definition work_queue_submit :: "'f option \<Rightarrow> u64 \<Rightarrow> 'f work_queue \<Rightarrow> 'f work_queue" where
  "work_queue_submit fn arg q =
     (if fn = None then q
      else let next_tail = (wq_tail q + 1) mod WORK_QUEUE_SIZE in
           if next_tail = wq_head q then q
           else q\<lparr>work_slots := (work_slots q)[wq_tail q := \<lparr>wi_fn = fn, wi_arg = arg\<rparr>], wq_tail := next_tail\<rparr>)"

text \<open>The item is taken off before it runs, so it may submit more work.\<close>

definition work_queue_drain_one ::
    "('f \<Rightarrow> u64 \<Rightarrow> 'f work_queue \<times> 'w \<Rightarrow> 'f work_queue \<times> 'w) \<Rightarrow> 'f work_queue \<times> 'w \<Rightarrow> bool \<times> 'f work_queue \<times> 'w" where
  "work_queue_drain_one exec st =
     (let (q, w) = st in
      if wq_head q = wq_tail q then (False, q, w)
      else let item = work_slots q ! wq_head q; q = q\<lparr>wq_head := (wq_head q + 1) mod WORK_QUEUE_SIZE\<rparr>
           in (True, case wi_fn item of None \<Rightarrow> (q, w) | Some f \<Rightarrow> exec f (wi_arg item) (q, w)))"

text \<open>
  One turn of the loop of \<^verbatim>\<open>work_queue_drain_loop\<close>, from one interrupt to the halt that waits for
  the next. It need not end when the work submits more work.
\<close>

partial_function (option) drain_pending ::
    "('f \<Rightarrow> u64 \<Rightarrow> 'f work_queue \<times> 'w \<Rightarrow> 'f work_queue \<times> 'w) \<Rightarrow> 'f work_queue \<times> 'w \<Rightarrow> ('f work_queue \<times> 'w) option" where
  "drain_pending exec st =
     (let (did, st) = work_queue_drain_one exec st in if did then drain_pending exec st else Some st)"

section \<open>Terminals\<close>

definition TTY_MAX :: nat where
  "TTY_MAX = 8"

definition TTY_OUT_SIZE :: nat where
  "TTY_OUT_SIZE = 16384"

definition TTY_IN_SIZE :: nat where
  "TTY_IN_SIZE = 4096"

record tty =
  tty_used :: bool
  tty_num :: int
  out_buf :: string
  out_head :: nat
  out_tail :: nat
  in_buf :: string
  in_head :: nat
  in_tail :: nat
  fg_pid :: int

definition tty_get :: "int \<Rightarrow> tty list \<Rightarrow> nat option" where
  "tty_get tty_id ts =
     (if tty_id < 0 \<or> tty_id \<ge> int TTY_MAX then None
      else if \<not> tty_used (ts ! nat tty_id) then None else Some (nat tty_id))"

definition fresh_tty :: "bool \<Rightarrow> int \<Rightarrow> tty" where
  "fresh_tty used num =
     \<lparr>tty_used = used, tty_num = num, out_buf = replicate TTY_OUT_SIZE NUL, out_head = 0, out_tail = 0,
      in_buf = replicate TTY_IN_SIZE NUL, in_head = 0, in_tail = 0, fg_pid = -1\<rparr>"

definition tty_create :: "tty list \<Rightarrow> int \<times> tty list" where
  "tty_create ts =
     (case find_index (\<lambda>t. \<not> tty_used t) ts of
        None \<Rightarrow> (-1, ts)
      | Some i \<Rightarrow> (int i, ts[i := fresh_tty True (int i)]))"

definition tty_destroy :: "int \<Rightarrow> tty list \<Rightarrow> int \<times> tty list" where
  "tty_destroy tty_id ts =
     (if tty_id < 0 \<or> tty_id \<ge> int TTY_MAX then (-1, ts)
      else if \<not> tty_used (ts ! nat tty_id) then (-1, ts)
      else (0, ts[nat tty_id := fresh_tty False (-1)]))"

text \<open>Writing stops at a full ring. The result is the count, the buffer and the head.\<close>

fun tty_write_ring :: "string \<Rightarrow> nat \<Rightarrow> nat \<Rightarrow> nat \<Rightarrow> string \<Rightarrow> nat \<times> string \<times> nat" where
  "tty_write_ring buf sz head tail [] = (0, buf, head)"
| "tty_write_ring buf sz head tail (c # data) =
     (let next = (head + 1) mod sz in
      if next = tail then (0, buf, head)
      else let (n, buf, head) = tty_write_ring (buf[head := c]) sz next tail data in (n + 1, buf, head))"

text \<open>Reading at most so many bytes. The result is the bytes and the tail.\<close>

fun tty_read_ring :: "string \<Rightarrow> nat \<Rightarrow> nat \<Rightarrow> nat \<Rightarrow> nat \<Rightarrow> string \<times> nat" where
  "tty_read_ring buf sz head tail 0 = ([], tail)"
| "tty_read_ring buf sz head tail (Suc max_len) =
     (if tail \<noteq> head
      then let (out, t) = tty_read_ring buf sz head ((tail + 1) mod sz) max_len in (buf ! tail # out, t)
      else ([], tail))"

definition tty_write_output :: "int \<Rightarrow> string option \<Rightarrow> tty list \<Rightarrow> nat \<times> tty list" where
  "tty_write_output tty_id data ts =
     (case (tty_get tty_id ts, data) of
        (Some i, Some cs) \<Rightarrow>
          (let t = ts ! i; (n, b, h) = tty_write_ring (out_buf t) TTY_OUT_SIZE (out_head t) (out_tail t) cs
           in (n, ts[i := t\<lparr>out_buf := b, out_head := h\<rparr>]))
      | _ \<Rightarrow> (0, ts))"

definition tty_read_output :: "int \<Rightarrow> nat \<Rightarrow> tty list \<Rightarrow> string \<times> tty list" where
  "tty_read_output tty_id max_len ts =
     (case tty_get tty_id ts of
        None \<Rightarrow> ([], ts)
      | Some i \<Rightarrow>
          (let t = ts ! i; (out, tl) = tty_read_ring (out_buf t) TTY_OUT_SIZE (out_head t) (out_tail t) max_len
           in (out, ts[i := t\<lparr>out_tail := tl\<rparr>])))"

definition tty_write_input :: "int \<Rightarrow> string option \<Rightarrow> tty list \<Rightarrow> nat \<times> tty list" where
  "tty_write_input tty_id data ts =
     (case (tty_get tty_id ts, data) of
        (Some i, Some cs) \<Rightarrow>
          (let t = ts ! i; (n, b, h) = tty_write_ring (in_buf t) TTY_IN_SIZE (in_head t) (in_tail t) cs
           in (n, ts[i := t\<lparr>in_buf := b, in_head := h\<rparr>]))
      | _ \<Rightarrow> (0, ts))"

definition tty_read_input :: "int \<Rightarrow> nat \<Rightarrow> tty list \<Rightarrow> string \<times> tty list" where
  "tty_read_input tty_id max_len ts =
     (case tty_get tty_id ts of
        None \<Rightarrow> ([], ts)
      | Some i \<Rightarrow>
          (let t = ts ! i; (out, tl) = tty_read_ring (in_buf t) TTY_IN_SIZE (in_head t) (in_tail t) max_len
           in (out, ts[i := t\<lparr>in_tail := tl\<rparr>])))"

definition tty_set_foreground :: "int \<Rightarrow> int \<Rightarrow> tty list \<Rightarrow> int \<times> tty list" where
  "tty_set_foreground tty_id pid ts =
     (case tty_get tty_id ts of None \<Rightarrow> (-1, ts) | Some i \<Rightarrow> (0, ts[i := (ts ! i)\<lparr>fg_pid := pid\<rparr>]))"

definition tty_get_foreground :: "int \<Rightarrow> tty list \<Rightarrow> int" where
  "tty_get_foreground tty_id ts = (case tty_get tty_id ts of None \<Rightarrow> -1 | Some i \<Rightarrow> fg_pid (ts ! i))"

section \<open>Queues that give back what they took\<close>

fun get_up_to :: "('s \<Rightarrow> ('a \<times> 's) option) \<Rightarrow> nat \<Rightarrow> 's \<Rightarrow> 'a list \<times> 's" where
  "get_up_to get 0 s = ([], s)"
| "get_up_to get (Suc n) s =
     (case get s of None \<Rightarrow> ([], s) | Some (x, s) \<Rightarrow> (let (xs, s) = get_up_to get n s in (x # xs, s)))"

locale fifo_queue = bounded_queue items put cap inv
  for items :: "'s \<Rightarrow> 'a list" and put :: "'a \<Rightarrow> 's \<Rightarrow> 's" and cap :: nat and inv :: "'s \<Rightarrow> bool" +
  fixes get :: "'s \<Rightarrow> ('a \<times> 's) option"
  assumes get_empty: "inv s \<Longrightarrow> items s = [] \<Longrightarrow> get s = None"
    and get_front: "inv s \<Longrightarrow> items s = x # xs \<Longrightarrow> \<exists>t. get s = Some (x, t) \<and> inv t \<and> items t = xs"
begin

lemma get_all:
  "inv s \<Longrightarrow> get_up_to get n s = (ys, t) \<Longrightarrow> ys = take n (items s) \<and> inv t \<and> items t = drop n (items s)"
proof (induction n arbitrary: s ys t)
  case (Suc n)
  show ?case
  proof (cases "items s")
    case Nil
    then show ?thesis using Suc.prems get_empty by auto
  next
    case (Cons x xs)
    then obtain u where u: "get s = Some (x, u)" "inv u" "items u = xs" using get_front [OF Suc.prems(1)] by blast
    obtain zs v where zs: "get_up_to get n u = (zs, v)" by fastforce
    show ?thesis using Suc.IH [OF u(2) zs] Suc.prems(2) u Cons zs by auto
  qed
qed simp

lemma put_then_get:
  assumes "inv s"
  shows "fst (get_up_to get n (fold put xs s)) = take n (items s @ take (cap - length (items s)) xs)"
  using put_all [OF assms, of xs] get_all [of "fold put xs s" n] by (metis prod.collapse)

end

text \<open>A ring of cells with the place to write and the place to read; one cell stays free.\<close>

type_synonym 'a ring = "'a list \<times> nat \<times> nat"

definition ring_ok :: "nat \<Rightarrow> 'a ring \<Rightarrow> bool" where
  "ring_ok n r = (case r of (b, wr, rd) \<Rightarrow> length b = n \<and> wr < n \<and> rd < n)"

fun ring_fill :: "nat \<Rightarrow> nat \<Rightarrow> nat \<Rightarrow> nat" where
  "ring_fill n wr rd = (if rd \<le> wr then wr - rd else wr + n - rd)"

definition ring_items :: "'a ring \<Rightarrow> 'a list" where
  "ring_items r = (case r of (b, wr, rd) \<Rightarrow>
     map (\<lambda>k. b ! ((rd + k) mod length b)) [0..<ring_fill (length b) wr rd])"

definition ring_put :: "'a \<Rightarrow> 'a ring \<Rightarrow> 'a ring" where
  "ring_put x r = (case r of (b, wr, rd) \<Rightarrow>
     let next = (wr + 1) mod length b in if next = rd then r else (b[wr := x], next, rd))"

definition ring_get :: "'a ring \<Rightarrow> ('a \<times> 'a ring) option" where
  "ring_get r = (case r of (b, wr, rd) \<Rightarrow>
     if rd = wr then None else Some (b ! rd, b, wr, (rd + 1) mod length b))"

lemma next_mod: "w < n \<Longrightarrow> (w + 1) mod n = (if w + 1 = n then 0 else w + 1)" for w :: nat
  by simp

lemma wrap_mod: "a < n \<Longrightarrow> b < n \<Longrightarrow> (a + b) mod n = (if a + b < n then a + b else a + b - n)" for a :: nat
  by (simp add: mod_if)

lemma ring_items_length: "ring_ok n (b, wr, rd) \<Longrightarrow> length (ring_items (b, wr, rd)) = ring_fill n wr rd"
  by (simp add: ring_items_def ring_ok_def)

lemma ring_fill_small: "wr < n \<Longrightarrow> rd < n \<Longrightarrow> ring_fill n wr rd < n"
  by auto

lemma ring_full_iff: "wr < n \<Longrightarrow> rd < n \<Longrightarrow> (wr + 1) mod n = rd \<longleftrightarrow> \<not> ring_fill n wr rd < n - 1"
  by (subst next_mod) auto

lemma ring_put_law:
  assumes "ring_ok n r" and "0 < n"
  shows "ring_ok n (ring_put x r) \<and>
    ring_items (ring_put x r) = (if length (ring_items r) < n - 1 then ring_items r @ [x] else ring_items r)"
proof -
  obtain b wr rd where r: "r = (b, wr, rd)" by (cases r)
  have ok: "length b = n" "wr < n" "rd < n" using assms(1) by (simp_all add: r ring_ok_def)
  note full = ring_full_iff [OF ok(2,3)]
  show ?thesis
  proof (cases "(wr + 1) mod n = rd")
    case True
    then show ?thesis using full assms ring_items_length [of n b wr rd] ok by (simp add: r ring_put_def del: ring_fill.simps)
  next
    case False
    let ?c = "ring_fill n wr rd"
    have c: "ring_fill n ((wr + 1) mod n) rd = Suc ?c" "?c < n" "(rd + ?c) mod n = wr"
      using False ok unfolding next_mod [OF ok(2)] by (auto simp: wrap_mod)
    have other: "(rd + k) mod n \<noteq> wr" if "k < ?c" for k
      using that ok c(2) by (auto simp: wrap_mod split: if_splits)
    have "map (\<lambda>k. b[wr := x] ! ((rd + k) mod n)) [0..<?c] = map (\<lambda>k. b ! ((rd + k) mod n)) [0..<?c]"
      using other by (intro map_cong refl nth_list_update_neq) (metis atLeastLessThan_iff set_upt)
    then have "ring_items (b[wr := x], (wr + 1) mod n, rd) = ring_items (b, wr, rd) @ [x]"
      using c ok by (simp add: ring_items_def del: ring_fill.simps)
    then show ?thesis
      using False full ok ring_items_length [of n b wr rd] assms
      by (simp add: r ring_put_def ring_ok_def del: ring_fill.simps)
  qed
qed

lemma ring_items_Nil: "ring_ok n (b, wr, rd) \<Longrightarrow> ring_items (b, wr, rd) = [] \<longleftrightarrow> rd = wr"
  by (auto simp: ring_items_def ring_ok_def)

lemma ring_get_law:
  assumes "ring_ok n (b, wr, rd)" and "rd \<noteq> wr"
  shows "ring_items (b, wr, rd) = b ! rd # ring_items (b, wr, (rd + 1) mod n) \<and> ring_ok n (b, wr, (rd + 1) mod n)"
proof -
  have ok: "length b = n" "wr < n" "rd < n" using assms(1) by (simp_all add: ring_ok_def)
  let ?c = "ring_fill n wr ((rd + 1) mod n)"
  have c: "ring_fill n wr rd = Suc ?c" using assms(2) ok unfolding next_mod [OF ok(3)] by auto
  have "((rd + 1) mod n + k) mod n = (rd + Suc k) mod n" for k by (simp add: mod_simps)
  then have "ring_items (b, wr, rd) = b ! rd # ring_items (b, wr, (rd + 1) mod n)"
    using c ok by (simp add: ring_items_def upt_conv_Cons map_Suc_upt [symmetric] o_def del: upt_Suc ring_fill.simps)
  then show ?thesis using ok by (simp add: ring_ok_def)
qed

interpretation ring: fifo_queue ring_items ring_put "Suc n - 1" "ring_ok (Suc n)" ring_get for n
proof (unfold_locales, goal_cases)
  case (1 r x)
  then show ?case using ring_put_law [of "Suc n" r x] by simp
next
  case (2 r)
  then show ?case by (cases r) (auto simp: ring_get_def ring_items_Nil)
next
  case (3 r x xs)
  obtain b wr rd where r: "r = (b, wr, rd)" by (cases r)
  have ne: "rd \<noteq> wr" using 3 ring_items_Nil [of "Suc n" b wr rd] r by auto
  have "length b = Suc n" using 3(1) r by (simp add: ring_ok_def)
  then show ?case using ring_get_law [OF 3(1) [unfolded r] ne] 3(2) ne r by (auto simp: ring_get_def)
qed

section \<open>The rings of the code\<close>

text \<open>Writing a text stops at the first byte that does not fit; the ring takes the rest of them no better.\<close>

lemma put_full: "(wr + 1) mod length b = rd \<Longrightarrow> fold ring_put xs (b, wr, rd) = (b, wr, rd)"
  by (induction xs) (simp_all add: ring_put_def)

lemma tty_write_ring_eq:
  assumes "ring_ok n (b, wr, rd)" and "0 < n"
  shows "tty_write_ring b n wr rd cs =
    (case fold ring_put cs (b, wr, rd) of (b', wr', rd') \<Rightarrow> (min (length cs) (n - 1 - ring_fill n wr rd), b', wr'))"
  using assms(1)
proof (induction cs arbitrary: b wr)
  case (Cons c cs)
  have ok: "length b = n" "wr < n" "rd < n" using Cons.prems by (simp_all add: ring_ok_def)
  show ?case
  proof (cases "(wr + 1) mod n = rd")
    case True
    then have "\<not> ring_fill n wr rd < n - 1" using ring_full_iff [OF ok(2,3)] by simp
    then show ?thesis using put_full [of wr b rd "c # cs"] True ok by (simp del: fold_simps ring_fill.simps)
  next
    case False
    then have fill: "ring_fill n wr rd < n - 1" using ring_full_iff [OF ok(2,3)] by blast
    have fill': "ring_fill n ((wr + 1) mod n) rd = Suc (ring_fill n wr rd)"
      using False ok unfolding next_mod [OF ok(2)] by auto
    have put: "ring_put c (b, wr, rd) = (b[wr := c], (wr + 1) mod n, rd)" using False ok by (simp add: ring_put_def)
    have "ring_ok n (b[wr := c], (wr + 1) mod n, rd)" using ok assms(2) by (simp add: ring_ok_def)
    from Cons.IH [OF this] show ?thesis
      using False fill fill' put by (auto simp: Let_def min_def split: prod.splits simp del: ring_fill.simps)
  qed
qed (simp add: )

lemma tty_read_ring_eq:
  "length b = n \<Longrightarrow> get_up_to ring_get k (b, wr, rd) = (fst (tty_read_ring b n wr rd k), b, wr, snd (tty_read_ring b n wr rd k))"
  by (induction k arbitrary: rd) (auto simp: ring_get_def split: prod.splits)

text \<open>What a terminal has to print and what it has been typed.\<close>

definition out_ring :: "tty \<Rightarrow> char ring" where
  "out_ring t = (out_buf t, out_head t, out_tail t)"

definition in_ring :: "tty \<Rightarrow> char ring" where
  "in_ring t = (in_buf t, in_head t, in_tail t)"

definition tty_ok :: "tty \<Rightarrow> bool" where
  "tty_ok t \<longleftrightarrow> ring_ok TTY_OUT_SIZE (out_ring t) \<and> ring_ok TTY_IN_SIZE (in_ring t)"

definition open_tty :: "nat \<Rightarrow> tty list \<Rightarrow> bool" where
  "open_tty i ts \<longleftrightarrow> i < TTY_MAX \<and> length ts = TTY_MAX \<and> tty_used (ts ! i) \<and> tty_ok (ts ! i)"

lemma open_tty_get: "open_tty i ts \<Longrightarrow> tty_get (int i) ts = Some i"
  by (auto simp: open_tty_def tty_get_def TTY_MAX_def)

lemma put_ring:
  assumes "ring_ok n r" and "0 < n"
  shows "ring_ok n (fold ring_put cs r) \<and> ring_items (fold ring_put cs r) = ring_items r @ take (n - 1 - length (ring_items r)) cs"
proof -
  obtain k where "n = Suc k" using assms(2) by (cases n) auto
  then show ?thesis using ring.put_all [of k r cs] assms(1) by simp
qed

lemma get_ring:
  assumes "ring_ok n r" and "0 < n" and "get_up_to ring_get m r = (xs, r')"
  shows "xs = take m (ring_items r) \<and> ring_ok n r' \<and> ring_items r' = drop m (ring_items r)"
proof -
  obtain k where "n = Suc k" using assms(2) by (cases n) auto
  then show ?thesis using ring.get_all [of k r m xs r'] assms(1,3) by simp
qed

lemma fold_put_tail: "fold ring_put cs (b, wr, rd) = (b', wr', rd') \<Longrightarrow> rd' = rd"
  by (induction cs arbitrary: b wr) (auto simp: ring_put_def Let_def split: if_splits)

lemma write_ring_law:
  assumes "ring_ok n (b, wr, rd)" and "0 < n" and "tty_write_ring b n wr rd cs = (m, b', wr')"
  shows "m = min (length cs) (n - 1 - length (ring_items (b, wr, rd))) \<and> ring_ok n (b', wr', rd) \<and>
    ring_items (b', wr', rd) = ring_items (b, wr, rd) @ take m cs"
proof -
  obtain b2 w2 r2 where f: "fold ring_put cs (b, wr, rd) = (b2, w2, r2)" by (metis prod_cases3)
  have "r2 = rd" using fold_put_tail [OF f] .
  moreover have "m = min (length cs) (n - 1 - ring_fill n wr rd)" "b' = b2" "wr' = w2"
    using assms(3) tty_write_ring_eq [OF assms(1,2), of cs] f by (auto simp del: ring_fill.simps)
  ultimately show ?thesis
    using put_ring [OF assms(1,2), of cs] f ring_items_length [OF assms(1)] by (auto simp: min_def simp del: ring_fill.simps)
qed

lemma read_ring_law:
  assumes "ring_ok n (b, wr, rd)" and "0 < n" and "tty_read_ring b n wr rd k = (xs, rd')"
  shows "xs = take k (ring_items (b, wr, rd)) \<and> ring_ok n (b, wr, rd') \<and>
    ring_items (b, wr, rd') = drop k (ring_items (b, wr, rd))"
proof -
  have "length b = n" using assms(1) by (simp add: ring_ok_def)
  then have "get_up_to ring_get k (b, wr, rd) = (xs, b, wr, rd')" using tty_read_ring_eq [of b n k wr rd] assms(3) by simp
  then show ?thesis using get_ring [OF assms(1,2)] by blast
qed

text \<open>C31 (tty_output_fifo): what a program writes to a terminal comes out in order behind what was waiting; what does
  not fit in 16,383 bytes is cut off and the count returned says so; the input ring and the other
  terminals stay as they are.\<close>

theorem tty_output_fifo:
  assumes "open_tty i ts" and "tty_write_output (int i) (Some cs) ts = (n, ts')" and "tty_read_output (int i) k ts' = (out, ts'')"
  shows "n = min (length cs) (TTY_OUT_SIZE - 1 - length (ring_items (out_ring (ts ! i)))) \<and>
    out @ ring_items (out_ring (ts'' ! i)) = ring_items (out_ring (ts ! i)) @ take n cs \<and>
    length out = min k (length (ring_items (out_ring (ts ! i))) + n) \<and>
    open_tty i ts'' \<and> in_ring (ts'' ! i) = in_ring (ts ! i) \<and> (\<forall>j. j \<noteq> i \<longrightarrow> ts'' ! j = ts ! j)"
proof -
  let ?t = "ts ! i"
  have i: "i < length ts" "ring_ok TTY_OUT_SIZE (out_buf ?t, out_head ?t, out_tail ?t)" "ring_ok TTY_IN_SIZE (in_ring ?t)"
    using assms(1) by (auto simp: open_tty_def tty_ok_def out_ring_def)
  have pos: "0 < TTY_OUT_SIZE" by (simp add: TTY_OUT_SIZE_def)
  obtain b h where w: "tty_write_ring (out_buf ?t) TTY_OUT_SIZE (out_head ?t) (out_tail ?t) cs = (n, b, h)"
    and ts': "ts' = ts[i := ?t\<lparr>out_buf := b, out_head := h\<rparr>]"
    using assms(2) open_tty_get [OF assms(1)] by (auto simp: tty_write_output_def Let_def split: prod.splits)
  note wr = write_ring_law [OF i(2) pos w]
  have "open_tty i ts'"
    using assms(1) i wr by (simp add: ts' open_tty_def tty_ok_def out_ring_def in_ring_def)
  then obtain tl where r: "tty_read_ring b TTY_OUT_SIZE h (out_tail ?t) k = (out, tl)"
    and ts'': "ts'' = ts'[i := (ts' ! i)\<lparr>out_tail := tl\<rparr>]"
    using assms(3) open_tty_get [of i ts'] i(1) by (auto simp: tty_read_output_def Let_def ts' split: prod.splits)
  note rd = read_ring_law [OF conjunct1 [OF conjunct2 [OF wr]] pos r]
  have t2: "ts'' ! i = ?t\<lparr>out_buf := b, out_head := h, out_tail := tl\<rparr>" using i(1) by (simp add: ts'' ts')
  have "open_tty i ts''" using assms(1) i rd by (simp add: t2 open_tty_def tty_ok_def out_ring_def in_ring_def) (simp add: ts'' ts')
  moreover have "length out = min k (length (ring_items (out_ring ?t)) + n)"
    using wr rd by (simp add: out_ring_def)
  moreover have "out @ ring_items (out_ring (ts'' ! i)) = ring_items (out_ring ?t) @ take n cs"
    using wr rd append_take_drop_id [of k "ring_items (out_ring ?t) @ take n cs"]
    by (auto simp: t2 out_ring_def simp del: append_take_drop_id)
  moreover have "n = min (length cs) (TTY_OUT_SIZE - 1 - length (ring_items (out_ring ?t)))"
    using wr by (simp add: out_ring_def)
  moreover have "in_ring (ts'' ! i) = in_ring ?t" by (simp add: t2 in_ring_def)
  moreover have "\<forall>j. j \<noteq> i \<longrightarrow> ts'' ! j = ts ! j" by (simp add: ts'' ts')
  ultimately show ?thesis by blast
qed

theorem tty_output_fifo_witness:
  "\<exists>ts ts'. snd (tty_create (replicate TTY_MAX (fresh_tty False (-1)))) = ts \<and>
     tty_write_output (int 0) (Some ''ok'') ts = (2, ts') \<and> fst (tty_read_output (int 0) 5 ts') = ''ok''"
proof -
  let ?ts = "snd (tty_create (replicate TTY_MAX (fresh_tty False (-1))))"
  have ts: "?ts = fresh_tty True 0 # replicate 7 (fresh_tty False (-1))"
    by (simp add: tty_create_def TTY_MAX_def eval_nat_numeral) (simp add: fresh_tty_def)
  have ok: "open_tty 0 ?ts"
    unfolding ts by (simp add: open_tty_def TTY_MAX_def fresh_tty_def tty_ok_def ring_ok_def out_ring_def in_ring_def
        TTY_OUT_SIZE_def TTY_IN_SIZE_def)
  have empty: "ring_items (out_ring (?ts ! 0)) = []"
    unfolding ts by (simp add: out_ring_def ring_items_def fresh_tty_def)
  obtain n ts' where w: "tty_write_output (int 0) (Some ''ok'') ?ts = (n, ts')" by fastforce
  obtain out ts'' where r: "tty_read_output (int 0) 5 ts' = (out, ts'')" by fastforce
  have "n = 2" "length out = 2" "out @ ring_items (out_ring (ts'' ! 0)) = ''ok''"
    using tty_output_fifo [OF ok w r] empty by (simp_all add: TTY_OUT_SIZE_def)
  then have "out = ''ok''" by (cases out; cases "tl out") auto
  then show ?thesis using w r \<open>n = 2\<close> by auto
qed

section \<open>Pending work\<close>

definition work_ring :: "'f work_queue \<Rightarrow> 'f work_item ring" where
  "work_ring q = (work_slots q, wq_tail q, wq_head q)"

definition pending :: "'f work_queue \<Rightarrow> ('f \<times> u64) list" where
  "pending q = map (\<lambda>i. (the (wi_fn i), wi_arg i)) (ring_items (work_ring q))"

definition work_ok :: "'f work_queue \<Rightarrow> bool" where
  "work_ok q \<longleftrightarrow> ring_ok WORK_QUEUE_SIZE (work_ring q) \<and> (\<forall>i \<in> set (ring_items (work_ring q)). wi_fn i \<noteq> None)"

definition submit_job :: "'f \<times> u64 \<Rightarrow> 'f work_queue \<Rightarrow> 'f work_queue" where
  "submit_job j q = work_queue_submit (Some (fst j)) (snd j) q"

definition next_job :: "'f work_queue \<Rightarrow> (('f \<times> u64) \<times> 'f work_queue) option" where
  "next_job q =
     (if wq_head q = wq_tail q then None
      else Some ((the (wi_fn (work_slots q ! wq_head q)), wi_arg (work_slots q ! wq_head q)),
                 q\<lparr>wq_head := (wq_head q + 1) mod WORK_QUEUE_SIZE\<rparr>))"

lemma work_ring_submit:
  "work_ok q \<Longrightarrow> work_ring (submit_job j q) = ring_put \<lparr>wi_fn = Some (fst j), wi_arg = snd j\<rparr> (work_ring q)"
  by (simp add: submit_job_def work_queue_submit_def work_ring_def ring_put_def work_ok_def ring_ok_def Let_def)

interpretation workq: fifo_queue pending submit_job "WORK_QUEUE_SIZE - 1" work_ok next_job
proof (unfold_locales, goal_cases)
  case (1 q j)
  let ?x = "\<lparr>wi_fn = Some (fst j), wi_arg = snd j\<rparr>"
  have "ring_ok WORK_QUEUE_SIZE (work_ring q)" "0 < WORK_QUEUE_SIZE" using 1 by (simp_all add: work_ok_def WORK_QUEUE_SIZE_def)
  from ring_put_law [OF this, of ?x] show ?case
    using 1 by (simp add: work_ring_submit pending_def work_ok_def split: if_splits)
next
  case (2 q)
  then show ?case using ring_items_Nil [of WORK_QUEUE_SIZE "work_slots q" "wq_tail q" "wq_head q"]
    by (simp add: next_job_def pending_def work_ok_def work_ring_def)
next
  case (3 q x xs)
  have ok: "ring_ok WORK_QUEUE_SIZE (work_slots q, wq_tail q, wq_head q)" using 3(1) by (simp add: work_ok_def work_ring_def)
  have ne: "wq_head q \<noteq> wq_tail q" using 3(2) ring_items_Nil [OF ok] by (auto simp: pending_def work_ring_def)
  from ring_get_law [OF ok ne] show ?case
    using 3 ne by (auto simp: next_job_def pending_def work_ok_def work_ring_def)
qed

lemma drain_one_job:
  assumes "work_ok q"
  shows "work_queue_drain_one exec (q, w) =
    (case next_job q of None \<Rightarrow> (False, q, w) | Some ((f, a), q') \<Rightarrow> (True, exec f a (q', w)))"
proof (cases "wq_head q = wq_tail q")
  case True
  then show ?thesis by (simp add: next_job_def work_queue_drain_one_def)
next
  case False
  have ok: "ring_ok WORK_QUEUE_SIZE (work_slots q, wq_tail q, wq_head q)" using assms by (simp add: work_ok_def work_ring_def)
  from ring_get_law [OF ok False] have "wi_fn (work_slots q ! wq_head q) \<noteq> None"
    using assms by (simp add: work_ok_def work_ring_def)
  then show ?thesis using False by (auto simp: next_job_def work_queue_drain_one_def Let_def)
qed

lemma drain_all:
  assumes "\<And>f a q w. exec f a (q, w) = (q, run_job f a w)"
  shows "work_ok q \<Longrightarrow> \<exists>q'. drain_pending exec (q, w) = Some (q', fold (\<lambda>(f, a). run_job f a) (pending q) w) \<and>
    work_ok q' \<and> pending q' = []"
proof (induction "pending q" arbitrary: q w)
  case Nil
  then show ?case
    using drain_one_job [OF Nil(2), of exec w] workq.get_empty [OF Nil(2)]
    by (subst drain_pending.simps) auto
next
  case (Cons x xs)
  obtain t where t: "next_job q = Some (x, t)" "work_ok t" "pending t = xs"
    using workq.get_front [OF Cons.prems, of x xs] Cons.hyps(2) by auto
  have "drain_pending exec (q, w) = drain_pending exec (t, run_job (fst x) (snd x) w)"
    using drain_one_job [OF Cons.prems, of exec w] t(1) assms by (subst drain_pending.simps) (simp add: split_beta)
  then show ?case
    using Cons.hyps(1) [of t "run_job (fst x) (snd x) w"] Cons.hyps(2) t by (auto simp: split_beta simp flip: Cons.hyps(2))
qed

text \<open>The fact \<open>work_runs_in_order\<close>: draining returns, and has run exactly the jobs waiting before and the submitted ones that
  fit in 63 places, each once and in the order of submission, when the jobs submit no more.\<close>

theorem work_runs_in_order:
  assumes "work_ok q" and "\<And>f a q w. exec f a (q, w) = (q, run_job f a w)"
  shows "\<exists>q'. drain_pending exec (fold submit_job js q, w) =
      Some (q', fold (\<lambda>(f, a). run_job f a) (pending q @ take (63 - length (pending q)) js) w) \<and>
    work_ok q' \<and> pending q' = []"
  using drain_all [where q = "fold submit_job js q" and w = w, OF assms(2)] workq.put_all [OF assms(1), of js]
  by (simp add: WORK_QUEUE_SIZE_def)

theorem work_runs_in_order_witness:
  "\<exists>q'. drain_pending (\<lambda>f a (q, w). (q, w @ [f + a]))
      (fold submit_job [(10, 1), (20, 2)] \<lparr>work_slots = replicate 64 \<lparr>wi_fn = None, wi_arg = 0\<rparr>, wq_head = 63, wq_tail = 63\<rparr>, [0]) =
    Some (q', [0, 11, 22]) \<and> pending q' = []"
proof -
  let ?q = "\<lparr>work_slots = replicate 64 \<lparr>wi_fn = None, wi_arg = 0\<rparr>, wq_head = 63, wq_tail = 63\<rparr> :: u64 work_queue"
  have "ring_items (work_ring ?q) = []" by (simp add: work_ring_def ring_items_def)
  then have "work_ok ?q" "pending ?q = []"
    by (simp_all add: work_ok_def pending_def) (simp add: work_ring_def ring_ok_def WORK_QUEUE_SIZE_def)
  then show ?thesis
    using work_runs_in_order [where q = ?q and exec = "\<lambda>f a (q, w). (q, w @ [f + a])"
        and run_job = "\<lambda>f a w. w @ [f + a]" and js = "[(10, 1), (20, 2)]" and w = "[0]"]
    by auto
qed

end
