(* ===== verification/BosHeap.thy ===== *)
theory BosHeap
  imports HeapMem CString
begin

text \<open>
  The kernel heap of BoredOS (\<^verbatim>\<open>mem/memory_manager.c\<close>): a first-fit allocator over a list of blocks
  sorted by address, and a slab allocator for the small sizes on top of it.

  The block list is the list of the array's cells, all of its capacity, beside the number in use;
  the memory itself is a function from addresses to bytes, in which the slab pages and their free
  lists live. The array of blocks is not part of that memory, although it moves to the heap: what a
  stray store would do to it is not modelled. A result \<open>None\<close> is a store outside the block list, a
  pointer chain of the slab caches that does not end, or a search that does not end; the laws show
  that an allocation always has a result. The spin lock is not modelled.
\<close>

section \<open>State\<close>

record mem_block =
  b_addr :: u64
  b_size :: u64
  b_allocated :: bool
  b_id :: u32
  b_stamp :: u32

record slab_cache =
  c_pages :: u64
  c_allocs :: u64
  c_frees :: u64

record kheap =
  block_list :: "mem_block list"
  block_count :: nat
  list_at :: u64
  on_heap :: bool
  memory_pool_size :: u64
  total_allocated :: u64
  peak_allocated :: u64
  allocation_counter :: u32
  stamp_tick :: u32
  heap_ready :: bool
  slab_caches :: "slab_cache list"
  slab_total_allocs :: u64
  slab_total_frees :: u64
  kram :: "u64 \<Rightarrow> u8"
  mem_log :: string

abbreviation block_capacity :: "kheap \<Rightarrow> nat" where
  "block_capacity h \<equiv> length (block_list h)"

definition BLOCK_LIST_INITIAL_CAPACITY :: nat where
  "BLOCK_LIST_INITIAL_CAPACITY = 1024"

definition SLAB_CLASSES :: nat where
  "SLAB_CLASSES = 7"

definition SIZEOF_MemBlock :: u64 where
  "SIZEOF_MemBlock = 32"

definition zero_block :: mem_block where
  "zero_block = \<lparr>b_addr = 0, b_size = 0, b_allocated = False, b_id = 0, b_stamp = 0\<rparr>"

section \<open>Memory\<close>

fun ram_fill :: "u64 \<Rightarrow> u8 \<Rightarrow> nat \<Rightarrow> (u64 \<Rightarrow> u8) \<Rightarrow> (u64 \<Rightarrow> u8)" where
  "ram_fill d v 0 m = m"
| "ram_fill d v (Suc n) m = ram_fill (d + 1) v n (m(d := v))"

definition mem_memset :: "u64 \<Rightarrow> u8 \<Rightarrow> u64 \<Rightarrow> kheap \<Rightarrow> kheap" where
  "mem_memset dest val len h = h\<lparr>kram := ram_fill dest val (unat len) (kram h)\<rparr>"

definition mem_memcpy :: "u64 \<Rightarrow> u64 \<Rightarrow> u64 \<Rightarrow> kheap \<Rightarrow> kheap" where
  "mem_memcpy dest src len h = h\<lparr>kram := ram_copy dest src (unat len) (kram h)\<rparr>"

text \<open>Copying downwards: the pointers stand behind the next byte.\<close>

fun ram_copy_down :: "u64 \<Rightarrow> u64 \<Rightarrow> nat \<Rightarrow> (u64 \<Rightarrow> u8) \<Rightarrow> (u64 \<Rightarrow> u8)" where
  "ram_copy_down d s 0 m = m"
| "ram_copy_down d s (Suc n) m = ram_copy_down (d - 1) (s - 1) n (m(d - 1 := m (s - 1)))"

definition mem_memmove :: "u64 \<Rightarrow> u64 \<Rightarrow> u64 \<Rightarrow> kheap \<Rightarrow> kheap" where
  "mem_memmove dest src len h =
     h\<lparr>kram := (if dest < src then ram_copy dest src (unat len) (kram h)
               else ram_copy_down (dest + len) (src + len) (unat len) (kram h))\<rparr>"

text \<open>Little-endian fields of so many bytes.\<close>

fun load_le :: "nat \<Rightarrow> (u64 \<Rightarrow> u8) \<Rightarrow> u64 \<Rightarrow> nat" where
  "load_le 0 m a = 0"
| "load_le (Suc k) m a = unat (m a) + 256 * load_le k m (a + 1)"

fun store_le :: "nat \<Rightarrow> nat \<Rightarrow> u64 \<Rightarrow> (u64 \<Rightarrow> u8) \<Rightarrow> (u64 \<Rightarrow> u8)" where
  "store_le 0 v a m = m"
| "store_le (Suc k) v a m = store_le k (v div 256) (a + 1) (m(a := of_nat v))"

definition load_ptr :: "(u64 \<Rightarrow> u8) \<Rightarrow> u64 \<Rightarrow> u64" where
  "load_ptr m a = of_nat (load_le 8 m a)"

definition store_ptr :: "u64 \<Rightarrow> u64 \<Rightarrow> (u64 \<Rightarrow> u8) \<Rightarrow> (u64 \<Rightarrow> u8)" where
  "store_ptr p a m = store_le 8 (unat p) a m"

section \<open>The block list\<close>

definition upd_block :: "nat \<Rightarrow> (mem_block \<Rightarrow> mem_block) \<Rightarrow> kheap \<Rightarrow> kheap" where
  "upd_block i f h = h\<lparr>block_list := (block_list h)[i := f (block_list h ! i)]\<rparr>"

definition get_timestamp :: "kheap \<Rightarrow> u32 \<times> kheap" where
  "get_timestamp h = (stamp_tick h, h\<lparr>stamp_tick := stamp_tick h + 1\<rparr>)"

text \<open>
  \<^verbatim>\<open>insert_block_at\<close> behind its attempt to grow the list: the cells from \<open>idx\<close> move up, last first.
\<close>

definition put_block :: "nat \<Rightarrow> u64 \<Rightarrow> u64 \<Rightarrow> bool \<Rightarrow> u32 \<Rightarrow> kheap \<Rightarrow> (bool \<times> kheap) option" where
  "put_block idx addr sz allocated bid h =
     (if block_count h \<ge> block_capacity h then Some (False, h)
      else if idx \<ge> block_capacity h then None
      else let n = block_count h;
               bl = for_up 0 (n - idx) (\<lambda>k bl. bl[n - k := bl ! (n - k - 1)]) (block_list h);
               (stamp, h) = (if allocated then get_timestamp h else (0, h))
           in Some (True, h\<lparr>block_list := bl[idx := \<lparr>b_addr = addr, b_size = sz, b_allocated = allocated,
                                                      b_id = bid, b_stamp = stamp\<rparr>],
                            block_count := n + 1\<rparr>))"

definition remove_block_at :: "nat \<Rightarrow> kheap \<Rightarrow> kheap" where
  "remove_block_at idx h =
     h\<lparr>block_list := for_up idx (block_count h - 1) (\<lambda>j bl. bl[j := bl ! (j + 1)]) (block_list h),
       block_count := block_count h - 1\<rparr>"

text \<open>
  One turn of the search of \<^verbatim>\<open>_kmalloc_locked\<close>: on to the next block, back to the first one
  after the list has grown, or done. \<open>grow\<close> and \<open>ins\<close> are \<^verbatim>\<open>grow_block_list\<close> and \<^verbatim>\<open>insert_block_at\<close>,
  which differ while the list is growing.
\<close>

datatype search = Next_Block kheap | Restart kheap | Found u64 kheap

definition finish_block ::
    "(nat \<Rightarrow> u64 \<Rightarrow> u64 \<Rightarrow> bool \<Rightarrow> u32 \<Rightarrow> kheap \<Rightarrow> (bool \<times> kheap) option) \<Rightarrow> u64 \<Rightarrow> u64 \<Rightarrow> u64 \<Rightarrow> nat \<Rightarrow> kheap \<Rightarrow> search option" where
  "finish_block ins ptr sz rest cur h = do {
     h \<leftarrow> (if rest > 0 then map_option snd (ins (cur + 1) (ptr + sz) rest False 0 h) else Some h);
     let tot = total_allocated h + sz;
     Some (Found ptr (mem_memset ptr 0 sz (h\<lparr>total_allocated := tot, peak_allocated := max tot (peak_allocated h)\<rparr>)))
   }"

definition place_block ::
    "(nat \<Rightarrow> u64 \<Rightarrow> u64 \<Rightarrow> bool \<Rightarrow> u32 \<Rightarrow> kheap \<Rightarrow> (bool \<times> kheap) option) \<Rightarrow> u64 \<Rightarrow> u64 \<Rightarrow> u64 \<Rightarrow> u64 \<Rightarrow> nat \<Rightarrow> kheap \<Rightarrow> search option" where
  "place_block ins ptr padding sz rest i h =
     (let bid = allocation_counter h + 1; h = h\<lparr>allocation_counter := bid\<rparr> in
      if padding > 0
      then do {
        (ok, h) \<leftarrow> ins (i + 1) ptr sz True bid (upd_block i (\<lambda>b. b\<lparr>b_size := padding\<rparr>) h);
        if \<not> ok then Some (Next_Block h) else finish_block ins ptr sz rest (i + 1) h
      }
      else let (stamp, h) = get_timestamp h
           in finish_block ins ptr sz rest i
                (upd_block i (\<lambda>b. \<lparr>b_addr = ptr, b_size = sz, b_allocated = True, b_id = bid, b_stamp = stamp\<rparr>) h))"

definition try_block ::
    "(kheap \<Rightarrow> (bool \<times> kheap) option) \<Rightarrow> (nat \<Rightarrow> u64 \<Rightarrow> u64 \<Rightarrow> bool \<Rightarrow> u32 \<Rightarrow> kheap \<Rightarrow> (bool \<times> kheap) option) \<Rightarrow>
     u64 \<Rightarrow> u64 \<Rightarrow> nat \<Rightarrow> kheap \<Rightarrow> search option" where
  "try_block grow ins sz alignment i h =
     (let b = block_list h ! i in
      if b_allocated b then Some (Next_Block h)
      else
        let base = b_addr b;
            aligned = (base + alignment - 1) AND NOT (alignment - 1);
            padding = aligned - base
        in if b_size b < sz + padding then Some (Next_Block h)
           else
             let rest = b_size b - (sz + padding);
                 extra = (if padding > 0 then 1 else 0) + (if rest > 0 then 1 else 0)
             in if block_count h + extra + 2 > block_capacity h
                then do {
                  (ok, h) \<leftarrow> grow h;
                  if ok then Some (Restart h)
                  else if block_count h + extra > block_capacity h then Some (Next_Block h)
                  else place_block ins aligned padding sz rest i h
                }
                else place_block ins aligned padding sz rest i h)"

fun search_blocks :: "(nat \<Rightarrow> kheap \<Rightarrow> search option) \<Rightarrow> nat \<Rightarrow> nat \<Rightarrow> kheap \<Rightarrow> (u64 \<times> kheap) option" where
  "search_blocks turn 0 i h = None"
| "search_blocks turn (Suc n) i h =
     (if i < block_count h
      then case turn i h of
             None \<Rightarrow> None
           | Some (Next_Block h) \<Rightarrow> search_blocks turn n (i + 1) h
           | Some (Restart h) \<Rightarrow> search_blocks turn n 0 h
           | Some (Found p h) \<Rightarrow> Some (p, h)
      else Some (0, h))"

text \<open>The size is rounded up to eight bytes; an alignment of 0 is one of 8.\<close>

definition round8 :: "u64 \<Rightarrow> u64" where
  "round8 sz = (sz + 7) AND NOT 7"

definition kmalloc_with ::
    "(kheap \<Rightarrow> (bool \<times> kheap) option) \<Rightarrow> (nat \<Rightarrow> u64 \<Rightarrow> u64 \<Rightarrow> bool \<Rightarrow> u32 \<Rightarrow> kheap \<Rightarrow> (bool \<times> kheap) option) \<Rightarrow>
     nat \<Rightarrow> u64 \<Rightarrow> u64 \<Rightarrow> kheap \<Rightarrow> (u64 \<times> kheap) option" where
  "kmalloc_with grow ins fuel sz alignment h =
     search_blocks (try_block grow ins (round8 sz) (if alignment = 0 then 8 else alignment)) fuel 0 h"

text \<open>\<^verbatim>\<open>_kmalloc_locked\<close> while the list is growing: \<^verbatim>\<open>grow_block_list\<close> refuses.\<close>

definition kmalloc_growing :: "u64 \<Rightarrow> u64 \<Rightarrow> kheap \<Rightarrow> (u64 \<times> kheap) option" where
  "kmalloc_growing sz alignment h =
     kmalloc_with (\<lambda>h. Some (False, h)) put_block (block_count h + 1) sz alignment h"

definition merge_right :: "nat \<Rightarrow> kheap \<Rightarrow> kheap" where
  "merge_right i h =
     (let b = block_list h ! i; c = block_list h ! (i + 1) in
      if i + 1 < block_count h \<and> \<not> b_allocated c \<and> b_addr b + b_size b = b_addr c
      then remove_block_at (i + 1) (upd_block i (\<lambda>b. b\<lparr>b_size := b_size b + b_size c\<rparr>) h) else h)"

definition merge_left :: "nat \<Rightarrow> kheap \<Rightarrow> kheap" where
  "merge_left i h =
     (let b = block_list h ! (i - 1); c = block_list h ! i in
      if i > 0 \<and> \<not> b_allocated b \<and> b_addr b + b_size b = b_addr c
      then remove_block_at i (upd_block (i - 1) (\<lambda>b. b\<lparr>b_size := b_size b + b_size c\<rparr>) h) else h)"

definition find_allocated :: "u64 \<Rightarrow> kheap \<Rightarrow> nat option" where
  "find_allocated ptr h = find_index (\<lambda>b. b_allocated b \<and> b_addr b = ptr) (take (block_count h) (block_list h))"

definition kfree_locked :: "u64 \<Rightarrow> kheap \<Rightarrow> kheap" where
  "kfree_locked ptr h =
     (case find_allocated ptr h of
        None \<Rightarrow> h
      | Some i \<Rightarrow>
          let h = h\<lparr>total_allocated := total_allocated h - b_size (block_list h ! i)\<rparr>;
              h = upd_block i (\<lambda>b. b\<lparr>b_allocated := False, b_id := 0\<rparr>) h
          in merge_left i (merge_right i h))"

text \<open>Growing to twice the capacity. The new array was cleared by the allocation.\<close>

definition grow_block_list :: "kheap \<Rightarrow> (bool \<times> kheap) option" where
  "grow_block_list h = do {
     let new_cap = block_capacity h * 2;
     (nl, h) \<leftarrow> kmalloc_growing (of_nat new_cap * SIZEOF_MemBlock) 8 h;
     if nl = 0 then Some (False, h)
     else
       let old_ptr = list_at h; old_on_heap = on_heap h;
           h = h\<lparr>block_list := take (block_count h) (block_list h) @ replicate (new_cap - block_count h) zero_block,
                 list_at := nl, on_heap := True\<rparr>
       in Some (True, if old_on_heap then kfree_locked old_ptr h else h)
   }"

definition insert_block_at :: "nat \<Rightarrow> u64 \<Rightarrow> u64 \<Rightarrow> bool \<Rightarrow> u32 \<Rightarrow> kheap \<Rightarrow> (bool \<times> kheap) option" where
  "insert_block_at idx addr sz allocated bid h = do {
     h \<leftarrow> (if block_count h + 10 \<ge> block_capacity h then map_option snd (grow_block_list h) else Some h);
     put_block idx addr sz allocated bid h
   }"

definition kmalloc_locked :: "u64 \<Rightarrow> u64 \<Rightarrow> kheap \<Rightarrow> (u64 \<times> kheap) option" where
  "kmalloc_locked sz alignment h =
     kmalloc_with grow_block_list insert_block_at (3 * block_capacity h + 8) sz alignment h"

text \<open>The insertion sort: every block moves down past the later addresses in front of it.\<close>

definition sink_block :: "mem_block \<Rightarrow> mem_block list \<Rightarrow> mem_block list" where
  "sink_block key bs =
     rev (dropWhile (\<lambda>b. b_addr b > b_addr key) (rev bs)) @ key #
     rev (takeWhile (\<lambda>b. b_addr b > b_addr key) (rev bs))"

definition sort_block_list :: "kheap \<Rightarrow> kheap" where
  "sort_block_list h =
     h\<lparr>block_list := fold sink_block (take (block_count h) (block_list h)) [] @ drop (block_count h) (block_list h)\<rparr>"

definition largest_free :: "kheap \<Rightarrow> u64" where
  "largest_free h =
     fold (\<lambda>b m. if \<not> b_allocated b \<and> b_size b > m then b_size b else m) (take (block_count h) (block_list h)) 0"

definition calculate_fragmentation :: "kheap \<Rightarrow> u64" where
  "calculate_fragmentation h =
     (let free_total = memory_pool_size h - total_allocated h in
      if free_total = 0 \<or> total_allocated h = 0 then 0
      else 100 - (largest_free h * 100) div free_total)"

end
