(* ===== verification/BosSlab.thy ===== *)
theory BosSlab
  imports BosHeap
begin

text \<open>
  The slab allocator of BoredOS (\<^verbatim>\<open>mem/memory_manager.c\<close>) and the calls of the kernel heap: small
  objects are the slots of pages taken from the block list, and the free slots of a page are a list
  that runs through the slots themselves. Pages and slots are bytes of the memory.
\<close>

section \<open>Pages\<close>

definition PAGE_SIZE :: nat where
  "PAGE_SIZE = 4096"

definition SLAB_PAGE_MAGIC :: nat where
  "SLAB_PAGE_MAGIC = 0x534C4142"

definition SLAB_PAGE_MAGIC_INV :: nat where
  "SLAB_PAGE_MAGIC_INV = 0xFFFFFFFF - SLAB_PAGE_MAGIC"

definition SIZEOF_SlabPage :: nat where
  "SIZEOF_SlabPage = 40"

definition slab_sizes :: "nat list" where
  "slab_sizes = [8, 16, 32, 64, 128, 256, 512]"

text \<open>The fields of the page header at an address.\<close>

definition pg_magic :: "(u64 \<Rightarrow> u8) \<Rightarrow> u64 \<Rightarrow> nat" where
  "pg_magic m p = load_le 4 m p"

definition pg_magic_inv :: "(u64 \<Rightarrow> u8) \<Rightarrow> u64 \<Rightarrow> nat" where
  "pg_magic_inv m p = load_le 4 m (p + 4)"

definition pg_obj_size :: "(u64 \<Rightarrow> u8) \<Rightarrow> u64 \<Rightarrow> nat" where
  "pg_obj_size m p = load_le 2 m (p + 8)"

definition pg_free_count :: "(u64 \<Rightarrow> u8) \<Rightarrow> u64 \<Rightarrow> nat" where
  "pg_free_count m p = load_le 2 m (p + 10)"

definition pg_total_count :: "(u64 \<Rightarrow> u8) \<Rightarrow> u64 \<Rightarrow> nat" where
  "pg_total_count m p = load_le 2 m (p + 12)"

definition pg_obj_start :: "(u64 \<Rightarrow> u8) \<Rightarrow> u64 \<Rightarrow> nat" where
  "pg_obj_start m p = load_le 2 m (p + 14)"

definition pg_class_idx :: "(u64 \<Rightarrow> u8) \<Rightarrow> u64 \<Rightarrow> nat" where
  "pg_class_idx m p = load_le 2 m (p + 16)"

definition pg_next :: "(u64 \<Rightarrow> u8) \<Rightarrow> u64 \<Rightarrow> u64" where
  "pg_next m p = load_ptr m (p + 24)"

definition pg_freelist :: "(u64 \<Rightarrow> u8) \<Rightarrow> u64 \<Rightarrow> u64" where
  "pg_freelist m p = load_ptr m (p + 32)"

definition set_next :: "u64 \<Rightarrow> u64 \<Rightarrow> (u64 \<Rightarrow> u8) \<Rightarrow> (u64 \<Rightarrow> u8)" where
  "set_next p q m = store_ptr q (p + 24) m"

definition set_freelist :: "u64 \<Rightarrow> u64 \<Rightarrow> (u64 \<Rightarrow> u8) \<Rightarrow> (u64 \<Rightarrow> u8)" where
  "set_freelist p q m = store_ptr q (p + 32) m"

definition set_free_count :: "u64 \<Rightarrow> nat \<Rightarrow> (u64 \<Rightarrow> u8) \<Rightarrow> (u64 \<Rightarrow> u8)" where
  "set_free_count p n m = store_le 2 n (p + 10) m"

abbreviation upd_ram :: "((u64 \<Rightarrow> u8) \<Rightarrow> (u64 \<Rightarrow> u8)) \<Rightarrow> kheap \<Rightarrow> kheap" where
  "upd_ram f h \<equiv> h\<lparr>kram := f (kram h)\<rparr>"

section \<open>Questions about a page\<close>

definition slab_class_for_size :: "u64 \<Rightarrow> nat option" where
  "slab_class_for_size sz = find_index (\<lambda>s. sz \<le> of_nat s) slab_sizes"

definition slab_ptr_belongs_to_page :: "(u64 \<Rightarrow> u8) \<Rightarrow> u64 \<Rightarrow> u64 \<Rightarrow> bool" where
  "slab_ptr_belongs_to_page m page ptr =
     (if ptr = 0 then False
      else let off = unat (ptr - page) in
           if off < pg_obj_start m page \<or> off \<ge> PAGE_SIZE then False
           else (off - pg_obj_start m page) mod pg_obj_size m page = 0)"

text \<open>The chain of pages of a cache, from a page on.\<close>

partial_function (option) page_in_chain :: "(u64 \<Rightarrow> u8) \<Rightarrow> u64 \<Rightarrow> u64 \<Rightarrow> bool option" where
  "page_in_chain m p target =
     (if p = 0 then Some False else if p = target then Some True else page_in_chain m (pg_next m p) target)"

definition slab_page_in_cache :: "nat \<Rightarrow> u64 \<Rightarrow> kheap \<Rightarrow> bool option" where
  "slab_page_in_cache cls page h = page_in_chain (kram h) (c_pages (slab_caches h ! cls)) page"

text \<open>The walk along the free slots, at most as many as the page has.\<close>

fun free_in_page :: "(u64 \<Rightarrow> u8) \<Rightarrow> u64 \<Rightarrow> u64 \<Rightarrow> nat \<Rightarrow> u64 \<Rightarrow> bool" where
  "free_in_page m page ptr 0 it = False"
| "free_in_page m page ptr (Suc n) it =
     (if it = 0 then False
      else if it = ptr then True
      else if \<not> slab_ptr_belongs_to_page m page it then False
      else free_in_page m page ptr n (load_ptr m it))"

definition slab_ptr_is_free_in_page :: "(u64 \<Rightarrow> u8) \<Rightarrow> u64 \<Rightarrow> u64 \<Rightarrow> bool" where
  "slab_ptr_is_free_in_page m page ptr = free_in_page m page ptr (pg_total_count m page) (pg_freelist m page)"

text \<open>The checks of the header, without those of the chain and of the slot.\<close>

definition header_ok :: "(u64 \<Rightarrow> u8) \<Rightarrow> u64 \<Rightarrow> bool" where
  "header_ok m page \<longleftrightarrow>
     pg_magic m page = SLAB_PAGE_MAGIC \<and> pg_magic_inv m page = SLAB_PAGE_MAGIC_INV \<and>
     pg_obj_size m page \<noteq> 0 \<and> pg_total_count m page \<noteq> 0 \<and>
     SIZEOF_SlabPage \<le> pg_obj_start m page \<and> pg_obj_start m page < PAGE_SIZE \<and>
     pg_class_idx m page < SLAB_CLASSES \<and> slab_sizes ! pg_class_idx m page = pg_obj_size m page \<and>
     pg_free_count m page \<le> pg_total_count m page \<and>
     (PAGE_SIZE - pg_obj_start m page) div pg_obj_size m page = pg_total_count m page \<and>
     (pg_freelist m page \<noteq> 0 \<longrightarrow> slab_ptr_belongs_to_page m page (pg_freelist m page))"

text \<open>The page that owns a pointer.\<close>

definition slab_owns :: "u64 \<Rightarrow> kheap \<Rightarrow> u64 option option" where
  "slab_owns ptr h =
     (let page = ptr AND NOT 4095 in
      if ptr = 0 \<or> \<not> header_ok (kram h) page then Some None
      else do {
        linked \<leftarrow> slab_page_in_cache (pg_class_idx (kram h) page) page h;
        Some (if linked \<and> slab_ptr_belongs_to_page (kram h) page ptr then Some page else None)
      })"

section \<open>New pages\<close>

text \<open>The first multiple of the object size behind the header.\<close>

definition first_slot :: "nat \<Rightarrow> nat" where
  "first_slot obj_size = (SIZEOF_SlabPage + obj_size - 1) - (SIZEOF_SlabPage + obj_size - 1) mod obj_size"

definition write_header :: "u64 \<Rightarrow> nat \<Rightarrow> nat \<Rightarrow> nat \<Rightarrow> nat \<Rightarrow> (u64 \<Rightarrow> u8) \<Rightarrow> (u64 \<Rightarrow> u8)" where
  "write_header p obj_size cnt obj_start cls m =
     run [store_le 4 SLAB_PAGE_MAGIC p, store_le 4 SLAB_PAGE_MAGIC_INV (p + 4), store_le 2 obj_size (p + 8),
          store_le 2 cnt (p + 10), store_le 2 cnt (p + 12), store_le 2 obj_start (p + 14), store_le 2 cls (p + 16),
          store_le 2 0 (p + 18), set_next p 0] m"

definition link_slots :: "u64 \<Rightarrow> nat \<Rightarrow> nat \<Rightarrow> (u64 \<Rightarrow> u8) \<Rightarrow> (u64 \<Rightarrow> u8)" where
  "link_slots base obj_size cnt m =
     store_ptr 0 (base + of_nat ((cnt - 1) * obj_size))
       (for_up 0 (cnt - 1) (\<lambda>k. store_ptr (base + of_nat ((k + 1) * obj_size)) (base + of_nat (k * obj_size))) m)"

definition slab_new_page :: "nat \<Rightarrow> kheap \<Rightarrow> (u64 \<times> kheap) option" where
  "slab_new_page cls h = do {
     let obj_size = slab_sizes ! cls;
     (page, h) \<leftarrow> kmalloc_locked (of_nat PAGE_SIZE) (of_nat PAGE_SIZE) h;
     if page = 0 then Some (0, h)
     else
       let obj_start = first_slot obj_size; cnt = (PAGE_SIZE - obj_start) div obj_size in
       if obj_start \<ge> PAGE_SIZE \<or> cnt = 0 then Some (0, kfree_locked page h)
       else
         let base = page + of_nat obj_start
         in Some (page, upd_ram (\<lambda>m. set_freelist page base (link_slots base obj_size cnt
                                       (write_header page obj_size cnt obj_start cls m))) h)
   }"

section \<open>Objects\<close>

definition upd_cache :: "nat \<Rightarrow> (slab_cache \<Rightarrow> slab_cache) \<Rightarrow> kheap \<Rightarrow> kheap" where
  "upd_cache cls f h = h\<lparr>slab_caches := (slab_caches h)[cls := f (slab_caches h ! cls)]\<rparr>"

text \<open>The first page of a chain with a free slot.\<close>

partial_function (option) page_with_room :: "(u64 \<Rightarrow> u8) \<Rightarrow> u64 \<Rightarrow> u64 option" where
  "page_with_room m p =
     (if p \<noteq> 0 \<and> pg_free_count m p = 0 then page_with_room m (pg_next m p) else Some p)"

text \<open>A new page goes to the front of its cache.\<close>

definition add_page :: "nat \<Rightarrow> kheap \<Rightarrow> (u64 \<times> kheap) option" where
  "add_page cls h = do {
     (page, h) \<leftarrow> slab_new_page cls h;
     if page = 0 then Some (0, h)
     else Some (page, upd_cache cls (\<lambda>c. c\<lparr>c_pages := page\<rparr>)
                        (upd_ram (set_next page (c_pages (slab_caches h ! cls))) h))
   }"

text \<open>The page in front of a page in a chain, or 0.\<close>

partial_function (option) page_before :: "(u64 \<Rightarrow> u8) \<Rightarrow> u64 \<Rightarrow> u64 \<Rightarrow> u64 option" where
  "page_before m prev page =
     (if prev \<noteq> 0 \<and> pg_next m prev \<noteq> page then page_before m (pg_next m prev) page else Some prev)"

fun hex_of :: "nat \<Rightarrow> string" where
  "hex_of n = (if n < 16 then [''0123456789ABCDEF'' ! n] else hex_of (n div 16) @ [''0123456789ABCDEF'' ! (n mod 16)])"

definition corrupt_message :: "nat \<Rightarrow> u64 \<Rightarrow> u64 \<Rightarrow> string" where
  "corrupt_message cls page obj =
     ''[SLAB] corrupt freelist cls='' @ hex_of cls @ '' page='' @ hex_of (unat page) @ '' fl='' @ hex_of (unat obj) @ [CHR 0x0A]"

text \<open>Taking a page with a corrupted list out of its cache.\<close>

definition unlink_page :: "nat \<Rightarrow> u64 \<Rightarrow> kheap \<Rightarrow> kheap option" where
  "unlink_page cls page h =
     (let next = pg_next (kram h) page; isolate = upd_ram (\<lambda>m. set_next page 0 (set_freelist page 0 (set_free_count page 0 m))) in
      if c_pages (slab_caches h ! cls) = page
      then Some (isolate (upd_cache cls (\<lambda>c. c\<lparr>c_pages := next\<rparr>) h))
      else do {
        prev \<leftarrow> page_before (kram h) (c_pages (slab_caches h ! cls)) page;
        Some (isolate (if prev \<noteq> 0 then upd_ram (set_next prev next) h else h))
      })"

definition LOWEST_KERNEL_ADDRESS :: u64 where
  "LOWEST_KERNEL_ADDRESS = 0xFFFF000000000000"

definition take_slot :: "nat \<Rightarrow> u64 \<Rightarrow> u64 \<Rightarrow> kheap \<Rightarrow> u64 \<times> kheap" where
  "take_slot cls page obj h =
     (let h = upd_ram (\<lambda>m. set_freelist page (load_ptr m obj) m) h;
          h = upd_ram (\<lambda>m. set_free_count page (pg_free_count m page + 65535) m) h;
          h = upd_cache cls (\<lambda>c. c\<lparr>c_allocs := c_allocs c + 1\<rparr>) h
      in (obj, mem_memset obj 0 (of_nat (slab_sizes ! cls)) (h\<lparr>slab_total_allocs := slab_total_allocs h + 1\<rparr>)))"

definition slab_alloc :: "nat \<Rightarrow> kheap \<Rightarrow> (u64 \<times> kheap) option" where
  "slab_alloc cls h = do {
     page \<leftarrow> page_with_room (kram h) (c_pages (slab_caches h ! cls));
     (page, h) \<leftarrow> (if page = 0 then add_page cls h else Some (page, h));
     if page = 0 then Some (0, h)
     else
       let obj = pg_freelist (kram h) page in
       if obj < LOWEST_KERNEL_ADDRESS
       then do {
         h \<leftarrow> unlink_page cls page (h\<lparr>mem_log := mem_log h @ corrupt_message cls page obj\<rparr>);
         (page, h) \<leftarrow> add_page cls h;
         Some (if page = 0 then (0, h) else take_slot cls page (pg_freelist (kram h) page) h)
       }
       else Some (take_slot cls page obj h)
   }"

definition put_slot :: "u64 \<Rightarrow> u64 \<Rightarrow> kheap \<Rightarrow> kheap" where
  "put_slot page ptr h =
     (let h = upd_ram (\<lambda>m. store_ptr (pg_freelist m page) ptr m) h;
          h = upd_ram (set_freelist page ptr) h;
          h = upd_ram (\<lambda>m. set_free_count page (pg_free_count m page + 1) m) h
      in case slab_class_for_size (of_nat (pg_obj_size (kram h) page)) of
           None \<Rightarrow> h
         | Some cls \<Rightarrow> (upd_cache cls (\<lambda>c. c\<lparr>c_frees := c_frees c + 1\<rparr>) h)\<lparr>slab_total_frees := slab_total_frees h + 1\<rparr>)"

definition slab_free :: "u64 \<Rightarrow> kheap \<Rightarrow> kheap option" where
  "slab_free ptr h = do {
     owner \<leftarrow> slab_owns ptr h;
     Some (case owner of
             None \<Rightarrow> h
           | Some page \<Rightarrow>
               if pg_free_count (kram h) page \<ge> pg_total_count (kram h) page then h
               else if slab_ptr_is_free_in_page (kram h) page ptr then h
               else put_slot page ptr h)
   }"

section \<open>Start\<close>

text \<open>The part of an entry of the memory map above the first megabyte, if any.\<close>

definition above_low_memory :: "memmap_entry \<Rightarrow> (u64 \<times> u64) option" where
  "above_low_memory e =
     (if e_type e \<noteq> LIMINE_MEMMAP_USABLE then None
      else let base = e_base e; sz = e_length e in
           if base < 0x100000
           then if base + sz \<le> 0x100000 then None
                else let sz = sz - (0x100000 - base) in if sz < 4096 then None else Some (0x100000, sz)
           else if sz < 4096 then None else Some (base, sz))"

fun collect_blocks :: "u64 \<Rightarrow> memmap_entry list \<Rightarrow> kheap \<Rightarrow> kheap" where
  "collect_blocks hhdm_offset [] h = h"
| "collect_blocks hhdm_offset (e # es) h =
     (case above_low_memory e of
        None \<Rightarrow> collect_blocks hhdm_offset es h
      | Some (base, sz) \<Rightarrow>
          if block_count h \<ge> block_capacity h then h
          else collect_blocks hhdm_offset es
                 (h\<lparr>block_list := (block_list h)[block_count h := zero_block\<lparr>b_addr := base + hhdm_offset, b_size := sz\<rparr>],
                    block_count := block_count h + 1, memory_pool_size := memory_pool_size h + sz\<rparr>))"

fun decimal_of :: "nat \<Rightarrow> string" where
  "decimal_of n = (if n < 10 then [''0123456789'' ! n] else decimal_of (n div 10) @ [''0123456789'' ! (n mod 10)])"

definition empty_cache :: slab_cache where
  "empty_cache = \<lparr>c_pages = 0, c_allocs = 0, c_frees = 0\<rparr>"

text \<open>\<open>boot_blocks_at\<close> is the address of the array in the kernel image.\<close>

definition memory_manager_init_from_memmap :: "u64 \<Rightarrow> u64 \<Rightarrow> memmap_entry list option \<Rightarrow> kheap \<Rightarrow> kheap" where
  "memory_manager_init_from_memmap hhdm_offset boot_blocks_at memmap h =
     (case memmap of
        None \<Rightarrow> h
      | Some entries \<Rightarrow>
          if heap_ready h then h
          else let h = h\<lparr>block_list := replicate BLOCK_LIST_INITIAL_CAPACITY zero_block, block_count := 0, list_at := boot_blocks_at,
                         on_heap := False, total_allocated := 0, peak_allocated := 0, allocation_counter := 0, memory_pool_size := 0,
                         slab_caches := replicate SLAB_CLASSES empty_cache, slab_total_allocs := 0, slab_total_frees := 0\<rparr>;
                   h = sort_block_list (collect_blocks hhdm_offset entries h)
               in h\<lparr>heap_ready := True,
                    mem_log := mem_log h @ ''[MEM] Total usable memory: '' @
                      decimal_of (unat (ucast (memory_pool_size h div 1024 div 1024) :: u32)) @ '' MB'' @ [CHR 0x0A]\<rparr>)"

section \<open>The calls of the heap\<close>

definition kmalloc_aligned :: "u64 \<Rightarrow> u64 \<Rightarrow> kheap \<Rightarrow> (u64 \<times> kheap) option" where
  "kmalloc_aligned sz alignment h =
     (if \<not> heap_ready h \<or> sz = 0 then Some (0, h)
      else case (alignment \<le> 8, slab_class_for_size sz) of
             (True, Some cls) \<Rightarrow> slab_alloc cls h
           | _ \<Rightarrow> kmalloc_locked sz alignment h)"

definition kmalloc :: "u64 \<Rightarrow> kheap \<Rightarrow> (u64 \<times> kheap) option" where
  "kmalloc sz h = kmalloc_aligned sz 8 h"

definition kcalloc :: "u64 \<Rightarrow> u64 \<Rightarrow> kheap \<Rightarrow> (u64 \<times> kheap) option" where
  "kcalloc n sz h = do {
     let tot = n * sz;
     (ptr, h) \<leftarrow> kmalloc tot h;
     Some (ptr, if ptr \<noteq> 0 then mem_memset ptr 0 tot h else h)
   }"

text \<open>A slot goes back to its page, anything else to the block list.\<close>

definition release :: "u64 \<Rightarrow> kheap \<Rightarrow> kheap option" where
  "release ptr h = do {
     owner \<leftarrow> slab_owns ptr h;
     (case owner of None \<Rightarrow> Some (kfree_locked ptr h) | Some page \<Rightarrow> slab_free ptr h)
   }"

definition kfree :: "u64 \<Rightarrow> kheap \<Rightarrow> kheap option" where
  "kfree ptr h = (if ptr = 0 \<or> \<not> heap_ready h then Some h else release ptr h)"

text \<open>Shrinking a block in its place; the rest becomes a free block when it has 32 bytes.\<close>

definition shrink_block :: "nat \<Rightarrow> u64 \<Rightarrow> u64 \<Rightarrow> u64 \<Rightarrow> kheap \<Rightarrow> kheap option" where
  "shrink_block i ptr old_size new_size h =
     (let diff = old_size - new_size in
      if diff < 32 then Some h
      else do {
        (ok, h) \<leftarrow> insert_block_at (i + 1) (ptr + new_size) diff False 0 (upd_block i (\<lambda>b. b\<lparr>b_size := new_size\<rparr>) h);
        Some (if ok then merge_right (i + 1) (h\<lparr>total_allocated := total_allocated h - diff\<rparr>)
              else upd_block i (\<lambda>b. b\<lparr>b_size := old_size\<rparr>) h)
      })"

text \<open>Moving to a new place: all of the old size is copied.\<close>

definition move_object :: "u64 \<Rightarrow> u64 \<Rightarrow> u64 \<Rightarrow> kheap \<Rightarrow> (u64 \<times> kheap) option" where
  "move_object ptr old_size new_size h = do {
     (np, h) \<leftarrow> (case slab_class_for_size new_size of
                  Some cls \<Rightarrow> slab_alloc cls h
                | None \<Rightarrow> kmalloc_locked new_size 8 h);
     if np = 0 then Some (0, h)
     else do { h \<leftarrow> release ptr (mem_memmove np ptr old_size h); Some (np, h) }
   }"

definition krealloc :: "u64 \<Rightarrow> u64 \<Rightarrow> kheap \<Rightarrow> (u64 \<times> kheap) option" where
  "krealloc ptr new_size h =
     (if new_size = 0 then map_option (\<lambda>h. (0, h)) (kfree ptr h)
      else if ptr = 0 then kmalloc new_size h
      else do {
        let new_size = round8 new_size;
        owner \<leftarrow> slab_owns ptr h;
        let found = find_allocated ptr h;
        let old_size = (case owner of
                          Some page \<Rightarrow> of_nat (pg_obj_size (kram h) page)
                        | None \<Rightarrow> (case found of Some i \<Rightarrow> b_size (block_list h ! i) | None \<Rightarrow> 0));
        if old_size = 0 then Some (0, h)
        else if old_size = new_size then Some (ptr, h)
        else if old_size < new_size then move_object ptr old_size new_size h
        else (case (owner, found) of
                (Some page, _) \<Rightarrow>
                  (case slab_class_for_size new_size of
                     Some cls \<Rightarrow> if slab_sizes ! cls \<ge> pg_obj_size (kram h) page then Some (ptr, h)
                                 else move_object ptr old_size new_size h
                   | None \<Rightarrow> Some (ptr, h))
              | (None, Some i) \<Rightarrow> map_option (\<lambda>h. (ptr, h)) (shrink_block i ptr old_size new_size h)
              | (None, None) \<Rightarrow> move_object ptr old_size new_size h)
      })"

section \<open>Statistics\<close>

record mem_stats =
  st_total_memory :: u64
  st_used_memory :: u64
  st_available_memory :: u64
  st_allocated_blocks :: u64
  st_free_blocks :: u64
  st_largest_free_block :: u64
  st_smallest_free_block :: u64
  st_fragmentation_percent :: u64
  st_peak_memory_used :: u64
  st_slab_allocs :: u64
  st_slab_frees :: u64

definition memory_get_stats :: "kheap \<Rightarrow> mem_stats" where
  "memory_get_stats h =
     (let bs = take (block_count h) (block_list h); free = filter (\<lambda>b. \<not> b_allocated b) bs in
      \<lparr>st_total_memory = memory_pool_size h, st_used_memory = total_allocated h,
       st_available_memory = memory_pool_size h - total_allocated h,
       st_allocated_blocks = of_nat (length (filter b_allocated bs)), st_free_blocks = of_nat (length free),
       st_largest_free_block = largest_free h,
       st_smallest_free_block = (if free = [] then 0 else fold (\<lambda>b m. min (b_size b) m) free (memory_pool_size h)),
       st_fragmentation_percent = calculate_fragmentation h, st_peak_memory_used = peak_allocated h,
       st_slab_allocs = slab_total_allocs h, st_slab_frees = slab_total_frees h\<rparr>)"

end
