(* ===== verification/BosSlabLaws.thy ===== *)
theory BosSlabLaws
  imports BosSlab
begin

text \<open>
  What a slab page promises: its free slots, the list that runs through their own bytes, are
  exactly those not handed out; an allocation takes the first, a free puts the slot back once; and
  where moving an object to a smaller slot goes wrong.
\<close>

section \<open>Bytes of a page\<close>

text \<open>Fields at an offset of a page.\<close>

definition ld :: "nat \<Rightarrow> (u64 \<Rightarrow> u8) \<Rightarrow> u64 \<Rightarrow> nat \<Rightarrow> nat" where
  "ld k m p off = load_le k m (p + of_nat off)"

definition st :: "nat \<Rightarrow> nat \<Rightarrow> u64 \<Rightarrow> nat \<Rightarrow> (u64 \<Rightarrow> u8) \<Rightarrow> (u64 \<Rightarrow> u8)" where
  "st k v p off m = store_le k v (p + of_nat off) m"

lemma offset_inj: "i < 2 ^ 64 \<Longrightarrow> j < 2 ^ 64 \<Longrightarrow> p + of_nat i = p + (of_nat j :: u64) \<longleftrightarrow> i = j"
  using add_of_nat_inj [of p i j] by auto

lemma store_le_other: "(\<And>i. i < k \<Longrightarrow> b \<noteq> a + of_nat i) \<Longrightarrow> store_le k v a m b = m b"
proof (induction k arbitrary: v a m)
  case (Suc k)
  have "b \<noteq> a" using Suc.prems [of 0] by simp
  moreover have "b \<noteq> a + 1 + of_nat i" if "i < k" for i using Suc.prems [of "Suc i"] that by (simp add: ac_simps)
  ultimately show ?case using Suc.IH by simp
qed simp

lemma load_le_cong: "(\<And>i. i < k \<Longrightarrow> m (a + of_nat i) = m' (a + of_nat i)) \<Longrightarrow> load_le k m a = load_le k m' a"
proof (induction k arbitrary: a)
  case (Suc k)
  have "m a = m' a" using Suc.prems [of 0] by simp
  moreover have "load_le k m (a + 1) = load_le k m' (a + 1)"
    using Suc.prems [of "Suc i" for i] by (intro Suc.IH) (simp add: ac_simps)
  ultimately show ?case by simp
qed simp

lemma load_store_same: "k \<le> 2 ^ 63 \<Longrightarrow> load_le k (store_le k v a m) a = v mod 256 ^ k"
proof (induction k arbitrary: v a m)
  case (Suc k)
  have "a \<noteq> a + 1 + of_nat i" if "i < k" for i
    using offset_inj [of 0 "Suc i" a] that Suc.prems by (simp add: ac_simps)
  then have "store_le k (v div 256) (a + 1) (m(a := of_nat v)) a = of_nat v" by (simp add: store_le_other)
  then have "load_le (Suc k) (store_le (Suc k) v a m) a = v mod 256 + 256 * (v div 256 mod 256 ^ k)"
    using Suc by (simp add: unat_of_nat)
  also have "\<dots> = v mod (256 * 256 ^ k)" by (simp add: mod_mult2_eq)
  finally show ?case by simp
qed simp

lemma ld_st_same [simp]: "k \<le> 8 \<Longrightarrow> ld k (st k v p off m) p off = v mod 256 ^ k"
  by (simp add: ld_def st_def load_store_same)

lemma st_other:
  assumes "q < off \<or> off + k \<le> q" and "q < 4096" and "off + k \<le> 4096"
  shows "st k v p off m (p + of_nat q) = m (p + of_nat q)"
  unfolding st_def
proof (rule store_le_other)
  fix i assume "i < k"
  then show "p + of_nat q \<noteq> p + of_nat off + of_nat i"
    using offset_inj [of q "off + i" p] assms by (auto simp: ac_simps)
qed

lemma ld_st_other [simp]:
  assumes "off + j \<le> q \<or> q + k \<le> off" and "q + k \<le> 4096" and "off + j \<le> 4096"
  shows "ld k (st j v p off m) p q = ld k m p q"
  unfolding ld_def
proof (rule load_le_cong)
  fix i assume "i < k"
  then show "st j v p off m (p + of_nat q + of_nat i) = m (p + of_nat q + of_nat i)"
    using st_other [of "q + i" off j v p m] assms by (auto simp: ac_simps)
qed

lemma ram_fill_other: "(\<And>i. i < n \<Longrightarrow> b \<noteq> a + of_nat i) \<Longrightarrow> ram_fill a v n m b = m b"
proof (induction n arbitrary: a m)
  case (Suc n)
  have "b \<noteq> a" using Suc.prems [of 0] by simp
  moreover have "b \<noteq> a + 1 + of_nat i" if "i < n" for i using Suc.prems [of "Suc i"] that by (simp add: ac_simps)
  ultimately show ?case using Suc.IH by simp
qed simp

lemma ld_fill_other:
  assumes "off + n \<le> q \<or> q + k \<le> off" and "q + k \<le> 4096" and "off + n \<le> 4096"
  shows "ld k (ram_fill (p + of_nat off) v n m) p q = ld k m p q"
  unfolding ld_def
proof (rule load_le_cong)
  fix i assume "i < k"
  then have "p + of_nat q + of_nat i \<noteq> p + of_nat off + of_nat j" if "j < n" for j
    using offset_inj [of "q + i" "off + j" p] assms that by (auto simp: ac_simps)
  then show "ram_fill (p + of_nat off) v n m (p + of_nat q + of_nat i) = m (p + of_nat q + of_nat i)"
    by (rule ram_fill_other)
qed

lemma page_fields:
  "pg_magic m p = ld 4 m p 0" "pg_magic_inv m p = ld 4 m p 4" "pg_obj_size m p = ld 2 m p 8"
  "pg_free_count m p = ld 2 m p 10" "pg_total_count m p = ld 2 m p 12" "pg_obj_start m p = ld 2 m p 14"
  "pg_class_idx m p = ld 2 m p 16" "pg_next m p = of_nat (ld 8 m p 24)" "pg_freelist m p = of_nat (ld 8 m p 32)"
  by (simp_all add: ld_def pg_magic_def pg_magic_inv_def pg_obj_size_def pg_free_count_def pg_total_count_def
      pg_obj_start_def pg_class_idx_def pg_next_def pg_freelist_def load_ptr_def)

lemma page_stores:
  "set_next p q = st 8 (unat q) p 24" "set_freelist p q = st 8 (unat q) p 32" "set_free_count p n = st 2 n p 10"
  by (simp_all add: st_def set_next_def set_freelist_def set_free_count_def store_ptr_def fun_eq_iff)

lemma slot_stores:
  "load_ptr m (p + of_nat off) = of_nat (ld 8 m p off)" "store_ptr q (p + of_nat off) = st 8 (unat q) p off"
  by (simp_all add: ld_def st_def load_ptr_def store_ptr_def fun_eq_iff)

lemma unat_ptr [simp]: "unat (q :: u64) mod 256 ^ 8 = unat q"
  using unat_less_2p [of q] by simp

section \<open>Slots\<close>

definition slot_size :: "nat \<Rightarrow> nat" where
  "slot_size cls = slab_sizes ! cls"

definition slot_start :: "nat \<Rightarrow> nat" where
  "slot_start cls = first_slot (slot_size cls)"

definition slot_count :: "nat \<Rightarrow> nat" where
  "slot_count cls = (PAGE_SIZE - slot_start cls) div slot_size cls"

lemma class_cases: "cls < SLAB_CLASSES \<Longrightarrow> cls \<in> {0, 1, 2, 3, 4, 5, 6}"
  by (auto simp: SLAB_CLASSES_def)

lemma slot_facts:
  assumes "cls < SLAB_CLASSES"
  shows "8 \<le> slot_size cls" and "slot_size cls < 2 ^ 16" and "40 \<le> slot_start cls" and "slot_start cls < 4096"
    and "0 < slot_count cls" and "slot_count cls < 2 ^ 16" and "slot_start cls + slot_count cls * slot_size cls \<le> 4096"
  using class_cases [OF assms]
  by (auto simp: slot_size_def slot_start_def slot_count_def slab_sizes_def first_slot_def SIZEOF_SlabPage_def PAGE_SIZE_def)

definition slots :: "nat \<Rightarrow> nat list" where
  "slots cls = map (\<lambda>k. slot_start cls + k * slot_size cls) [0..<slot_count cls]"

lemma slot_index: "off \<in> set (slots cls) \<Longrightarrow> \<exists>k < slot_count cls. off = slot_start cls + k * slot_size cls"
  by (auto simp: slots_def)

lemma slot_bounds:
  assumes "cls < SLAB_CLASSES" and "off \<in> set (slots cls)"
  shows "40 \<le> off" and "off + slot_size cls \<le> 4096" and "off + 8 \<le> 4096"
proof -
  note f = slot_facts [OF assms(1)]
  obtain k where k: "off = slot_start cls + k * slot_size cls" "k < slot_count cls" using slot_index [OF assms(2)] by blast
  have "(k + 1) * slot_size cls \<le> slot_count cls * slot_size cls" using k(2) by (intro mult_le_mono) simp_all
  then show "40 \<le> off" "off + slot_size cls \<le> 4096" "off + 8 \<le> 4096" using f k(1) by simp_all
qed

lemma slots_apart:
  assumes "off \<in> set (slots cls)" and "off' \<in> set (slots cls)" and "off < off'"
  shows "off + slot_size cls \<le> off'"
proof -
  obtain k k' where k: "off = slot_start cls + k * slot_size cls" "off' = slot_start cls + k' * slot_size cls"
    using slot_index assms(1,2) by meson
  have "k < k'" using assms(3) unfolding k by (metis add_less_cancel_left mult_less_cancel2)
  then have "(k + 1) * slot_size cls \<le> k' * slot_size cls" by (intro mult_le_mono) simp_all
  then show ?thesis by (simp add: k)
qed

text \<open>The pointer to the first of some slots, and the links between them.\<close>

definition first_of :: "u64 \<Rightarrow> nat list \<Rightarrow> u64" where
  "first_of p offs = (case offs of [] \<Rightarrow> 0 | off # _ \<Rightarrow> p + of_nat off)"

fun linked :: "(u64 \<Rightarrow> u8) \<Rightarrow> u64 \<Rightarrow> nat list \<Rightarrow> bool" where
  "linked m p [] = True"
| "linked m p (off # offs) = (ld 8 m p off = unat (first_of p offs) \<and> linked m p offs)"

text \<open>A page of a class whose free slots, in the order of the list, stand at these offsets.\<close>

definition page_state :: "(u64 \<Rightarrow> u8) \<Rightarrow> u64 \<Rightarrow> nat \<Rightarrow> nat list \<Rightarrow> bool" where
  "page_state m p cls offs \<longleftrightarrow>
     cls < SLAB_CLASSES \<and> p AND NOT 4095 = p \<and> LOWEST_KERNEL_ADDRESS \<le> p \<and>
     ld 4 m p 0 = SLAB_PAGE_MAGIC \<and> ld 4 m p 4 = SLAB_PAGE_MAGIC_INV \<and> ld 2 m p 8 = slot_size cls \<and>
     ld 2 m p 10 = length offs \<and> ld 2 m p 12 = slot_count cls \<and> ld 2 m p 14 = slot_start cls \<and> ld 2 m p 16 = cls \<and>
     ld 8 m p 32 = unat (first_of p offs) \<and> linked m p offs \<and> distinct offs \<and> set offs \<subseteq> set (slots cls)"

lemma linked_cong: "(\<And>off. off \<in> set offs \<Longrightarrow> ld 8 m p off = ld 8 m' p off) \<Longrightarrow> linked m p offs = linked m' p offs"
  by (induction offs) auto

lemma free_le_total: "page_state m p cls offs \<Longrightarrow> length offs \<le> slot_count cls"
  by (metis card_mono distinct_card length_map length_upt diff_zero page_state_def finite_set card_length le_trans slots_def)

lemma slots_distinct: "cls < SLAB_CLASSES \<Longrightarrow> distinct (slots cls)"
  using slot_facts(1) [of cls] by (auto simp: slots_def distinct_map inj_on_def)

text \<open>Two pages have no byte in common.\<close>

lemma page_low_bits: "p AND NOT 4095 = p \<Longrightarrow> unat p mod 4096 = 0" for p :: u64
  using unat_and_not_mask [of p 12] by (simp add: mask_4095)

lemma page_of:
  assumes "p AND NOT 4095 = p" and "off < 4096"
  shows "(p + of_nat off) AND NOT 4095 = (p :: u64)"
proof -
  have "unat p mod 4096 = 0" using page_low_bits [OF assms(1)] .
  then obtain t where t: "unat p = 4096 * t" by (metis dvd_def mod_0_imp_dvd)
  have "unat p < 2 ^ 64" using unat_less_2p [of p] by simp
  then have "unat p + off < 2 ^ 64" using t assms(2) by simp
  then have "unat (p + of_nat off) = unat p + off" using assms(2) by (simp add: unat_word_ariths(1) unat_of_nat)
  moreover have "(unat p + off) mod 4096 = off" using t assms(2) by simp
  ultimately have "unat ((p + of_nat off) AND NOT 4095) = unat p"
    using unat_and_not_mask [of "p + of_nat off" 12] by (simp add: mask_4095)
  then show ?thesis by (simp add: word_unat_eq_iff)
qed

lemma ld_outside:
  assumes "\<And>off. off < 4096 \<Longrightarrow> m (q + of_nat off) = m' (q + of_nat off)" and "off + k \<le> 4096"
  shows "ld k m q off = ld k m' q off"
  unfolding ld_def
  using assms(1) [of "off + i" for i] assms(2) by (intro load_le_cong) (simp add: ac_simps)

text \<open>What leaves the bytes of other pages alone.\<close>

definition only_page :: "u64 \<Rightarrow> (u64 \<Rightarrow> u8) \<Rightarrow> (u64 \<Rightarrow> u8) \<Rightarrow> bool" where
  "only_page p m m' \<longleftrightarrow> (\<forall>a. a AND NOT 4095 \<noteq> p \<longrightarrow> m' a = m a)"

lemma only_page_st: "p AND NOT 4095 = p \<Longrightarrow> off + k \<le> 4096 \<Longrightarrow> only_page p m (st k v p off m)"
  unfolding only_page_def st_def
proof (intro allI impI)
  fix a assume p: "p AND NOT 4095 = p" and "off + k \<le> 4096" and a: "a AND NOT 4095 \<noteq> p"
  show "store_le k v (p + of_nat off) m a = m a"
  proof (rule store_le_other)
    fix i assume "i < k"
    then show "a \<noteq> p + of_nat off + of_nat i"
      using page_of [OF p, of "off + i"] a \<open>off + k \<le> 4096\<close> by (auto simp: ac_simps)
  qed
qed

lemma only_page_fill: "p AND NOT 4095 = p \<Longrightarrow> off + n \<le> 4096 \<Longrightarrow> only_page p m (ram_fill (p + of_nat off) v n m)"
  unfolding only_page_def
proof (intro allI impI)
  fix a assume p: "p AND NOT 4095 = p" and "off + n \<le> 4096" and a: "a AND NOT 4095 \<noteq> p"
  show "ram_fill (p + of_nat off) v n m a = m a"
  proof (rule ram_fill_other)
    fix i assume "i < n"
    then show "a \<noteq> p + of_nat off + of_nat i"
      using page_of [OF p, of "off + i"] a \<open>off + n \<le> 4096\<close> by (auto simp: ac_simps)
  qed
qed

lemma only_page_trans: "only_page p a b \<Longrightarrow> only_page p b c \<Longrightarrow> only_page p a c"
  by (simp add: only_page_def)

lemma other_page_fields:
  assumes "only_page p m m'" and "q AND NOT 4095 = q" and "q \<noteq> p" and "off + k \<le> 4096"
  shows "ld k m' q off = ld k m q off"
  using assms page_of [OF assms(2)] by (intro ld_outside) (auto simp: only_page_def)

section \<open>Taking and giving back a slot\<close>

lemma pointer_not_null: "LOWEST_KERNEL_ADDRESS \<le> p \<Longrightarrow> p AND NOT 4095 = p \<Longrightarrow> off < 4096 \<Longrightarrow>
  LOWEST_KERNEL_ADDRESS \<le> p + of_nat off \<and> p + of_nat off \<noteq> 0"
proof -
  assume a: "LOWEST_KERNEL_ADDRESS \<le> p" "p AND NOT 4095 = p" "off < 4096"
  let ?x = "p + of_nat off"
  have "p \<le> ?x"
  proof -
    have "?x AND NOT 4095 = p" by (rule page_of [OF a(2,3)])
    then have "unat p \<le> unat ?x" using unat_and_not_mask [of ?x 12] by (simp add: mask_4095)
    then show ?thesis by (simp add: word_le_nat_alt)
  qed
  then show ?thesis using a(1) by (auto simp: LOWEST_KERNEL_ADDRESS_def)
qed

definition taken :: "nat \<Rightarrow> u64 \<Rightarrow> nat \<Rightarrow> (u64 \<Rightarrow> u8) \<Rightarrow> (u64 \<Rightarrow> u8)" where
  "taken cls p off m =
     ram_fill (p + of_nat off) 0 (slot_size cls)
       (st 2 (ld 2 (st 8 (ld 8 m p off) p 32 m) p 10 + 65535) p 10 (st 8 (ld 8 m p off) p 32 m))"

lemma ld_8_small: "ld 8 m p off < 2 ^ 64"
proof -
  have "load_le k m a < 256 ^ k" for k a
  proof (induction k arbitrary: a)
    case (Suc k)
    have "unat (m a) < 256" using unat_less_2p [of "m a"] by simp
    then show ?case using Suc [of "a + 1"] by simp
  qed simp
  from this [of 8] show ?thesis by (simp add: ld_def)
qed

lemma slot_other_off:
  assumes "cls < SLAB_CLASSES" and "off \<in> set (slots cls)" and "q \<in> set (slots cls)" and "q \<noteq> off"
  shows "off + slot_size cls \<le> q \<or> q + 8 \<le> off"
  using slots_apart [OF assms(2,3)] slots_apart [OF assms(3,2)] assms(4) slot_facts(1) [OF assms(1)] by linarith

lemma taken_state:
  assumes "page_state m p cls (off # offs)"
  shows "page_state (taken cls p off m) p cls offs" and "only_page p m (taken cls p off m)"
    and "\<And>i. i < slot_size cls \<Longrightarrow> taken cls p off m (p + of_nat off + of_nat i) = 0"
proof -
  note s = assms [unfolded page_state_def]
  have cls: "cls < SLAB_CLASSES" and off: "off \<in> set (slots cls)" using s by auto
  note b = slot_bounds [OF cls off]
  have len: "Suc (length offs) < 2 ^ 16"
    using free_le_total [OF assms] slot_facts(6) [OF cls] by simp
  let ?m1 = "st 8 (ld 8 m p off) p 32 m" 
  let ?m2 = "st 2 (ld 2 ?m1 p 10 + 65535) p 10 ?m1"
  have head: "ld k (taken cls p off m) p q = ld k ?m2 p q" if "q + k \<le> 40" for k q
    unfolding taken_def using b that by (intro ld_fill_other) auto
  have links: "ld 8 (taken cls p off m) p q = ld 8 m p q" if "q \<in> set offs" for q
  proof -
    have q: "q \<in> set (slots cls)" "q \<noteq> off" using s that by auto
    note bq = slot_bounds [OF cls q(1)]
    have "ld 8 (taken cls p off m) p q = ld 8 ?m2 p q"
      unfolding taken_def using b bq slot_other_off [OF cls off q] by (intro ld_fill_other) auto
    also have "\<dots> = ld 8 m p q" using bq by simp
    finally show ?thesis .
  qed
  have "linked m p offs" using s by simp
  moreover have "linked (taken cls p off m) p offs = linked m p offs" by (rule linked_cong) (rule links)
  ultimately have "linked (taken cls p off m) p offs" by blast
  moreover have "ld 8 m p off = unat (first_of p offs)" using s by simp
  ultimately show "page_state (taken cls p off m) p cls offs"
    using s len ld_8_small [of m p off] by (simp add: page_state_def head)
  have pa: "p AND NOT 4095 = p" using s by simp
  have "only_page p m ?m1" and "only_page p ?m1 ?m2" by (intro only_page_st [OF pa]; simp)+
  moreover have "only_page p ?m2 (taken cls p off m)" unfolding taken_def by (rule only_page_fill [OF pa b(2)])
  ultimately show "only_page p m (taken cls p off m)" using only_page_trans by blast
  fix i assume "i < slot_size cls"
  have fill: "i < n \<Longrightarrow> n \<le> 2 ^ 63 \<Longrightarrow> ram_fill a v n m' (a + of_nat i) = v" for i n a v and m' :: "u64 \<Rightarrow> u8"
  proof (induction n arbitrary: a i m')
    case (Suc n)
    show ?case
    proof (cases i)
      case 0
      have "a \<noteq> a + 1 + of_nat j" if "j < n" for j
        using offset_inj [of 0 "Suc j" a] that Suc.prems by (simp add: ac_simps)
      then show ?thesis using 0 by (simp add: ram_fill_other)
    next
      case (Suc j)
      then show ?thesis using Suc.IH [of j "a + 1"] Suc.prems by (simp add: ac_simps)
    qed
  qed simp
  show "taken cls p off m (p + of_nat off + of_nat i) = 0"
    unfolding taken_def using fill \<open>i < slot_size cls\<close> b(2) by simp
qed

definition given_back :: "u64 \<Rightarrow> nat \<Rightarrow> (u64 \<Rightarrow> u8) \<Rightarrow> (u64 \<Rightarrow> u8)" where
  "given_back p off m =
     (let m1 = st 8 (ld 8 m p 32) p off m; m2 = st 8 (unat (p + of_nat off)) p 32 m1
      in st 2 (ld 2 m2 p 10 + 1) p 10 m2)"

lemma given_back_state:
  assumes "page_state m p cls offs" and "off \<in> set (slots cls)" and "off \<notin> set offs"
  shows "page_state (given_back p off m) p cls (off # offs)" and "only_page p m (given_back p off m)"
proof -
  note s = assms(1) [unfolded page_state_def]
  have cls: "cls < SLAB_CLASSES" using s by simp
  note b = slot_bounds [OF cls assms(2)]
  have "card (set (off # offs)) \<le> card (set (slots cls))" using assms s by (intro card_mono) auto
  then have len: "Suc (length offs) < 2 ^ 16"
    using assms(3) s slot_facts(6) [OF cls] card_length [of "slots cls"] by (simp add: distinct_card slots_def)
  let ?m1 = "st 8 (ld 8 m p 32) p off m"
  let ?m2 = "st 8 (unat (p + of_nat off)) p 32 ?m1"
  have gb: "given_back p off m = st 2 (ld 2 ?m2 p 10 + 1) p 10 ?m2" by (simp add: given_back_def Let_def)
  have head: "ld k (given_back p off m) p q = ld k m p q" if "q + k \<le> 10 \<or> (12 \<le> q \<and> q + k \<le> 32)" for k q
    unfolding gb using b that by auto
  have links: "ld 8 (given_back p off m) p q = ld 8 m p q" if "q \<in> set offs" for q
  proof -
    have q: "q \<in> set (slots cls)" "q \<noteq> off" using s that assms(3) by auto
    note bq = slot_bounds [OF cls q(1)]
    show ?thesis unfolding gb
      using b bq slot_other_off [OF cls assms(2) q] slot_facts(1) [OF cls] by auto
  qed
  have "linked m p offs" using s by simp
  moreover have "linked (given_back p off m) p offs = linked m p offs" by (rule linked_cong) (rule links)
  moreover have "ld 8 (given_back p off m) p off = unat (first_of p offs)"
    unfolding gb using b s unat_less_2p [of "first_of p offs"] by simp
  ultimately have lk: "linked (given_back p off m) p (off # offs)" by simp
  have "ld 2 (given_back p off m) p 10 = Suc (length offs)" unfolding gb using b len s by simp
  moreover have "ld 8 (given_back p off m) p 32 = unat (first_of p (off # offs))"
    unfolding gb using unat_less_2p [of "p + of_nat off"] by (simp add: first_of_def)
  ultimately show "page_state (given_back p off m) p cls (off # offs)"
    unfolding page_state_def using s lk assms(2,3) head [of 0 4] head [of 4 4] head [of 8 2] head [of 12 2] head [of 14 2] head [of 16 2]
    by simp
  have pa: "p AND NOT 4095 = p" using s by simp
  have "only_page p m ?m1" by (rule only_page_st [OF pa]) (use b in simp)
  moreover have "only_page p ?m1 ?m2" and "only_page p ?m2 (given_back p off m)"
    unfolding gb by (intro only_page_st [OF pa]; simp)+
  ultimately show "only_page p m (given_back p off m)" using only_page_trans by blast
qed

section \<open>Whose slot it is\<close>

lemma slot_belongs:
  assumes "page_state m p cls offs" and "off \<in> set (slots cls)"
  shows "slab_ptr_belongs_to_page m p (p + of_nat off)" and "p + of_nat off \<noteq> 0"
    and "(p + of_nat off) AND NOT 4095 = p" and "unat (p + of_nat off - p) = off"
proof -
  note s = assms(1) [unfolded page_state_def]
  have cls: "cls < SLAB_CLASSES" using s by simp
  note b = slot_bounds [OF cls assms(2)]
  show ne: "p + of_nat off \<noteq> 0" using pointer_not_null [of p off] s b slot_facts(1) [OF cls] by simp
  show "(p + of_nat off) AND NOT 4095 = p" using page_of [of p off] s b slot_facts(1) [OF cls] by simp
  show u: "unat (p + of_nat off - p) = off" using b by (simp add: unat_of_nat)
  obtain k where "off = slot_start cls + k * slot_size cls" using slot_index [OF assms(2)] by blast
  then show "slab_ptr_belongs_to_page m p (p + of_nat off)"
    unfolding slab_ptr_belongs_to_page_def Let_def u page_fields
    using s ne b slot_facts(1) [OF cls] by (simp add: PAGE_SIZE_def)
qed

lemma free_in_page_law:
  assumes "page_state m p cls all"
  shows "set offs \<subseteq> set (slots cls) \<Longrightarrow> linked m p offs \<Longrightarrow> length offs \<le> n \<Longrightarrow>
    free_in_page m p ptr n (first_of p offs) \<longleftrightarrow> (\<exists>off \<in> set offs. ptr = p + of_nat off)"
proof (induction offs arbitrary: n)
  case Nil
  then show ?case by (cases n) (simp_all add: first_of_def)
next
  case (Cons off offs)
  then obtain k where n: "n = Suc k" by (cases n) auto
  have off: "off \<in> set (slots cls)" using Cons.prems by simp
  have "load_ptr m (p + of_nat off) = first_of p offs" using Cons.prems(2) by (simp add: slot_stores)
  then show ?case
    using Cons.IH [of k] Cons.prems n slot_belongs(1,2) [OF assms off] by (auto simp: first_of_def [of p "off # offs"])
qed

lemma header_law:
  assumes "page_state m p cls offs"
  shows "header_ok m p" and "pg_class_idx m p = cls"
proof -
  note s = assms [unfolded page_state_def]
  have cls: "cls < SLAB_CLASSES" using s by simp
  note f = slot_facts [OF cls]
  have "pg_freelist m p = first_of p offs" using s by (simp add: page_fields)
  moreover have "first_of p offs \<noteq> 0 \<longrightarrow> slab_ptr_belongs_to_page m p (first_of p offs)"
    using s slot_belongs(1) [OF assms] by (cases offs) (auto simp: first_of_def)
  ultimately show "header_ok m p"
    using s f free_le_total [OF assms]
    by (simp add: header_ok_def page_fields SIZEOF_SlabPage_def PAGE_SIZE_def slot_size_def [symmetric]) (simp add: slot_count_def PAGE_SIZE_def)
  show "pg_class_idx m p = cls" using s by (simp add: page_fields)
qed

fun chained :: "(u64 \<Rightarrow> u8) \<Rightarrow> u64 \<Rightarrow> u64 list \<Rightarrow> bool" where
  "chained m q [] = (q = 0)"
| "chained m q (p # ps) = (q = p \<and> p \<noteq> 0 \<and> chained m (pg_next m p) ps)"

lemma page_in_chain_law: "chained m q ps \<Longrightarrow> page_in_chain m q target = Some (target \<in> set ps)"
proof (induction ps arbitrary: q)
  case Nil
  then show ?case by (simp add: page_in_chain.simps)
next
  case (Cons p ps)
  then show ?case by (subst page_in_chain.simps) auto
qed

type_synonym pages = "(u64 \<times> nat list) list"

text \<open>A cache: the chain of its pages, each with its free slots.\<close>

definition cache_state :: "kheap \<Rightarrow> nat \<Rightarrow> pages \<Rightarrow> bool" where
  "cache_state h cls pss \<longleftrightarrow>
     cls < length (slab_caches h) \<and> chained (kram h) (c_pages (slab_caches h ! cls)) (map fst pss) \<and>
     distinct (map fst pss) \<and> (\<forall>(p, offs) \<in> set pss. page_state (kram h) p cls offs)"

lemma slab_owns_law:
  assumes "cache_state h cls pss" and "(p, offs) \<in> set pss" and "off \<in> set (slots cls)"
  shows "slab_owns (p + of_nat off) h = Some (Some p)"
proof -
  have ps: "page_state (kram h) p cls offs" using assms(1,2) by (auto simp: cache_state_def)
  have "slab_page_in_cache cls p h = Some True"
    using assms(1,2) page_in_chain_law by (force simp: cache_state_def slab_page_in_cache_def)
  then show ?thesis
    using slot_belongs [OF ps assms(3)] header_law [OF ps] by (simp add: slab_owns_def)
qed

lemma page_with_room_law:
  "chained m q (map fst (xs @ (p, offs) # ys)) \<Longrightarrow> \<forall>(x, o') \<in> set xs. pg_free_count m x = 0 \<Longrightarrow> pg_free_count m p \<noteq> 0 \<Longrightarrow>
   page_with_room m q = Some p"
proof (induction xs arbitrary: q)
  case Nil
  then show ?case by (subst page_with_room.simps) auto
next
  case (Cons x xs)
  then show ?case by (subst page_with_room.simps) auto
qed

end
