(* ===== verification/BosHeapLaws.thy ===== *)
theory BosHeapLaws
  imports BosHeap BosHandles
begin

text \<open>
  What the block list of the BoredOS heap promises: the blocks in use lie in order and apart, an
  allocation takes its aligned part from the first free block with room, and giving it back at once
  restores the layout; and what growing the list in the middle of an insertion breaks.
\<close>

section \<open>The cells in use\<close>

definition blocks :: "kheap \<Rightarrow> mem_block list" where
  "blocks h = take (block_count h) (block_list h)"

definition sized :: "kheap \<Rightarrow> bool" where
  "sized h \<longleftrightarrow> block_count h \<le> block_capacity h"

lemma length_blocks [simp]: "sized h \<Longrightarrow> length (blocks h) = block_count h"
  by (simp add: blocks_def sized_def)

lemma block_nth: "sized h \<Longrightarrow> i < block_count h \<Longrightarrow> block_list h ! i = blocks h ! i"
  by (simp add: blocks_def sized_def)

lemma shift_up:
  assumes "idx \<le> n" and "n < length bl"
  shows "take (n + 1) ((for_up 0 (n - idx) (\<lambda>k bl. bl[n - k := bl ! (n - k - 1)]) bl)[idx := x]) =
      take idx bl @ x # drop idx (take n bl) \<and>
    length (for_up 0 (n - idx) (\<lambda>k bl. bl[n - k := bl ! (n - k - 1)]) bl) = length bl"
proof -
  let ?r = "for_up 0 (n - idx) (\<lambda>k bl. bl[n - k := bl ! (n - k - 1)]) bl"
  have law: "length ?r = length bl \<and> (\<forall>j < length bl. ?r ! j = (if n - (n - idx) < j \<and> j \<le> n then bl ! (j - 1) else bl ! j))"
  proof (rule for_up_inv [where P = "\<lambda>k t. length t = length bl \<and>
      (\<forall>j < length bl. t ! j = (if n - k < j \<and> j \<le> n then bl ! (j - 1) else bl ! j))"], goal_cases)
    case (2 k t)
    then show ?case using assms by (auto simp: nth_list_update)
  qed auto
  have "take (n + 1) (?r[idx := x]) = take idx bl @ x # drop idx (take n bl)"
  proof (rule nth_equalityI)
    show "length (take (n + 1) (?r[idx := x])) = length (take idx bl @ x # drop idx (take n bl))"
      using law assms by simp
    fix j assume "j < length (take (n + 1) (?r[idx := x]))"
    then have "j \<le> n" using law assms by simp
    show "take (n + 1) (?r[idx := x]) ! j = (take idx bl @ x # drop idx (take n bl)) ! j"
    proof (cases "idx < j")
      case False
      then show ?thesis using law assms \<open>j \<le> n\<close> by (auto simp: nth_append nth_list_update)
    next
      case True
      then obtain m where "j = idx + Suc m" using less_iff_Suc_add by auto
      then show ?thesis using law assms \<open>j \<le> n\<close> by (auto simp: nth_append nth_list_update)
    qed
  qed
  then show ?thesis using law by blast
qed

lemma cells_down:
  assumes "idx < n" and "n \<le> length bl"
  shows "take (n - 1) (for_up idx (n - 1) (\<lambda>j bl. bl[j := bl ! (j + 1)]) bl) =
      take idx bl @ drop (idx + 1) (take n bl) \<and>
    length (for_up idx (n - 1) (\<lambda>j bl. bl[j := bl ! (j + 1)]) bl) = length bl"
proof -
  let ?r = "for_up idx (n - 1) (\<lambda>j bl. bl[j := bl ! (j + 1)]) bl"
  have law: "length ?r = length bl \<and> (\<forall>j < length bl. ?r ! j = (if idx \<le> j \<and> j < n - 1 then bl ! (j + 1) else bl ! j))"
  proof (rule for_up_inv [where P = "\<lambda>k t. length t = length bl \<and>
      (\<forall>j < length bl. t ! j = (if idx \<le> j \<and> j < k then bl ! (j + 1) else bl ! j))"], goal_cases)
    case (2 k t)
    then show ?case using assms by (auto simp: nth_list_update less_Suc_eq)
  qed (use assms in auto)
  have "take (n - 1) ?r = take idx bl @ drop (idx + 1) (take n bl)"
  proof (rule nth_equalityI)
    show "length (take (n - 1) ?r) = length (take idx bl @ drop (idx + 1) (take n bl))" using law assms by simp
    fix j assume "j < length (take (n - 1) ?r)"
    then have "j < n - 1" using law by simp
    then show "take (n - 1) ?r ! j = (take idx bl @ drop (idx + 1) (take n bl)) ! j"
      using law assms by (auto simp: nth_append)
  qed
  then show ?thesis using law by blast
qed

lemma put_block_law:
  assumes "block_count h < block_capacity h" and "idx \<le> block_count h"
  shows "\<exists>bl. put_block idx addr sz al bid h =
      Some (True, h\<lparr>block_list := bl, block_count := block_count h + 1,
                    stamp_tick := (if al then stamp_tick h + 1 else stamp_tick h)\<rparr>) \<and>
    length bl = block_capacity h \<and>
    take (block_count h + 1) bl = take idx (blocks h) @
      \<lparr>b_addr = addr, b_size = sz, b_allocated = al, b_id = bid, b_stamp = (if al then stamp_tick h else 0)\<rparr> # drop idx (blocks h)"
proof -
  let ?b = "\<lparr>b_addr = addr, b_size = sz, b_allocated = al, b_id = bid, b_stamp = (if al then stamp_tick h else 0)\<rparr>"
  let ?n = "block_count h"
  let ?bl = "(for_up 0 (?n - idx) (\<lambda>k bl. bl[?n - k := bl ! (?n - k - 1)]) (block_list h))[idx := ?b]"
  have "put_block idx addr sz al bid h =
      Some (True, h\<lparr>block_list := ?bl, block_count := ?n + 1, stamp_tick := (if al then stamp_tick h + 1 else stamp_tick h)\<rparr>)"
    using assms by (simp add: put_block_def get_timestamp_def Let_def)
  moreover have "take (?n + 1) ?bl = take idx (blocks h) @ ?b # drop idx (blocks h)" and "length ?bl = block_capacity h"
    using shift_up [OF assms(2,1), of ?b] assms(2) by (simp_all add: blocks_def min_def)
  ultimately show ?thesis by blast
qed

lemma remove_block_law:
  assumes "idx < block_count h" and "sized h"
  shows "\<exists>bl. remove_block_at idx h = h\<lparr>block_list := bl, block_count := block_count h - 1\<rparr> \<and>
    length bl = block_capacity h \<and> take (block_count h - 1) bl = take idx (blocks h) @ drop (idx + 1) (blocks h)"
  using cells_down [OF assms(1), of "block_list h"] assms
  by (auto simp: remove_block_at_def blocks_def sized_def min_def)

lemma blocks_upd_block: "sized h \<Longrightarrow> i < block_count h \<Longrightarrow> blocks (upd_block i f h) = (blocks h)[i := f (blocks h ! i)]"
  by (simp add: blocks_def upd_block_def sized_def take_update_swap)

lemma upd_block_simps [simp]:
  "block_count (upd_block i f h) = block_count h" "block_capacity (upd_block i f h) = block_capacity h"
  "allocation_counter (upd_block i f h) = allocation_counter h" "stamp_tick (upd_block i f h) = stamp_tick h"
  "total_allocated (upd_block i f h) = total_allocated h" "kram (upd_block i f h) = kram h"
  "sized (upd_block i f h) = sized h"
  by (simp_all add: upd_block_def sized_def)

section \<open>Cutting a block\<close>

text \<open>The three parts of a block: padding in front, the allocation, the rest.\<close>

definition aligned_in :: "u64 \<Rightarrow> mem_block \<Rightarrow> u64" where
  "aligned_in al b = (b_addr b + al - 1) AND NOT (al - 1)"

definition pad_of :: "u64 \<Rightarrow> mem_block \<Rightarrow> u64" where
  "pad_of al b = aligned_in al b - b_addr b"

definition rest_of :: "u64 \<Rightarrow> u64 \<Rightarrow> mem_block \<Rightarrow> u64" where
  "rest_of sz al b = b_size b - (sz + pad_of al b)"

definition fits :: "u64 \<Rightarrow> u64 \<Rightarrow> mem_block \<Rightarrow> bool" where
  "fits sz al b \<longleftrightarrow> \<not> b_allocated b \<and> \<not> b_size b < sz + pad_of al b"

definition cut :: "u64 \<Rightarrow> u64 \<Rightarrow> u32 \<Rightarrow> u32 \<Rightarrow> mem_block \<Rightarrow> mem_block list" where
  "cut sz al bid stamp b =
     (if pad_of al b > 0 then [b\<lparr>b_size := pad_of al b\<rparr>] else []) @
     \<lparr>b_addr = aligned_in al b, b_size = sz, b_allocated = True, b_id = bid, b_stamp = stamp\<rparr> #
     (if rest_of sz al b > 0
      then [\<lparr>b_addr = aligned_in al b + sz, b_size = rest_of sz al b, b_allocated = False, b_id = 0, b_stamp = 0\<rparr>] else [])"

text \<open>Room for the two insertions of one allocation without growing the list.\<close>

definition roomy :: "kheap \<Rightarrow> bool" where
  "roomy h \<longleftrightarrow> block_count h + 12 \<le> block_capacity h"

lemma insert_block_at_roomy: "block_count h + 10 < block_capacity h \<Longrightarrow> insert_block_at idx addr sz al bid h = put_block idx addr sz al bid h"
  by (simp add: insert_block_at_def)

definition allocated_at :: "u64 \<Rightarrow> u64 \<Rightarrow> nat \<Rightarrow> kheap \<Rightarrow> u64 \<Rightarrow> kheap \<Rightarrow> bool" where
  "allocated_at sz al i h p h' \<longleftrightarrow>
     p = aligned_in al (blocks h ! i) \<and>
     blocks h' = take i (blocks h) @ cut sz al (allocation_counter h + 1) (stamp_tick h) (blocks h ! i) @ drop (i + 1) (blocks h) \<and>
     sized h' \<and> block_capacity h' = block_capacity h \<and> total_allocated h' = total_allocated h + sz \<and>
     kram h' = ram_fill p 0 (unat sz) (kram h) \<and> list_at h' = list_at h \<and> on_heap h' = on_heap h \<and> slab_caches h' = slab_caches h"

lemma finish_law:
  assumes "sized h" and "block_count h + 10 < block_capacity h" and "cur < block_count h" and "p + sz = q"
  shows "\<exists>h'. finish_block insert_block_at p sz rest cur h = Some (Found p h') \<and>
    blocks h' = take (cur + 1) (blocks h) @
      (if rest > 0 then [\<lparr>b_addr = q, b_size = rest, b_allocated = False, b_id = 0, b_stamp = 0\<rparr>] else []) @ drop (cur + 1) (blocks h) \<and>
    sized h' \<and> block_capacity h' = block_capacity h \<and> total_allocated h' = total_allocated h + sz \<and>
    kram h' = ram_fill p 0 (unat sz) (kram h) \<and> list_at h' = list_at h \<and> on_heap h' = on_heap h \<and> slab_caches h' = slab_caches h"
proof (cases "rest > 0")
  case False
  then show ?thesis using assms(1) append_take_drop_id [of "cur + 1" "blocks h"]
    by (simp add: finish_block_def mem_memset_def blocks_def sized_def Let_def)
next
  case True
  have "block_count h < block_capacity h" "cur + 1 \<le> block_count h" using assms by auto
  from put_block_law [OF this, of q rest False 0] obtain bl where
    "put_block (cur + 1) q rest False 0 h = Some (True, h\<lparr>block_list := bl, block_count := block_count h + 1\<rparr>)"
    "length bl = block_capacity h"
    "take (block_count h + 1) bl = take (cur + 1) (blocks h) @
      \<lparr>b_addr = q, b_size = rest, b_allocated = False, b_id = 0, b_stamp = 0\<rparr> # drop (cur + 1) (blocks h)" by auto
  then show ?thesis
    using True assms by (simp add: finish_block_def insert_block_at_roomy mem_memset_def blocks_def sized_def Let_def)
qed

lemma take_drop_upd:
  "i < length xs \<Longrightarrow> take (i + 1) (xs[i := x]) = take i xs @ [x]"
  "i < length xs \<Longrightarrow> drop (i + 1) (xs[i := x]) = drop (i + 1) xs"
  by (simp_all add: take_Suc_conv_app_nth)

lemma place_law:
  assumes "sized h" and "roomy h" and "i < block_count h"
  defines "b \<equiv> blocks h ! i"
  shows "\<exists>h'. place_block insert_block_at (aligned_in al b) (pad_of al b) sz (rest_of sz al b) i h = Some (Found (aligned_in al b) h') \<and>
    allocated_at sz al i h (aligned_in al b) h'"
proof -
  let ?h = "h\<lparr>allocation_counter := allocation_counter h + 1\<rparr>"
  let ?bid = "allocation_counter h + 1" and ?p = "aligned_in al b" and ?pad = "pad_of al b" and ?rest = "rest_of sz al b"
  let ?a = "\<lparr>b_addr = ?p, b_size = sz, b_allocated = True, b_id = ?bid, b_stamp = stamp_tick h\<rparr>"
  have s: "sized ?h" "blocks ?h = blocks h" using assms(1) by (simp_all add: sized_def blocks_def)
  have len: "i < length (blocks h)" using assms(1,3) by simp
  show ?thesis
  proof (cases "?pad > 0")
    case True
    let ?g = "upd_block i (\<lambda>b. b\<lparr>b_size := ?pad\<rparr>) ?h"
    have g: "blocks ?g = (blocks h)[i := b\<lparr>b_size := ?pad\<rparr>]"
      using blocks_upd_block [OF s(1), of i] s assms(3) by (simp add: b_def)
    have "block_count ?g < block_capacity ?g" "i + 1 \<le> block_count ?g" using assms(2,3) by (simp_all add: roomy_def)
    from put_block_law [OF this, of ?p sz True ?bid] obtain bl where
      put: "put_block (i + 1) ?p sz True ?bid ?g =
        Some (True, ?g\<lparr>block_list := bl, block_count := block_count h + 1, stamp_tick := stamp_tick h + 1\<rparr>)"
      and bl: "length bl = block_capacity h" "take (block_count h + 1) bl = take i (blocks h) @ [b\<lparr>b_size := ?pad\<rparr>, ?a] @ drop (i + 1) (blocks h)"
      using g len by (auto simp: take_drop_upd [unfolded Suc_eq_plus1 [symmetric]])
    let ?k = "?g\<lparr>block_list := bl, block_count := block_count h + 1, stamp_tick := stamp_tick h + 1\<rparr>"
    have k: "sized ?k" "block_count ?k + 10 < block_capacity ?k" "i + 1 < block_count ?k" "blocks ?k = take (block_count h + 1) bl"
      using assms bl by (simp_all add: roomy_def sized_def blocks_def)
    have ins: "insert_block_at (i + 1) ?p sz True ?bid ?g = Some (True, ?k)"
      using put assms(2) by (simp add: insert_block_at_roomy roomy_def)
    from finish_law [OF k(1-3) refl, of ?p sz ?rest] obtain h' where h':
      "finish_block insert_block_at ?p sz ?rest (i + 1) ?k = Some (Found ?p h')"
      "blocks h' = take (i + 2) (blocks ?k) @
        (if ?rest > 0 then [\<lparr>b_addr = ?p + sz, b_size = ?rest, b_allocated = False, b_id = 0, b_stamp = 0\<rparr>] else []) @ drop (i + 2) (blocks ?k)"
      "sized h'" "block_capacity h' = block_capacity ?k" "total_allocated h' = total_allocated ?k + sz"
      "kram h' = ram_fill ?p 0 (unat sz) (kram ?k)" "list_at h' = list_at ?k" "on_heap h' = on_heap ?k" "slab_caches h' = slab_caches ?k" by auto
    have "blocks h' = take i (blocks h) @ cut sz al ?bid (stamp_tick h) b @ drop (i + 1) (blocks h)"
      unfolding h'(2) k(4) bl(2) using True len by (simp add: cut_def)
    then show ?thesis
      using h' ins True bl(1) by (simp add: place_block_def allocated_at_def b_def [symmetric] upd_block_def)
  next
    case False
    let ?g = "upd_block i (\<lambda>b. ?a) (?h\<lparr>stamp_tick := stamp_tick h + 1\<rparr>)"
    have g: "blocks ?g = (blocks h)[i := ?a]" "sized ?g" "block_count ?g = block_count h"
      using blocks_upd_block [of "?h\<lparr>stamp_tick := stamp_tick h + 1\<rparr>" i "\<lambda>b. ?a"] assms(1,3)
      by (simp_all add: sized_def blocks_def)
    have "block_count ?g + 10 < block_capacity ?g" "i < block_count ?g" using assms(2,3) by (simp_all add: roomy_def)
    from finish_law [OF g(2) this refl, of ?p sz ?rest] obtain h' where h':
      "finish_block insert_block_at ?p sz ?rest i ?g = Some (Found ?p h')"
      "blocks h' = take (i + 1) (blocks ?g) @
        (if ?rest > 0 then [\<lparr>b_addr = ?p + sz, b_size = ?rest, b_allocated = False, b_id = 0, b_stamp = 0\<rparr>] else []) @ drop (i + 1) (blocks ?g)"
      "sized h'" "block_capacity h' = block_capacity ?g" "total_allocated h' = total_allocated ?g + sz"
      "kram h' = ram_fill ?p 0 (unat sz) (kram ?g)" "list_at h' = list_at ?g" "on_heap h' = on_heap ?g" "slab_caches h' = slab_caches ?g" by auto
    have "blocks h' = take i (blocks h) @ cut sz al ?bid (stamp_tick h) b @ drop (i + 1) (blocks h)"
      unfolding h'(2) g(1) using False len by (simp add: cut_def take_drop_upd [unfolded Suc_eq_plus1 [symmetric]])
    then show ?thesis
      using h' False by (simp add: place_block_def allocated_at_def b_def [symmetric] upd_block_def get_timestamp_def)
  qed
qed

lemma try_law:
  assumes "sized h" and "roomy h" and "i < block_count h"
  shows "if fits sz al (blocks h ! i)
    then \<exists>p h'. try_block grow_block_list insert_block_at sz al i h = Some (Found p h') \<and> allocated_at sz al i h p h'
    else try_block grow_block_list insert_block_at sz al i h = Some (Next_Block h)"
proof -
  have "block_count h + ((if pad_of al (blocks h ! i) > 0 then 1 else 0) + (if rest_of sz al (blocks h ! i) > 0 then 1 else 0)) + 2 \<le> block_capacity h"
    using assms(2) by (simp add: roomy_def)
  then show ?thesis
    using place_law [OF assms, of al sz] block_nth [OF assms(1,3)]
    by (auto simp: try_block_def fits_def pad_of_def aligned_in_def rest_of_def Let_def allocated_at_def)
qed

lemma search_law:
  assumes "sized h" and "roomy h"
  shows "block_count h - i < n \<Longrightarrow>
    (if \<exists>j. i \<le> j \<and> j < block_count h \<and> fits sz al (blocks h ! j)
     then \<exists>p h' j. search_blocks (try_block grow_block_list insert_block_at sz al) n i h = Some (p, h') \<and>
       i \<le> j \<and> j < block_count h \<and> fits sz al (blocks h ! j) \<and>
       (\<forall>k. i \<le> k \<and> k < j \<longrightarrow> \<not> fits sz al (blocks h ! k)) \<and> allocated_at sz al j h p h'
     else search_blocks (try_block grow_block_list insert_block_at sz al) n i h = Some (0, h))"
proof (induction n arbitrary: i)
  case (Suc n)
  show ?case
  proof (cases "i < block_count h")
    case False
    then show ?thesis by auto
  next
    case True
    note turn = try_law [OF assms True, of sz al]
    show ?thesis
    proof (cases "fits sz al (blocks h ! i)")
      case fit: True
      then obtain p h' where "try_block grow_block_list insert_block_at sz al i h = Some (Found p h')" "allocated_at sz al i h p h'"
        using turn by auto
      then show ?thesis using True fit by force
    next
      case no: False
      have "block_count h - (i + 1) < n" using Suc.prems True by simp
      note next_block = Suc.IH [OF this]
      have step: "search_blocks (try_block grow_block_list insert_block_at sz al) (Suc n) i h =
          search_blocks (try_block grow_block_list insert_block_at sz al) n (i + 1) h" using turn no True by simp
      have ex: "(\<exists>j. i \<le> j \<and> j < block_count h \<and> fits sz al (blocks h ! j)) \<longleftrightarrow>
          (\<exists>j. i + 1 \<le> j \<and> j < block_count h \<and> fits sz al (blocks h ! j))"
        using no by (metis Suc_eq_plus1 Suc_leD le_antisym not_less_eq_eq)
      have "\<And>k j. (\<forall>k. i + 1 \<le> k \<and> k < j \<longrightarrow> \<not> fits sz al (blocks h ! k)) \<Longrightarrow> i \<le> k \<Longrightarrow> k < j \<Longrightarrow> \<not> fits sz al (blocks h ! k)"
        using no by (metis Suc_eq_plus1 le_antisym not_less_eq_eq)
      then show ?thesis using next_block unfolding step ex by (smt (verit) Suc_eq_plus1 Suc_leD)
    qed
  qed
qed simp

lemma kmalloc_law:
  assumes "sized h" and "roomy h" and "al \<noteq> 0"
  shows "if \<exists>b \<in> set (blocks h). fits (round8 sz) al b
    then \<exists>p h' j. kmalloc_locked sz al h = Some (p, h') \<and> j < block_count h \<and> fits (round8 sz) al (blocks h ! j) \<and>
      (\<forall>k < j. \<not> fits (round8 sz) al (blocks h ! k)) \<and> allocated_at (round8 sz) al j h p h'
    else kmalloc_locked sz al h = Some (0, h)"
proof -
  have "block_count h - 0 < 3 * block_capacity h + 8" using assms(1) by (simp add: sized_def)
  note found = search_law [OF assms(1,2) this, of "round8 sz" al]
  have ex: "(\<exists>b \<in> set (blocks h). fits (round8 sz) al b) \<longleftrightarrow> (\<exists>j. 0 \<le> j \<and> j < block_count h \<and> fits (round8 sz) al (blocks h ! j))"
    using assms(1) by (auto simp: in_set_conv_nth) (metis length_blocks nth_mem)
  have "kmalloc_locked sz al h = search_blocks (try_block grow_block_list insert_block_at (round8 sz) al) (3 * block_capacity h + 8) 0 h"
    using assms(3) by (simp add: kmalloc_locked_def kmalloc_with_def)
  then show ?thesis using found unfolding ex by (auto split: if_splits)
qed

section \<open>Blocks in order\<close>

definition b_end :: "mem_block \<Rightarrow> nat" where
  "b_end b = unat (b_addr b) + unat (b_size b)"

definition below :: "mem_block \<Rightarrow> mem_block \<Rightarrow> bool" where
  "below b c \<longleftrightarrow> b_end b \<le> unat (b_addr c)"

definition proper :: "mem_block \<Rightarrow> bool" where
  "proper b \<longleftrightarrow> b_addr b \<noteq> 0 \<and> b_size b \<noteq> 0 \<and> b_end b < 2 ^ 64"

definition in_order :: "mem_block list \<Rightarrow> bool" where
  "in_order bs \<longleftrightarrow> sorted_wrt below bs \<and> (\<forall>b \<in> set bs. proper b)"

definition inside :: "mem_block \<Rightarrow> mem_block \<Rightarrow> bool" where
  "inside p b \<longleftrightarrow> b_addr b \<le> b_addr p \<and> b_end p \<le> b_end b"

lemma in_order_append:
  "in_order (xs @ ys) \<longleftrightarrow> in_order xs \<and> in_order ys \<and> (\<forall>x \<in> set xs. \<forall>y \<in> set ys. below x y)"
  by (auto simp: in_order_def sorted_wrt_append)

lemma in_order_replace:
  assumes "in_order (xs @ b # ys)" and "in_order ps" and "\<forall>p \<in> set ps. inside p b"
  shows "in_order (xs @ ps @ ys)"
  using assms unfolding in_order_append
  by (auto simp: in_order_def inside_def below_def word_le_nat_alt) (meson le_trans)+

lemma proper_end: "proper b \<Longrightarrow> unat (b_addr b + b_size b) = b_end b"
  by (simp add: proper_def b_end_def unat_word_ariths)

lemma block_split: "i < length xs \<Longrightarrow> xs = take i xs @ xs ! i # drop (i + 1) xs"
  by (simp add: id_take_nth_drop)

text \<open>A power of two divides the aligned address, and the part lies inside the block.\<close>

definition has_room :: "nat \<Rightarrow> nat \<Rightarrow> mem_block \<Rightarrow> bool" where
  "has_room n k b \<longleftrightarrow> \<not> b_allocated b \<and> (\<exists>q. 2 ^ k dvd q \<and> unat (b_addr b) \<le> q \<and> q + n \<le> b_end b)"

lemma round_up_dvd:
  fixes a m :: nat
  assumes "0 < m"
  defines "r \<equiv> a + (m - 1) - (a + (m - 1)) mod m"
  shows "m dvd r" and "a \<le> r" and "r < a + m" and "m dvd q \<Longrightarrow> a \<le> q \<Longrightarrow> r \<le> q"
proof -
  show d: "m dvd r" unfolding r_def by (simp add: dvd_minus_mod)
  show "a \<le> r" "r < a + m" unfolding r_def using round_up_nat [OF assms(1), of a] by blast+
  assume "m dvd q" "a \<le> q"
  show "r \<le> q"
  proof (rule ccontr)
    assume "\<not> r \<le> q"
    then have "m \<le> r - q" using d \<open>m dvd q\<close> by (meson dvd_diff_nat dvd_imp_le not_le zero_less_diff)
    then show False using \<open>r < a + m\<close> \<open>a \<le> q\<close> \<open>\<not> r \<le> q\<close> by linarith
  qed
qed

lemma unat_pow2:
  assumes "k < 64"
  shows "unat ((2 :: u64) ^ k) = 2 ^ k"
proof -
  have "(2 :: nat) ^ k < 2 ^ 64" using assms by (intro power_strict_increasing) simp_all
  then have "unat (of_nat (2 ^ k) :: u64) = 2 ^ k" by (intro unat_of_nat_small) simp
  then show ?thesis by simp
qed

lemma pow2_mask: "(2 :: u64) ^ k - 1 = mask k"
  by (simp add: mask_eq_exp_minus_1)

lemma aligned_cases:
  assumes "proper b" and "k < 62"
  defines "r \<equiv> unat (b_addr b) + (2 ^ k - 1) - (unat (b_addr b) + (2 ^ k - 1)) mod 2 ^ k"
  shows "unat (b_addr b) + (2 ^ k - 1) < 2 ^ 64 \<Longrightarrow> unat (aligned_in (2 ^ k) b) = r \<and> unat (pad_of (2 ^ k) b) = r - unat (b_addr b)"
    and "2 ^ 64 \<le> unat (b_addr b) + (2 ^ k - 1) \<Longrightarrow> unat (pad_of (2 ^ k) b) = 2 ^ 64 - unat (b_addr b)"
proof -
  have pos: "(1 :: nat) \<le> 2 ^ k" by simp
  have one: "unat ((2 :: u64) ^ k - 1) = 2 ^ k - 1"
    using assms(2) by (subst unat_sub) (simp_all add: unat_pow2 word_le_nat_alt)
  have sum: "b_addr b + 2 ^ k - 1 = b_addr b + (2 ^ k - 1)" by simp
  have al: "unat (aligned_in (2 ^ k) b) = unat (b_addr b + (2 ^ k - 1)) - unat (b_addr b + (2 ^ k - 1)) mod 2 ^ k"
    unfolding aligned_in_def sum pow2_mask by (rule unat_and_not_mask)
  { assume "unat (b_addr b) + (2 ^ k - 1) < 2 ^ 64"
    then have "unat (b_addr b + (2 ^ k - 1)) = unat (b_addr b) + (2 ^ k - 1)" by (simp add: unat_word_ariths(1) one)
    then have r: "unat (aligned_in (2 ^ k) b) = r" using al by (simp add: r_def)
    moreover have "unat (b_addr b) \<le> r" unfolding r_def by (rule round_up_dvd(2)) simp
    ultimately show "unat (aligned_in (2 ^ k) b) = r \<and> unat (pad_of (2 ^ k) b) = r - unat (b_addr b)"
      by (simp add: pad_of_def unat_sub word_le_nat_alt) }
  { assume big: "2 ^ 64 \<le> unat (b_addr b) + (2 ^ k - 1)"
    have "(2 :: nat) ^ k < 2 ^ 64" using assms(2) by (intro power_strict_increasing) simp_all
    moreover have "unat (b_addr b) < 2 ^ 64" using unat_less_2p [of "b_addr b"] by simp
    ultimately have "unat (b_addr b + (2 ^ k - 1)) = unat (b_addr b) + (2 ^ k - 1) - 2 ^ 64"
      using big by (simp add: unat_word_ariths(1) one mod_if)
    then have "unat (b_addr b + (2 ^ k - 1)) < 2 ^ k" using \<open>unat (b_addr b) < 2 ^ 64\<close> big pos by linarith
    then have "aligned_in (2 ^ k) b = 0" using al by (simp add: unat_eq_0 flip: unat_eq_zero)
    then have "pad_of (2 ^ k) b = 0 - b_addr b" by (simp add: pad_of_def)
    then show "unat (pad_of (2 ^ k) b) = 2 ^ 64 - unat (b_addr b)"
      using assms(1) by (simp add: proper_def unat_sub_if_size word_size unat_eq_0 del: diff_0) }
qed

lemma wrapped_round:
  fixes a m n r :: nat
  assumes "m dvd n" and "m dvd r" and "n \<le> a + (m - 1)" and "a + (m - 1) < r + m"
  shows "n \<le> r"
proof (rule ccontr)
  assume "\<not> n \<le> r"
  then have "m \<le> n - r" using assms(1,2) by (meson dvd_diff_nat dvd_imp_le not_le zero_less_diff)
  then show False using assms(3,4) \<open>\<not> n \<le> r\<close> by linarith
qed

lemma fits_iff:
  assumes "proper b" and "k < 62" and "unat sz < 2 ^ 62"
  shows "fits sz (2 ^ k) b \<longleftrightarrow> has_room (unat sz) k b"
    and "fits sz (2 ^ k) b \<Longrightarrow> 2 ^ k dvd unat (aligned_in (2 ^ k) b) \<and> b_addr b \<le> aligned_in (2 ^ k) b \<and>
      unat (aligned_in (2 ^ k) b) + unat sz \<le> b_end b \<and> unat (aligned_in (2 ^ k) b) = unat (b_addr b) + unat (pad_of (2 ^ k) b) \<and>
      unat (rest_of sz (2 ^ k) b) = b_end b - (unat (aligned_in (2 ^ k) b) + unat sz)"
proof -
  let ?a = "unat (b_addr b)"
  define r where "r = ?a + (2 ^ k - 1) - (?a + (2 ^ k - 1)) mod 2 ^ k"
  have k: "(2 :: nat) ^ k < 2 ^ 62" using assms(2) by (intro power_strict_increasing) simp_all
  have p: "b_end b < 2 ^ 64" "?a > 0" using assms(1) by (simp_all add: proper_def unat_gt_0)
  have r: "2 ^ k dvd r" "?a \<le> r" "r < ?a + 2 ^ k" using round_up_dvd(1-3) [of "2 ^ k" ?a] by (simp_all add: r_def)
  have least: "r \<le> q" if "2 ^ k dvd q" "?a \<le> q" for q using round_up_dvd(4) [of "2 ^ k" q ?a] that by (simp add: r_def)
  have plus: "unat (sz + pad_of (2 ^ k) b) = unat sz + unat (pad_of (2 ^ k) b)" if "unat (pad_of (2 ^ k) b) < 2 ^ 62"
    using that assms(3) by (simp add: unat_word_ariths(1))
  consider (small) "?a + (2 ^ k - 1) < 2 ^ 64" | (wrap) "2 ^ 64 \<le> ?a + (2 ^ k - 1)" by linarith
  then have "(fits sz (2 ^ k) b \<longleftrightarrow> has_room (unat sz) k b) \<and>
    (fits sz (2 ^ k) b \<longrightarrow> 2 ^ k dvd unat (aligned_in (2 ^ k) b) \<and> b_addr b \<le> aligned_in (2 ^ k) b \<and>
      unat (aligned_in (2 ^ k) b) + unat sz \<le> b_end b \<and> unat (aligned_in (2 ^ k) b) = ?a + unat (pad_of (2 ^ k) b) \<and>
      unat (rest_of sz (2 ^ k) b) = b_end b - (unat (aligned_in (2 ^ k) b) + unat sz))"
  proof cases
    case small
    have a: "unat (aligned_in (2 ^ k) b) = r" "unat (pad_of (2 ^ k) b) = r - ?a"
      using aligned_cases(1) [OF assms(1,2) small] by (simp_all add: r_def)
    have pad: "unat (sz + pad_of (2 ^ k) b) = unat sz + (r - ?a)" using plus a(2) r(2,3) k by simp
    have f: "fits sz (2 ^ k) b \<longleftrightarrow> \<not> b_allocated b \<and> r + unat sz \<le> b_end b"
      using r(2) by (auto simp: fits_def word_less_nat_alt pad b_end_def)
    also have "\<dots> \<longleftrightarrow> has_room (unat sz) k b"
      using r(1,2) least by (fastforce simp: has_room_def)
    finally have "fits sz (2 ^ k) b \<longleftrightarrow> has_room (unat sz) k b" .
    moreover have "unat (rest_of sz (2 ^ k) b) = b_end b - (r + unat sz)" if "fits sz (2 ^ k) b"
    proof -
      have "sz + pad_of (2 ^ k) b \<le> b_size b" using that by (simp add: fits_def not_less)
      then show ?thesis using pad r(2) by (simp add: rest_of_def unat_sub b_end_def)
    qed
    ultimately show ?thesis using f a r by (auto simp: word_le_nat_alt)
  next
    case wrap
    have pd: "unat (pad_of (2 ^ k) b) = 2 ^ 64 - ?a" using aligned_cases(2) [OF assms(1,2) wrap] .
    moreover have "2 ^ 64 - ?a < 2 ^ 62" using wrap k by linarith
    ultimately have "unat (sz + pad_of (2 ^ k) b) = unat sz + (2 ^ 64 - ?a)" using plus by simp
    moreover have "unat (b_size b) < 2 ^ 64 - ?a" using p(1) by (simp add: b_end_def)
    ultimately have "b_size b < sz + pad_of (2 ^ k) b" unfolding word_less_nat_alt by linarith
    then have no: "\<not> fits sz (2 ^ k) b" by (simp add: fits_def)
    have "2 ^ k dvd (2 :: nat) ^ 64" using assms(2) by (intro le_imp_power_dvd) simp
    then have "2 ^ 64 \<le> r" using wrapped_round [of "2 ^ k" "2 ^ 64" r ?a] r wrap by linarith
    then have "\<not> has_room (unat sz) k b" using least p(1) by (fastforce simp: has_room_def)
    then show ?thesis using no by blast
  qed
  then show "fits sz (2 ^ k) b \<longleftrightarrow> has_room (unat sz) k b"
    and "fits sz (2 ^ k) b \<Longrightarrow> 2 ^ k dvd unat (aligned_in (2 ^ k) b) \<and> b_addr b \<le> aligned_in (2 ^ k) b \<and>
      unat (aligned_in (2 ^ k) b) + unat sz \<le> b_end b \<and> unat (aligned_in (2 ^ k) b) = ?a + unat (pad_of (2 ^ k) b) \<and>
      unat (rest_of sz (2 ^ k) b) = b_end b - (unat (aligned_in (2 ^ k) b) + unat sz)"
    by blast+
qed

lemma cut_inside:
  assumes "proper b" and "k < 62" and "unat sz < 2 ^ 62" and "0 < unat sz" and "fits sz (2 ^ k) b"
  shows "in_order (cut sz (2 ^ k) bid stamp b) \<and> (\<forall>p \<in> set (cut sz (2 ^ k) bid stamp b). inside p b)"
proof -
  note f = fits_iff(2) [OF assms(1-3,5)]
  let ?a = "aligned_in (2 ^ k) b"
  have e: "b_end b < 2 ^ 64" "b_addr b \<noteq> 0" using assms(1) by (simp_all add: proper_def)
  have a: "?a \<noteq> 0" using f e(2) by (metis word_le_0_iff)
  have s: "unat (?a + sz) = unat ?a + unat sz" using f e(1) by (simp add: unat_word_ariths(1))
  have "sz \<noteq> 0" using assms(4) by (metis less_irrefl unat_0)
  moreover have "?a + sz \<noteq> 0" using s assms(4) by (metis add_is_0 less_irrefl unat_0)
  ultimately have z: "sz \<noteq> 0" "?a + sz \<noteq> 0" by blast+
  define A where "A = unat (b_addr b)"
  define P where "P = unat (pad_of (2 ^ k) b)"
  define N where "N = unat sz"
  define E where "E = b_end b"
  have w: "unat ?a = A + P" "unat (?a + sz) = A + P + N" "unat (rest_of sz (2 ^ k) b) = E - (A + P + N)" "A + P + N \<le> E" "E < 2 ^ 64"
    "A + unat (b_size b) = E"
    using f s e by (simp_all add: A_def P_def N_def E_def b_end_def)
  have front: "proper (b\<lparr>b_size := pad_of (2 ^ k) b\<rparr>) \<and> inside (b\<lparr>b_size := pad_of (2 ^ k) b\<rparr>) b" if "pad_of (2 ^ k) b > 0"
    using w e that by (simp add: proper_def inside_def b_end_def word_gt_0 flip: A_def P_def)
  have mid: "proper \<lparr>b_addr = ?a, b_size = sz, b_allocated = True, b_id = bid, b_stamp = stamp\<rparr> \<and>
      inside \<lparr>b_addr = ?a, b_size = sz, b_allocated = True, b_id = bid, b_stamp = stamp\<rparr> b"
    using w f a z by (simp add: proper_def inside_def b_end_def flip: A_def N_def)
  have behind: "proper \<lparr>b_addr = ?a + sz, b_size = rest_of sz (2 ^ k) b, b_allocated = False, b_id = 0, b_stamp = 0\<rparr> \<and>
      inside \<lparr>b_addr = ?a + sz, b_size = rest_of sz (2 ^ k) b, b_allocated = False, b_id = 0, b_stamp = 0\<rparr> b" if "rest_of sz (2 ^ k) b > 0"
    using w z that by (simp add: proper_def inside_def b_end_def word_gt_0 word_le_nat_alt flip: A_def)
  have "below (b\<lparr>b_size := pad_of (2 ^ k) b\<rparr>) \<lparr>b_addr = ?a, b_size = sz, b_allocated = True, b_id = bid, b_stamp = stamp\<rparr>"
    and "below \<lparr>b_addr = ?a, b_size = sz, b_allocated = True, b_id = bid, b_stamp = stamp\<rparr>
      \<lparr>b_addr = ?a + sz, b_size = rest_of sz (2 ^ k) b, b_allocated = False, b_id = 0, b_stamp = 0\<rparr>"
    and "below (b\<lparr>b_size := pad_of (2 ^ k) b\<rparr>) \<lparr>b_addr = ?a + sz, b_size = rest_of sz (2 ^ k) b, b_allocated = False, b_id = 0, b_stamp = 0\<rparr>"
    using w by (simp_all add: below_def b_end_def flip: A_def P_def N_def)
  then show ?thesis using front mid behind by (auto simp: cut_def in_order_def)
qed

definition allocated_blocks :: "mem_block list \<Rightarrow> mem_block list" where
  "allocated_blocks bs = filter b_allocated bs"

definition areas :: "kheap \<Rightarrow> (nat \<times> nat) set" where
  "areas h = (\<lambda>b. (unat (b_addr b), unat (b_size b))) ` set (allocated_blocks (blocks h))"

definition apart :: "nat \<times> nat \<Rightarrow> nat \<times> nat \<Rightarrow> bool" where
  "apart x y \<longleftrightarrow> fst x + snd x \<le> fst y \<or> fst y + snd y \<le> fst x"

text \<open>The invariant: the blocks in use are in order, and the counter is the sum of the allocated sizes.\<close>

definition heap_ok :: "kheap \<Rightarrow> bool" where
  "heap_ok h \<longleftrightarrow> sized h \<and> in_order (blocks h) \<and> total_allocated h = sum_list (map b_size (allocated_blocks (blocks h)))"

lemma allocated_blocks_simps [simp]:
  "allocated_blocks (xs @ ys) = allocated_blocks xs @ allocated_blocks ys"
  "allocated_blocks (b # ys) = (if b_allocated b then b # allocated_blocks ys else allocated_blocks ys)"
  "allocated_blocks [] = []"
  by (simp_all add: allocated_blocks_def)

lemma heap_split: "sized h \<Longrightarrow> i < block_count h \<Longrightarrow> blocks h = take i (blocks h) @ blocks h ! i # drop (i + 1) (blocks h)"
  using block_split [of i "blocks h"] by simp

lemma cut_allocated:
  "\<not> b_allocated b \<Longrightarrow> allocated_blocks (cut sz al bid stamp b) =
    [\<lparr>b_addr = aligned_in al b, b_size = sz, b_allocated = True, b_id = bid, b_stamp = stamp\<rparr>]"
  by (simp add: cut_def)

lemma allocated_at_keeps:
  assumes "heap_ok h" and "i < block_count h" and "fits sz (2 ^ k) (blocks h ! i)"
    and "k < 62" and "unat sz < 2 ^ 62" and "0 < unat sz" and "allocated_at sz (2 ^ k) i h p h'"
  shows "heap_ok h' \<and> areas h' = insert (unat p, unat sz) (areas h) \<and> inside \<lparr>b_addr = p, b_size = sz, b_allocated = True, b_id = 0, b_stamp = 0\<rparr> (blocks h ! i) \<and>
    2 ^ k dvd unat p \<and> p \<noteq> 0"
proof -
  let ?b = "blocks h ! i" and ?xs = "take i (blocks h)" and ?ys = "drop (i + 1) (blocks h)"
  let ?cut = "cut sz (2 ^ k) (allocation_counter h + 1) (stamp_tick h) ?b"
  have b: "blocks h = ?xs @ ?b # ?ys" using heap_split assms(1,2) by (simp add: heap_ok_def)
  have o: "in_order (?xs @ ?b # ?ys)" using assms(1) b by (simp add: heap_ok_def)
  have pb: "proper ?b" using o by (simp add: in_order_def)
  have free: "\<not> b_allocated ?b" using assms(3) by (simp add: fits_def)
  note a = assms(7) [unfolded allocated_at_def]
  have b': "blocks h' = ?xs @ ?cut @ ?ys" using a by simp
  have "in_order (blocks h')"
    unfolding b' using in_order_replace [OF o] cut_inside [OF pb assms(4,5,6,3)] by blast
  moreover have "total_allocated h = sum_list (map b_size (allocated_blocks (?xs @ ?b # ?ys)))"
    using assms(1) b by (simp add: heap_ok_def)
  then have "total_allocated h' = sum_list (map b_size (allocated_blocks (blocks h')))"
    using a free by (simp add: b' cut_allocated)
  moreover have "areas h = (\<lambda>b. (unat (b_addr b), unat (b_size b))) ` set (allocated_blocks (?xs @ ?b # ?ys))"
    using b by (simp add: areas_def)
  then have "areas h' = insert (unat p, unat sz) (areas h)"
    using a free by (simp add: areas_def b' cut_allocated)
  moreover have "2 ^ k dvd unat p" and "inside \<lparr>b_addr = p, b_size = sz, b_allocated = True, b_id = 0, b_stamp = 0\<rparr> ?b" and "p \<noteq> 0"
    using fits_iff(2) [OF pb assms(4,5,3)] a pb by (auto simp: inside_def b_end_def proper_def)
  ultimately show ?thesis using a by (simp add: heap_ok_def)
qed

lemma in_order_apart:
  "in_order bs \<Longrightarrow> b \<in> set bs \<Longrightarrow> c \<in> set bs \<Longrightarrow> b \<noteq> c \<Longrightarrow> below b c \<or> below c b"
  by (induction bs) (auto simp: in_order_def)

lemma round8_law:
  assumes "unat sz < 2 ^ 61"
  shows "unat sz \<le> unat (round8 sz)" and "unat (round8 sz) < unat sz + 8" and "8 dvd unat (round8 sz)"
proof -
  have m: "(7 :: u64) = mask 3" by (simp add: mask_eq_exp_minus_1)
  have "unat (sz + 7) = unat sz + 7" using assms by (simp add: unat_word_ariths(1))
  then have r: "unat (round8 sz) = unat sz + (8 - 1) - (unat sz + (8 - 1)) mod 8"
    unfolding round8_def m by (subst unat_and_not_mask) (simp add: m [symmetric])
  show "unat sz \<le> unat (round8 sz)" "unat (round8 sz) < unat sz + 8" "8 dvd unat (round8 sz)"
    using round_up_dvd(1-3) [of 8 "unat sz"] by (simp_all add: r)
qed

lemma heap_alloc_law:
  assumes "heap_ok h" and "roomy h" and "k < 62" and "0 < unat sz" and "unat sz < 2 ^ 61"
  defines "n \<equiv> unat (round8 sz)"
  shows "if \<exists>b \<in> set (blocks h). has_room n k b
    then \<exists>p h' i. kmalloc_locked sz (2 ^ k) h = Some (p, h') \<and> heap_ok h' \<and> p \<noteq> 0 \<and> 2 ^ k dvd unat p \<and>
      areas h' = insert (unat p, n) (areas h) \<and> (\<forall>a \<in> areas h. apart a (unat p, n)) \<and>
      i < block_count h \<and> has_room n k (blocks h ! i) \<and> (\<forall>j < i. \<not> has_room n k (blocks h ! j)) \<and>
      unat (b_addr (blocks h ! i)) \<le> unat p \<and> unat p + n \<le> b_end (blocks h ! i) \<and>
      kram h' = ram_fill p 0 n (kram h)
    else kmalloc_locked sz (2 ^ k) h = Some (0, h)"
proof -
  have ok: "sized h" "in_order (blocks h)" using assms(1) by (simp_all add: heap_ok_def)
  have n: "n < 2 ^ 62" "0 < n" using round8_law [OF assms(5)] assms(4,5) by (simp_all add: n_def)
  have fit: "fits (round8 sz) (2 ^ k) b \<longleftrightarrow> has_room n k b" if "b \<in> set (blocks h)" for b
    using fits_iff(1) [of b k "round8 sz"] ok(2) that assms(3) n(1) by (simp add: n_def in_order_def)
  have al: "(2 :: u64) ^ k \<noteq> 0" using unat_pow2 [of k] assms(3) by (auto simp flip: unat_eq_0)
  note law = kmalloc_law [OF ok(1) assms(2) al, of sz]
  show ?thesis
  proof (cases "\<exists>b \<in> set (blocks h). has_room n k b")
    case False
    then show ?thesis using law fit by auto
  next
    case True
    then obtain p h' i where r: "kmalloc_locked sz (2 ^ k) h = Some (p, h')" "i < block_count h" "fits (round8 sz) (2 ^ k) (blocks h ! i)"
      "\<forall>j < i. \<not> fits (round8 sz) (2 ^ k) (blocks h ! j)" "allocated_at (round8 sz) (2 ^ k) i h p h'"
      using law fit by (auto split: if_splits)
    have mem: "blocks h ! j \<in> set (blocks h)" if "j \<le> i" for j using that r(2) ok(1) by simp
    note keep = allocated_at_keeps [OF assms(1) r(2,3) assms(3) n(1) [unfolded n_def] n(2) [unfolded n_def] r(5)]
    have "apart a (unat p, n)" if area: "a \<in> areas h" for a
    proof -
      obtain b where b: "b \<in> set (blocks h)" "b_allocated b" "a = (unat (b_addr b), unat (b_size b))"
        using area by (auto simp: areas_def allocated_blocks_def)
      have "b \<noteq> blocks h ! i" using b(2) r(3) by (auto simp: fits_def)
      then have "below b (blocks h ! i) \<or> below (blocks h ! i) b" using in_order_apart [OF ok(2) b(1) mem] by simp
      then show ?thesis using keep by (auto simp: b(3) apart_def below_def inside_def b_end_def word_le_nat_alt n_def)
    qed
    moreover have "has_room n k (blocks h ! i)" "\<forall>j < i. \<not> has_room n k (blocks h ! j)" using fit mem r(3,4) by auto
    moreover have "kram h' = ram_fill p 0 n (kram h)" using r(5) by (simp add: allocated_at_def n_def)
    ultimately show ?thesis
      using True r(1,2) keep by (auto simp: n_def inside_def b_end_def word_le_nat_alt intro!: exI [of _ i])
  qed
qed

text \<open>C23 (heap_alloc_carves): with room in the block list, an allocation takes an aligned part of the first free block that has
  room for it, apart from every area in use, clears it, and keeps the order of the blocks and the
  count of allocated bytes; it fails, with no effect, only when no free block has room.\<close>

theorem heap_alloc_carves:
  assumes "heap_ok h" and "roomy h" and "k < 62" and "0 < unat sz" and "unat sz < 2 ^ 61"
  defines "n \<equiv> unat (round8 sz)"
  shows "if \<exists>b \<in> set (blocks h). has_room n k b
    then \<exists>p h' i. kmalloc_locked sz (2 ^ k) h = Some (p, h') \<and> heap_ok h' \<and> p \<noteq> 0 \<and> 2 ^ k dvd unat p \<and>
      areas h' = insert (unat p, n) (areas h) \<and> (\<forall>a \<in> areas h. apart a (unat p, n)) \<and>
      i < block_count h \<and> has_room n k (blocks h ! i) \<and> (\<forall>j < i. \<not> has_room n k (blocks h ! j)) \<and>
      unat (b_addr (blocks h ! i)) \<le> unat p \<and> unat p + n \<le> b_end (blocks h ! i) \<and>
      kram h' = ram_fill p 0 n (kram h)
    else kmalloc_locked sz (2 ^ k) h = Some (0, h)"
  unfolding n_def by (rule heap_alloc_law [OF assms(1-5)])

section \<open>Giving a block back\<close>

definition meets :: "mem_block \<Rightarrow> mem_block \<Rightarrow> bool" where
  "meets b c \<longleftrightarrow> \<not> b_allocated b \<and> \<not> b_allocated c \<and> b_addr b + b_size b = b_addr c"

definition join_blocks :: "mem_block \<Rightarrow> mem_block \<Rightarrow> mem_block" where
  "join_blocks b c = b\<lparr>b_size := b_size b + b_size c\<rparr>"

definition join_right :: "mem_block \<Rightarrow> mem_block list \<Rightarrow> mem_block list" where
  "join_right b ys = (if ys \<noteq> [] \<and> meets b (hd ys) then join_blocks b (hd ys) # tl ys else b # ys)"

definition join_left :: "mem_block list \<Rightarrow> mem_block list \<Rightarrow> mem_block list" where
  "join_left xs ys = (if xs \<noteq> [] \<and> meets (last xs) (hd ys) then butlast xs @ join_blocks (last xs) (hd ys) # tl ys else xs @ ys)"

definition rest_kept :: "kheap \<Rightarrow> kheap \<Rightarrow> bool" where
  "rest_kept h h' \<longleftrightarrow> sized h' \<and> block_capacity h' = block_capacity h \<and> total_allocated h' = total_allocated h \<and>
     kram h' = kram h \<and> list_at h' = list_at h \<and> on_heap h' = on_heap h \<and> slab_caches h' = slab_caches h"

lemma rest_kept_refl: "sized h \<Longrightarrow> rest_kept h h"
  by (simp add: rest_kept_def)

lemma join_step:
  assumes "sized h" and "i + 1 < block_count h"
  defines "g \<equiv> remove_block_at (i + 1) (upd_block i (\<lambda>b. b\<lparr>b_size := b_size b + b_size (block_list h ! (i + 1))\<rparr>) h)"
  shows "blocks g = take i (blocks h) @ join_blocks (blocks h ! i) (blocks h ! (i + 1)) # drop (i + 2) (blocks h) \<and> rest_kept h g"
proof -
  let ?u = "upd_block i (\<lambda>b. b\<lparr>b_size := b_size b + b_size (block_list h ! (i + 1))\<rparr>) h"
  have u: "blocks ?u = (blocks h)[i := join_blocks (blocks h ! i) (blocks h ! (i + 1))]" "sized ?u"
    using blocks_upd_block [OF assms(1)] block_nth [OF assms(1)] assms(1,2) by (simp_all add: join_blocks_def)
  have "i + 1 < block_count ?u" using assms(2) by simp
  from remove_block_law [OF this u(2)] obtain bl where
    bl: "g = ?u\<lparr>block_list := bl, block_count := block_count h - 1\<rparr>" "length bl = block_capacity h"
      "take (block_count h - 1) bl = take (i + 1) (blocks ?u) @ drop (i + 2) (blocks ?u)"
    unfolding g_def by auto
  have cells: "blocks g = take (block_count h - 1) bl" unfolding bl(1) by (simp add: blocks_def)
  have "i < length (blocks h)" using assms(1,2) by simp
  then have "blocks g = take i (blocks h) @ join_blocks (blocks h ! i) (blocks h ! (i + 1)) # drop (i + 2) (blocks h)"
    using bl(3) u cells by (simp add: take_Suc_conv_app_nth)
  moreover have "rest_kept h g"
    using assms(1) bl(1,2) by (simp add: rest_kept_def sized_def upd_block_def)
  ultimately show ?thesis by blast
qed

lemma merge_right_law:
  assumes "sized h" and "blocks h = xs @ b # ys" and "\<not> b_allocated b"
  shows "blocks (merge_right (length xs) h) = xs @ join_right b ys \<and> rest_kept h (merge_right (length xs) h)"
proof -
  let ?i = "length xs"
  have len: "block_count h = length xs + 1 + length ys" using length_blocks [OF assms(1)] assms(2) by simp
  have b: "block_list h ! ?i = b" using block_nth [OF assms(1), of ?i] assms(2) len by simp
  show ?thesis
  proof (cases ys)
    case Nil
    then show ?thesis using len assms by (simp add: merge_right_def join_right_def rest_kept_refl Let_def)
  next
    case (Cons c cs)
    have c: "block_list h ! (?i + 1) = c" using block_nth [OF assms(1), of "?i + 1"] assms(2) len Cons by (simp add: nth_append)
    show ?thesis
    proof (cases "meets b c")
      case True
      have "?i + 1 < block_count h" using len Cons by simp
      from join_step [OF assms(1) this] show ?thesis
        using True Cons assms(2) c b len by (simp add: merge_right_def join_right_def meets_def Let_def nth_append)
    next
      case False
      then show ?thesis using Cons c b assms by (auto simp: merge_right_def join_right_def meets_def rest_kept_refl Let_def)
    qed
  qed
qed

lemma merge_left_law:
  assumes "sized h" and "blocks h = xs @ ys" and "ys \<noteq> []" and "\<not> b_allocated (hd ys)"
  shows "blocks (merge_left (length xs) h) = join_left xs ys \<and> rest_kept h (merge_left (length xs) h)"
proof (cases xs rule: rev_cases)
  case Nil
  then show ?thesis using assms by (simp add: merge_left_def join_left_def rest_kept_refl Let_def)
next
  case (snoc zs a)
  obtain b cs where ys: "ys = b # cs" using assms(3) by (cases ys) auto
  have len: "block_count h = length zs + 2 + length cs" using length_blocks [OF assms(1)] assms(2) snoc ys by simp
  have ab: "block_list h ! length zs = a" "block_list h ! (length zs + 1) = b"
    using block_nth [OF assms(1), of "length zs"] block_nth [OF assms(1), of "length zs + 1"] assms(2) len snoc ys
    by (simp_all add: nth_append)
  show ?thesis
  proof (cases "meets a b")
    case True
    have "length zs + 1 < block_count h" using len by simp
    from join_step [OF assms(1) this] show ?thesis
      using True snoc ys assms(2) ab by (simp add: merge_left_def join_left_def meets_def Let_def nth_append)
  next
    case False
    then show ?thesis using snoc ys ab assms by (auto simp: merge_left_def join_left_def meets_def rest_kept_refl Let_def)
  qed
qed

definition freed :: "mem_block \<Rightarrow> mem_block" where
  "freed b = b\<lparr>b_allocated := False, b_id := 0\<rparr>"

lemma find_allocated_law:
  assumes "blocks h = xs @ b # ys" and "b_allocated b" and "\<forall>x \<in> set xs. \<not> (b_allocated x \<and> b_addr x = b_addr b)"
  shows "find_allocated (b_addr b) h = Some (length xs)"
proof -
  have "find_index (\<lambda>x. b_allocated x \<and> b_addr x = b_addr b) (xs @ b # ys) = Some (length xs)"
    using assms(2,3) by (induction xs) auto
  then show ?thesis using assms(1) by (simp add: find_allocated_def blocks_def)
qed

lemma kfree_law:
  assumes "sized h" and "blocks h = xs @ b # ys" and "b_allocated b"
    and "\<forall>x \<in> set xs. \<not> (b_allocated x \<and> b_addr x = b_addr b)"
  shows "blocks (kfree_locked (b_addr b) h) = join_left xs (join_right (freed b) ys) \<and>
    sized (kfree_locked (b_addr b) h) \<and> block_capacity (kfree_locked (b_addr b) h) = block_capacity h \<and>
    total_allocated (kfree_locked (b_addr b) h) = total_allocated h - b_size b \<and>
    kram (kfree_locked (b_addr b) h) = kram h"
proof -
  let ?i = "length xs"
  have len: "?i < block_count h" using length_blocks [OF assms(1)] assms(2) by simp
  have b: "block_list h ! ?i = b" using block_nth [OF assms(1) len] assms(2) by simp
  have t: "sized (h\<lparr>total_allocated := total_allocated h - b_size b\<rparr>)"
    "blocks (h\<lparr>total_allocated := total_allocated h - b_size b\<rparr>) = xs @ b # ys"
    using assms(1,2) by (simp_all add: sized_def blocks_def)
  let ?g = "upd_block ?i (\<lambda>b. b\<lparr>b_allocated := False, b_id := 0\<rparr>) (h\<lparr>total_allocated := total_allocated h - b_size b\<rparr>)"
  have g: "sized ?g" "blocks ?g = xs @ freed b # ys"
    using blocks_upd_block [OF t(1), of ?i "\<lambda>b. b\<lparr>b_allocated := False, b_id := 0\<rparr>"] t len by (simp_all add: freed_def)
  have f: "\<not> b_allocated (freed b)" by (simp add: freed_def)
  note r = merge_right_law [OF g f]
  let ?m = "merge_right ?i ?g"
  have "join_right (freed b) ys \<noteq> []" "\<not> b_allocated (hd (join_right (freed b) ys))"
    by (simp_all add: join_right_def freed_def join_blocks_def)
  then have l: "blocks (merge_left ?i ?m) = join_left xs (join_right (freed b) ys) \<and> rest_kept ?m (merge_left ?i ?m)"
    using merge_left_law [of ?m xs "join_right (freed b) ys"] r by (simp add: rest_kept_def)
  have "kfree_locked (b_addr b) h = merge_left ?i ?m"
    using find_allocated_law [OF assms(2-4)] b by (simp add: kfree_locked_def Let_def)
  then show ?thesis using l r by (simp add: rest_kept_def upd_block_def)
qed

text \<open>The invariant under giving back.\<close>

lemma join_proper:
  assumes "proper b" and "proper c" and "below b c" and "b_addr b + b_size b = b_addr c"
  shows "proper (join_blocks b c) \<and> b_end (join_blocks b c) = b_end c \<and> b_addr (join_blocks b c) = b_addr b"
proof -
  have e: "b_end b = unat (b_addr c)" using proper_end [OF assms(1)] assms(4) by simp
  have "b_end c < 2 ^ 64" using assms(2) by (simp add: proper_def)
  then have "unat (b_size b) + unat (b_size c) < 2 ^ 64" using e by (simp add: b_end_def)
  then have s: "unat (b_size b + b_size c) = unat (b_size b) + unat (b_size c)" by (simp add: unat_word_ariths(1))
  then have "b_end (join_blocks b c) = b_end c" using e by (simp add: join_blocks_def b_end_def)
  moreover have "b_size b + b_size c \<noteq> 0" using s assms(1) by (auto simp: proper_def simp flip: unat_eq_0)
  ultimately show ?thesis using assms(1) \<open>b_end c < 2 ^ 64\<close> by (simp add: proper_def join_blocks_def)
qed

lemma in_order_join:
  assumes "in_order (xs @ b # c # ys)" and "b_addr b + b_size b = b_addr c"
  shows "in_order (xs @ join_blocks b c # ys)"
proof -
  have bc: "proper b" "proper c" "below b c" using assms(1) by (simp_all add: in_order_def sorted_wrt_append)
  note j = join_proper [OF bc assms(2)]
  have "\<forall>x \<in> set xs. below x (join_blocks b c)" "\<forall>y \<in> set ys. below (join_blocks b c) y"
    using assms(1) j by (auto simp: in_order_def sorted_wrt_append below_def)
  then show ?thesis using assms(1) j by (simp add: in_order_def sorted_wrt_append)
qed

lemma join_right_order:
  "in_order (xs @ b # ys) \<Longrightarrow> in_order (xs @ join_right b ys)"
  by (cases ys) (auto simp: join_right_def meets_def intro: in_order_join)

lemma join_left_order:
  assumes "in_order (xs @ ys)" and "ys \<noteq> []"
  shows "in_order (join_left xs ys)"
proof (cases xs rule: rev_cases)
  case (snoc zs a)
  obtain b cs where "ys = b # cs" using assms(2) by (cases ys) auto
  then show ?thesis using assms(1) snoc in_order_join [of zs a b cs] by (auto simp: join_left_def meets_def)
qed (use assms in \<open>simp add: join_left_def\<close>)

lemma join_allocated:
  "\<not> b_allocated b \<Longrightarrow> allocated_blocks (join_right b ys) = allocated_blocks ys"
  by (cases ys) (auto simp: join_right_def meets_def join_blocks_def)

lemma join_left_allocated:
  assumes "ys \<noteq> []"
  shows "allocated_blocks (join_left xs ys) = allocated_blocks xs @ allocated_blocks ys"
proof (cases xs rule: rev_cases)
  case (snoc zs a)
  then show ?thesis using assms by (cases ys) (auto simp: join_left_def meets_def join_blocks_def)
qed (simp add: join_left_def)

lemma join_right_ne: "join_right b ys \<noteq> []"
  by (simp add: join_right_def)

lemma freed_order: "in_order (xs @ b # ys) \<Longrightarrow> in_order (xs @ freed b # ys)"
  by (auto simp: in_order_def sorted_wrt_append below_def proper_def b_end_def freed_def)

lemma only_one_at:
  assumes "in_order (xs @ b # ys)" and "x \<in> set xs"
  shows "b_addr x \<noteq> b_addr b"
proof -
  have "below x b" and "proper x" using assms by (auto simp: in_order_def sorted_wrt_append)
  moreover have "0 < unat (b_size x)" using \<open>proper x\<close> by (metis proper_def neq0_conv unat_eq_0)
  ultimately have "unat (b_addr x) < unat (b_addr b)" by (simp add: below_def b_end_def)
  then show ?thesis by auto
qed

lemma kfree_keeps:
  assumes "heap_ok h" and "b \<in> set (blocks h)" and "b_allocated b"
  shows "heap_ok (kfree_locked (b_addr b) h) \<and>
    (\<exists>xs ys. blocks h = xs @ b # ys \<and> allocated_blocks (blocks (kfree_locked (b_addr b) h)) = allocated_blocks xs @ allocated_blocks ys) \<and>
    block_capacity (kfree_locked (b_addr b) h) = block_capacity h"
proof -
  obtain xs ys where b: "blocks h = xs @ b # ys" using split_list [OF assms(2)] by blast
  have ok: "sized h" "in_order (xs @ b # ys)" "total_allocated h = sum_list (map b_size (allocated_blocks (blocks h)))"
    using assms(1) b by (simp_all add: heap_ok_def)
  have "\<forall>x \<in> set xs. \<not> (b_allocated x \<and> b_addr x = b_addr b)" using only_one_at [OF ok(2)] by blast
  note f = kfree_law [OF ok(1) b assms(3) this]
  have "in_order (blocks (kfree_locked (b_addr b) h))"
    using f join_left_order [OF join_right_order [OF freed_order [OF ok(2)]] join_right_ne] by simp
  moreover have a: "allocated_blocks (blocks (kfree_locked (b_addr b) h)) = allocated_blocks xs @ allocated_blocks ys"
    using f join_left_allocated [OF join_right_ne] join_allocated [of "freed b" ys] by (simp add: freed_def)
  moreover have "total_allocated (kfree_locked (b_addr b) h) = sum_list (map b_size (allocated_blocks xs @ allocated_blocks ys))"
    using f ok(3) assms(3) b by simp
  ultimately show ?thesis using f b by (auto simp: heap_ok_def)
qed

text \<open>An allocation given back at once: the layout, the areas with their state, is as before.\<close>

definition layout :: "kheap \<Rightarrow> (u64 \<times> u64 \<times> bool) list" where
  "layout h = map (\<lambda>b. (b_addr b, b_size b, b_allocated b)) (blocks h)"

definition coalesced :: "mem_block list \<Rightarrow> bool" where
  "coalesced bs \<longleftrightarrow> successively (\<lambda>b c. \<not> meets b c) bs"

lemma undo_cut:
  fixes al sz :: u64 and bid stamp :: u32
  assumes "coalesced (xs @ b # ys)" and "\<not> b_allocated b"
  defines "pads \<equiv> (if pad_of al b > 0 then [b\<lparr>b_size := pad_of al b\<rparr>] else [])"
    and "a \<equiv> \<lparr>b_addr = aligned_in al b, b_size = sz, b_allocated = True, b_id = bid, b_stamp = stamp\<rparr>"
    and "rests \<equiv> (if rest_of sz al b > 0
      then [\<lparr>b_addr = aligned_in al b + sz, b_size = rest_of sz al b, b_allocated = False, b_id = 0, b_stamp = 0\<rparr>] else [])"
  shows "map (\<lambda>b. (b_addr b, b_size b, b_allocated b)) (join_left (xs @ pads) (join_right (freed a) (rests @ ys))) =
    map (\<lambda>b. (b_addr b, b_size b, b_allocated b)) (xs @ b # ys)"
proof -
  have pad: "b_addr b + pad_of al b = aligned_in al b" by (simp add: pad_of_def)
  have size: "pad_of al b + (sz + rest_of sz al b) = b_size b" by (simp add: rest_of_def)
  have right: "ys \<noteq> [] \<Longrightarrow> \<not> b_allocated (hd ys) \<Longrightarrow> b_addr b + b_size b \<noteq> b_addr (hd ys)"
    using assms(1,2) by (cases ys) (auto simp: coalesced_def successively_append_iff meets_def)
  have left: "xs \<noteq> [] \<Longrightarrow> \<not> b_allocated (last xs) \<Longrightarrow> b_addr (last xs) + b_size (last xs) \<noteq> b_addr b"
    using assms(1,2) by (auto simp: coalesced_def successively_append_iff meets_def)
  define joined where "joined = (freed a)\<lparr>b_size := sz + rest_of sz al b\<rparr>"
  have j: "join_right (freed a) (rests @ ys) = joined # ys"
  proof (cases "rest_of sz al b > 0")
    case True
    then show ?thesis by (simp add: join_right_def rests_def meets_def freed_def a_def join_blocks_def joined_def)
  next
    case False
    then have z: "rest_of sz al b = 0" by (simp add: word_gt_0)
    have "aligned_in al b + sz = b_addr b + b_size b" using pad size z by (metis add.assoc add.right_neutral)
    then have "\<not> (ys \<noteq> [] \<and> meets (freed a) (hd ys))" using right by (auto simp: meets_def freed_def a_def)
    then show ?thesis using z by (auto simp: join_right_def rests_def joined_def freed_def a_def)
  qed
  show ?thesis
  proof (cases "pad_of al b > 0")
    case True
    then show ?thesis
      unfolding j using assms(2) pad size by (simp add: join_left_def pads_def meets_def joined_def freed_def a_def join_blocks_def)
  next
    case False
    then have z: "pad_of al b = 0" by (simp add: word_gt_0)
    then have "\<not> (xs \<noteq> [] \<and> meets (last xs) joined)" using left pad by (auto simp: meets_def joined_def freed_def a_def)
    then show ?thesis unfolding j using z assms(2) pad size by (auto simp: join_left_def pads_def joined_def freed_def a_def)
  qed
qed

text \<open>C24 (heap_free_undoes): in a heap where no two free blocks touch and whose block list has twelve free cells, so
  that it does not grow, an allocation of a size above 0 and below \<open>2 ^ 61\<close> with an alignment of \<open>2 ^ k\<close> for a \<open>k\<close> below
  62 that is given back at once restores the layout of the blocks (their addresses, sizes and states) and the count of
  allocated bytes. (When the list has to grow this does not hold: growing allocates a block of its own.)\<close>

theorem heap_free_undoes:
  assumes "heap_ok h" and "roomy h" and "coalesced (blocks h)" and "k < 62" and "0 < unat sz" and "unat sz < 2 ^ 61"
    and "kmalloc_locked sz (2 ^ k) h = Some (p, h')" and "p \<noteq> 0"
  shows "layout (kfree_locked p h') = layout h \<and> total_allocated (kfree_locked p h') = total_allocated h \<and>
    heap_ok (kfree_locked p h')"
proof -
  have ok: "sized h" "in_order (blocks h)" using assms(1) by (simp_all add: heap_ok_def)
  have al: "(2 :: u64) ^ k \<noteq> 0" using unat_pow2 [of k] assms(4) by (auto simp flip: unat_eq_0)
  have n: "unat (round8 sz) < 2 ^ 62" "0 < unat (round8 sz)" using round8_law [OF assms(6)] assms(5,6) by simp_all
  obtain i where i: "i < block_count h" "fits (round8 sz) (2 ^ k) (blocks h ! i)" "allocated_at (round8 sz) (2 ^ k) i h p h'"
    using kmalloc_law [OF ok(1) assms(2) al, of sz] assms(7,8) by (auto split: if_splits)
  note keep = allocated_at_keeps [OF assms(1) i(1,2) assms(4) n i(3)]
  let ?b = "blocks h ! i" and ?xs = "take i (blocks h)" and ?ys = "drop (i + 1) (blocks h)" and ?al = "(2 :: u64) ^ k"
  let ?pads = "if pad_of ?al ?b > 0 then [?b\<lparr>b_size := pad_of ?al ?b\<rparr>] else []"
  let ?a = "\<lparr>b_addr = aligned_in ?al ?b, b_size = round8 sz, b_allocated = True, b_id = allocation_counter h + 1, b_stamp = stamp_tick h\<rparr>"
  let ?rests = "if rest_of (round8 sz) ?al ?b > 0
    then [\<lparr>b_addr = aligned_in ?al ?b + round8 sz, b_size = rest_of (round8 sz) ?al ?b, b_allocated = False, b_id = 0, b_stamp = 0\<rparr>] else []"
  have B: "blocks h = ?xs @ ?b # ?ys" by (rule heap_split [OF ok(1) i(1)])
  have B': "blocks h' = (?xs @ ?pads) @ ?a # (?rests @ ?ys)" and p: "p = b_addr ?a"
    using i(3) unfolding allocated_at_def cut_def by simp_all
  have free: "\<not> b_allocated ?b" using i(2) by (simp add: fits_def)
  have o': "in_order ((?xs @ ?pads) @ ?a # (?rests @ ?ys))" using keep B' by (simp add: heap_ok_def)
  have "\<forall>x \<in> set (?xs @ ?pads). \<not> (b_allocated x \<and> b_addr x = b_addr ?a)" using only_one_at [OF o'] by blast
  from kfree_law [OF _ B' _ this] keep have f: "blocks (kfree_locked p h') = join_left (?xs @ ?pads) (join_right (freed ?a) (?rests @ ?ys))"
    "total_allocated (kfree_locked p h') = total_allocated h' - round8 sz"
    by (simp_all add: p heap_ok_def)
  have co: "coalesced (?xs @ ?b # ?ys)" using assms(3) by (subst (asm) B)
  have "layout (kfree_locked p h') = layout h"
    unfolding layout_def f(1) by (rule trans, rule undo_cut [OF co free], rule arg_cong, rule B [symmetric])
  moreover have "total_allocated h' = total_allocated h + round8 sz" using i(3) by (simp add: allocated_at_def)
  moreover have "heap_ok (kfree_locked p h')" using kfree_keeps [of h' ?a] keep B' by (simp add: p)
  ultimately show ?thesis using f(2) by simp
qed

definition free_block :: "u64 \<Rightarrow> u64 \<Rightarrow> mem_block" where
  "free_block a n = \<lparr>b_addr = a, b_size = n, b_allocated = False, b_id = 0, b_stamp = 0\<rparr>"

text \<open>A heap of 64 KB at an address that no power of two above 16 divides.\<close>

definition demo_heap :: kheap where
  "demo_heap = \<lparr>block_list = free_block 0xFFFF800000100010 0x10000 # replicate 31 zero_block, block_count = 1, list_at = 0,
     on_heap = False, memory_pool_size = 0x10000, total_allocated = 0, peak_allocated = 0, allocation_counter = 0, stamp_tick = 0,
     heap_ready = True, slab_caches = replicate 7 \<lparr>c_pages = 0, c_allocs = 0, c_frees = 0\<rparr>, slab_total_allocs = 0,
     slab_total_frees = 0, kram = (\<lambda>a. 0), mem_log = []\<rparr>"

lemma demo_blocks: "blocks demo_heap = [free_block 0xFFFF800000100010 0x10000]" "block_count demo_heap = 1"
  by (simp_all add: demo_heap_def blocks_def)

lemma demo_heap_ok: "heap_ok demo_heap" "roomy demo_heap" "coalesced (blocks demo_heap)"
proof -
  have "sized demo_heap" "total_allocated demo_heap = 0" by (simp_all add: demo_heap_def sized_def)
  then show "heap_ok demo_heap"
    by (simp add: heap_ok_def demo_blocks in_order_def proper_def b_end_def free_block_def)
  show "roomy demo_heap" "coalesced (blocks demo_heap)" by (simp add: roomy_def demo_heap_def) (simp add: demo_blocks coalesced_def)
qed

lemma demo_room: "\<exists>b \<in> set (blocks demo_heap). has_room (unat (round8 100)) 12 b"
proof -
  let ?b = "free_block 0xFFFF800000100010 0x10000"
  have b: "unat (b_addr ?b) = 0xFFFF800000100010" "b_end ?b = 0xFFFF800000110010" "\<not> b_allocated ?b"
    by (simp_all add: free_block_def b_end_def)
  have "unat (round8 100) < 108" using round8_law(2) [of 100] by simp
  moreover have "(0xFFFF800000101000 :: nat) = 2 ^ 12 * 0xFFFF800000101" by simp
  then have "2 ^ 12 dvd (0xFFFF800000101000 :: nat)" by (rule dvdI)
  ultimately have "has_room (unat (round8 100)) 12 ?b"
    unfolding has_room_def b using b(3) by (intro conjI exI [of _ "0xFFFF800000101000"]) linarith+
  then show ?thesis by (simp add: demo_blocks)
qed

lemma demo_alloc: "\<exists>p h'. kmalloc_locked 100 (2 ^ 12) demo_heap = Some (p, h') \<and> p \<noteq> 0"
proof -
  let ?b = "free_block 0xFFFF800000100010 0x10000"
  have ok: "sized demo_heap" "proper ?b" using demo_heap_ok(1) by (simp_all add: heap_ok_def in_order_def demo_blocks)
  have n: "unat (round8 100) < 2 ^ 62" "0 < unat (round8 100)" using round8_law(1,2) [of 100] by simp_all
  have "fits (round8 100) (2 ^ 12) ?b" using fits_iff(1) [OF ok(2) _ n(1), of 12] demo_room by (simp add: demo_blocks)
  then obtain p h' j where r: "kmalloc_locked 100 (2 ^ 12) demo_heap = Some (p, h')" "j < block_count demo_heap"
    "fits (round8 100) (2 ^ 12) (blocks demo_heap ! j)" "allocated_at (round8 100) (2 ^ 12) j demo_heap p h'"
    using kmalloc_law [OF ok(1) demo_heap_ok(2), of "2 ^ 12" 100] by (auto simp: demo_blocks)
  show ?thesis using allocated_at_keeps [OF demo_heap_ok(1) r(2,3) _ n r(4)] r(1) by auto
qed

theorem heap_alloc_carves_witness:
  "\<exists>p h'. kmalloc_locked 100 4096 demo_heap = Some (p, h') \<and> heap_ok h' \<and> p \<noteq> 0 \<and> 4096 dvd unat p"
  using heap_alloc_carves [OF demo_heap_ok(1,2), of 12 100] demo_room by auto

theorem heap_free_undoes_witness:
  "\<exists>p h'. kmalloc_locked 100 4096 demo_heap = Some (p, h') \<and> p \<noteq> 0 \<and> layout (kfree_locked p h') = layout demo_heap"
proof -
  obtain p h' where p: "kmalloc_locked 100 (2 ^ 12) demo_heap = Some (p, h')" "p \<noteq> 0" using demo_alloc by blast
  show ?thesis using heap_free_undoes [OF demo_heap_ok _ _ _ p] p by auto
qed

section \<open>Any sequence of requests\<close>

definition heap_used :: "kheap \<Rightarrow> u64 set" where
  "heap_used h = b_addr ` set (allocated_blocks (blocks h))"

text \<open>
  A client's call: a size and an exponent of the alignment, null read as a refusal. \<open>heap_request\<close> is the
  call where the list of blocks need not grow, for which the contract of a pool of handles holds.
\<close>

definition heap_take :: "u64 \<times> nat \<Rightarrow> kheap \<Rightarrow> (u64 option \<times> kheap) option" where
  "heap_take r h =
     map_option (\<lambda>(p, h'). (if p = 0 then None else Some p, h')) (kmalloc_locked (fst r) (2 ^ snd r) h)"

definition heap_request :: "u64 \<times> nat \<Rightarrow> kheap \<Rightarrow> (u64 option \<times> kheap) option" where
  "heap_request r h =
     (if roomy h \<and> snd r < 62 \<and> 0 < unat (fst r) \<and> unat (fst r) < 2 ^ 61
      then heap_take r h else None)"

definition heap_return :: "u64 \<Rightarrow> kheap \<Rightarrow> kheap option" where
  "heap_return p h = Some (kfree_locked p h)"

lemma used_areas: "p \<in> heap_used h \<longleftrightarrow> (\<exists>n. (unat p, n) \<in> areas h)"
  by (auto simp: heap_used_def areas_def image_iff word_unat_eq_iff)

lemma heap_request_cases:
  assumes "heap_ok h" and "heap_request r h = Some (q, h')"
  shows "(q = None \<and> h' = h) \<or> (\<exists>p n. q = Some p \<and> heap_ok h' \<and> 0 < n \<and> areas h' = insert (unat p, n) (areas h) \<and>
    (\<forall>a \<in> areas h. apart a (unat p, n)))"
proof -
  obtain sz k where r: "r = (sz, k)" by (cases r)
  have pre: "roomy h" "k < 62" "0 < unat sz" "unat sz < 2 ^ 61" using assms(2) r by (auto simp: heap_request_def split: if_splits)
  have req: "heap_request r h = map_option (\<lambda>(p, h'). (if p = 0 then None else Some p, h')) (kmalloc_locked sz (2 ^ k) h)"
    using pre r by (simp add: heap_request_def heap_take_def)
  note law = heap_alloc_law [OF assms(1) pre]
  show ?thesis
  proof (cases "\<exists>b \<in> set (blocks h). has_room (unat (round8 sz)) k b")
    case False
    then show ?thesis using law req assms(2) by simp
  next
    case True
    then obtain p h'' where "kmalloc_locked sz (2 ^ k) h = Some (p, h'')" "heap_ok h''" "p \<noteq> 0"
      "areas h'' = insert (unat p, unat (round8 sz)) (areas h)" "\<forall>a \<in> areas h. apart a (unat p, unat (round8 sz))"
      using law by auto
    moreover have "0 < unat (round8 sz)" using round8_law(1) [OF pre(4)] pre(3) by simp
    ultimately show ?thesis using req assms(2) by auto
  qed
qed

lemma area_positive: "heap_ok h \<Longrightarrow> (a, n) \<in> areas h \<Longrightarrow> 0 < n"
  by (auto simp: heap_ok_def areas_def allocated_blocks_def in_order_def proper_def unat_gt_0)

lemma kfree_used:
  assumes "heap_ok h" and "p \<in> heap_used h"
  shows "heap_ok (kfree_locked p h) \<and> heap_used (kfree_locked p h) = heap_used h - {p}"
proof -
  obtain b where b: "b \<in> set (blocks h)" "b_allocated b" "p = b_addr b"
    using assms(2) by (auto simp: heap_used_def allocated_blocks_def)
  note keep = kfree_keeps [OF assms(1) b(1,2)]
  then obtain xs ys where split: "blocks h = xs @ b # ys"
    "allocated_blocks (blocks (kfree_locked (b_addr b) h)) = allocated_blocks xs @ allocated_blocks ys" by blast
  have o: "in_order (xs @ b # ys)" using assms(1) split(1) by (simp add: heap_ok_def)
  have other: "b_addr x \<noteq> b_addr b" if m: "x \<in> set xs \<union> set ys" for x
  proof (cases "x \<in> set xs")
    case True
    then show ?thesis by (rule only_one_at [OF o])
  next
    case False
    then have "x \<in> set ys" using m by blast
    then obtain us vs where "ys = us @ x # vs" by (meson split_list)
    then show ?thesis using only_one_at [of "xs @ b # us" x vs b] o by auto
  qed
  then have "p \<notin> b_addr ` (set (allocated_blocks xs) \<union> set (allocated_blocks ys))"
    using b(3) other by (fastforce simp: allocated_blocks_def)
  then show ?thesis using keep split b by (auto simp: heap_used_def)
qed

interpretation heap_blocks: handle_table heap_used heap_request heap_return heap_ok
proof (unfold_locales, goal_cases)
  case (1 s a s')
  then show ?case using heap_request_cases [of s a None s'] by auto
next
  case (2 s a i s')
  then obtain n where n: "heap_ok s'" "0 < n" "areas s' = insert (unat i, n) (areas s)" "\<forall>x \<in> areas s. apart x (unat i, n)"
    using heap_request_cases [of s a "Some i" s'] by auto
  have "i \<notin> heap_used s"
  proof
    assume "i \<in> heap_used s"
    then obtain m where "(unat i, m) \<in> areas s" by (auto simp: used_areas)
    then show False using n(2,4) area_positive [OF 2(1)] by (fastforce simp: apart_def)
  qed
  moreover have "heap_used s' = insert i (heap_used s)" using n(3) by (auto simp: used_areas word_unat_eq_iff)
  ultimately show ?case using n(1) by blast
next
  case (3 s i s')
  then show ?case using kfree_used [OF 3(1,2)] by (simp add: heap_return_def)
qed

lemma areas_apart:
  assumes "heap_ok h" and "x \<in> areas h" and "y \<in> areas h" and "x \<noteq> y"
  shows "apart x y"
proof -
  obtain b c where b: "b \<in> set (blocks h)" "x = (unat (b_addr b), unat (b_size b))"
    and c: "c \<in> set (blocks h)" "y = (unat (b_addr c), unat (b_size c))"
    using assms(2,3) by (auto simp: areas_def allocated_blocks_def)
  have "b \<noteq> c" using assms(4) b c by auto
  then have "below b c \<or> below c b" using in_order_apart [OF _ b(1) c(1)] assms(1) by (simp add: heap_ok_def)
  then show ?thesis using b c by (auto simp: apart_def below_def b_end_def)
qed

text \<open>A call adds at most two blocks to the list, and a return adds none.\<close>

lemma heap_take_grows:
  assumes "heap_ok h" and "roomy h" and "k < 62" and "0 < unat sz" and "unat sz < 2 ^ 61"
  shows "\<exists>q h'. heap_request (sz, k) h = Some (q, h') \<and> heap_take (sz, k) h = Some (q, h') \<and> heap_ok h' \<and>
    block_count h' \<le> block_count h + 2 \<and> block_capacity h' = block_capacity h"
proof -
  have same: "heap_request (sz, k) h = heap_take (sz, k) h" using assms by (simp add: heap_request_def)
  have ok: "sized h" and al: "(2 :: u64) ^ k \<noteq> 0"
    using assms(1) unat_pow2 [of k] assms(3) by (auto simp: heap_ok_def simp flip: unat_eq_0)
  have n: "unat (round8 sz) < 2 ^ 62" "0 < unat (round8 sz)" using round8_law [OF assms(5)] assms(4,5) by simp_all
  note law = kmalloc_law [OF ok assms(2) al, of sz]
  show ?thesis
  proof (cases "\<exists>b \<in> set (blocks h). fits (round8 sz) (2 ^ k) b")
    case False
    then show ?thesis using law assms(1) by (simp add: same heap_take_def)
  next
    case True
    then obtain p h' j where r: "kmalloc_locked sz (2 ^ k) h = Some (p, h')" "j < block_count h"
      "fits (round8 sz) (2 ^ k) (blocks h ! j)" "allocated_at (round8 sz) (2 ^ k) j h p h'" using law by auto
    have "sized h'" using r(4) by (simp add: allocated_at_def)
    then have "block_count h' = length (blocks h')" by (rule length_blocks [symmetric])
    also have "\<dots> \<le> block_count h + 2" using r(2,4) ok by (simp add: allocated_at_def cut_def)
    finally show ?thesis
      using r allocated_at_keeps [OF assms(1) r(2,3) assms(3) n r(4)] by (simp add: same heap_take_def allocated_at_def)
  qed
qed

lemma join_left_length: "length (join_left xs ys) \<le> length xs + length ys"
  by (cases xs; cases ys) (auto simp: join_left_def)

lemma join_right_length: "length (join_right b ys) \<le> length ys + 1"
  by (auto simp: join_right_def)

lemma kfree_shrinks:
  assumes "heap_ok h" and "p \<in> heap_used h"
  shows "block_count (kfree_locked p h) \<le> block_count h \<and> block_capacity (kfree_locked p h) = block_capacity h"
proof -
  obtain b where b: "b \<in> set (blocks h)" "b_allocated b" "p = b_addr b"
    using assms(2) by (auto simp: heap_used_def allocated_blocks_def)
  obtain xs ys where split: "blocks h = xs @ b # ys" using split_list [OF b(1)] by blast
  have ok: "sized h" "in_order (xs @ b # ys)" using assms(1) split by (simp_all add: heap_ok_def)
  have "\<forall>x \<in> set xs. \<not> (b_allocated x \<and> b_addr x = b_addr b)" using only_one_at [OF ok(2)] by blast
  note f = kfree_law [OF ok(1) split b(2) this]
  have "block_count (kfree_locked p h) = length (join_left xs (join_right (freed b) ys))" using f b(3) length_blocks by metis
  also have "\<dots> \<le> length (blocks h)"
    using join_left_length [of xs "join_right (freed b) ys"] join_right_length [of "freed b" ys] split by simp
  finally show ?thesis using f ok(1) b(3) by simp
qed

text \<open>The calls of a run, and a run of them that needs no growing.\<close>

fun takes :: "(u64 \<times> nat, u64) table_event list \<Rightarrow> (u64 \<times> nat) list" where
  "takes [] = []"
| "takes (Acquire r # es) = r # takes es"
| "takes (Release p # es) = takes es"

definition fair :: "u64 \<times> nat \<Rightarrow> bool" where
  "fair r \<longleftrightarrow> snd r < 62 \<and> 0 < unat (fst r) \<and> unat (fst r) < 2 ^ 61"

lemma heap_run_ends:
  assumes "heap_ok h" and "distinct held" and "set held = heap_used h" and "list_all fair (takes es)"
    and "block_count h + 2 * length (takes es) + 10 \<le> block_capacity h"
  shows "\<exists>held' u. table_run heap_take heap_return es (held, h) = Some (held', u) \<and>
    table_run heap_request heap_return es (held, h) = Some (held', u) \<and> block_capacity u = block_capacity h"
  using assms
proof (induction es arbitrary: held h)
  case Nil
  then show ?case by simp
next
  case (Cons e es)
  show ?case
  proof (cases e)
    case (Acquire r)
    obtain sz k where r: "r = (sz, k)" by (cases r)
    have pre: "roomy h" "k < 62" "0 < unat sz" "unat sz < 2 ^ 61"
      using Cons.prems(4,5) Acquire r by (simp_all add: fair_def roomy_def)
    from heap_take_grows [OF Cons.prems(1) pre] obtain q h' where
      q: "heap_request r h = Some (q, h')" "heap_take r h = Some (q, h')" "heap_ok h'"
        "block_count h' \<le> block_count h + 2" "block_capacity h' = block_capacity h" unfolding r by blast
    let ?held = "case q of None \<Rightarrow> held | Some p \<Rightarrow> p # held"
    have "table_run heap_request heap_return [Acquire r] (held, h) = Some (?held, h')" using q(1) by simp
    from heap_blocks.run_distinct [OF this Cons.prems(1-3)] have "distinct ?held" "set ?held = heap_used h'" by simp_all
    from Cons.IH [OF q(3) this] Cons.prems(4,5) Acquire q show ?thesis by simp
  next
    case (Release p)
    show ?thesis
    proof (cases "p \<in> set held")
      case True
      then have p: "p \<in> heap_used h" using Cons.prems(3) by simp
      note f = kfree_used [OF Cons.prems(1) p] kfree_shrinks [OF Cons.prems(1) p]
      have "distinct (remove1 p held)" "set (remove1 p held) = heap_used (kfree_locked p h)"
        using f Cons.prems(2,3) by simp_all
      from Cons.IH [OF conjunct1 [OF f(1)] this] Cons.prems(4,5) Release f True show ?thesis by (simp add: heap_return_def)
    next
      case False
      then show ?thesis using Cons.IH [OF Cons.prems(1-3)] Cons.prems(4,5) Release by simp
    qed
  qed
qed

text \<open>C25 (heap_live_blocks): on a heap with nothing allocated, any sequence of allocations (of sizes above 0 and below
  \<open>2 ^ 61\<close>, aligned to \<open>2 ^ k\<close> with \<open>k\<close> below 62, granted or refused) and of frees, in which the number \<open>n\<close> of allocations is
  so small that the block list cannot have to grow (\<open>2 * n + 10\<close> cells are free at the start), runs to its end
  without growing the list, and then the pointers the clients hold are distinct, they are exactly the blocks marked
  allocated, and their areas do not overlap. (Growing the list in the middle of an insertion breaks the order of the blocks.)\<close>

theorem heap_live_blocks:
  assumes "heap_ok h" and "heap_used h = {}" and "list_all fair (takes es)"
    and "block_count h + 2 * length (takes es) + 10 \<le> block_capacity h"
  shows "\<exists>held u. table_run heap_take heap_return es ([], h) = Some (held, u) \<and> block_capacity u = block_capacity h \<and>
    heap_ok u \<and> distinct held \<and> set held = heap_used u \<and> pairwise apart (areas u)"
proof -
  have none: "distinct []" "set [] = heap_used h" using assms(2) by simp_all
  from heap_run_ends [OF assms(1) none assms(3,4)] obtain held u where
    u: "table_run heap_take heap_return es ([], h) = Some (held, u)"
      "table_run heap_request heap_return es ([], h) = Some (held, u)" "block_capacity u = block_capacity h" by blast
  from heap_blocks.run_distinct [OF u(2) assms(1) none] areas_apart [of u] u(1,3) show ?thesis by (auto simp: pairwise_def)
qed

text \<open>An allocation of more bytes than the heap has, a granted one, and its return.\<close>

theorem heap_live_blocks_witness:
  "\<exists>p h' u. table_run heap_take heap_return [Acquire (0x100000, 3), Acquire (100, 12)] ([], demo_heap) = Some ([p], h') \<and>
     heap_used h' = {p} \<and> pairwise apart (areas h') \<and>
     table_run heap_take heap_return [Acquire (0x100000, 3), Acquire (100, 12), Release p] ([], demo_heap) = Some ([], u) \<and>
     heap_used u = {} \<and> heap_ok u"
proof -
  obtain p h' where p: "kmalloc_locked 100 (2 ^ 12) demo_heap = Some (p, h')" "p \<noteq> 0" using demo_alloc by blast
  have big: "unat (round8 0x100000) \<ge> 0x100000" using round8_law [of "0x100000"] by simp
  then have "\<not> (\<exists>b \<in> set (blocks demo_heap). has_room (unat (round8 0x100000)) 3 b)"
    by (auto simp: demo_blocks has_room_def b_end_def free_block_def)
  then have refused: "kmalloc_locked 0x100000 (2 ^ 3) demo_heap = Some (0, demo_heap)"
    using heap_alloc_law [OF demo_heap_ok(1,2), of 3 "0x100000"] by simp
  let ?es = "[Acquire (0x100000, 3), Acquire (100, 12)] :: (u64 \<times> nat, u64) table_event list"
  have run: "table_run heap_take heap_return ?es ([], demo_heap) = Some ([p], h')"
    "table_run heap_take heap_return (?es @ [Release p]) ([], demo_heap) = Some ([], kfree_locked p h')"
    using p refused by (simp_all add: heap_take_def heap_return_def)
  have free: "heap_used demo_heap = {}" by (simp add: heap_used_def demo_blocks free_block_def)
  have room: "block_capacity demo_heap = 32" "block_count demo_heap = 1" by (simp_all add: demo_heap_def)
  have "list_all fair (takes ?es)" "list_all fair (takes (?es @ [Release p]))" by (simp_all add: fair_def)
  with heap_live_blocks [OF demo_heap_ok(1) free, of ?es] heap_live_blocks [OF demo_heap_ok(1) free, of "?es @ [Release p]"] room run
  show ?thesis by auto
qed

end
