(* ===== verification/BosSlabRuns.thy ===== *)
theory BosSlabRuns
  imports BosSlabLaws BosHeapLaws
begin

text \<open>
  The slab caches at work: what allocation and free do to the chain of pages and to the free list of
  a page, where a cache gets its first page from, and what \<^verbatim>\<open>krealloc\<close> to a smaller slot overwrites.
\<close>

section \<open>A cache under allocation and free\<close>

lemma chained_cong: "(\<And>p. p \<in> set ps \<Longrightarrow> pg_next m' p = pg_next m p) \<Longrightarrow> chained m' q ps = chained m q ps"
  by (induction ps arbitrary: q) auto

lemma cache_update:
  assumes "cache_state h cls (xs @ (p, o1) # ys)" and "only_page p (kram h) (kram h')"
    and "page_state (kram h') p cls o2" and "pg_next (kram h') p = pg_next (kram h) p"
    and "length (slab_caches h') = length (slab_caches h)" and "c_pages (slab_caches h' ! cls) = c_pages (slab_caches h ! cls)"
  shows "cache_state h' cls (xs @ (p, o2) # ys)"
proof -
  let ?pss = "xs @ (p, o1) # ys"
  have st: "page_state (kram h) q cls offs" if "(q, offs) \<in> set ?pss" for q offs
    using assms(1) that by (auto simp: cache_state_def)
  have ld: "ld k (kram h') q off = ld k (kram h) q off" if "(q, offs) \<in> set ?pss" "q \<noteq> p" "off + k \<le> 4096" for k q off offs
    using other_page_fields [OF assms(2) _ that(2,3)] st [OF that(1)] by (simp add: page_state_def)
  have next_same: "pg_next (kram h') q = pg_next (kram h) q" if q: "q \<in> set (map fst ?pss)" for q
  proof (cases "q = p")
    case False
    obtain offs where "(q, offs) \<in> set ?pss" using q by fastforce
    from ld [OF this False, of 24 8] show ?thesis by (simp add: page_fields)
  qed (simp add: assms(4))
  have "chained (kram h') q (map fst ?pss) = chained (kram h) q (map fst ?pss)" for q
    by (rule chained_cong) (rule next_same)
  moreover have "chained (kram h) (c_pages (slab_caches h' ! cls)) (map fst ?pss)"
    using assms(1) unfolding cache_state_def assms(6) by blast
  ultimately have "chained (kram h') (c_pages (slab_caches h' ! cls)) (map fst ?pss)" by blast
  moreover have "page_state (kram h') q cls offs" if "(q, offs) \<in> set xs \<union> set ys" for q offs
  proof -
    have q: "(q, offs) \<in> set ?pss" "q \<noteq> p" using that assms(1) by (auto simp: cache_state_def image_iff)
    have "ld 8 (kram h') q off = ld 8 (kram h) q off" if "off \<in> set offs" for off
      using ld [OF q] slot_bounds(3) [of cls off] st [OF q(1)] that by (auto simp: page_state_def)
    then have "linked (kram h') q offs = linked (kram h) q offs" by (rule linked_cong)
    then show ?thesis using st [OF q(1)] ld [OF q] by (simp add: page_state_def)
  qed
  ultimately show ?thesis using assms(1,3,5) by (auto simp: cache_state_def)
qed

lemma taken_next: "page_state m p cls (off # offs) \<Longrightarrow> pg_next (taken cls p off m) p = pg_next m p"
  using slot_bounds [of cls off] by (simp add: page_fields taken_def page_state_def ld_fill_other)

lemma given_back_next: "page_state m p cls offs \<Longrightarrow> off \<in> set (slots cls) \<Longrightarrow> pg_next (given_back p off m) p = pg_next m p"
  using slot_bounds [of cls off] by (simp add: page_fields given_back_def page_state_def Let_def)

lemma take_slot_law:
  assumes "page_state (kram h) p cls (off # offs)"
  shows "fst (take_slot cls p (p + of_nat off) h) = p + of_nat off"
    and "kram (snd (take_slot cls p (p + of_nat off) h)) = taken cls p off (kram h)"
    and "length (slab_caches (snd (take_slot cls p (p + of_nat off) h))) = length (slab_caches h)"
    and "cls < length (slab_caches h) \<Longrightarrow>
      c_pages (slab_caches (snd (take_slot cls p (p + of_nat off) h)) ! cls) = c_pages (slab_caches h ! cls)"
    and "c \<noteq> cls \<Longrightarrow> slab_caches (snd (take_slot cls p (p + of_nat off) h)) ! c = slab_caches h ! c"
proof -
  have cls: "cls < SLAB_CLASSES" using assms by (simp add: page_state_def)
  have "unat (of_nat (slot_size cls) :: u64) = slot_size cls"
    using slot_facts(2) [OF cls] by (intro unat_of_nat_small) simp
  moreover have "unat (of_nat (ld 8 (kram h) p off) :: u64) = ld 8 (kram h) p off"
    using ld_8_small by (intro unat_of_nat_small) simp
  ultimately show "kram (snd (take_slot cls p (p + of_nat off) h)) = taken cls p off (kram h)"
    by (simp add: take_slot_def Let_def taken_def mem_memset_def upd_cache_def page_stores slot_stores page_fields slot_size_def)
qed (simp_all add: take_slot_def Let_def mem_memset_def upd_cache_def)

lemma slab_alloc_law:
  assumes "cache_state h cls (xs @ (p, off # offs) # ys)" and "\<forall>(q, o') \<in> set xs. o' = []"
  shows "\<exists>h'. slab_alloc cls h = Some (p + of_nat off, h') \<and> kram h' = taken cls p off (kram h) \<and>
    cache_state h' cls (xs @ (p, offs) # ys) \<and> length (slab_caches h') = length (slab_caches h) \<and>
    (\<forall>c. c \<noteq> cls \<longrightarrow> slab_caches h' ! c = slab_caches h ! c)"
proof -
  have ps: "page_state (kram h) p cls (off # offs)" using assms(1) by (simp add: cache_state_def)
  have st: "page_state (kram h) q cls o'" if "(q, o') \<in> set xs" for q o' using assms(1) that by (auto simp: cache_state_def)
  have "\<forall>(q, o') \<in> set xs. pg_free_count (kram h) q = 0" using assms(2) st by (fastforce simp: page_state_def page_fields)
  moreover have "pg_free_count (kram h) p \<noteq> 0" using ps by (simp add: page_state_def page_fields)
  ultimately have room: "page_with_room (kram h) (c_pages (slab_caches h ! cls)) = Some p"
    using page_with_room_law [of "kram h" _ xs p "off # offs" ys] assms(1) by (simp add: cache_state_def)
  have fl: "pg_freelist (kram h) p = p + of_nat off" using ps by (simp add: page_state_def page_fields first_of_def)
  have cls: "cls < SLAB_CLASSES" and off: "off \<in> set (slots cls)" using ps by (auto simp: page_state_def)
  have high: "LOWEST_KERNEL_ADDRESS \<le> p + of_nat off" and p: "p \<noteq> 0"
    using pointer_not_null [of p off] slot_bounds(3) [OF cls off] ps pointer_not_null [of p 0] by (auto simp: page_state_def)
  have "\<not> p + of_nat off < LOWEST_KERNEL_ADDRESS" using high by (rule leD)
  then have run: "slab_alloc cls h = Some (take_slot cls p (p + of_nat off) h)"
    using p by (simp add: slab_alloc_def room fl Let_def)
  note t = take_slot_law [OF ps]
  let ?h = "snd (take_slot cls p (p + of_nat off) h)"
  have "cache_state ?h cls (xs @ (p, offs) # ys)"
    using cache_update [OF assms(1), of ?h offs] taken_state(1,2) [OF ps] taken_next [OF ps] t(2-4) assms(1)
    by (simp add: cache_state_def)
  then show ?thesis using run t(1,2,3,5) by (intro exI [of _ ?h]) (simp add: prod_eq_iff)
qed

lemma class_of_size: "cls < SLAB_CLASSES \<Longrightarrow> slab_class_for_size (of_nat (slot_size cls)) = Some cls"
  by (drule class_cases, elim insertE emptyE) (simp_all add: slab_class_for_size_def slot_size_def slab_sizes_def)

lemma slab_free_law:
  assumes "cache_state h cls (xs @ (p, offs) # ys)" and "off \<in> set (slots cls)"
  shows "if off \<in> set offs then slab_free (p + of_nat off) h = Some h
    else \<exists>h'. slab_free (p + of_nat off) h = Some h' \<and> kram h' = given_back p off (kram h) \<and>
      cache_state h' cls (xs @ (p, off # offs) # ys)"
proof -
  have ps: "page_state (kram h) p cls offs" using assms(1) by (simp add: cache_state_def)
  have cls: "cls < SLAB_CLASSES" using ps by (simp add: page_state_def)
  have own: "slab_owns (p + of_nat off) h = Some (Some p)" using slab_owns_law [OF assms(1) _ assms(2), of p offs] by simp
  have cnt: "pg_free_count (kram h) p = length offs" "pg_total_count (kram h) p = slot_count cls"
    using ps by (simp_all add: page_state_def page_fields)
  have "slab_ptr_is_free_in_page (kram h) p (p + of_nat off) \<longleftrightarrow> (\<exists>o' \<in> set offs. p + of_nat off = p + of_nat o')"
    unfolding slab_ptr_is_free_in_page_def
    using free_in_page_law [OF ps, of offs "pg_total_count (kram h) p"] ps cnt free_le_total [OF ps]
    by (simp add: page_state_def page_fields)
  also have "\<dots> \<longleftrightarrow> off \<in> set offs"
  proof -
    have "o' < 2 ^ 64" if "o' \<in> set (slots cls)" for o' using slot_bounds(3) [OF cls that] by simp
    then show ?thesis using offset_inj [of off _ p] assms(2) ps by (auto simp: page_state_def)
  qed
  finally have free: "slab_ptr_is_free_in_page (kram h) p (p + of_nat off) \<longleftrightarrow> off \<in> set offs" .
  show ?thesis
  proof (cases "off \<in> set offs")
    case True
    then show ?thesis using own free by (simp add: slab_free_def)
  next
    case False
    have "card (set (off # offs)) \<le> card (set (slots cls))" using assms(2) ps by (intro card_mono) (auto simp: page_state_def)
    then have "length offs < slot_count cls"
      using False ps card_length [of "slots cls"] by (simp add: page_state_def distinct_card slots_def)
    then have run: "slab_free (p + of_nat off) h = Some (put_slot p (p + of_nat off) h)"
      using own free False cnt by (simp add: slab_free_def)
    note g = given_back_state [OF ps assms(2) False]
    have size: "pg_obj_size (given_back p off (kram h)) p = slot_size cls" using g(1) by (simp add: page_state_def page_fields)
    have gb: "set_free_count p (pg_free_count m2 p + 1) m2 = given_back p off (kram h)"
      if "m2 = set_freelist p (p + of_nat off) (store_ptr (pg_freelist (kram h) p) (p + of_nat off) (kram h))" for m2
      unfolding that using ld_8_small [of "kram h" p 32]
      by (simp add: given_back_def Let_def page_stores page_fields slot_stores unat_of_nat)
    have put: "put_slot p (p + of_nat off) h =
        (upd_cache cls (\<lambda>c. c\<lparr>c_frees := c_frees c + 1\<rparr>) (h\<lparr>kram := given_back p off (kram h)\<rparr>))\<lparr>slab_total_frees := slab_total_frees h + 1\<rparr>"
      using size class_of_size [OF cls] gb by (simp add: put_slot_def Let_def)
    have "cache_state (put_slot p (p + of_nat off) h) cls (xs @ (p, off # offs) # ys)"
      using cache_update [OF assms(1), of "put_slot p (p + of_nat off) h" "off # offs"] g given_back_next [OF ps assms(2)] assms(1)
      by (simp add: put upd_cache_def cache_state_def)
    then show ?thesis using run False by (simp add: put upd_cache_def)
  qed
qed

text \<open>C26 (slab_alloc_free): an allocation hands out the first free slot of the first page that has one, all zero; a free gives the
  page and its list of free slots back as they were, and a second free of the slot does nothing;
  no byte outside the page changes.\<close>

theorem slab_alloc_free:
  assumes "cache_state h cls (xs @ (p, off # offs) # ys)" and "list_all (\<lambda>x. snd x = []) xs"
  shows "\<exists>h1 h2. slab_alloc cls h = Some (p + of_nat off, h1) \<and> cache_state h1 cls (xs @ (p, offs) # ys) \<and>
    list_all (\<lambda>i. kram h1 (p + of_nat off + of_nat i) = 0) [0..<slot_size cls] \<and> only_page p (kram h) (kram h1) \<and>
    slab_free (p + of_nat off) h1 = Some h2 \<and> cache_state h2 cls (xs @ (p, off # offs) # ys) \<and> only_page p (kram h) (kram h2) \<and>
    slab_free (p + of_nat off) h2 = Some h2"
proof -
  have ps: "page_state (kram h) p cls (off # offs)" using assms(1) by (simp add: cache_state_def)
  have full: "\<forall>(q, o') \<in> set xs. o' = []" using assms(2) by (auto simp: list_all_iff)
  obtain h1 where h1: "slab_alloc cls h = Some (p + of_nat off, h1)" "kram h1 = taken cls p off (kram h)"
    "cache_state h1 cls (xs @ (p, offs) # ys)" using slab_alloc_law [OF assms(1) full] by blast
  have off: "off \<in> set (slots cls)" "off \<notin> set offs" using ps by (auto simp: page_state_def)
  obtain h2 where h2: "slab_free (p + of_nat off) h1 = Some h2" "kram h2 = given_back p off (kram h1)"
    "cache_state h2 cls (xs @ (p, off # offs) # ys)" using slab_free_law [OF h1(3) off(1)] off(2) by auto
  have "slab_free (p + of_nat off) h2 = Some h2" using slab_free_law [OF h2(3) off(1)] by simp
  moreover have "page_state (kram h1) p cls offs" using h1(3) by (simp add: cache_state_def)
  then have "only_page p (kram h1) (kram h2)" using given_back_state(2) [OF _ off] h2(2) by simp
  moreover have "only_page p (kram h) (kram h1)" using taken_state(2) [OF ps] h1(2) by simp
  moreover have "list_all (\<lambda>i. kram h1 (p + of_nat off + of_nat i) = 0) [0..<slot_size cls]"
    using taken_state(3) [OF ps] h1(2) by (simp add: list_all_iff)
  ultimately show ?thesis using h1 h2 only_page_trans by blast
qed

section \<open>New pages\<close>

definition slot_at :: "nat \<Rightarrow> nat \<Rightarrow> nat" where
  "slot_at cls k = slot_start cls + k * slot_size cls"

lemma slots_alt: "slots cls = map (slot_at cls) [0..<slot_count cls]"
  by (simp add: slots_def slot_at_def)

lemma slot_at_bounds:
  assumes "cls < SLAB_CLASSES" and "k < slot_count cls"
  shows "40 \<le> slot_at cls k" and "slot_at cls k + 8 \<le> 4096" and "j < k \<Longrightarrow> slot_at cls j + 8 \<le> slot_at cls k"
proof -
  have m: "slot_at cls i \<in> set (slots cls)" if "i \<le> k" for i using that assms(2) by (simp add: slots_alt)
  show "40 \<le> slot_at cls k" "slot_at cls k + 8 \<le> 4096" using slot_bounds(1,3) [OF assms(1) m [OF order_refl]] by simp_all
  assume "j < k"
  then have "slot_at cls j < slot_at cls k" using slot_facts(1) [OF assms(1)] by (simp add: slot_at_def)
  then show "slot_at cls j + 8 \<le> slot_at cls k"
    using slots_apart [OF m m, of j k] \<open>j < k\<close> slot_facts(1) [OF assms(1)] by simp
qed

lemma linked_map:
  "(\<And>j. a \<le> j \<Longrightarrow> j < n \<Longrightarrow> ld 8 m p (f j) = unat (if j + 1 < n then p + of_nat (f (j + 1)) else 0)) \<Longrightarrow> linked m p (map f [a..<n])"
proof (induction "n - a" arbitrary: a)
  case (Suc d)
  then have "a < n" by simp
  moreover have "linked m p (map f [a + 1..<n])" using Suc.hyps(2) by (intro Suc.hyps(1) Suc.prems) simp_all
  moreover have "first_of p (map f [a + 1..<n]) = (if a + 1 < n then p + of_nat (f (a + 1)) else 0)"
    by (simp add: first_of_def upt_conv_Cons)
  ultimately show ?case using Suc.prems [of a] by (simp add: upt_conv_Cons)
qed simp

lemma link_slots_law:
  fixes p :: u64 and m :: "u64 \<Rightarrow> u8"
  assumes "cls < SLAB_CLASSES"
  defines "r \<equiv> link_slots (p + of_nat (slot_start cls)) (slot_size cls) (slot_count cls) m"
  shows "q + k \<le> 40 \<Longrightarrow> ld k r p q = ld k m p q" and "linked r p (slots cls)"
proof -
  let ?n = "slot_count cls" and ?s = "slot_at cls"
  have n: "0 < ?n" using slot_facts(5) [OF assms(1)] .
  have at: "p + of_nat (slot_start cls) + of_nat (k * slot_size cls) = p + of_nat (?s k)" for k
    by (simp add: slot_at_def add.assoc)
  let ?body = "\<lambda>k. st 8 (unat (p + of_nat (?s (k + 1)))) p (?s k)"
  let ?l = "for_up 0 (?n - 1) ?body m"
  have r: "r = st 8 0 p (?s (?n - 1)) ?l"
    unfolding r_def link_slots_def at slot_stores by simp
  have law: "(\<forall>k q. q + k \<le> 40 \<longrightarrow> ld k ?l p q = ld k m p q) \<and>
    (\<forall>j < ?n - 1. ld 8 ?l p (?s j) = unat (p + of_nat (?s (j + 1))))"
  proof (rule for_up_inv [where P = "\<lambda>i t. (\<forall>k q. q + k \<le> 40 \<longrightarrow> ld k t p q = ld k m p q) \<and>
      (\<forall>j < i. ld 8 t p (?s j) = unat (p + of_nat (?s (j + 1))))"], goal_cases)
    case (2 i t)
    then have i: "i < ?n" by simp
    note b = slot_at_bounds [OF assms(1) i]
    have "ld 8 (?body i t) p (?s j) = unat (p + of_nat (?s (j + 1)))" if j: "j < Suc i" for j
    proof (cases "j = i")
      case True
      then show ?thesis using unat_less_2p [of "p + of_nat (?s (i + 1))"] by simp
    next
      case False
      then have "j < i" using j by simp
      then show ?thesis using 2 b(2) b(3) [OF \<open>j < i\<close>] by simp
    qed
    moreover have "ld k (?body i t) p q = ld k m p q" if "q + k \<le> 40" for k q
      using that 2 b by auto
    ultimately show ?case by blast
  qed auto
  have last: "?n - 1 < ?n" using n by simp
  note b = slot_at_bounds [OF assms(1) last]
  show "q + k \<le> 40 \<Longrightarrow> ld k r p q = ld k m p q" unfolding r using law b by auto
  show "linked r p (slots cls)"
    unfolding slots_alt
  proof (rule linked_map)
    fix j assume j: "j < ?n"
    show "ld 8 r p (?s j) = unat (if j + 1 < ?n then p + of_nat (?s (j + 1)) else 0)"
    proof (cases "j + 1 < ?n")
      case True
      then have jn: "j < ?n - 1" by simp
      then have "ld 8 r p (?s j) = ld 8 ?l p (?s j)" unfolding r using b(2) b(3) [OF jn] by (intro ld_st_other) auto
      then show ?thesis using law jn True by simp
    next
      case False
      then have "j = ?n - 1" using j by simp
      then show ?thesis unfolding r using False by simp
    qed
  qed
qed

lemma write_header_law:
  fixes p :: u64 and m :: "u64 \<Rightarrow> u8"
  assumes "cls < SLAB_CLASSES"
  defines "w \<equiv> write_header p (slot_size cls) (slot_count cls) (slot_start cls) cls m"
  shows "ld 4 w p 0 = SLAB_PAGE_MAGIC" and "ld 4 w p 4 = SLAB_PAGE_MAGIC_INV" and "ld 2 w p 8 = slot_size cls"
    and "ld 2 w p 10 = slot_count cls" and "ld 2 w p 12 = slot_count cls" and "ld 2 w p 14 = slot_start cls"
    and "ld 2 w p 16 = cls" and "ld 8 w p 24 = 0"
proof -
  note f = slot_facts [OF assms(1)]
  have c: "cls < 256 ^ 2" using assms(1) by (simp add: SLAB_CLASSES_def)
  have w: "w = st 8 0 p 24 (st 2 0 p 18 (st 2 cls p 16 (st 2 (slot_start cls) p 14 (st 2 (slot_count cls) p 12 (st 2 (slot_count cls) p 10
      (st 2 (slot_size cls) p 8 (st 4 SLAB_PAGE_MAGIC_INV p 4 (st 4 SLAB_PAGE_MAGIC p 0 m))))))))"
    by (simp add: w_def write_header_def page_stores st_def)
  show "ld 4 w p 0 = SLAB_PAGE_MAGIC" and "ld 4 w p 4 = SLAB_PAGE_MAGIC_INV" and "ld 2 w p 8 = slot_size cls"
    and "ld 2 w p 10 = slot_count cls" and "ld 2 w p 12 = slot_count cls" and "ld 2 w p 14 = slot_start cls"
    and "ld 2 w p 16 = cls" and "ld 8 w p 24 = 0"
    unfolding w using f c by (simp_all add: SLAB_PAGE_MAGIC_def SLAB_PAGE_MAGIC_INV_def)
qed

definition new_page_ram :: "u64 \<Rightarrow> nat \<Rightarrow> (u64 \<Rightarrow> u8) \<Rightarrow> (u64 \<Rightarrow> u8)" where
  "new_page_ram p cls m =
     set_freelist p (p + of_nat (slot_start cls)) (link_slots (p + of_nat (slot_start cls)) (slot_size cls) (slot_count cls)
       (write_header p (slot_size cls) (slot_count cls) (slot_start cls) cls m))"

lemma new_page_state:
  assumes "cls < SLAB_CLASSES" and "p AND NOT 4095 = p" and "LOWEST_KERNEL_ADDRESS \<le> p"
  shows "page_state (new_page_ram p cls m) p cls (slots cls)"
proof -
  let ?w = "write_header p (slot_size cls) (slot_count cls) (slot_start cls) cls m"
  let ?l = "link_slots (p + of_nat (slot_start cls)) (slot_size cls) (slot_count cls) ?w"
  let ?r = "new_page_ram p cls m"
  note w = write_header_law [OF assms(1), of p m]
  have r: "?r = st 8 (unat (p + of_nat (slot_start cls))) p 32 ?l" by (simp add: new_page_ram_def page_stores)
  have head: "ld k ?r p q = ld k ?w p q" if "q + k \<le> 32" for k q
    unfolding r using that link_slots_law(1) [OF assms(1), of q k] by simp
  have "ld 8 ?r p off = ld 8 ?l p off" if "off \<in> set (slots cls)" for off
    unfolding r using slot_bounds(1,3) [OF assms(1) that] by simp
  then have "linked ?r p (slots cls) = linked ?l p (slots cls)" by (rule linked_cong)
  moreover have "linked ?l p (slots cls)" by (rule link_slots_law(2) [OF assms(1)])
  moreover have "first_of p (slots cls) = p + of_nat (slot_start cls)"
    using slot_facts(5) [OF assms(1)] by (simp add: first_of_def slots_alt upt_conv_Cons slot_at_def)
  then have "ld 8 ?r p 32 = unat (first_of p (slots cls))" unfolding r using unat_less_2p [of "first_of p (slots cls)"] by simp
  ultimately show ?thesis
    using assms w slots_distinct [OF assms(1)] by (simp add: page_state_def head) (simp add: slots_alt)
qed

text \<open>The first object of a cache: a page from the block list, and its first slot.\<close>

lemma slab_new_page_law:
  assumes "heap_ok h" and "roomy h" and "cls < SLAB_CLASSES" and "list_all (\<lambda>b. LOWEST_KERNEL_ADDRESS \<le> b_addr b) (blocks h)"
    and "list_ex (has_room 4096 12) (blocks h)"
  shows "\<exists>p h'. slab_new_page cls h = Some (p, h') \<and> page_state (kram h') p cls (slots cls) \<and> p \<noteq> 0 \<and>
    heap_ok h' \<and> areas h' = insert (unat p, 4096) (areas h) \<and> slab_caches h' = slab_caches h"
proof -
  have r: "unat (4096 :: u64) = 4096" "round8 4096 = 4096" "(2 :: u64) ^ 12 = 4096" "(4096 :: u64) \<noteq> 0" by (simp_all add: round8_def)
  have ok: "sized h" "in_order (blocks h)" using assms(1) by (simp_all add: heap_ok_def)
  obtain b where b: "b \<in> set (blocks h)" "has_room 4096 12 b" using assms(5) by (auto simp: list_ex_iff)
  have "proper b" using ok(2) b(1) by (simp add: in_order_def)
  then have "fits (round8 4096) 4096 b" using fits_iff(1) [of b 12 4096] b(2) r by simp
  then have "\<exists>b \<in> set (blocks h). fits (round8 4096) 4096 b" using b(1) by blast
  then obtain p h1 i where k: "kmalloc_locked 4096 4096 h = Some (p, h1)" "i < block_count h" "fits (round8 4096) (2 ^ 12) (blocks h ! i)"
    "allocated_at (round8 4096) (2 ^ 12) i h p h1"
    using kmalloc_law [OF ok(1) assms(2) r(4), of 4096] r(3) by auto
  have n: "unat (round8 4096) < 2 ^ 62" "0 < unat (round8 4096)" using r by simp_all
  note keep = allocated_at_keeps [OF assms(1) k(2,3) _ n k(4)]
  have "blocks h ! i \<in> set (blocks h)" using k(2) ok(1) by simp
  then have "LOWEST_KERNEL_ADDRESS \<le> b_addr (blocks h ! i)" using assms(4) by (simp add: list_all_iff)
  then have p: "LOWEST_KERNEL_ADDRESS \<le> p" using keep by (auto simp: inside_def)
  have "unat p mod 4096 = 0" using keep by simp
  then have "unat (p AND NOT 4095) = unat p" using unat_and_not_mask [of p 12] by (simp add: mask_4095)
  then have al: "p AND NOT 4095 = p" by (simp add: word_unat_eq_iff)
  let ?h = "h1\<lparr>kram := new_page_ram p cls (kram h1)\<rparr>"
  have "slot_start cls < 4096" "0 < slot_count cls" using slot_facts(4,5) [OF assms(3)] .
  then have "slab_new_page cls h = Some (p, ?h)"
    using k(1) keep by (simp add: slab_new_page_def PAGE_SIZE_def Let_def new_page_ram_def slot_size_def slot_start_def slot_count_def)
  moreover have "page_state (kram ?h) p cls (slots cls)" using new_page_state [OF assms(3) al p] by simp
  moreover have "heap_ok ?h" "areas ?h = areas h1" using keep by (simp_all add: heap_ok_def blocks_def sized_def areas_def)
  moreover have "slab_caches ?h = slab_caches h" using k(4) by (simp add: allocated_at_def)
  ultimately show ?thesis using keep r(1,2) by auto
qed

lemma slab_first_law:
  assumes "heap_ok h" and "roomy h" and "cls < SLAB_CLASSES" and "list_all (\<lambda>b. LOWEST_KERNEL_ADDRESS \<le> b_addr b) (blocks h)"
    and "list_ex (has_room 4096 12) (blocks h)" and "length (slab_caches h) = SLAB_CLASSES" and "c_pages (slab_caches h ! cls) = 0"
  shows "\<exists>p h'. slab_alloc cls h = Some (p + of_nat (hd (slots cls)), h') \<and> cache_state h' cls [(p, tl (slots cls))] \<and>
    heap_ok h' \<and> areas h' = insert (unat p, 4096) (areas h)"
proof -
  obtain p h1 where n: "slab_new_page cls h = Some (p, h1)" "page_state (kram h1) p cls (slots cls)" "p \<noteq> 0"
    "heap_ok h1" "areas h1 = insert (unat p, 4096) (areas h)" "slab_caches h1 = slab_caches h"
    using slab_new_page_law [OF assms(1-5)] by blast
  let ?h = "upd_cache cls (\<lambda>c. c\<lparr>c_pages := p\<rparr>) (upd_ram (set_next p (c_pages (slab_caches h1 ! cls))) h1)"
  have add: "add_page cls h = Some (p, ?h)" using n(1,3) by (simp add: add_page_def)
  have k: "kram ?h = st 8 0 p 24 (kram h1)" using n(6) assms(7) by (simp add: upd_cache_def page_stores)
  have len: "cls < length (slab_caches h)" using assms(3,6) by simp
  have "ld 8 (kram ?h) p off = ld 8 (kram h1) p off" if "off \<in> set (slots cls)" for off
    unfolding k using slot_bounds [OF assms(3) that] by simp
  then have "linked (kram ?h) p (slots cls) = linked (kram h1) p (slots cls)" by (rule linked_cong)
  then have ps: "page_state (kram ?h) p cls (slots cls)" using n(2) by (simp add: page_state_def k)
  have "pg_next (kram ?h) p = 0" by (simp add: k page_fields)
  moreover have "c_pages (slab_caches ?h ! cls) = p" "length (slab_caches ?h) = length (slab_caches h)"
    using n(6) len by (simp_all add: upd_cache_def)
  ultimately have cs: "cache_state ?h cls [(p, slots cls)]" using ps n(3) len by (simp add: cache_state_def)
  have sl: "slots cls = hd (slots cls) # tl (slots cls)" using slot_facts(5) [OF assms(3)] by (simp add: slots_alt)
  have fl: "pg_freelist (kram ?h) p = p + of_nat (hd (slots cls))"
    using ps sl by (simp add: page_state_def page_fields first_of_def) (metis list.case(2))
  have "hd (slots cls) \<in> set (slots cls)" using sl by (metis list.set_intros(1))
  then have "hd (slots cls) < 4096" using slot_bounds(3) [OF assms(3)] by fastforce
  moreover have "LOWEST_KERNEL_ADDRESS \<le> p" "p AND NOT 4095 = p" using n(2) by (simp_all add: page_state_def)
  ultimately have "LOWEST_KERNEL_ADDRESS \<le> p + of_nat (hd (slots cls))" using pointer_not_null by blast
  then have "\<not> pg_freelist (kram ?h) p < LOWEST_KERNEL_ADDRESS" unfolding fl by (rule leD)
  moreover have "page_with_room (kram h) 0 = Some 0" by (simp add: page_with_room.simps)
  ultimately have run: "slab_alloc cls h = Some (take_slot cls p (p + of_nat (hd (slots cls))) ?h)"
    using add n(3) fl assms(7) by (simp add: slab_alloc_def Let_def)
  have ps': "page_state (kram ?h) p cls (hd (slots cls) # tl (slots cls))" using ps sl by simp
  let ?g = "snd (take_slot cls p (p + of_nat (hd (slots cls))) ?h)"
  note t = take_slot_law [OF ps']
  have "cache_state ?h cls ([] @ (p, hd (slots cls) # tl (slots cls)) # [])" using cs sl by simp
  from cache_update [OF this, of ?g "tl (slots cls)"] have "cache_state ?g cls [(p, tl (slots cls))]"
    using taken_state(1,2) [OF ps'] taken_next [OF ps'] t(2-4) len by (simp add: n(6) upd_cache_def)
  moreover have "heap_ok ?g" "areas ?g = areas h1"
    using n(4) by (simp_all add: take_slot_def Let_def mem_memset_def upd_cache_def heap_ok_def blocks_def sized_def areas_def)
  ultimately show ?thesis using run t(1) n(5) by (metis prod.collapse)
qed

text \<open>The fact \<open>slab_first_object\<close>: on a cache without pages an allocation takes a page of the block list, apart from every area in
  use, sets up the chain of all its slots and hands out the first.\<close>

theorem slab_first_object:
  assumes "heap_ok h" and "roomy h" and "cls < SLAB_CLASSES" and "list_all (\<lambda>b. LOWEST_KERNEL_ADDRESS \<le> b_addr b) (blocks h)"
    and "list_ex (has_room 4096 12) (blocks h)" and "length (slab_caches h) = SLAB_CLASSES" and "c_pages (slab_caches h ! cls) = 0"
  shows "\<exists>p h'. slab_alloc cls h = Some (p + of_nat (hd (slots cls)), h') \<and> cache_state h' cls [(p, tl (slots cls))] \<and>
    heap_ok h' \<and> areas h' = insert (unat p, 4096) (areas h)"
  by (rule slab_first_law [OF assms])

lemma demo_slab:
  "list_all (\<lambda>b. LOWEST_KERNEL_ADDRESS \<le> b_addr b) (blocks demo_heap)" "list_ex (has_room 4096 12) (blocks demo_heap)"
  "length (slab_caches demo_heap) = SLAB_CLASSES" "c_pages (slab_caches demo_heap ! 1) = 0"
proof -
  let ?b = "free_block 0xFFFF800000100010 0x10000"
  have b: "unat (b_addr ?b) = 0xFFFF800000100010" "b_end ?b = 0xFFFF800000110010" "\<not> b_allocated ?b"
    by (simp_all add: free_block_def b_end_def)
  have "(0xFFFF800000101000 :: nat) = 2 ^ 12 * 0xFFFF800000101" by simp
  then have "2 ^ 12 dvd (0xFFFF800000101000 :: nat)" by (rule dvdI)
  then have "has_room 4096 12 ?b"
    unfolding has_room_def b using b(3) by (intro conjI exI [of _ "0xFFFF800000101000"]) linarith+
  then show "list_ex (has_room 4096 12) (blocks demo_heap)" by (simp add: demo_blocks)
  show "list_all (\<lambda>b. LOWEST_KERNEL_ADDRESS \<le> b_addr b) (blocks demo_heap)"
    by (simp add: demo_blocks free_block_def LOWEST_KERNEL_ADDRESS_def)
  show "length (slab_caches demo_heap) = SLAB_CLASSES" "c_pages (slab_caches demo_heap ! 1) = 0"
    by (simp_all add: demo_heap_def SLAB_CLASSES_def eval_nat_numeral)
qed

lemma demo_first_slots: "slots 1 = 48 # 64 # map (\<lambda>k. 48 + k * 16) [2..<slot_count 1]"
proof -
  have one: "slot_size 1 = 16" "slot_start 1 = 48" "2 \<le> slot_count 1"
    by (simp_all add: slot_size_def slot_start_def slot_count_def slab_sizes_def first_slot_def SIZEOF_SlabPage_def PAGE_SIZE_def)
  have "[0..<n] = 0 # 1 # [2..<n]" if "2 \<le> n" for n using that by (simp add: upt_conv_Cons numeral_2_eq_2)
  from this [OF one(3)] show ?thesis by (simp only: slots_def one) simp
qed

lemma demo_slab_run: "\<exists>p h'. cache_state h' 1 [(p, tl (slots 1))]"
  using slab_first_law [OF demo_heap_ok(1,2) _ demo_slab] by (auto simp: SLAB_CLASSES_def)

theorem slab_first_object_witness:
  "\<exists>p h'. slab_alloc 1 demo_heap = Some (p + 48, h') \<and> cache_state h' 1 [(p, tl (slots 1))] \<and> areas h' = {(unat p, 4096)}"
proof -
  have empty: "areas demo_heap = {}" by (simp add: areas_def demo_blocks free_block_def)
  have cls: "1 < SLAB_CLASSES" by (simp add: SLAB_CLASSES_def)
  have hd: "(of_nat (hd (slots 1)) :: u64) = 48" by (simp only: demo_first_slots list.sel of_nat_numeral)
  show ?thesis
    using slab_first_object [OF demo_heap_ok(1,2) cls demo_slab] unfolding hd empty by blast
qed

theorem slab_alloc_free_witness:
  "\<exists>p h h1 h2. slab_alloc 1 h = Some (p + 64, h1) \<and> slab_free (p + 64) h1 = Some h2 \<and> slab_free (p + 64) h2 = Some h2 \<and>
     cache_state h2 1 [(p, tl (slots 1))]"
proof -
  have tl: "tl (slots 1) = 64 # map (\<lambda>k. 48 + k * 16) [2..<slot_count 1]" by (simp only: demo_first_slots list.sel)
  obtain p h where "cache_state h 1 [(p, tl (slots 1))]" using demo_slab_run by blast
  then have "cache_state h 1 ([] @ (p, 64 # map (\<lambda>k. 48 + k * 16) [2..<slot_count 1]) # [])" by (simp only: tl append_Nil)
  from slab_alloc_free [OF this] obtain h1 h2 where
    "slab_alloc 1 h = Some (p + 64, h1)" "slab_free (p + 64) h1 = Some h2" "slab_free (p + 64) h2 = Some h2"
    "cache_state h2 1 [(p, tl (slots 1))]" unfolding tl by auto
  then show ?thesis by blast
qed

section \<open>Moving to a smaller slot\<close>

lemma ram_copy_down_other: "(\<And>j. j < n \<Longrightarrow> a \<noteq> d + of_nat j) \<Longrightarrow> ram_copy_down (d + of_nat n) (s + of_nat n) n m a = m a"
proof (induction n arbitrary: m)
  case (Suc n)
  have "a \<noteq> d + of_nat n" using Suc.prems [of n] by simp
  then show ?case using Suc by simp
qed simp

lemma ram_copy_down_at:
  "i < n \<Longrightarrow> n \<le> 2 ^ 63 \<Longrightarrow> (\<And>j k. j < n \<Longrightarrow> k < n \<Longrightarrow> s + of_nat j \<noteq> d + of_nat k) \<Longrightarrow>
   ram_copy_down (d + of_nat n) (s + of_nat n) n m (d + of_nat i) = m (s + of_nat i)"
proof (induction n arbitrary: m)
  case (Suc n)
  let ?m = "m(d + of_nat n := m (s + of_nat n))"
  have step: "ram_copy_down (d + of_nat (Suc n)) (s + of_nat (Suc n)) (Suc n) m = ram_copy_down (d + of_nat n) (s + of_nat n) n ?m"
    by simp
  show ?case
  proof (cases "i = n")
    case True
    have "d + of_nat n \<noteq> d + of_nat j" if "j < n" for j using offset_inj [of n j d] that Suc.prems(2) by simp
    then show ?thesis unfolding step using ram_copy_down_other [of n "d + of_nat n" d s ?m] True by simp
  next
    case False
    have "s + of_nat i \<noteq> d + of_nat n" using Suc.prems(1,3) by simp
    moreover have "ram_copy_down (d + of_nat n) (s + of_nat n) n ?m (d + of_nat i) = ?m (s + of_nat i)"
      by (rule Suc.IH) (use Suc.prems False in auto)
    ultimately show ?thesis unfolding step by simp
  qed
qed simp

lemma memmove_at:
  assumes "unat len \<le> 4096" and "i < unat len"
    and "\<And>j k. j < unat len \<Longrightarrow> k < unat len \<Longrightarrow> s + of_nat j \<noteq> d + of_nat k"
  shows "kram (mem_memmove d s len h) (d + of_nat i) = kram h (s + of_nat i)"
proof -
  have "of_nat (unat len) = len" by simp
  then show ?thesis
    using ram_copy_at [of i "unat len" s d "kram h"] ram_copy_down_at [of i "unat len" s d "kram h"] assms
    by (simp add: mem_memmove_def)
qed

lemma memmove_other:
  assumes "\<And>j. j < unat len \<Longrightarrow> a \<noteq> d + of_nat j"
  shows "kram (mem_memmove d s len h) a = kram h a"
proof -
  have "of_nat (unat len) = len" by simp
  then show ?thesis
    using ram_copy_frame [of "unat len" a d s "kram h"] ram_copy_down_other [of "unat len" a d s "kram h"] assms
    by (simp add: mem_memmove_def)
qed

text \<open>What only changes a page of another class leaves a cache as it is.\<close>

lemma cache_other:
  assumes "cache_state h cls pss" and "only_page q (kram h) (kram h')" and "q \<notin> set (map fst pss)"
    and "length (slab_caches h') = length (slab_caches h)" and "c_pages (slab_caches h' ! cls) = c_pages (slab_caches h ! cls)"
  shows "cache_state h' cls pss"
proof -
  have st: "page_state (kram h) p cls offs" if "(p, offs) \<in> set pss" for p offs
    using assms(1) that by (auto simp: cache_state_def)
  have ld: "ld k (kram h') p off = ld k (kram h) p off" if m: "(p, offs) \<in> set pss" and b: "off + k \<le> 4096" for k p off offs
  proof -
    have "p \<noteq> q" using m assms(3) by force
    then show ?thesis using other_page_fields [OF assms(2) _ _ b] st [OF m] by (simp add: page_state_def)
  qed
  have next_same: "pg_next (kram h') p = pg_next (kram h) p" if p: "p \<in> set (map fst pss)" for p
  proof -
    obtain offs where "(p, offs) \<in> set pss" using p by fastforce
    from ld [OF this, of 24 8] show ?thesis by (simp add: page_fields)
  qed
  have "chained (kram h') x (map fst pss) = chained (kram h) x (map fst pss)" for x
    by (rule chained_cong) (rule next_same)
  moreover have "chained (kram h) (c_pages (slab_caches h' ! cls)) (map fst pss)"
    using assms(1) unfolding cache_state_def assms(5) by blast
  moreover have "page_state (kram h') p cls offs" if m: "(p, offs) \<in> set pss" for p offs
  proof -
    have "ld 8 (kram h') p off = ld 8 (kram h) p off" if "off \<in> set offs" for off
      using ld [OF m] slot_bounds(3) [of cls off] st [OF m] that by (auto simp: page_state_def)
    then have "linked (kram h') p offs = linked (kram h) p offs" by (rule linked_cong)
    then show ?thesis using st [OF m] ld [OF m] by (simp add: page_state_def)
  qed
  ultimately show ?thesis using assms(1,4) by (auto simp: cache_state_def)
qed

lemma class_le: "slab_class_for_size n = Some c \<Longrightarrow> c < SLAB_CLASSES \<and> n \<le> of_nat (slot_size c)"
proof -
  assume "slab_class_for_size n = Some c"
  then have f: "find_index (\<lambda>s. n \<le> of_nat s) slab_sizes = Some c" by (simp add: slab_class_for_size_def)
  have "length slab_sizes = SLAB_CLASSES" by (simp add: slab_sizes_def SLAB_CLASSES_def)
  then show ?thesis using find_index_SomeD [OF f] by (simp add: slot_size_def)
qed

lemma slot_size_word: "cls < SLAB_CLASSES \<Longrightarrow> unat (of_nat (slot_size cls) :: u64) = slot_size cls"
  using slot_facts(2) [of cls] by (intro unat_of_nat_small) simp

text \<open>C38 (krealloc_shrink_overflows): moving an object to a smaller slot copies all bytes of the larger one: behind the new
  slot the bytes of the slots that follow, free or in use, are overwritten.\<close>

theorem krealloc_shrink_overflows:
  assumes "cache_state h c1 pss" and "(p1, offs1) \<in> set pss" and "off1 \<in> set (slots c1)" and "off1 \<notin> set offs1"
    and "cache_state h c2 (xs @ (p2, off2 # offs2) # ys)" and "list_all (\<lambda>x. snd x = []) xs"
    and "n \<noteq> 0" and "slab_class_for_size (round8 n) = Some c2" and "slot_size c2 < slot_size c1"
    and "off2 + slot_size c1 \<le> 4096"
  shows "\<exists>h'. krealloc (p1 + of_nat off1) n h = Some (p2 + of_nat off2, h') \<and>
    (\<forall>k < slot_size c1. kram h' (p2 + of_nat (off2 + k)) = kram h (p1 + of_nat (off1 + k)))"
proof -
  let ?ptr = "p1 + of_nat off1" and ?np = "p2 + of_nat off2" and ?S = "slot_size c1"
  have ps1: "page_state (kram h) p1 c1 offs1" using assms(1,2) by (auto simp: cache_state_def)
  have ps2: "page_state (kram h) p2 c2 (off2 # offs2)" using assms(5) by (auto simp: cache_state_def)
  have c1: "c1 < SLAB_CLASSES" and c2: "c2 < SLAB_CLASSES" and off2: "off2 \<in> set (slots c2)"
    using ps1 ps2 by (simp_all add: page_state_def)
  have pa: "p1 AND NOT 4095 = p1" "p2 AND NOT 4095 = p2" using ps1 ps2 by (simp_all add: page_state_def)
  have apart: "p2 \<notin> set (map fst pss)"
  proof
    assume "p2 \<in> set (map fst pss)"
    then obtain o' where "(p2, o') \<in> set pss" by fastforce
    then have "page_state (kram h) p2 c1 o'" using assms(1) by (auto simp: cache_state_def)
    then have "c1 = c2" using ps2 by (simp add: page_state_def)
    then show False using assms(9) by simp
  qed
  have "p1 \<in> set (map fst pss)" using assms(2) by force
  then have p12: "p1 \<noteq> p2" using apart by metis
  have b1: "off1 + ?S \<le> 4096" using slot_bounds(2) [OF c1 assms(3)] .
  have S: "unat (of_nat ?S :: u64) = ?S" using slot_size_word [OF c1] .
  have own: "slab_owns ?ptr h = Some (Some p1)" by (rule slab_owns_law [OF assms(1-3)])
  have obj: "pg_obj_size (kram h) p1 = ?S" using ps1 by (simp add: page_state_def page_fields)
  have "unat (round8 n) \<le> slot_size c2" using class_le [OF assms(8)] slot_size_word [OF c2] by (simp add: word_le_nat_alt)
  then have less: "round8 n < of_nat ?S" using assms(9) S by (simp add: word_less_nat_alt)
  have nz: "(of_nat ?S :: u64) \<noteq> 0" using less by (metis word_not_simps(1))
  have ne: "?ptr \<noteq> 0" using slot_belongs(2) [OF ps1 assms(3)] .
  have np: "?np \<noteq> 0" using slot_belongs(2) [OF ps2 off2] .
  have full: "\<forall>(q, o') \<in> set xs. o' = []" using assms(6) by (auto simp: list_all_iff)
  obtain h1 where h1: "slab_alloc c2 h = Some (?np, h1)" "kram h1 = taken c2 p2 off2 (kram h)"
    "length (slab_caches h1) = length (slab_caches h)" "slab_caches h1 ! c1 = slab_caches h ! c1"
    using slab_alloc_law [OF assms(5) full] assms(9) by force
  let ?h2 = "mem_memmove ?np ?ptr (of_nat ?S) h1"
  have only1: "only_page p2 (kram h) (kram h1)" using taken_state(2) [OF ps2] h1(2) by simp
  have in2: "(?np + of_nat j) AND NOT 4095 = p2" if "j < ?S" for j
    using page_of [OF pa(2), of "off2 + j"] that assms(10) by (simp add: add.assoc)
  have in1: "(?ptr + of_nat j) AND NOT 4095 = p1" if "j < ?S" for j
    using page_of [OF pa(1), of "off1 + j"] that b1 by (simp add: add.assoc)
  have sep: "?ptr + of_nat j \<noteq> ?np + of_nat k" if "j < ?S" "k < ?S" for j k using in1 [OF that(1)] in2 [OF that(2)] p12 by metis
  have only2: "only_page p2 (kram h1) (kram ?h2)"
    unfolding only_page_def
  proof (intro allI impI)
    fix a assume "a AND NOT 4095 \<noteq> p2"
    then show "kram ?h2 a = kram h1 a" using in2 S by (intro memmove_other) auto
  qed
  have "cache_state ?h2 c1 pss"
    by (rule cache_other [OF assms(1) only_page_trans [OF only1 only2] apart]) (simp_all add: mem_memmove_def h1)
  moreover obtain zs ws where "pss = zs @ (p1, offs1) # ws" using split_list [OF assms(2)] by blast
  ultimately obtain h' where h': "slab_free ?ptr ?h2 = Some h'" "kram h' = given_back p1 off1 (kram ?h2)"
    and own2: "slab_owns ?ptr ?h2 = Some (Some p1)"
    using slab_free_law [of ?h2 c1 zs p1 offs1 ws off1] slab_owns_law [of ?h2 c1 pss p1 offs1 off1] assms(2,3,4) by auto
  have "move_object ?ptr (of_nat ?S) (round8 n) h = Some (?np, h')"
    using h1(1) np own2 h'(1) assms(8) by (simp add: move_object_def release_def)
  then have run: "krealloc ?ptr n h = Some (?np, h')"
    using assms(7,8,9) ne own obj nz less less_imp_neq [OF less] by (auto simp: krealloc_def Let_def slot_size_def)
  have "cache_state ?h2 c1 pss" using \<open>cache_state ?h2 c1 pss\<close> .
  then have ps1': "page_state (kram ?h2) p1 c1 offs1" using assms(2) by (auto simp: cache_state_def)
  have only3: "only_page p1 (kram ?h2) (kram h')" using given_back_state(2) [OF ps1' assms(3,4)] h'(2) by simp
  have "kram h' (?np + of_nat k) = kram h (?ptr + of_nat k)" if k: "k < ?S" for k
  proof -
    have "kram h' (?np + of_nat k) = kram ?h2 (?np + of_nat k)" using only3 in2 [OF k] p12 by (simp add: only_page_def)
    also have "\<dots> = kram h1 (?ptr + of_nat k)" using memmove_at [of "of_nat ?S" k ?ptr ?np h1] sep k b1 S by simp
    also have "\<dots> = kram h (?ptr + of_nat k)" using only1 in1 [OF k] p12 by (simp add: only_page_def)
    finally show ?thesis .
  qed
  then show ?thesis using run by (auto simp: add.assoc)
qed

text \<open>An example: an object of 128 bytes moves to a slot of 16.\<close>

lemma only_page_new:
  assumes "cls < SLAB_CLASSES" and "p AND NOT 4095 = p"
  shows "only_page p m (new_page_ram p cls m)"
proof -
  note step = only_page_trans [OF _ only_page_st [OF assms(2)]]
  have at: "p + of_nat (slot_start cls) + of_nat (k * slot_size cls) = p + of_nat (slot_at cls k)" for k
    by (simp add: slot_at_def add.assoc)
  have refl: "only_page p m m" by (simp add: only_page_def)
  have "only_page p m (write_header p (slot_size cls) (slot_count cls) (slot_start cls) cls m)"
    unfolding write_header_def run_Cons run_Nil page_stores
    using step [OF step [OF step [OF step [OF step [OF step [OF step [OF step [OF step [OF refl, of 0 4],
      of 4 4], of 8 2], of 10 2], of 12 2], of 14 2], of 16 2], of 18 2], of 24 8] by (simp add: st_def)
  then have "only_page p m (for_up 0 (slot_count cls - 1)
      (\<lambda>k. st 8 (unat (p + of_nat (slot_at cls (k + 1)))) p (slot_at cls k))
      (write_header p (slot_size cls) (slot_count cls) (slot_start cls) cls m))"
  proof (rule for_up_keeps [where P = "only_page p m"], goal_cases)
    case (1 i t)
    then show ?case using slot_at_bounds(2) [OF assms(1), of i] by (intro step) simp_all
  qed
  then show ?thesis
    unfolding new_page_ram_def link_slots_def at slot_stores page_stores
    using slot_at_bounds(2) [OF assms(1), of "slot_count cls - 1"] slot_facts(5) [OF assms(1)] by (intro step) simp_all
qed

lemma new_page_next:
  assumes "cls < SLAB_CLASSES"
  shows "pg_next (new_page_ram p cls m) p = 0"
  using link_slots_law(1) [OF assms, of 24 8] write_header_law(8) [OF assms]
  by (simp add: page_fields new_page_ram_def page_stores)

definition one_page_heap :: "(nat \<Rightarrow> u64) \<Rightarrow> (u64 \<Rightarrow> u8) \<Rightarrow> kheap" where
  "one_page_heap pg m = demo_heap\<lparr>slab_caches := map (\<lambda>c. \<lparr>c_pages = pg c, c_allocs = 0, c_frees = 0\<rparr>) [0..<7], kram := m\<rparr>"

lemma one_page_cache:
  assumes "cls < SLAB_CLASSES" and "p AND NOT 4095 = p" and "LOWEST_KERNEL_ADDRESS \<le> p" and "pg cls = p"
  shows "cache_state (one_page_heap pg (new_page_ram p cls m)) cls [(p, slots cls)]"
proof -
  have "p \<noteq> 0" using pointer_not_null [OF assms(3,2), of 0] by simp
  moreover have "cls < 7" using assms(1) by (simp add: SLAB_CLASSES_def)
  ultimately show ?thesis
    using new_page_state [OF assms(1-3)] new_page_next [OF assms(1)] assms(4) by (simp add: cache_state_def one_page_heap_def del: upt_Suc)
qed

lemma demo_two_classes:
  "\<exists>h offs1 offs2. cache_state h 4 [(0xFFFF800000101000, offs1)] \<and> 128 \<notin> set offs1 \<and> 128 \<in> set (slots 4) \<and>
     cache_state h 1 [(0xFFFF800000102000, 48 # offs2)]"
proof -
  let ?p1 = "0xFFFF800000101000 :: u64" and ?p2 = "0xFFFF800000102000 :: u64"
  define pg where "pg = (\<lambda>c :: nat. if c = 4 then ?p1 else if c = 1 then ?p2 else 0)"
  let ?m1 = "new_page_ram ?p1 4 (\<lambda>a. 0)"
  let ?m2 = "taken 4 ?p1 128 ?m1"
  let ?m3 = "new_page_ram ?p2 1 ?m2"
  have c: "4 < SLAB_CLASSES" "1 < SLAB_CLASSES" by (simp_all add: SLAB_CLASSES_def)
  have p1: "?p1 AND NOT 4095 = ?p1" "LOWEST_KERNEL_ADDRESS \<le> ?p1" "pg 4 = ?p1" by (simp_all add: LOWEST_KERNEL_ADDRESS_def pg_def)
  have p2: "?p2 AND NOT 4095 = ?p2" "LOWEST_KERNEL_ADDRESS \<le> ?p2" "pg 1 = ?p2" by (simp_all add: LOWEST_KERNEL_ADDRESS_def pg_def)
  have sl: "slots 4 = 128 # tl (slots 4)"
  proof -
    have "slot_start 4 = 128" "0 < slot_count 4" using slot_facts(5) [OF c(1)]
      by (simp_all add: slot_start_def slot_size_def slab_sizes_def first_slot_def SIZEOF_SlabPage_def)
    then show ?thesis by (simp add: slots_def upt_conv_Cons)
  qed
  have "distinct (128 # tl (slots 4))" using slots_distinct [OF c(1)] sl by metis
  then have new: "128 \<notin> set (tl (slots 4))" by simp
  have h1: "cache_state (one_page_heap pg ?m1) 4 ([] @ (?p1, 128 # tl (slots 4)) # [])"
    using one_page_cache [where pg = pg and m = "\<lambda>a. 0", OF c(1) p1] sl by simp
  then have ps: "page_state ?m1 ?p1 4 (128 # tl (slots 4))" by (simp add: cache_state_def one_page_heap_def)
  have h2: "cache_state (one_page_heap pg ?m2) 4 ([] @ (?p1, tl (slots 4)) # [])"
    by (rule cache_update [OF h1]) (simp_all add: one_page_heap_def taken_state [OF ps] taken_next [OF ps])
  have h3: "cache_state (one_page_heap pg ?m3) 4 ([] @ (?p1, tl (slots 4)) # [])"
    by (rule cache_other [OF h2, of ?p2]) (simp_all add: one_page_heap_def only_page_new [OF c(2) p2(1), unfolded One_nat_def])
  have "cache_state (one_page_heap pg ?m3) 1 [(?p2, slots 1)]" by (rule one_page_cache [where pg = pg, OF c(2) p2])
  then have "cache_state (one_page_heap pg ?m3) 1 [(?p2, 48 # tl (slots 1))]" by (metis demo_first_slots list.sel(3))
  moreover have "128 \<in> set (slots 4)" by (subst sl) simp
  ultimately show ?thesis using h3 new by auto
qed

theorem krealloc_shrink_overflows_witness:
  "\<exists>h h'. krealloc 0xFFFF800000101080 9 h = Some (0xFFFF800000102030, h') \<and>
     list_all (\<lambda>k. kram h' (0xFFFF800000102000 + of_nat (48 + k)) = kram h (0xFFFF800000101000 + of_nat (128 + k))) [0..<128]"
proof -
  obtain h offs1 offs2 where h: "cache_state h 4 [(0xFFFF800000101000, offs1)]" "128 \<notin> set offs1" "128 \<in> set (slots 4)"
    "cache_state h 1 ([] @ (0xFFFF800000102000, 48 # offs2) # [])" using demo_two_classes by auto
  have r: "slab_class_for_size (round8 9) = Some 1" by (simp add: round8_def slab_class_for_size_def slab_sizes_def)
  have mem: "(0xFFFF800000101000, offs1) \<in> set [(0xFFFF800000101000, offs1)]" by simp
  have s: "slot_size 4 = 128" "slot_size 1 = 16" by (simp_all add: slot_size_def slab_sizes_def)
  show ?thesis
    using krealloc_shrink_overflows [OF h(1) mem h(3,2,4) _ _ r] by (fastforce simp: s s(2) [unfolded One_nat_def] list_all_iff)
qed

end
