(* ===== verification/BosHeapGrow.thy ===== *)
theory BosHeapGrow
  imports BosHeapLaws BosSlab "HOL-Library.Multiset"
begin

text \<open>
  The block list of the heap at its edges: the list that the start makes of the memory map is in
  order, every search ends even when the list has to grow, and growing in the middle of an
  insertion puts the new block in the wrong place.
\<close>

section \<open>The sorted list of the start\<close>

definition by_addr :: "mem_block \<Rightarrow> mem_block \<Rightarrow> bool" where
  "by_addr b c \<longleftrightarrow> b_addr b \<le> b_addr c"

lemma sink_block_law:
  assumes "sorted_wrt by_addr bs"
  shows "sorted_wrt by_addr (sink_block key bs) \<and> mset (sink_block key bs) = add_mset key (mset bs)"
proof -
  let ?P = "\<lambda>b. b_addr b > b_addr key"
  define xs where "xs = rev (dropWhile ?P (rev bs))"
  define zs where "zs = rev (takeWhile ?P (rev bs))"
  have bs: "bs = xs @ zs" unfolding xs_def zs_def by (metis rev_append rev_rev_ident takeWhile_dropWhile_id)
  have z: "\<forall>b \<in> set zs. by_addr key b" unfolding zs_def by (auto simp: by_addr_def dest: set_takeWhileD)
  have x: "\<forall>b \<in> set xs. by_addr b key"
  proof (cases xs rule: rev_cases)
    case (snoc us u)
    then have "dropWhile ?P (rev bs) = u # rev us" unfolding xs_def by (metis rev_rev_ident rev.simps(2) rev_append rev_singleton_conv append_Cons append_Nil rev_eq_Cons_iff)
    then have "b_addr u \<le> b_addr key" by (metis dropWhile_eq_Cons_conv not_less)
    then show ?thesis using assms bs snoc by (fastforce simp: sorted_wrt_append by_addr_def)
  qed simp
  have "sink_block key bs = xs @ key # zs" by (simp add: sink_block_def xs_def zs_def)
  then show ?thesis using assms x z bs by (auto simp: sorted_wrt_append)
qed

lemma sort_law:
  "sorted_wrt by_addr ys \<Longrightarrow> sorted_wrt by_addr (fold sink_block bs ys) \<and> mset (fold sink_block bs ys) = mset bs + mset ys"
  by (induction bs arbitrary: ys) (simp_all add: sink_block_law)

definition region_block :: "u64 \<Rightarrow> u64 \<times> u64 \<Rightarrow> mem_block" where
  "region_block off r = zero_block\<lparr>b_addr := fst r + off, b_size := snd r\<rparr>"

definition regions :: "memmap_entry list \<Rightarrow> (u64 \<times> u64) list" where
  "regions es = List.map_filter above_low_memory es"

lemma collect_law:
  "sized h \<Longrightarrow> sized (collect_blocks off es h) \<and> block_capacity (collect_blocks off es h) = block_capacity h \<and>
   blocks (collect_blocks off es h) = blocks h @ map (region_block off) (take (block_capacity h - block_count h) (regions es)) \<and>
   memory_pool_size (collect_blocks off es h) =
     memory_pool_size h + sum_list (map snd (take (block_capacity h - block_count h) (regions es))) \<and>
   total_allocated (collect_blocks off es h) = total_allocated h"
proof (induction es arbitrary: h)
  case Nil
  then show ?case by (simp add: regions_def)
next
  case (Cons e es)
  show ?case
  proof (cases "above_low_memory e")
    case None
    then show ?thesis using Cons by (simp add: regions_def map_filter_simps)
  next
    case (Some r)
    obtain base sz where r: "r = (base, sz)" by (cases r)
    show ?thesis
    proof (cases "block_count h \<ge> block_capacity h")
      case True
      then show ?thesis using Some r Cons.prems by (simp add: regions_def map_filter_simps)
    next
      case False
      let ?h = "h\<lparr>block_list := (block_list h)[block_count h := zero_block\<lparr>b_addr := base + off, b_size := sz\<rparr>],
                  block_count := block_count h + 1, memory_pool_size := memory_pool_size h + sz\<rparr>"
      have "sized ?h" using False by (simp add: sized_def)
      moreover have "blocks ?h = blocks h @ [region_block off r]"
        using False r by (simp add: blocks_def region_block_def take_Suc_conv_app_nth)
      moreover have "block_capacity h - block_count h = Suc (block_capacity h - Suc (block_count h))" using False by simp
      ultimately show ?thesis using Cons.IH [of ?h] False Some r by (simp add: regions_def map_filter_simps add.assoc)
    qed
  qed
qed

definition separate :: "mem_block list \<Rightarrow> bool" where
  "separate bs \<longleftrightarrow> distinct bs \<and> (\<forall>b \<in> set bs. \<forall>c \<in> set bs. b \<noteq> c \<longrightarrow> below b c \<or> below c b) \<and> (\<forall>b \<in> set bs. proper b)"

lemma separate_mset: "separate bs \<Longrightarrow> mset bs = mset cs \<Longrightarrow> separate cs"
  using mset_eq_imp_distinct_iff [of bs cs] mset_eq_setD [of bs cs] by (simp add: separate_def)

lemma sorted_separate: "sorted_wrt by_addr bs \<Longrightarrow> separate bs \<Longrightarrow> in_order bs"
proof (induction bs)
  case (Cons b bs)
  have "below b c" if c: "c \<in> set bs" for c
  proof -
    have "b \<noteq> c" "proper c" "by_addr b c" using Cons.prems c by (auto simp: separate_def)
    then have "below b c \<or> below c b" using Cons.prems(2) c by (auto simp: separate_def)
    moreover have "\<not> below c b"
    proof
      assume "below c b"
      then have "unat (b_size c) = 0" using \<open>by_addr b c\<close> by (simp add: below_def b_end_def by_addr_def word_le_nat_alt)
      then show False using \<open>proper c\<close> by (simp add: proper_def unat_eq_0)
    qed
    ultimately show ?thesis by blast
  qed
  moreover have "in_order bs" using Cons by (simp add: separate_def)
  moreover have "proper b" using Cons.prems(2) by (simp add: separate_def)
  ultimately show ?case by (simp add: in_order_def)
qed (simp add: in_order_def)

lemma sort_blocks_law:
  assumes "sized h"
  shows "sized (sort_block_list h) \<and> block_capacity (sort_block_list h) = block_capacity h \<and>
    sorted_wrt by_addr (blocks (sort_block_list h)) \<and> mset (blocks (sort_block_list h)) = mset (blocks h)"
proof -
  let ?bs = "take (block_count h) (block_list h)"
  have s: "sorted_wrt by_addr (fold sink_block ?bs []) \<and> mset (fold sink_block ?bs []) = mset ?bs" using sort_law [of "[]" ?bs] by simp
  then have "length (fold sink_block ?bs []) = block_count h" using assms by (metis length_blocks blocks_def size_mset)
  then show ?thesis using s assms by (simp add: sort_block_list_def sized_def blocks_def)
qed

text \<open>The fact \<open>heap_init_ok\<close>: the start makes of the usable memory above the first megabyte, at most 1,024 regions of it, a list of
  free blocks sorted by address; when the regions do not overlap it is a heap in order, with
  nothing allocated and the sum of the regions as its size.\<close>

theorem heap_init_ok:
  fixes boot_at :: u64
  assumes "\<not> heap_ready h" and "separate (map (region_block off) (take 1024 (regions es)))"
  defines "h' \<equiv> memory_manager_init_from_memmap off boot_at (Some es) h"
  shows "heap_ok h' \<and> areas h' = {} \<and> mset (blocks h') = mset (map (region_block off) (take 1024 (regions es))) \<and>
    memory_pool_size h' = sum_list (map snd (take 1024 (regions es)))"
proof -
  let ?g = "h\<lparr>block_list := replicate BLOCK_LIST_INITIAL_CAPACITY zero_block, block_count := 0, list_at := boot_at,
    on_heap := False, total_allocated := 0, peak_allocated := 0, allocation_counter := 0, memory_pool_size := 0,
    slab_caches := replicate SLAB_CLASSES empty_cache, slab_total_allocs := 0, slab_total_frees := 0\<rparr>"
  have g: "sized ?g" "blocks ?g = []" "block_capacity ?g = 1024" "block_count ?g = 0"
    by (simp_all add: sized_def blocks_def BLOCK_LIST_INITIAL_CAPACITY_def)
  let ?c = "collect_blocks off es ?g"
  note c = collect_law [OF g(1), of off es, unfolded g(2-4), simplified]
  note s = sort_blocks_law [OF conjunct1 [OF c]]
  have h': "h' = (let k = sort_block_list ?c in k\<lparr>heap_ready := True, mem_log := mem_log k @ ''[MEM] Total usable memory: '' @
      decimal_of (unat (ucast (memory_pool_size k div 1024 div 1024) :: u32)) @ '' MB'' @ [CHR 0x0A]\<rparr>)"
    using assms(1) by (simp add: h'_def memory_manager_init_from_memmap_def Let_def)
  have b: "blocks h' = blocks (sort_block_list ?c)" "sized h'" using s by (simp_all add: h' Let_def blocks_def sized_def)
  have m: "mset (blocks h') = mset (map (region_block off) (take 1024 (regions es)))" using s c b(1) by simp
  have "in_order (blocks h')"
    using s b(1) sorted_separate separate_mset [OF assms(2) m [symmetric]] by simp
  moreover have none: "allocated_blocks (blocks h') = []"
  proof -
    have "set (blocks h') = set (map (region_block off) (take 1024 (regions es)))" using m by (rule mset_eq_setD)
    then show ?thesis by (auto simp: allocated_blocks_def filter_empty_conv region_block_def zero_block_def)
  qed
  moreover have "total_allocated h' = 0" using c by (simp add: h' Let_def sort_block_list_def)
  moreover have "memory_pool_size h' = sum_list (map snd (take 1024 (regions es)))" using c by (simp add: h' Let_def sort_block_list_def)
  ultimately show ?thesis using b(2) m by (simp add: heap_ok_def areas_def)
qed

definition demo_map :: "memmap_entry list" where
  "demo_map = [\<lparr>e_base = 0x100000000, e_length = 0x40000000, e_type = 0\<rparr>, \<lparr>e_base = 0xF0000, e_length = 0x20000, e_type = 0\<rparr>,
     \<lparr>e_base = 0x110000, e_length = 0x1000, e_type = 1\<rparr>]"

theorem heap_init_ok_witness:
  "heap_ok (memory_manager_init_from_memmap 0xFFFF800000000000 0 (Some demo_map) (demo_heap\<lparr>heap_ready := False\<rparr>)) \<and>
   memory_pool_size (memory_manager_init_from_memmap 0xFFFF800000000000 0 (Some demo_map) (demo_heap\<lparr>heap_ready := False\<rparr>)) = 0x40010000"
proof -
  have r: "regions demo_map = [(0x100000000, 0x40000000), (0x100000, 0x10000)]"
    by (simp add: regions_def demo_map_def above_low_memory_def map_filter_simps LIMINE_MEMMAP_USABLE_def)
  have "separate (map (region_block 0xFFFF800000000000) (take 1024 (regions demo_map)))"
    by (simp add: r separate_def region_block_def zero_block_def below_def b_end_def proper_def)
  then show ?thesis using heap_init_ok [of "demo_heap\<lparr>heap_ready := False\<rparr>"] by (simp add: r)
qed

section \<open>Every search ends\<close>

text \<open>
  What an insertion must do for the search to go on: refuse, or make room. A strict one never
  grows the list.
\<close>

definition inserts :: "bool \<Rightarrow> (nat \<Rightarrow> u64 \<Rightarrow> u64 \<Rightarrow> bool \<Rightarrow> u32 \<Rightarrow> kheap \<Rightarrow> (bool \<times> kheap) option) \<Rightarrow> bool" where
  "inserts strict ins \<longleftrightarrow> (\<forall>idx addr sz al bid h. sized h \<longrightarrow> 64 \<le> block_capacity h \<longrightarrow>
     idx \<le> block_count h \<or> idx + 20 < block_capacity h \<longrightarrow>
     (\<exists>ok h'. ins idx addr sz al bid h = Some (ok, h') \<and> sized h' \<and>
       (\<not> ok \<longrightarrow> block_capacity h' = block_capacity h \<and> (strict \<longrightarrow> block_count h' = block_count h)) \<and>
       (ok \<longrightarrow> block_capacity h' = block_capacity h \<and> block_count h + 1 \<le> block_count h' \<or>
          \<not> strict \<and> block_capacity h' = 2 * block_capacity h)))"

lemma put_block_total:
  assumes "sized h" and "idx \<le> block_count h \<or> idx < block_capacity h \<or> block_capacity h \<le> block_count h"
  shows "\<exists>ok h'. put_block idx addr sz al bid h = Some (ok, h') \<and> sized h' \<and> block_capacity h' = block_capacity h \<and>
    block_count h' = (if ok then block_count h + 1 else block_count h) \<and> on_heap h' = on_heap h"
proof (cases "block_count h \<ge> block_capacity h")
  case True
  then show ?thesis using assms(1) by (auto simp: put_block_def)
next
  case False
  then have "\<not> idx \<ge> block_capacity h" using assms by (auto simp: sized_def)
  moreover have "length (for_up a b (\<lambda>k bl. bl[n - k := bl ! (n - k - 1)]) bl) = length bl" for a b n and bl :: "mem_block list"
    by (rule for_up_keeps [where P = "\<lambda>t. length t = length bl"]) simp_all
  ultimately show ?thesis
    using False by (intro exI [of _ True]) (auto simp: put_block_def Let_def get_timestamp_def sized_def)
qed

lemma put_block_inserts: "inserts True put_block"
  unfolding inserts_def
proof (intro allI impI)
  fix idx addr sz al bid h
  assume "sized h" "64 \<le> block_capacity h" "idx \<le> block_count h \<or> idx + 20 < block_capacity h"
  then have "sized h" "idx \<le> block_count h \<or> idx < block_capacity h \<or> block_capacity h \<le> block_count h" by auto
  from put_block_total [OF this, of addr sz al bid] show "\<exists>ok h'. put_block idx addr sz al bid h = Some (ok, h') \<and> sized h' \<and>
       (\<not> ok \<longrightarrow> block_capacity h' = block_capacity h \<and> (True \<longrightarrow> block_count h' = block_count h)) \<and>
       (ok \<longrightarrow> block_capacity h' = block_capacity h \<and> block_count h + 1 \<le> block_count h' \<or>
          \<not> True \<and> block_capacity h' = 2 * block_capacity h)"
    by auto
qed

lemma sized_updates [simp]:
  "sized (h\<lparr>allocation_counter := a\<rparr>) = sized h" "sized (h\<lparr>stamp_tick := t\<rparr>) = sized h"
  "sized (h\<lparr>total_allocated := n, peak_allocated := m\<rparr>) = sized h" "sized (h\<lparr>kram := r\<rparr>) = sized h"
  by (simp_all add: sized_def)

lemma finish_total:
  assumes "inserts strict ins" and "sized h" and "64 \<le> block_capacity h" and "cur + 1 \<le> block_count h \<or> cur + 21 < block_capacity h"
  shows "\<exists>h'. finish_block ins p sz rest cur h = Some (Found p h') \<and> sized h' \<and>
    (strict \<longrightarrow> block_capacity h' = block_capacity h \<and> block_count h \<le> block_count h')"
proof (cases "rest > 0")
  case False
  then show ?thesis using assms(2) by (simp add: finish_block_def mem_memset_def Let_def)
next
  case True
  have "cur + 1 \<le> block_count h \<or> cur + 1 + 20 < block_capacity h" using assms(4) by auto
  then obtain ok h' where "ins (cur + 1) (p + sz) rest False 0 h = Some (ok, h')" "sized h'"
    "strict \<longrightarrow> block_capacity h' = block_capacity h \<and> block_count h \<le> block_count h'"
    using assms(1-3) unfolding inserts_def by (metis Suc_eq_plus1 Suc_leD order_refl)
  then show ?thesis using True by (simp add: finish_block_def mem_memset_def Let_def)
qed

lemma place_total:
  assumes "inserts strict ins" and "sized h" and "64 \<le> block_capacity h" and "i < block_count h"
  shows "\<exists>r. place_block ins p pad sz rest i h = Some r \<and>
    (case r of Next_Block h' \<Rightarrow> sized h' \<and> block_capacity h' = block_capacity h \<and> (strict \<longrightarrow> block_count h' = block_count h)
     | Restart h' \<Rightarrow> False | Found q h' \<Rightarrow> sized h' \<and> (strict \<longrightarrow> block_capacity h' = block_capacity h \<and> block_count h \<le> block_count h'))"
proof (cases "pad > 0")
  case True
  let ?g = "upd_block i (\<lambda>b. b\<lparr>b_size := pad\<rparr>) (h\<lparr>allocation_counter := allocation_counter h + 1\<rparr>)"
  have g: "sized ?g" "64 \<le> block_capacity ?g" "i + 1 \<le> block_count ?g \<or> i + 1 + 20 < block_capacity ?g" using assms by auto
  then obtain ok k where k: "ins (i + 1) p sz True (allocation_counter h + 1) ?g = Some (ok, k)" "sized k"
    "\<not> ok \<longrightarrow> block_capacity k = block_capacity ?g \<and> (strict \<longrightarrow> block_count k = block_count ?g)"
    "ok \<longrightarrow> block_capacity k = block_capacity ?g \<and> block_count ?g + 1 \<le> block_count k \<or> \<not> strict \<and> block_capacity k = 2 * block_capacity ?g"
    using assms(1) unfolding inserts_def by blast
  show ?thesis
  proof (cases ok)
    case False
    then show ?thesis using True k by (simp add: place_block_def Let_def)
  next
    case ok: True
    have "64 \<le> block_capacity k" "i + 1 + 1 \<le> block_count k \<or> i + 1 + 21 < block_capacity k"
      using k(4) ok assms(2-4) by (auto simp: sized_def)
    from finish_total [OF assms(1) k(2) this, of p sz rest] show ?thesis using True k(1,4) ok by (auto simp: place_block_def Let_def)
  qed
next
  case False
  let ?g = "upd_block i (\<lambda>b. \<lparr>b_addr = p, b_size = sz, b_allocated = True, b_id = allocation_counter h + 1, b_stamp = stamp_tick h\<rparr>)
    (h\<lparr>allocation_counter := allocation_counter h + 1, stamp_tick := stamp_tick h + 1\<rparr>)"
  have "sized ?g" "64 \<le> block_capacity ?g" "i + 1 \<le> block_count ?g \<or> i + 21 < block_capacity ?g" using assms by (auto simp: sized_def)
  from finish_total [OF assms(1) this, of p sz rest] show ?thesis using False by (auto simp: place_block_def Let_def get_timestamp_def)
qed

text \<open>A search of a list that does not grow passes every block at most once.\<close>

lemma search_total:
  assumes "\<And>i h. I h \<Longrightarrow> i < block_count h \<Longrightarrow> \<exists>r. turn i h = Some r \<and>
    (case r of Next_Block h' \<Rightarrow> I h' | Restart h' \<Rightarrow> Q h' | Found q h' \<Rightarrow> P h')"
    and "\<And>h. I h \<Longrightarrow> P h \<and> block_count h \<le> N"
    and "\<And>h n. Q h \<Longrightarrow> m \<le> n \<Longrightarrow> \<exists>p h'. search_blocks turn n 0 h = Some (p, h') \<and> P h'"
  shows "I h \<Longrightarrow> N - i + m < n \<Longrightarrow> \<exists>p h'. search_blocks turn n i h = Some (p, h') \<and> P h'"
proof (induction n arbitrary: i h)
  case (Suc n)
  show ?case
  proof (cases "i < block_count h")
    case False
    then show ?thesis using assms(2) [OF Suc.prems(1)] by simp
  next
    case True
    then have "i < N" using assms(2) [OF Suc.prems(1)] by simp
    then have more: "N - (i + 1) + m < n" "m \<le> n" using Suc.prems(2) by auto
    from assms(1) [OF Suc.prems(1) True] obtain r where r: "turn i h = Some r"
      "case r of Next_Block h' \<Rightarrow> I h' | Restart h' \<Rightarrow> Q h' | Found q h' \<Rightarrow> P h'" by blast
    show ?thesis
      using r True Suc.IH [of _ "i + 1"] more assms(3) by (cases r) auto
  qed
qed simp

lemma growing_total:
  assumes "sized h" and "64 \<le> block_capacity h"
  shows "\<exists>p h'. kmalloc_growing sz al h = Some (p, h') \<and> sized h' \<and> block_capacity h' = block_capacity h \<and> block_count h \<le> block_count h'"
proof -
  define al' where "al' = (if al = 0 then 8 else al)"
  let ?I = "\<lambda>k. sized k \<and> block_capacity k = block_capacity h \<and> block_count k = block_count h"
  let ?P = "\<lambda>k. sized k \<and> block_capacity k = block_capacity h \<and> block_count h \<le> block_count k"
  have turn: "\<exists>r. try_block (\<lambda>h. Some (False, h)) put_block (round8 sz) al' i k = Some r \<and>
      (case r of Next_Block k' \<Rightarrow> ?I k' | Restart k' \<Rightarrow> False | Found q k' \<Rightarrow> ?P k')" if "?I k" "i < block_count k" for i k
  proof -
    have k: "sized k" "64 \<le> block_capacity k" "i < block_count k" using that assms(2) by simp_all
    have "\<exists>r. place_block put_block p pad s rest i k = Some r \<and>
      (case r of Next_Block k' \<Rightarrow> ?I k' | Restart k' \<Rightarrow> False | Found q k' \<Rightarrow> ?P k')" for p pad s rest
      using place_total [OF put_block_inserts k, of p pad s rest] that(1) by (auto split: search.splits)
    then show ?thesis using that(1) by (simp add: try_block_def Let_def)
  qed
  have "\<exists>p h'. search_blocks (try_block (\<lambda>h. Some (False, h)) put_block (round8 sz) al') (block_count h + 1) 0 h = Some (p, h') \<and> ?P h'"
    by (rule search_total [where I = ?I and N = "block_count h" and m = 0 and Q = "\<lambda>_. False"]) (use turn assms in auto)
  then show ?thesis by (simp add: kmalloc_growing_def kmalloc_with_def al'_def)
qed

definition shrunk :: "kheap \<Rightarrow> kheap \<Rightarrow> bool" where
  "shrunk h h' \<longleftrightarrow> sized h' \<and> block_capacity h' = block_capacity h \<and> block_count h' \<le> block_count h"

lemma remove_total: "sized h \<Longrightarrow> shrunk h (remove_block_at i h)"
proof -
  assume "sized h"
  moreover have "length (for_up a b (\<lambda>j bl. bl[j := bl ! (j + 1)]) bl) = length bl" for a b and bl :: "mem_block list"
    by (rule for_up_keeps [where P = "\<lambda>t. length t = length bl"]) simp_all
  ultimately show ?thesis by (simp add: remove_block_at_def sized_def shrunk_def)
qed

lemma merge_total: "sized h \<Longrightarrow> shrunk h (merge_right i h)" "sized h \<Longrightarrow> shrunk h (merge_left i h)"
  using remove_total [of "upd_block j f h" k for j f k]
  by (simp_all add: merge_right_def merge_left_def Let_def) (simp_all add: shrunk_def)

lemma kfree_total: "sized h \<Longrightarrow> shrunk h (kfree_locked p h)"
proof (cases "find_allocated p h")
  case None
  then show "sized h \<Longrightarrow> ?thesis" by (simp add: kfree_locked_def shrunk_def)
next
  case (Some i)
  assume s: "sized h"
  let ?g = "upd_block i (\<lambda>b. b\<lparr>b_allocated := False, b_id := 0\<rparr>) (h\<lparr>total_allocated := total_allocated h - b_size (block_list h ! i)\<rparr>)"
  have g: "sized ?g" "block_capacity ?g = block_capacity h" "block_count ?g = block_count h" using s by (simp_all add: sized_def)
  have "shrunk ?g (merge_right i ?g)" by (rule merge_total(1) [OF g(1)])
  moreover have "shrunk (merge_right i ?g) (merge_left i (merge_right i ?g))" using calculation by (intro merge_total(2)) (simp add: shrunk_def)
  ultimately have "shrunk ?g (merge_left i (merge_right i ?g))" by (auto simp: shrunk_def)
  then show ?thesis using Some g by (simp add: kfree_locked_def Let_def shrunk_def)
qed

lemma grow_total:
  assumes "sized h" and "64 \<le> block_capacity h"
  shows "\<exists>ok h'. grow_block_list h = Some (ok, h') \<and> sized h' \<and>
    (\<not> ok \<longrightarrow> block_capacity h' = block_capacity h \<and> block_count h \<le> block_count h') \<and>
    (ok \<longrightarrow> block_capacity h' = 2 * block_capacity h \<and> block_count h' \<le> block_capacity h)"
proof -
  obtain nl k where k: "kmalloc_growing (of_nat (block_capacity h * 2) * SIZEOF_MemBlock) 8 h = Some (nl, k)" "sized k"
    "block_capacity k = block_capacity h" "block_count h \<le> block_count k" using growing_total [OF assms] by blast
  show ?thesis
  proof (cases "nl = 0")
    case True
    then have "grow_block_list h = Some (False, k)" using k(1) by (simp add: grow_block_list_def)
    then show ?thesis using k(2-4) by blast
  next
    case False
    let ?g = "k\<lparr>block_list := take (block_count k) (block_list k) @ replicate (block_capacity h * 2 - block_count k) zero_block,
      list_at := nl, on_heap := True\<rparr>"
    have g: "sized ?g" "block_capacity ?g = 2 * block_capacity h" "block_count ?g \<le> block_capacity h"
      using k(2,3) by (simp_all add: sized_def)
    have "shrunk ?g (kfree_locked (list_at k) ?g)" by (rule kfree_total [OF g(1)])
    then show ?thesis using k(1) False g by (auto simp: grow_block_list_def Let_def shrunk_def)
  qed
qed

lemma insert_block_at_inserts: "inserts False insert_block_at"
  unfolding inserts_def
proof (intro allI impI)
  fix idx addr sz al bid h
  assume h: "sized h" "64 \<le> block_capacity h" "idx \<le> block_count h \<or> idx + 20 < block_capacity h"
  show "\<exists>ok h'. insert_block_at idx addr sz al bid h = Some (ok, h') \<and> sized h' \<and>
       (\<not> ok \<longrightarrow> block_capacity h' = block_capacity h \<and> (False \<longrightarrow> block_count h' = block_count h)) \<and>
       (ok \<longrightarrow> block_capacity h' = block_capacity h \<and> block_count h + 1 \<le> block_count h' \<or>
          \<not> False \<and> block_capacity h' = 2 * block_capacity h)"
  proof (cases "block_count h + 10 \<ge> block_capacity h")
    case False
    have "idx \<le> block_count h \<or> idx < block_capacity h \<or> block_capacity h \<le> block_count h" using h(3) by auto
    from put_block_total [OF h(1) this, of addr sz al bid] show ?thesis using False by (auto simp: insert_block_at_def)
  next
    case True
    obtain ok k where k: "grow_block_list h = Some (ok, k)" "sized k"
      "\<not> ok \<longrightarrow> block_capacity k = block_capacity h \<and> block_count h \<le> block_count k"
      "ok \<longrightarrow> block_capacity k = 2 * block_capacity h \<and> block_count k \<le> block_capacity h"
      using grow_total [OF h(1,2)] by blast
    have "idx \<le> block_count k \<or> idx < block_capacity k \<or> block_capacity k \<le> block_count k"
    proof (cases ok)
      case True
      have "idx < 2 * block_capacity h" using h by (auto simp: sized_def)
      then show ?thesis using k(4) True by simp
    next
      case False
      then show ?thesis using k(3) h(3) by auto
    qed
    from put_block_total [OF k(2) this, of addr sz al bid] obtain ok' h' where
      h': "put_block idx addr sz al bid k = Some (ok', h')" "sized h'" "block_capacity h' = block_capacity k"
        "block_count h' = (if ok' then block_count k + 1 else block_count k)" by blast
    have "ok \<longrightarrow> ok'"
    proof
      assume ok
      then have "\<not> block_count k \<ge> block_capacity k" "\<not> idx \<ge> block_capacity k" using k(4) h by (auto simp: sized_def)
      then show ok' using h'(1) by (auto simp: put_block_def Let_def split: if_splits prod.splits)
    qed
    then have "\<not> ok' \<longrightarrow> block_capacity h' = block_capacity h" using h'(3) k(3) by auto
    moreover have "ok' \<longrightarrow> block_capacity h' = block_capacity h \<and> block_count h + 1 \<le> block_count h' \<or> block_capacity h' = 2 * block_capacity h"
      using h'(3,4) k(3,4) by (cases ok) auto
    ultimately show ?thesis using True k(1) h'(1,2) by (auto simp: insert_block_at_def)
  qed
qed

text \<open>C39 (heap_search_ends): an allocation always returns, from any state of the list, whether it is full, whether it has to grow
  on the way and start over, or whether no block has room.\<close>

theorem heap_search_ends:
  assumes "sized h" and "64 \<le> block_capacity h"
  shows "\<exists>p h'. kmalloc_locked sz al h = Some (p, h') \<and> sized h'"
proof -
  define al' where "al' = (if al = 0 then 8 else al)"
  let ?C = "block_capacity h"
  let ?turn = "try_block grow_block_list insert_block_at (round8 sz) al'"
  let ?I = "\<lambda>k. sized k \<and> block_capacity k = ?C"
  let ?Q = "\<lambda>k. sized k \<and> block_capacity k = 2 * ?C \<and> block_count k \<le> ?C"
  have "\<exists>p h'. search_blocks ?turn (3 * ?C + 8) 0 h = Some (p, h') \<and> sized h'"
  proof (rule search_total [where I = ?I and N = ?C and m = "2 * ?C + 1" and Q = ?Q])
    fix i k assume k: "?I k" "i < block_count k"
    then have kk: "sized k" "64 \<le> block_capacity k" "i < block_count k" using assms(2) by simp_all
    obtain ok g where g: "grow_block_list k = Some (ok, g)" "sized g"
      "\<not> ok \<longrightarrow> block_capacity g = block_capacity k \<and> block_count k \<le> block_count g"
      "ok \<longrightarrow> block_capacity g = 2 * block_capacity k \<and> block_count g \<le> block_capacity k"
      using grow_total [OF kk(1,2)] by blast
    have place: "\<exists>r. place_block insert_block_at p pad s rest i x = Some r \<and>
      (case r of Next_Block k' \<Rightarrow> ?I k' | Restart k' \<Rightarrow> ?Q k' | Found q k' \<Rightarrow> sized k')"
      if "?I x" "i < block_count x" for p pad s rest x
      using place_total [OF insert_block_at_inserts _ _ that(2), of p pad s rest] that(1) assms(2) by (auto split: search.splits)
    have "\<not> ok \<Longrightarrow> ?I g \<and> i < block_count g" and "ok \<Longrightarrow> ?Q g" using g k by auto
    then show "\<exists>r. ?turn i k = Some r \<and> (case r of Next_Block k' \<Rightarrow> ?I k' | Restart k' \<Rightarrow> ?Q k' | Found q k' \<Rightarrow> sized k')"
      using place k g(1,2) by (cases ok) (simp_all add: try_block_def Let_def)
  next
    fix k n assume k: "?Q k" "2 * ?C + 1 \<le> n"
    then have "sized k" "roomy k" "block_count k - 0 < n" using assms(2) by (simp_all add: roomy_def)
    from search_law [OF this, of "round8 sz" al'] show "\<exists>p h'. search_blocks ?turn n 0 k = Some (p, h') \<and> sized h'"
      using \<open>sized k\<close> by (auto simp: allocated_at_def split: if_splits)
  qed (use assms in \<open>auto simp: sized_def\<close>)
  then show ?thesis by (simp add: kmalloc_locked_def kmalloc_with_def al'_def)
qed

theorem heap_search_ends_witness:
  "\<exists>p h'. kmalloc_locked 0xFFFFFFFFFFFFFFFF 3 (demo_heap\<lparr>block_list := replicate 64 (free_block 0x1000 8), block_count := 64\<rparr>) = Some (p, h')"
  using heap_search_ends [of "demo_heap\<lparr>block_list := replicate 64 (free_block 0x1000 8), block_count := 64\<rparr>"]
  by (fastforce simp: sized_def)

section \<open>Growing in the middle of an insertion\<close>

lemma finish_put:
  assumes "sized g" and "block_count g < block_capacity g" and "cur < block_count g" and "rest > 0"
  shows "\<exists>h'. finish_block put_block p sz rest cur g = Some (Found p h') \<and>
    blocks h' = take (cur + 1) (blocks g) @
      \<lparr>b_addr = p + sz, b_size = rest, b_allocated = False, b_id = 0, b_stamp = 0\<rparr> # drop (cur + 1) (blocks g) \<and>
    sized h' \<and> block_capacity h' = block_capacity g \<and> block_count h' = block_count g + 1 \<and> on_heap h' = on_heap g"
proof -
  have "cur + 1 \<le> block_count g" using assms(3) by simp
  from put_block_law [OF assms(2) this, of "p + sz" rest False 0] obtain bl where
    "put_block (cur + 1) (p + sz) rest False 0 g = Some (True, g\<lparr>block_list := bl, block_count := block_count g + 1\<rparr>)"
    "length bl = block_capacity g"
    "take (block_count g + 1) bl = take (cur + 1) (blocks g) @
      \<lparr>b_addr = p + sz, b_size = rest, b_allocated = False, b_id = 0, b_stamp = 0\<rparr> # drop (cur + 1) (blocks g)" by auto
  then show ?thesis using assms by (simp add: finish_block_def mem_memset_def blocks_def sized_def Let_def)
qed

lemma try_block_alt:
  "try_block grow ins sz al i h =
     (let b = block_list h ! i; extra = (if pad_of al b > 0 then 1 else 0) + (if rest_of sz al b > 0 then 1 else 0) in
      if \<not> fits sz al b then Some (Next_Block h)
      else if block_count h + extra + 2 > block_capacity h
      then do {
        (ok, h) \<leftarrow> grow h;
        if ok then Some (Restart h)
        else if block_count h + extra > block_capacity h then Some (Next_Block h)
        else place_block ins (aligned_in al b) (pad_of al b) sz (rest_of sz al b) i h
      }
      else place_block ins (aligned_in al b) (pad_of al b) sz (rest_of sz al b) i h)"
  unfolding try_block_def fits_def Let_def pad_of_def aligned_in_def rest_of_def
  by (cases "b_allocated (block_list h ! i)"; simp only: not_True_eq_False not_False_eq_True simp_thms if_True if_False not_not)

text \<open>A free block at a multiple of eight is cut without padding.\<close>

lemma cut_exact:
  assumes "proper (free_block a n)" and "8 dvd unat a" and "unat s < unat n" and "unat s < 2 ^ 62" and "7 < unat n"
  shows "pad_of 8 (free_block a n) = 0" and "aligned_in 8 (free_block a n) = a" and "fits s 8 (free_block a n)"
    and "rest_of s 8 (free_block a n) = n - s" and "n - s > 0"
proof -
  let ?b = "free_block a n"
  have e: "unat a + unat n < 2 ^ 64" using assms(1) by (simp add: proper_def b_end_def free_block_def)
  have "unat (b_addr ?b) + (2 ^ 3 - 1) < 2 ^ 64" using e assms(5) by (simp add: free_block_def)
  from aligned_cases(1) [OF assms(1) _ this] have
    "unat (pad_of 8 ?b) = unat a + 7 - (unat a + 7) mod 8 - unat a" by (simp add: free_block_def)
  moreover have "(unat a + 7) mod 8 = 7" using assms(2) by presburger
  ultimately show z: "pad_of 8 ?b = 0" by (simp add: unat_eq_0)
  then show "aligned_in 8 ?b = a" by (simp add: pad_of_def free_block_def)
  have le: "s < n" using assms(3) by (simp add: word_less_nat_alt)
  then show "fits s 8 ?b" using z by (simp add: fits_def free_block_def)
  show "rest_of s 8 ?b = n - s" using z by (simp add: rest_of_def free_block_def)
  show "n - s > 0" using le by (simp add: word_gt_0)
qed

definition new_list_size :: u64 where
  "new_list_size = of_nat 2048 * SIZEOF_MemBlock"

lemma search_first: "0 < block_count h \<Longrightarrow> turn 0 h = Some (Found p h') \<Longrightarrow> 0 < n \<Longrightarrow> search_blocks turn n 0 h = Some (p, h')"
  by (cases n) simp_all

lemma search_second:
  "Suc 0 < block_count h \<Longrightarrow> turn 0 h = Some (Next_Block h) \<Longrightarrow> turn 1 h = Some (Found p h') \<Longrightarrow> 2 \<le> n \<Longrightarrow>
    search_blocks turn n 0 h = Some (p, h')"
  by (cases n; cases "n - 1") simp_all

lemma new_list_size: "new_list_size = 65536" "round8 65536 = 65536"
  by (simp_all add: new_list_size_def SIZEOF_MemBlock_def round8_def)

lemma grow_takes_first:
  assumes "sized h" and "block_capacity h = 1024" and "block_count h + 3 \<le> 1024" and "\<not> on_heap h"
    and "blocks h = free_block a na # bs" and "proper (free_block a na)" and "8 dvd unat a" and "65536 < unat na"
  shows "\<exists>h' a1 a2. grow_block_list h = Some (True, h') \<and> blocks h' = a1 # a2 # bs \<and> sized h' \<and>
    block_capacity h' = 2048 \<and> block_count h' = block_count h + 1"
proof -
  note cut = cut_exact [OF assms(6,7), of 65536]
  have c: "pad_of 8 (free_block a na) = 0" "aligned_in 8 (free_block a na) = a" "fits 65536 8 (free_block a na)"
    "rest_of 65536 8 (free_block a na) = na - 65536" "na - 65536 > 0" using cut assms(8) by simp_all
  have pos: "0 < block_count h" using length_blocks [OF assms(1)] assms(5) by simp
  have A: "block_list h ! 0 = free_block a na" using block_nth [OF assms(1) pos] assms(5) by simp
  let ?g = "upd_block 0 (\<lambda>b. \<lparr>b_addr = a, b_size = 65536, b_allocated = True, b_id = allocation_counter h + 1, b_stamp = stamp_tick h\<rparr>)
    (h\<lparr>allocation_counter := allocation_counter h + 1, stamp_tick := stamp_tick h + 1\<rparr>)"
  let ?a1 = "\<lparr>b_addr = a, b_size = 65536, b_allocated = True, b_id = allocation_counter h + 1, b_stamp = stamp_tick h\<rparr> :: mem_block"
  have g: "sized ?g" "block_count ?g < block_capacity ?g" "0 < block_count ?g" using assms(1-3) pos by simp_all
  have bg: "blocks ?g = ?a1 # bs"
  proof -
    have "sized (h\<lparr>allocation_counter := allocation_counter h + 1, stamp_tick := stamp_tick h + 1\<rparr>)" using assms(1) by simp
    from blocks_upd_block [OF this, of 0] show ?thesis using pos assms(5) by (simp add: blocks_def)
  qed
  obtain k a2 where k: "finish_block put_block a 65536 (na - 65536) 0 ?g = Some (Found a k)" "blocks k = ?a1 # a2 # bs"
    "sized k" "block_capacity k = 1024" "block_count k = block_count h + 1" "\<not> on_heap k"
    using finish_put [OF g c(5), of a 65536] bg assms(2,4) by (auto simp: upd_block_def)
  have "try_block (\<lambda>h. Some (False, h)) put_block 65536 8 0 h = Some (Found a k)"
    using c A k(1) assms(2,3) by (simp add: try_block_alt Let_def place_block_def get_timestamp_def)
  then have "kmalloc_growing new_list_size 8 h = Some (a, k)"
    using search_first [OF pos, of "try_block (\<lambda>h. Some (False, h)) put_block 65536 8" a k "block_count h + 1"]
    by (simp add: kmalloc_growing_def kmalloc_with_def new_list_size del: search_blocks.simps)
  moreover have "a \<noteq> 0" using assms(6) by (simp add: proper_def free_block_def)
  ultimately have "grow_block_list h = Some (True, k\<lparr>block_list := take (block_count k) (block_list k) @ replicate (2048 - block_count k) zero_block,
      list_at := a, on_heap := True\<rparr>)"
    using assms(2) k(6) by (simp add: grow_block_list_def Let_def new_list_size_def)
  moreover have "block_count h = Suc (length bs)" using length_blocks [OF assms(1)] assms(5) by simp
  ultimately show ?thesis using k(2-5) assms(3) by (auto simp: blocks_def sized_def)
qed

text \<open>C33 (growth_breaks_order): with the boot list of 1,024 cells nearly full, an allocation served by the second free block after the
  first one, too small for it, is taken for the longer list, inserts the remainder in front of the
  allocated block and not behind it: the list is no longer in order.\<close>

theorem growth_breaks_order:
  assumes "heap_ok h" and "block_capacity h = 1024" and "block_count h + 10 \<ge> 1024" and "block_count h + 3 \<le> 1024" and "\<not> on_heap h"
    and "blocks h = free_block a na # free_block b nb # rs" and "8 dvd unat a" and "8 dvd unat b"
    and "65536 < unat na" and "unat na < unat sz" and "unat (round8 sz) < unat nb" and "unat sz < 2 ^ 61"
  shows "\<exists>h'. kmalloc_locked sz 8 h = Some (b, h') \<and> \<not> in_order (blocks h')"
proof -
  let ?S = "round8 sz" and ?A = "free_block a na" and ?B = "free_block b nb"
  have s: "sized h" and pA: "proper ?A" and pB: "proper ?B" using assms(1,6) by (simp_all add: heap_ok_def in_order_def)
  have S: "unat sz \<le> unat ?S" "unat ?S < 2 ^ 62" using round8_law [OF assms(12)] assms(12) by simp_all
  have c: "pad_of 8 ?B = 0" "aligned_in 8 ?B = b" "fits ?S 8 ?B" "rest_of ?S 8 ?B = nb - ?S" "nb - ?S > 0"
    using cut_exact [OF pB assms(8,11) S(2)] assms(9-11) S by simp_all
  have noA: "\<not> fits ?S 8 ?A"
  proof
    assume "fits ?S 8 ?A"
    then have "has_room (unat ?S) 3 ?A" using fits_iff(1) [OF pA _ S(2), of 3] by simp
    then show False using assms(10) S(1) by (auto simp: has_room_def b_end_def free_block_def)
  qed
  have cnt: "1 < block_count h" using assms(3) by simp
  have nth: "block_list h ! 0 = ?A" "block_list h ! 1 = ?B"
    using block_nth [OF s, of 0] block_nth [OF s, of 1] cnt assms(6) by simp_all
  let ?P = "\<lparr>b_addr = b, b_size = ?S, b_allocated = True, b_id = allocation_counter h + 1, b_stamp = stamp_tick h\<rparr> :: mem_block"
  let ?h = "h\<lparr>allocation_counter := allocation_counter h + 1, stamp_tick := stamp_tick h + 1\<rparr>"
  let ?g = "upd_block 1 (\<lambda>_. ?P) ?h"
  have h1: "sized ?h" "blocks ?h = blocks h" using s by (simp_all add: blocks_def)
  have g: "sized ?g" "block_capacity ?g = 1024" "block_count ?g = block_count h" using s assms(2) by simp_all
  have boot: "\<not> on_heap ?g" using assms(5) by (simp add: upd_block_def)
  have bg: "blocks ?g = ?A # ?P # rs" using blocks_upd_block [OF h1(1), of 1] h1(2) cnt assms(6) by simp
  obtain k a1 a2 where k: "grow_block_list ?g = Some (True, k)" "blocks k = a1 # a2 # ?P # rs" "sized k"
    "block_capacity k = 2048" "block_count k = block_count h + 1"
    using grow_takes_first [OF g(1,2) _ boot bg pA assms(7,9)] g(3) assms(4) by auto
  let ?T = "\<lparr>b_addr = b + ?S, b_size = nb - ?S, b_allocated = False, b_id = 0, b_stamp = 0\<rparr> :: mem_block"
  have "block_count k < block_capacity k" "2 \<le> block_count k" using k(4,5) assms(4) cnt by simp_all
  from put_block_law [OF this, of "b + ?S" "nb - ?S" False 0] obtain bl where
    put: "put_block 2 (b + ?S) (nb - ?S) False 0 k = Some (True, k\<lparr>block_list := bl, block_count := block_count k + 1\<rparr>)"
    and bl: "take (block_count k + 1) bl = a1 # a2 # ?T # ?P # rs" using k(2) by (auto simp: eval_nat_numeral)
  have ins: "insert_block_at 2 (b + ?S) (nb - ?S) False 0 ?g = Some (True, k\<lparr>block_list := bl, block_count := block_count k + 1\<rparr>)"
    using k(1) put g assms(3) by (simp add: insert_block_at_def)
  then obtain h' where fin: "finish_block insert_block_at b ?S (nb - ?S) 1 ?g = Some (Found b h')" and bh: "blocks h' = a1 # a2 # ?T # ?P # rs"
    using c(5) bl by (simp add: finish_block_def mem_memset_def Let_def blocks_def eval_nat_numeral)
  have t0: "try_block grow_block_list insert_block_at ?S 8 0 h = Some (Next_Block h)"
    using noA nth(1) by (simp add: try_block_alt Let_def)
  have t1: "try_block grow_block_list insert_block_at ?S 8 1 h = Some (Found b h')"
    using c nth(2) fin assms(2,4) by (simp add: try_block_alt Let_def place_block_def get_timestamp_def)
  have "kmalloc_locked sz 8 h = Some (b, h')"
    using search_second [of h "try_block grow_block_list insert_block_at ?S 8" b h' "3 * block_capacity h + 8"] t0 t1 cnt
    by (simp add: kmalloc_locked_def kmalloc_with_def del: search_blocks.simps)
  moreover have "\<not> in_order (blocks h')"
  proof
    assume "in_order (blocks h')"
    then have "below ?T ?P" unfolding bh by (simp add: in_order_def)
    moreover have "unat (b + ?S) = unat b + unat ?S"
      using pB assms(11) by (simp add: proper_def b_end_def free_block_def unat_word_ariths(1))
    ultimately show False using S(1) assms(9,10) by (simp add: below_def b_end_def)
  qed
  ultimately show ?thesis by blast
qed

text \<open>A boot list with ten cells left: two free blocks, the second one larger, and 1,012 small allocated
  blocks behind them.\<close>

definition small_block :: "nat \<Rightarrow> mem_block" where
  "small_block k = \<lparr>b_addr = of_nat (0x800000 + 16 * k), b_size = 16, b_allocated = True, b_id = 0, b_stamp = 0\<rparr>"

definition full_list :: "mem_block list" where
  "full_list = free_block 0x100000 0x20000 # free_block 0x200000 0x40000 # map small_block [0..<1012]"

definition full_heap :: kheap where
  "full_heap = demo_heap\<lparr>block_list := full_list @ replicate 10 zero_block, block_count := 1014,
     total_allocated := sum_list (map b_size (allocated_blocks full_list))\<rparr>"

lemma small_block_at:
  assumes "k < 1012"
  shows "unat (b_addr (small_block k)) = 0x800000 + 16 * k" and "b_end (small_block k) = 0x800010 + 16 * k"
    and "proper (small_block k)"
proof -
  show a: "unat (b_addr (small_block k)) = 0x800000 + 16 * k"
    unfolding small_block_def mem_block.simps unat_of_nat using assms by simp
  show e: "b_end (small_block k) = 0x800010 + 16 * k" using a by (simp add: b_end_def) (simp add: small_block_def)
  have "b_addr (small_block k) \<noteq> 0" using a by (metis add_is_0 unat_0 zero_neq_numeral)
  then show "proper (small_block k)" using e assms by (simp add: proper_def) (simp add: small_block_def)
qed

lemma full_list_ok: "in_order full_list"
proof -
  have "sorted_wrt below (map small_block [0..<1012])"
    unfolding sorted_wrt_map by (rule sorted_wrt_mono_rel [OF _ sorted_wrt_upt]) (auto simp: below_def small_block_at)
  moreover have "below (free_block 0x200000 0x40000) (small_block k)" "below (free_block 0x100000 0x20000) (small_block k)" if "k < 1012" for k
    using small_block_at(1) [OF that] by (simp_all add: below_def b_end_def free_block_def)
  ultimately show ?thesis
    by (auto simp: in_order_def full_list_def small_block_at) (simp_all add: below_def proper_def b_end_def free_block_def)
qed

lemma full_heap_ok:
  "heap_ok full_heap" "block_capacity full_heap = 1024" "block_count full_heap = 1014" "\<not> on_heap full_heap"
  "blocks full_heap = free_block 0x100000 0x20000 # free_block 0x200000 0x40000 # map small_block [0..<1012]"
proof -
  have n: "length full_list = 1014" by (simp add: full_list_def)
  have b: "blocks full_heap = full_list" using n by (simp add: blocks_def full_heap_def)
  show "heap_ok full_heap" using n full_list_ok b by (simp add: heap_ok_def sized_def) (simp add: full_heap_def)
  show "block_capacity full_heap = 1024" "block_count full_heap = 1014" "\<not> on_heap full_heap"
    using n by (simp_all add: full_heap_def demo_heap_def)
  show "blocks full_heap = free_block 0x100000 0x20000 # free_block 0x200000 0x40000 # map small_block [0..<1012]"
    using b by (simp add: full_list_def)
qed

theorem growth_breaks_order_witness:
  "\<exists>h'. kmalloc_locked 0x30000 8 full_heap = Some (0x200000, h') \<and> \<not> in_order (blocks h')"
  using growth_breaks_order [where sz = "0x30000", OF full_heap_ok(1,2) _ _ full_heap_ok(4,5)]
  by (simp add: full_heap_ok(3) round8_def)

end
