(* ===== verification/BosKeyboard.thy ===== *)
theory BosKeyboard
  imports PortIO
begin

text \<open>
  The keyboard of BoredOS (\<^verbatim>\<open>input/keyboard.c\<close>, \<^verbatim>\<open>input/keymap.c\<close>): scan codes of set 1 become key codes, key
  codes the events with the modifiers held, and the four layouts with their dead keys give the text.

  A static table with designated initialisers is an association list, in which a missing place
  reads as zeros. A result \<open>None\<close> is an access outside \<^verbatim>\<open>g_layouts\<close>. The event a caller passes to be
  filled is always there.
\<close>

section \<open>Key codes\<close>

abbreviation KEY_NONE :: u16 where
  "KEY_NONE \<equiv> 0"

abbreviation KEY_ESC :: u16 where
  "KEY_ESC \<equiv> 1"

abbreviation KEY_1 :: u16 where
  "KEY_1 \<equiv> 2"

abbreviation KEY_2 :: u16 where
  "KEY_2 \<equiv> 3"

abbreviation KEY_3 :: u16 where
  "KEY_3 \<equiv> 4"

abbreviation KEY_4 :: u16 where
  "KEY_4 \<equiv> 5"

abbreviation KEY_5 :: u16 where
  "KEY_5 \<equiv> 6"

abbreviation KEY_6 :: u16 where
  "KEY_6 \<equiv> 7"

abbreviation KEY_7 :: u16 where
  "KEY_7 \<equiv> 8"

abbreviation KEY_8 :: u16 where
  "KEY_8 \<equiv> 9"

abbreviation KEY_9 :: u16 where
  "KEY_9 \<equiv> 10"

abbreviation KEY_0 :: u16 where
  "KEY_0 \<equiv> 11"

abbreviation KEY_MINUS :: u16 where
  "KEY_MINUS \<equiv> 12"

abbreviation KEY_EQUAL :: u16 where
  "KEY_EQUAL \<equiv> 13"

abbreviation KEY_BACKSPACE :: u16 where
  "KEY_BACKSPACE \<equiv> 14"

abbreviation KEY_TAB :: u16 where
  "KEY_TAB \<equiv> 15"

abbreviation KEY_Q :: u16 where
  "KEY_Q \<equiv> 16"

abbreviation KEY_W :: u16 where
  "KEY_W \<equiv> 17"

abbreviation KEY_E :: u16 where
  "KEY_E \<equiv> 18"

abbreviation KEY_R :: u16 where
  "KEY_R \<equiv> 19"

abbreviation KEY_T :: u16 where
  "KEY_T \<equiv> 20"

abbreviation KEY_Y :: u16 where
  "KEY_Y \<equiv> 21"

abbreviation KEY_U :: u16 where
  "KEY_U \<equiv> 22"

abbreviation KEY_I :: u16 where
  "KEY_I \<equiv> 23"

abbreviation KEY_O :: u16 where
  "KEY_O \<equiv> 24"

abbreviation KEY_P :: u16 where
  "KEY_P \<equiv> 25"

abbreviation KEY_LBRACKET :: u16 where
  "KEY_LBRACKET \<equiv> 26"

abbreviation KEY_RBRACKET :: u16 where
  "KEY_RBRACKET \<equiv> 27"

abbreviation KEY_ENTER :: u16 where
  "KEY_ENTER \<equiv> 28"

abbreviation KEY_LEFT_CTRL :: u16 where
  "KEY_LEFT_CTRL \<equiv> 29"

abbreviation KEY_A :: u16 where
  "KEY_A \<equiv> 30"

abbreviation KEY_S :: u16 where
  "KEY_S \<equiv> 31"

abbreviation KEY_D :: u16 where
  "KEY_D \<equiv> 32"

abbreviation KEY_F :: u16 where
  "KEY_F \<equiv> 33"

abbreviation KEY_G :: u16 where
  "KEY_G \<equiv> 34"

abbreviation KEY_H :: u16 where
  "KEY_H \<equiv> 35"

abbreviation KEY_J :: u16 where
  "KEY_J \<equiv> 36"

abbreviation KEY_K :: u16 where
  "KEY_K \<equiv> 37"

abbreviation KEY_L :: u16 where
  "KEY_L \<equiv> 38"

abbreviation KEY_SEMICOLON :: u16 where
  "KEY_SEMICOLON \<equiv> 39"

abbreviation KEY_APOSTROPHE :: u16 where
  "KEY_APOSTROPHE \<equiv> 40"

abbreviation KEY_GRAVE :: u16 where
  "KEY_GRAVE \<equiv> 41"

abbreviation KEY_LEFT_SHIFT :: u16 where
  "KEY_LEFT_SHIFT \<equiv> 42"

abbreviation KEY_BACKSLASH :: u16 where
  "KEY_BACKSLASH \<equiv> 43"

abbreviation KEY_Z :: u16 where
  "KEY_Z \<equiv> 44"

abbreviation KEY_X :: u16 where
  "KEY_X \<equiv> 45"

abbreviation KEY_C :: u16 where
  "KEY_C \<equiv> 46"

abbreviation KEY_V :: u16 where
  "KEY_V \<equiv> 47"

abbreviation KEY_B :: u16 where
  "KEY_B \<equiv> 48"

abbreviation KEY_N :: u16 where
  "KEY_N \<equiv> 49"

abbreviation KEY_M :: u16 where
  "KEY_M \<equiv> 50"

abbreviation KEY_COMMA :: u16 where
  "KEY_COMMA \<equiv> 51"

abbreviation KEY_DOT :: u16 where
  "KEY_DOT \<equiv> 52"

abbreviation KEY_SLASH :: u16 where
  "KEY_SLASH \<equiv> 53"

abbreviation KEY_RIGHT_SHIFT :: u16 where
  "KEY_RIGHT_SHIFT \<equiv> 54"

abbreviation KEY_KP_STAR :: u16 where
  "KEY_KP_STAR \<equiv> 55"

abbreviation KEY_LEFT_ALT :: u16 where
  "KEY_LEFT_ALT \<equiv> 56"

abbreviation KEY_SPACE :: u16 where
  "KEY_SPACE \<equiv> 57"

abbreviation KEY_CAPS_LOCK :: u16 where
  "KEY_CAPS_LOCK \<equiv> 58"

abbreviation KEY_F1 :: u16 where
  "KEY_F1 \<equiv> 59"

abbreviation KEY_F2 :: u16 where
  "KEY_F2 \<equiv> 60"

abbreviation KEY_F3 :: u16 where
  "KEY_F3 \<equiv> 61"

abbreviation KEY_F4 :: u16 where
  "KEY_F4 \<equiv> 62"

abbreviation KEY_F5 :: u16 where
  "KEY_F5 \<equiv> 63"

abbreviation KEY_F6 :: u16 where
  "KEY_F6 \<equiv> 64"

abbreviation KEY_F7 :: u16 where
  "KEY_F7 \<equiv> 65"

abbreviation KEY_F8 :: u16 where
  "KEY_F8 \<equiv> 66"

abbreviation KEY_F9 :: u16 where
  "KEY_F9 \<equiv> 67"

abbreviation KEY_F10 :: u16 where
  "KEY_F10 \<equiv> 68"

abbreviation KEY_NUM_LOCK :: u16 where
  "KEY_NUM_LOCK \<equiv> 69"

abbreviation KEY_SCROLL_LOCK :: u16 where
  "KEY_SCROLL_LOCK \<equiv> 70"

abbreviation KEY_KP_7 :: u16 where
  "KEY_KP_7 \<equiv> 71"

abbreviation KEY_KP_8 :: u16 where
  "KEY_KP_8 \<equiv> 72"

abbreviation KEY_KP_9 :: u16 where
  "KEY_KP_9 \<equiv> 73"

abbreviation KEY_KP_MINUS :: u16 where
  "KEY_KP_MINUS \<equiv> 74"

abbreviation KEY_KP_4 :: u16 where
  "KEY_KP_4 \<equiv> 75"

abbreviation KEY_KP_5 :: u16 where
  "KEY_KP_5 \<equiv> 76"

abbreviation KEY_KP_6 :: u16 where
  "KEY_KP_6 \<equiv> 77"

abbreviation KEY_KP_PLUS :: u16 where
  "KEY_KP_PLUS \<equiv> 78"

abbreviation KEY_KP_1 :: u16 where
  "KEY_KP_1 \<equiv> 79"

abbreviation KEY_KP_2 :: u16 where
  "KEY_KP_2 \<equiv> 80"

abbreviation KEY_KP_3 :: u16 where
  "KEY_KP_3 \<equiv> 81"

abbreviation KEY_KP_0 :: u16 where
  "KEY_KP_0 \<equiv> 82"

abbreviation KEY_KP_DOT :: u16 where
  "KEY_KP_DOT \<equiv> 83"

abbreviation KEY_F11 :: u16 where
  "KEY_F11 \<equiv> 84"

abbreviation KEY_F12 :: u16 where
  "KEY_F12 \<equiv> 85"

abbreviation KEY_KP_ENTER :: u16 where
  "KEY_KP_ENTER \<equiv> 86"

abbreviation KEY_RIGHT_CTRL :: u16 where
  "KEY_RIGHT_CTRL \<equiv> 87"

abbreviation KEY_KP_SLASH :: u16 where
  "KEY_KP_SLASH \<equiv> 88"

abbreviation KEY_RIGHT_ALT :: u16 where
  "KEY_RIGHT_ALT \<equiv> 89"

abbreviation KEY_HOME :: u16 where
  "KEY_HOME \<equiv> 90"

abbreviation KEY_ARROW_UP :: u16 where
  "KEY_ARROW_UP \<equiv> 91"

abbreviation KEY_PAGE_UP :: u16 where
  "KEY_PAGE_UP \<equiv> 92"

abbreviation KEY_ARROW_LEFT :: u16 where
  "KEY_ARROW_LEFT \<equiv> 93"

abbreviation KEY_ARROW_RIGHT :: u16 where
  "KEY_ARROW_RIGHT \<equiv> 94"

abbreviation KEY_END :: u16 where
  "KEY_END \<equiv> 95"

abbreviation KEY_ARROW_DOWN :: u16 where
  "KEY_ARROW_DOWN \<equiv> 96"

abbreviation KEY_PAGE_DOWN :: u16 where
  "KEY_PAGE_DOWN \<equiv> 97"

abbreviation KEY_INSERT :: u16 where
  "KEY_INSERT \<equiv> 98"

abbreviation KEY_DELETE :: u16 where
  "KEY_DELETE \<equiv> 99"

abbreviation KEY_MAX :: u16 where
  "KEY_MAX \<equiv> 100"

abbreviation KB_MOD_SHIFT :: u32 where
  "KB_MOD_SHIFT \<equiv> 0x0001"

abbreviation KB_MOD_CTRL :: u32 where
  "KB_MOD_CTRL \<equiv> 0x0002"

abbreviation KB_MOD_ALT :: u32 where
  "KB_MOD_ALT \<equiv> 0x0004"

abbreviation KB_MOD_ALTGR :: u32 where
  "KB_MOD_ALTGR \<equiv> 0x0008"

abbreviation KB_MOD_CAPS :: u32 where
  "KB_MOD_CAPS \<equiv> 0x0010"

abbreviation KB_MOD_NUM :: u32 where
  "KB_MOD_NUM \<equiv> 0x0020"

abbreviation KB_MOD_SCROLL :: u32 where
  "KB_MOD_SCROLL \<equiv> 0x0040"

section \<open>Scan codes\<close>

text \<open>The tables of the scan codes without and with the prefix E0.\<close>

definition set1_base :: "(u8 \<times> u16) list" where
  "set1_base = [
     (0x01, KEY_ESC), (0x02, KEY_1), (0x03, KEY_2), (0x04, KEY_3), (0x05, KEY_4), (0x06, KEY_5), (0x07, KEY_6),
     (0x08, KEY_7), (0x09, KEY_8), (0x0A, KEY_9), (0x0B, KEY_0), (0x0C, KEY_MINUS), (0x0D, KEY_EQUAL),
     (0x0E, KEY_BACKSPACE), (0x0F, KEY_TAB), (0x10, KEY_Q), (0x11, KEY_W), (0x12, KEY_E), (0x13, KEY_R),
     (0x14, KEY_T), (0x15, KEY_Y), (0x16, KEY_U), (0x17, KEY_I), (0x18, KEY_O), (0x19, KEY_P), (0x1A, KEY_LBRACKET),
     (0x1B, KEY_RBRACKET), (0x1C, KEY_ENTER), (0x1D, KEY_LEFT_CTRL), (0x1E, KEY_A), (0x1F, KEY_S), (0x20, KEY_D),
     (0x21, KEY_F), (0x22, KEY_G), (0x23, KEY_H), (0x24, KEY_J), (0x25, KEY_K), (0x26, KEY_L), (0x27, KEY_SEMICOLON),
     (0x28, KEY_APOSTROPHE), (0x29, KEY_GRAVE), (0x2A, KEY_LEFT_SHIFT), (0x2B, KEY_BACKSLASH), (0x2C, KEY_Z),
     (0x2D, KEY_X), (0x2E, KEY_C), (0x2F, KEY_V), (0x30, KEY_B), (0x31, KEY_N), (0x32, KEY_M), (0x33, KEY_COMMA),
     (0x34, KEY_DOT), (0x35, KEY_SLASH), (0x36, KEY_RIGHT_SHIFT), (0x37, KEY_KP_STAR), (0x38, KEY_LEFT_ALT),
     (0x39, KEY_SPACE), (0x3A, KEY_CAPS_LOCK), (0x3B, KEY_F1), (0x3C, KEY_F2), (0x3D, KEY_F3), (0x3E, KEY_F4),
     (0x3F, KEY_F5), (0x40, KEY_F6), (0x41, KEY_F7), (0x42, KEY_F8), (0x43, KEY_F9), (0x44, KEY_F10),
     (0x45, KEY_NUM_LOCK), (0x46, KEY_SCROLL_LOCK), (0x47, KEY_KP_7), (0x48, KEY_KP_8), (0x49, KEY_KP_9),
     (0x4A, KEY_KP_MINUS), (0x4B, KEY_KP_4), (0x4C, KEY_KP_5), (0x4D, KEY_KP_6), (0x4E, KEY_KP_PLUS),
     (0x4F, KEY_KP_1), (0x50, KEY_KP_2), (0x51, KEY_KP_3), (0x52, KEY_KP_0), (0x53, KEY_KP_DOT), (0x57, KEY_F11),
     (0x58, KEY_F12)]"

definition set1_ext :: "(u8 \<times> u16) list" where
  "set1_ext = [
     (0x1C, KEY_KP_ENTER), (0x1D, KEY_RIGHT_CTRL), (0x35, KEY_KP_SLASH), (0x38, KEY_RIGHT_ALT), (0x47, KEY_HOME),
     (0x48, KEY_ARROW_UP), (0x49, KEY_PAGE_UP), (0x4B, KEY_ARROW_LEFT), (0x4D, KEY_ARROW_RIGHT), (0x4F, KEY_END),
     (0x50, KEY_ARROW_DOWN), (0x51, KEY_PAGE_DOWN), (0x52, KEY_INSERT), (0x53, KEY_DELETE)]"

definition table_key :: "(u8 \<times> u16) list \<Rightarrow> u8 \<Rightarrow> u16" where
  "table_key t sc = (case map_of t sc of None \<Rightarrow> KEY_NONE | Some k \<Rightarrow> k)"

definition keyboard_keycode_from_set1 :: "u8 \<Rightarrow> bool \<Rightarrow> u16" where
  "keyboard_keycode_from_set1 scancode extended =
     (if scancode \<ge> 128 then KEY_NONE
      else if extended then table_key set1_ext scancode else table_key set1_base scancode)"

section \<open>Layouts\<close>

record keymap_entry =
  ke_normal :: u32
  ke_shift :: u32
  ke_altgr :: u32
  ke_shift_altgr :: u32
  ke_dead_mask :: u8
  ke_alpha :: bool

definition key_entry :: "u32 \<Rightarrow> u32 \<Rightarrow> u32 \<Rightarrow> u32 \<Rightarrow> u8 \<Rightarrow> bool \<Rightarrow> keymap_entry" where
  "key_entry n s a sa dead alpha =
     \<lparr>ke_normal = n, ke_shift = s, ke_altgr = a, ke_shift_altgr = sa, ke_dead_mask = dead, ke_alpha = alpha\<rparr>"

abbreviation DEAD_NORMAL :: u8 where
  "DEAD_NORMAL \<equiv> 1"

abbreviation DEAD_SHIFT :: u8 where
  "DEAD_SHIFT \<equiv> 2"

abbreviation DEAD_ALTGR :: u8 where
  "DEAD_ALTGR \<equiv> 4"

abbreviation DEAD_SHIFT_ALTGR :: u8 where
  "DEAD_SHIFT_ALTGR \<equiv> 8"

text \<open>The code point of a character literal.\<close>

abbreviation ch :: "char \<Rightarrow> u32" where
  "ch c \<equiv> of_char c"

type_synonym keyboard_layout = "string \<times> (u16 \<times> keymap_entry) list"

definition layout_qwerty :: keyboard_layout where
  "layout_qwerty = (''QWERTY (US)'', [
     (KEY_1, key_entry (ch CHR ''1'') (ch CHR ''!'') 0 0 0 False),
     (KEY_2, key_entry (ch CHR ''2'') (ch CHR ''@'') 0 0 0 False),
     (KEY_3, key_entry (ch CHR ''3'') (ch CHR ''#'') 0 0 0 False),
     (KEY_4, key_entry (ch CHR ''4'') (ch CHR ''$'') 0 0 0 False),
     (KEY_5, key_entry (ch CHR ''5'') (ch CHR ''%'') 0 0 0 False),
     (KEY_6, key_entry (ch CHR ''6'') (ch CHR ''^'') 0 0 0 False),
     (KEY_7, key_entry (ch CHR ''7'') (ch CHR ''&'') 0 0 0 False),
     (KEY_8, key_entry (ch CHR ''8'') (ch CHR ''*'') 0 0 0 False),
     (KEY_9, key_entry (ch CHR ''9'') (ch CHR ''('') 0 0 0 False),
     (KEY_0, key_entry (ch CHR ''0'') (ch CHR '')'') 0 0 0 False),
     (KEY_MINUS, key_entry (ch CHR ''-'') (ch CHR ''_'') 0 0 0 False),
     (KEY_EQUAL, key_entry (ch CHR ''='') (ch CHR ''+'') 0 0 0 False),
     (KEY_Q, key_entry (ch CHR ''q'') (ch CHR ''Q'') 0 0 0 True),
     (KEY_W, key_entry (ch CHR ''w'') (ch CHR ''W'') 0 0 0 True),
     (KEY_E, key_entry (ch CHR ''e'') (ch CHR ''E'') 0 0 0 True),
     (KEY_R, key_entry (ch CHR ''r'') (ch CHR ''R'') 0 0 0 True),
     (KEY_T, key_entry (ch CHR ''t'') (ch CHR ''T'') 0 0 0 True),
     (KEY_Y, key_entry (ch CHR ''y'') (ch CHR ''Y'') 0 0 0 True),
     (KEY_U, key_entry (ch CHR ''u'') (ch CHR ''U'') 0 0 0 True),
     (KEY_I, key_entry (ch CHR ''i'') (ch CHR ''I'') 0 0 0 True),
     (KEY_O, key_entry (ch CHR ''o'') (ch CHR ''O'') 0 0 0 True),
     (KEY_P, key_entry (ch CHR ''p'') (ch CHR ''P'') 0 0 0 True),
     (KEY_LBRACKET, key_entry (ch CHR ''['') (ch CHR ''{'') 0 0 0 False),
     (KEY_RBRACKET, key_entry (ch CHR '']'') (ch CHR ''}'') 0 0 0 False),
     (KEY_A, key_entry (ch CHR ''a'') (ch CHR ''A'') 0 0 0 True),
     (KEY_S, key_entry (ch CHR ''s'') (ch CHR ''S'') 0 0 0 True),
     (KEY_D, key_entry (ch CHR ''d'') (ch CHR ''D'') 0 0 0 True),
     (KEY_F, key_entry (ch CHR ''f'') (ch CHR ''F'') 0 0 0 True),
     (KEY_G, key_entry (ch CHR ''g'') (ch CHR ''G'') 0 0 0 True),
     (KEY_H, key_entry (ch CHR ''h'') (ch CHR ''H'') 0 0 0 True),
     (KEY_J, key_entry (ch CHR ''j'') (ch CHR ''J'') 0 0 0 True),
     (KEY_K, key_entry (ch CHR ''k'') (ch CHR ''K'') 0 0 0 True),
     (KEY_L, key_entry (ch CHR ''l'') (ch CHR ''L'') 0 0 0 True),
     (KEY_SEMICOLON, key_entry (ch CHR '';'') (ch CHR '':'') 0 0 0 False),
     (KEY_APOSTROPHE, key_entry 0x27 0x22 0 0 0 False), (KEY_GRAVE, key_entry 0x60 (ch CHR ''~'') 0 0 0 False),
     (KEY_BACKSLASH, key_entry 0x5C (ch CHR ''|'') 0 0 0 False),
     (KEY_Z, key_entry (ch CHR ''z'') (ch CHR ''Z'') 0 0 0 True),
     (KEY_X, key_entry (ch CHR ''x'') (ch CHR ''X'') 0 0 0 True),
     (KEY_C, key_entry (ch CHR ''c'') (ch CHR ''C'') 0 0 0 True),
     (KEY_V, key_entry (ch CHR ''v'') (ch CHR ''V'') 0 0 0 True),
     (KEY_B, key_entry (ch CHR ''b'') (ch CHR ''B'') 0 0 0 True),
     (KEY_N, key_entry (ch CHR ''n'') (ch CHR ''N'') 0 0 0 True),
     (KEY_M, key_entry (ch CHR ''m'') (ch CHR ''M'') 0 0 0 True),
     (KEY_COMMA, key_entry (ch CHR '','') (ch CHR ''<'') 0 0 0 False),
     (KEY_DOT, key_entry (ch CHR ''.'') (ch CHR ''>'') 0 0 0 False),
     (KEY_SLASH, key_entry (ch CHR ''/'') (ch CHR ''?'') 0 0 0 False),
     (KEY_SPACE, key_entry (ch CHR '' '') (ch CHR '' '') 0 0 0 False),
     (KEY_KP_SLASH, key_entry (ch CHR ''/'') (ch CHR ''/'') 0 0 0 False),
     (KEY_KP_STAR, key_entry (ch CHR ''*'') (ch CHR ''*'') 0 0 0 False),
     (KEY_KP_MINUS, key_entry (ch CHR ''-'') (ch CHR ''-'') 0 0 0 False),
     (KEY_KP_PLUS, key_entry (ch CHR ''+'') (ch CHR ''+'') 0 0 0 False),
     (KEY_KP_DOT, key_entry (ch CHR ''.'') (ch CHR ''.'') 0 0 0 False),
     (KEY_KP_0, key_entry (ch CHR ''0'') (ch CHR ''0'') 0 0 0 False),
     (KEY_KP_1, key_entry (ch CHR ''1'') (ch CHR ''1'') 0 0 0 False),
     (KEY_KP_2, key_entry (ch CHR ''2'') (ch CHR ''2'') 0 0 0 False),
     (KEY_KP_3, key_entry (ch CHR ''3'') (ch CHR ''3'') 0 0 0 False),
     (KEY_KP_4, key_entry (ch CHR ''4'') (ch CHR ''4'') 0 0 0 False),
     (KEY_KP_5, key_entry (ch CHR ''5'') (ch CHR ''5'') 0 0 0 False),
     (KEY_KP_6, key_entry (ch CHR ''6'') (ch CHR ''6'') 0 0 0 False),
     (KEY_KP_7, key_entry (ch CHR ''7'') (ch CHR ''7'') 0 0 0 False),
     (KEY_KP_8, key_entry (ch CHR ''8'') (ch CHR ''8'') 0 0 0 False),
     (KEY_KP_9, key_entry (ch CHR ''9'') (ch CHR ''9'') 0 0 0 False)])"

definition layout_azerty :: keyboard_layout where
  "layout_azerty = (''AZERTY (FR)'', [
     (KEY_1, key_entry (ch CHR ''&'') (ch CHR ''1'') 0 0 0 False),
     (KEY_2, key_entry 0xE9 (ch CHR ''2'') (ch CHR ''~'') 0 0 False),
     (KEY_3, key_entry 0x22 (ch CHR ''3'') (ch CHR ''#'') 0 0 False),
     (KEY_4, key_entry 0x27 (ch CHR ''4'') (ch CHR ''{'') 0 0 False),
     (KEY_5, key_entry (ch CHR ''('') (ch CHR ''5'') (ch CHR ''['') 0 0 False),
     (KEY_6, key_entry (ch CHR ''-'') (ch CHR ''6'') (ch CHR ''|'') 0 0 False),
     (KEY_7, key_entry 0xE8 (ch CHR ''7'') 0x60 0 0 False),
     (KEY_8, key_entry (ch CHR ''_'') (ch CHR ''8'') 0x5C 0 0 False),
     (KEY_9, key_entry 0xE7 (ch CHR ''9'') (ch CHR ''^'') 0 0 False),
     (KEY_0, key_entry 0xE0 (ch CHR ''0'') (ch CHR ''@'') 0 0 False),
     (KEY_MINUS, key_entry (ch CHR '')'') 0xB0 (ch CHR '']'') 0 0 False),
     (KEY_EQUAL, key_entry (ch CHR ''='') (ch CHR ''+'') (ch CHR ''}'') 0 0 False),
     (KEY_Q, key_entry (ch CHR ''a'') (ch CHR ''A'') 0 0 0 True),
     (KEY_W, key_entry (ch CHR ''z'') (ch CHR ''Z'') 0 0 0 True),
     (KEY_E, key_entry (ch CHR ''e'') (ch CHR ''E'') 0x20AC 0 0 True),
     (KEY_R, key_entry (ch CHR ''r'') (ch CHR ''R'') 0 0 0 True),
     (KEY_T, key_entry (ch CHR ''t'') (ch CHR ''T'') 0 0 0 True),
     (KEY_Y, key_entry (ch CHR ''y'') (ch CHR ''Y'') 0 0 0 True),
     (KEY_U, key_entry (ch CHR ''u'') (ch CHR ''U'') 0 0 0 True),
     (KEY_I, key_entry (ch CHR ''i'') (ch CHR ''I'') 0 0 0 True),
     (KEY_O, key_entry (ch CHR ''o'') (ch CHR ''O'') 0 0 0 True),
     (KEY_P, key_entry (ch CHR ''p'') (ch CHR ''P'') 0 0 0 True),
     (KEY_LBRACKET, key_entry (ch CHR ''^'') 0xA8 0 0 3 False),
     (KEY_RBRACKET, key_entry (ch CHR ''$'') 0xA3 0 0 0 False),
     (KEY_A, key_entry (ch CHR ''q'') (ch CHR ''Q'') 0 0 0 True),
     (KEY_S, key_entry (ch CHR ''s'') (ch CHR ''S'') 0 0 0 True),
     (KEY_D, key_entry (ch CHR ''d'') (ch CHR ''D'') 0 0 0 True),
     (KEY_F, key_entry (ch CHR ''f'') (ch CHR ''F'') 0 0 0 True),
     (KEY_G, key_entry (ch CHR ''g'') (ch CHR ''G'') 0 0 0 True),
     (KEY_H, key_entry (ch CHR ''h'') (ch CHR ''H'') 0 0 0 True),
     (KEY_J, key_entry (ch CHR ''j'') (ch CHR ''J'') 0 0 0 True),
     (KEY_K, key_entry (ch CHR ''k'') (ch CHR ''K'') 0 0 0 True),
     (KEY_L, key_entry (ch CHR ''l'') (ch CHR ''L'') 0 0 0 True),
     (KEY_SEMICOLON, key_entry (ch CHR ''m'') (ch CHR ''M'') 0 0 0 True),
     (KEY_APOSTROPHE, key_entry 0xF9 (ch CHR ''%'') 0 0 0 False), (KEY_GRAVE, key_entry 0xB2 0 0 0 0 False),
     (KEY_BACKSLASH, key_entry (ch CHR ''*'') 0xB5 0 0 0 False),
     (KEY_Z, key_entry (ch CHR ''w'') (ch CHR ''W'') 0 0 0 True),
     (KEY_X, key_entry (ch CHR ''x'') (ch CHR ''X'') 0 0 0 True),
     (KEY_C, key_entry (ch CHR ''c'') (ch CHR ''C'') 0 0 0 True),
     (KEY_V, key_entry (ch CHR ''v'') (ch CHR ''V'') 0 0 0 True),
     (KEY_B, key_entry (ch CHR ''b'') (ch CHR ''B'') 0 0 0 True),
     (KEY_N, key_entry (ch CHR ''n'') (ch CHR ''N'') 0 0 0 True),
     (KEY_M, key_entry (ch CHR '','') (ch CHR ''?'') 0 0 0 False),
     (KEY_COMMA, key_entry (ch CHR '';'') (ch CHR ''.'') 0 0 0 False),
     (KEY_DOT, key_entry (ch CHR '':'') (ch CHR ''/'') 0 0 0 False),
     (KEY_SLASH, key_entry (ch CHR ''!'') 0xA7 0 0 0 False),
     (KEY_SPACE, key_entry (ch CHR '' '') (ch CHR '' '') 0 0 0 False),
     (KEY_KP_SLASH, key_entry (ch CHR ''/'') (ch CHR ''/'') 0 0 0 False),
     (KEY_KP_STAR, key_entry (ch CHR ''*'') (ch CHR ''*'') 0 0 0 False),
     (KEY_KP_MINUS, key_entry (ch CHR ''-'') (ch CHR ''-'') 0 0 0 False),
     (KEY_KP_PLUS, key_entry (ch CHR ''+'') (ch CHR ''+'') 0 0 0 False),
     (KEY_KP_DOT, key_entry (ch CHR ''.'') (ch CHR ''.'') 0 0 0 False),
     (KEY_KP_0, key_entry (ch CHR ''0'') (ch CHR ''0'') 0 0 0 False),
     (KEY_KP_1, key_entry (ch CHR ''1'') (ch CHR ''1'') 0 0 0 False),
     (KEY_KP_2, key_entry (ch CHR ''2'') (ch CHR ''2'') 0 0 0 False),
     (KEY_KP_3, key_entry (ch CHR ''3'') (ch CHR ''3'') 0 0 0 False),
     (KEY_KP_4, key_entry (ch CHR ''4'') (ch CHR ''4'') 0 0 0 False),
     (KEY_KP_5, key_entry (ch CHR ''5'') (ch CHR ''5'') 0 0 0 False),
     (KEY_KP_6, key_entry (ch CHR ''6'') (ch CHR ''6'') 0 0 0 False),
     (KEY_KP_7, key_entry (ch CHR ''7'') (ch CHR ''7'') 0 0 0 False),
     (KEY_KP_8, key_entry (ch CHR ''8'') (ch CHR ''8'') 0 0 0 False),
     (KEY_KP_9, key_entry (ch CHR ''9'') (ch CHR ''9'') 0 0 0 False)])"

definition layout_qwertz :: keyboard_layout where
  "layout_qwertz = (''QWERTZ (DE)'', [
     (KEY_1, key_entry (ch CHR ''1'') (ch CHR ''!'') 0 0 0 False),
     (KEY_2, key_entry (ch CHR ''2'') 0x22 0xB2 0 0 False), (KEY_3, key_entry (ch CHR ''3'') 0xA7 0xB3 0 0 False),
     (KEY_4, key_entry (ch CHR ''4'') (ch CHR ''$'') 0 0 0 False),
     (KEY_5, key_entry (ch CHR ''5'') (ch CHR ''%'') 0 0 0 False),
     (KEY_6, key_entry (ch CHR ''6'') (ch CHR ''&'') 0 0 0 False),
     (KEY_7, key_entry (ch CHR ''7'') (ch CHR ''/'') (ch CHR ''{'') 0 0 False),
     (KEY_8, key_entry (ch CHR ''8'') (ch CHR ''('') (ch CHR ''['') 0 0 False),
     (KEY_9, key_entry (ch CHR ''9'') (ch CHR '')'') (ch CHR '']'') 0 0 False),
     (KEY_0, key_entry (ch CHR ''0'') (ch CHR ''='') (ch CHR ''}'') 0 0 False),
     (KEY_MINUS, key_entry 0xDF (ch CHR ''?'') 0x5C 0 0 False), (KEY_EQUAL, key_entry 0xB4 0x60 0 0 1 False),
     (KEY_Q, key_entry (ch CHR ''q'') (ch CHR ''Q'') (ch CHR ''@'') 0 0 True),
     (KEY_W, key_entry (ch CHR ''w'') (ch CHR ''W'') 0 0 0 True),
     (KEY_E, key_entry (ch CHR ''e'') (ch CHR ''E'') 0x20AC 0 0 True),
     (KEY_R, key_entry (ch CHR ''r'') (ch CHR ''R'') 0 0 0 True),
     (KEY_T, key_entry (ch CHR ''t'') (ch CHR ''T'') 0 0 0 True),
     (KEY_Y, key_entry (ch CHR ''z'') (ch CHR ''Z'') 0 0 0 True),
     (KEY_U, key_entry (ch CHR ''u'') (ch CHR ''U'') 0 0 0 True),
     (KEY_I, key_entry (ch CHR ''i'') (ch CHR ''I'') 0 0 0 True),
     (KEY_O, key_entry (ch CHR ''o'') (ch CHR ''O'') 0 0 0 True),
     (KEY_P, key_entry (ch CHR ''p'') (ch CHR ''P'') 0 0 0 True), (KEY_LBRACKET, key_entry 0xFC 0xDC 0 0 0 True),
     (KEY_RBRACKET, key_entry (ch CHR ''+'') (ch CHR ''*'') (ch CHR ''~'') 0 0 False),
     (KEY_A, key_entry (ch CHR ''a'') (ch CHR ''A'') 0 0 0 True),
     (KEY_S, key_entry (ch CHR ''s'') (ch CHR ''S'') 0 0 0 True),
     (KEY_D, key_entry (ch CHR ''d'') (ch CHR ''D'') 0 0 0 True),
     (KEY_F, key_entry (ch CHR ''f'') (ch CHR ''F'') 0 0 0 True),
     (KEY_G, key_entry (ch CHR ''g'') (ch CHR ''G'') 0 0 0 True),
     (KEY_H, key_entry (ch CHR ''h'') (ch CHR ''H'') 0 0 0 True),
     (KEY_J, key_entry (ch CHR ''j'') (ch CHR ''J'') 0 0 0 True),
     (KEY_K, key_entry (ch CHR ''k'') (ch CHR ''K'') 0 0 0 True),
     (KEY_L, key_entry (ch CHR ''l'') (ch CHR ''L'') 0 0 0 True), (KEY_SEMICOLON, key_entry 0xF6 0xD6 0 0 0 True),
     (KEY_APOSTROPHE, key_entry 0xE4 0xC4 0 0 0 True), (KEY_GRAVE, key_entry (ch CHR ''^'') 0xB0 0 0 1 False),
     (KEY_BACKSLASH, key_entry (ch CHR ''#'') 0x27 0 0 0 False),
     (KEY_Z, key_entry (ch CHR ''y'') (ch CHR ''Y'') 0 0 0 True),
     (KEY_X, key_entry (ch CHR ''x'') (ch CHR ''X'') 0 0 0 True),
     (KEY_C, key_entry (ch CHR ''c'') (ch CHR ''C'') 0 0 0 True),
     (KEY_V, key_entry (ch CHR ''v'') (ch CHR ''V'') 0 0 0 True),
     (KEY_B, key_entry (ch CHR ''b'') (ch CHR ''B'') 0 0 0 True),
     (KEY_N, key_entry (ch CHR ''n'') (ch CHR ''N'') 0 0 0 True),
     (KEY_M, key_entry (ch CHR ''m'') (ch CHR ''M'') 0 0 0 True),
     (KEY_COMMA, key_entry (ch CHR '','') (ch CHR '';'') 0 0 0 False),
     (KEY_DOT, key_entry (ch CHR ''.'') (ch CHR '':'') 0 0 0 False),
     (KEY_SLASH, key_entry (ch CHR ''-'') (ch CHR ''_'') 0 0 0 False),
     (KEY_SPACE, key_entry (ch CHR '' '') (ch CHR '' '') 0 0 0 False),
     (KEY_KP_SLASH, key_entry (ch CHR ''/'') (ch CHR ''/'') 0 0 0 False),
     (KEY_KP_STAR, key_entry (ch CHR ''*'') (ch CHR ''*'') 0 0 0 False),
     (KEY_KP_MINUS, key_entry (ch CHR ''-'') (ch CHR ''-'') 0 0 0 False),
     (KEY_KP_PLUS, key_entry (ch CHR ''+'') (ch CHR ''+'') 0 0 0 False),
     (KEY_KP_DOT, key_entry (ch CHR ''.'') (ch CHR ''.'') 0 0 0 False),
     (KEY_KP_0, key_entry (ch CHR ''0'') (ch CHR ''0'') 0 0 0 False),
     (KEY_KP_1, key_entry (ch CHR ''1'') (ch CHR ''1'') 0 0 0 False),
     (KEY_KP_2, key_entry (ch CHR ''2'') (ch CHR ''2'') 0 0 0 False),
     (KEY_KP_3, key_entry (ch CHR ''3'') (ch CHR ''3'') 0 0 0 False),
     (KEY_KP_4, key_entry (ch CHR ''4'') (ch CHR ''4'') 0 0 0 False),
     (KEY_KP_5, key_entry (ch CHR ''5'') (ch CHR ''5'') 0 0 0 False),
     (KEY_KP_6, key_entry (ch CHR ''6'') (ch CHR ''6'') 0 0 0 False),
     (KEY_KP_7, key_entry (ch CHR ''7'') (ch CHR ''7'') 0 0 0 False),
     (KEY_KP_8, key_entry (ch CHR ''8'') (ch CHR ''8'') 0 0 0 False),
     (KEY_KP_9, key_entry (ch CHR ''9'') (ch CHR ''9'') 0 0 0 False)])"

definition layout_dvorak :: keyboard_layout where
  "layout_dvorak = (''DVORAK'', [
     (KEY_1, key_entry (ch CHR ''1'') (ch CHR ''!'') 0 0 0 False),
     (KEY_2, key_entry (ch CHR ''2'') (ch CHR ''@'') 0 0 0 False),
     (KEY_3, key_entry (ch CHR ''3'') (ch CHR ''#'') 0 0 0 False),
     (KEY_4, key_entry (ch CHR ''4'') (ch CHR ''$'') 0 0 0 False),
     (KEY_5, key_entry (ch CHR ''5'') (ch CHR ''%'') 0 0 0 False),
     (KEY_6, key_entry (ch CHR ''6'') (ch CHR ''^'') 0 0 0 False),
     (KEY_7, key_entry (ch CHR ''7'') (ch CHR ''&'') 0 0 0 False),
     (KEY_8, key_entry (ch CHR ''8'') (ch CHR ''*'') 0 0 0 False),
     (KEY_9, key_entry (ch CHR ''9'') (ch CHR ''('') 0 0 0 False),
     (KEY_0, key_entry (ch CHR ''0'') (ch CHR '')'') 0 0 0 False),
     (KEY_MINUS, key_entry (ch CHR ''['') (ch CHR ''{'') 0 0 0 False),
     (KEY_EQUAL, key_entry (ch CHR '']'') (ch CHR ''}'') 0 0 0 False), (KEY_Q, key_entry 0x27 0x22 0 0 0 False),
     (KEY_W, key_entry (ch CHR '','') (ch CHR ''<'') 0 0 0 False),
     (KEY_E, key_entry (ch CHR ''.'') (ch CHR ''>'') 0 0 0 False),
     (KEY_R, key_entry (ch CHR ''p'') (ch CHR ''P'') 0 0 0 True),
     (KEY_T, key_entry (ch CHR ''y'') (ch CHR ''Y'') 0 0 0 True),
     (KEY_Y, key_entry (ch CHR ''f'') (ch CHR ''F'') 0 0 0 True),
     (KEY_U, key_entry (ch CHR ''g'') (ch CHR ''G'') 0 0 0 True),
     (KEY_I, key_entry (ch CHR ''c'') (ch CHR ''C'') 0 0 0 True),
     (KEY_O, key_entry (ch CHR ''r'') (ch CHR ''R'') 0 0 0 True),
     (KEY_P, key_entry (ch CHR ''l'') (ch CHR ''L'') 0 0 0 True),
     (KEY_LBRACKET, key_entry (ch CHR ''/'') (ch CHR ''?'') 0 0 0 False),
     (KEY_RBRACKET, key_entry (ch CHR ''='') (ch CHR ''+'') 0 0 0 False),
     (KEY_A, key_entry (ch CHR ''a'') (ch CHR ''A'') 0 0 0 True),
     (KEY_S, key_entry (ch CHR ''o'') (ch CHR ''O'') 0 0 0 True),
     (KEY_D, key_entry (ch CHR ''e'') (ch CHR ''E'') 0 0 0 True),
     (KEY_F, key_entry (ch CHR ''u'') (ch CHR ''U'') 0 0 0 True),
     (KEY_G, key_entry (ch CHR ''i'') (ch CHR ''I'') 0 0 0 True),
     (KEY_H, key_entry (ch CHR ''d'') (ch CHR ''D'') 0 0 0 True),
     (KEY_J, key_entry (ch CHR ''h'') (ch CHR ''H'') 0 0 0 True),
     (KEY_K, key_entry (ch CHR ''t'') (ch CHR ''T'') 0 0 0 True),
     (KEY_L, key_entry (ch CHR ''n'') (ch CHR ''N'') 0 0 0 True),
     (KEY_SEMICOLON, key_entry (ch CHR ''s'') (ch CHR ''S'') 0 0 0 True),
     (KEY_APOSTROPHE, key_entry (ch CHR ''-'') (ch CHR ''_'') 0 0 0 False),
     (KEY_GRAVE, key_entry 0x60 (ch CHR ''~'') 0 0 0 False),
     (KEY_BACKSLASH, key_entry 0x5C (ch CHR ''|'') 0 0 0 False),
     (KEY_Z, key_entry (ch CHR '';'') (ch CHR '':'') 0 0 0 False),
     (KEY_X, key_entry (ch CHR ''q'') (ch CHR ''Q'') 0 0 0 True),
     (KEY_C, key_entry (ch CHR ''j'') (ch CHR ''J'') 0 0 0 True),
     (KEY_V, key_entry (ch CHR ''k'') (ch CHR ''K'') 0 0 0 True),
     (KEY_B, key_entry (ch CHR ''x'') (ch CHR ''X'') 0 0 0 True),
     (KEY_N, key_entry (ch CHR ''b'') (ch CHR ''B'') 0 0 0 True),
     (KEY_M, key_entry (ch CHR ''m'') (ch CHR ''M'') 0 0 0 True),
     (KEY_COMMA, key_entry (ch CHR ''w'') (ch CHR ''W'') 0 0 0 True),
     (KEY_DOT, key_entry (ch CHR ''v'') (ch CHR ''V'') 0 0 0 True),
     (KEY_SLASH, key_entry (ch CHR ''z'') (ch CHR ''Z'') 0 0 0 True),
     (KEY_SPACE, key_entry (ch CHR '' '') (ch CHR '' '') 0 0 0 False)])"

definition g_layouts :: "keyboard_layout list" where
  "g_layouts = [layout_qwerty, layout_azerty, layout_qwertz, layout_dvorak]"

definition layout_key :: "keyboard_layout \<Rightarrow> u16 \<Rightarrow> keymap_entry" where
  "layout_key l k = (case map_of (snd l) k of None \<Rightarrow> key_entry 0 0 0 0 0 False | Some e \<Rightarrow> e)"

text \<open>The dead key, the base character and what they give together; the last row ends the table.\<close>

definition g_compose_table :: "(u32 \<times> u32 \<times> u32) list" where
  "g_compose_table = [
     ((ch CHR ''^''), (ch CHR ''a''), 0xE2), ((ch CHR ''^''), (ch CHR ''e''), 0xEA),
     ((ch CHR ''^''), (ch CHR ''i''), 0xEE), ((ch CHR ''^''), (ch CHR ''o''), 0xF4),
     ((ch CHR ''^''), (ch CHR ''u''), 0xFB), ((ch CHR ''^''), (ch CHR ''A''), 0xC2),
     ((ch CHR ''^''), (ch CHR ''E''), 0xCA), ((ch CHR ''^''), (ch CHR ''I''), 0xCE),
     ((ch CHR ''^''), (ch CHR ''O''), 0xD4), ((ch CHR ''^''), (ch CHR ''U''), 0xDB), (0xA8, (ch CHR ''a''), 0xE4),
     (0xA8, (ch CHR ''e''), 0xEB), (0xA8, (ch CHR ''i''), 0xEF), (0xA8, (ch CHR ''o''), 0xF6),
     (0xA8, (ch CHR ''u''), 0xFC), (0xA8, (ch CHR ''y''), 0xFF), (0xA8, (ch CHR ''A''), 0xC4),
     (0xA8, (ch CHR ''E''), 0xCB), (0xA8, (ch CHR ''I''), 0xCF), (0xA8, (ch CHR ''O''), 0xD6),
     (0xA8, (ch CHR ''U''), 0xDC), (0xB4, (ch CHR ''a''), 0xE1), (0xB4, (ch CHR ''e''), 0xE9),
     (0xB4, (ch CHR ''i''), 0xED), (0xB4, (ch CHR ''o''), 0xF3), (0xB4, (ch CHR ''u''), 0xFA),
     (0xB4, (ch CHR ''A''), 0xC1), (0xB4, (ch CHR ''E''), 0xC9), (0xB4, (ch CHR ''I''), 0xCD),
     (0xB4, (ch CHR ''O''), 0xD3), (0xB4, (ch CHR ''U''), 0xDA), (0x60, (ch CHR ''a''), 0xE0),
     (0x60, (ch CHR ''e''), 0xE8), (0x60, (ch CHR ''i''), 0xEC), (0x60, (ch CHR ''o''), 0xF2),
     (0x60, (ch CHR ''u''), 0xF9), (0, 0, 0)]"

fun compose_in :: "(u32 \<times> u32 \<times> u32) list \<Rightarrow> u32 \<Rightarrow> u32 \<Rightarrow> u32" where
  "compose_in [] dead base = 0"
| "compose_in ((d, b, r) # rows) dead base =
     (if d = 0 then 0 else if d = dead \<and> b = base then r else compose_in rows dead base)"

definition keymap_compose :: "u32 \<Rightarrow> u32 \<Rightarrow> u32" where
  "keymap_compose dead_codepoint base_codepoint = compose_in g_compose_table dead_codepoint base_codepoint"

section \<open>Translation\<close>

record keymap_result =
  r_codepoint :: u32
  r_is_text :: bool
  r_is_dead :: bool

record keymap =
  g_current :: nat
  g_active_dead :: u32

definition keymap_boot :: keymap where
  "keymap_boot = \<lparr>g_current = 0, g_active_dead = 0\<rparr>"

definition keymap_init :: "keymap \<Rightarrow> keymap" where
  "keymap_init km = km\<lparr>g_current := 0\<rparr>"

definition keymap_get_count :: int where
  "keymap_get_count = int (length g_layouts)"

definition keymap_set_current :: "int \<Rightarrow> keymap \<Rightarrow> keymap" where
  "keymap_set_current i km = (if i < 0 \<or> i \<ge> keymap_get_count then km else km\<lparr>g_current := nat i\<rparr>)"

definition keymap_get_current :: "keymap \<Rightarrow> nat" where
  "keymap_get_current km = g_current km"

definition keymap_get_name :: "int \<Rightarrow> string" where
  "keymap_get_name i = (if i < 0 \<or> i \<ge> keymap_get_count then ''Unknown'' else fst (g_layouts ! nat i))"

definition make_result :: "u32 \<Rightarrow> bool \<Rightarrow> keymap_result" where
  "make_result cp dead = \<lparr>r_codepoint = cp, r_is_text = (cp \<noteq> 0), r_is_dead = dead\<rparr>"

definition modified :: "u32 \<Rightarrow> u32 \<Rightarrow> bool" where
  "modified m mods \<longleftrightarrow> mods AND m \<noteq> 0"

text \<open>The code point of a key with these modifiers, and the bit that marks it as a dead one.\<close>

definition pick_code :: "keymap_entry \<Rightarrow> u32 \<Rightarrow> u32 \<times> u8" where
  "pick_code e mods =
     (let shift = modified KB_MOD_SHIFT mods; caps = modified KB_MOD_CAPS mods; altgr = modified KB_MOD_ALTGR mods in
      if altgr then (if shift then (ke_shift_altgr e, DEAD_SHIFT_ALTGR) else (ke_altgr e, DEAD_ALTGR))
      else if ke_alpha e
      then (let uppercase = (shift \<noteq> caps)
            in if uppercase then (ke_shift e, DEAD_SHIFT) else (ke_normal e, DEAD_NORMAL))
      else if shift then (ke_shift e, DEAD_SHIFT) else (ke_normal e, DEAD_NORMAL))"

definition keymap_translate_keycode :: "u16 \<Rightarrow> u32 \<Rightarrow> keymap \<Rightarrow> (keymap_result \<times> keymap) option" where
  "keymap_translate_keycode keycode mods km =
     (if keycode \<le> 0 \<or> keycode \<ge> KEY_MAX then Some (make_result 0 False, km)
      else if g_current km \<ge> length g_layouts then None
      else let e = layout_key (g_layouts ! g_current km) keycode in
        if ke_normal e = 0 \<and> ke_shift e = 0 \<and> ke_altgr e = 0 \<and> ke_shift_altgr e = 0
        then Some (make_result 0 False, km)
        else let (cp, dead_mask_bit) = pick_code e mods; is_dead = (ke_dead_mask e AND dead_mask_bit \<noteq> 0) in
          if is_dead \<and> cp \<noteq> 0 then Some (make_result 0 True, km\<lparr>g_active_dead := cp\<rparr>)
          else if g_active_dead km \<noteq> 0 \<and> cp \<noteq> 0
          then let combined = keymap_compose (g_active_dead km) cp; km = km\<lparr>g_active_dead := 0\<rparr>
               in if combined \<noteq> 0 then Some (make_result combined False, km) else Some (make_result cp False, km)
          else Some (make_result cp False, km))"

definition keymap_legacy_key :: "u16 \<Rightarrow> u32 \<Rightarrow> int" where
  "keymap_legacy_key keycode codepoint =
     (if codepoint \<noteq> 0 \<and> codepoint < 128 then uint codepoint
      else case map_of
          [(KEY_ESC, 27), (KEY_BACKSPACE, 8), (KEY_TAB, 9), (KEY_ENTER, 10), (KEY_KP_ENTER, 10),
           (KEY_ARROW_UP, 17), (KEY_ARROW_DOWN, 18), (KEY_ARROW_LEFT, 19), (KEY_ARROW_RIGHT, 20),
           (KEY_LEFT_CTRL, 21), (KEY_RIGHT_CTRL, 21), (KEY_LEFT_SHIFT, 24), (KEY_RIGHT_SHIFT, 24),
           (KEY_LEFT_ALT, 25), (KEY_RIGHT_ALT, 22), (KEY_CAPS_LOCK, 23), (KEY_DELETE, 127),
           (KEY_F1, 141), (KEY_F2, 142), (KEY_F3, 143), (KEY_F4, 144), (KEY_F5, 145), (KEY_F6, 146),
           (KEY_F7, 147), (KEY_F8, 148), (KEY_F9, 149), (KEY_F10, 150), (KEY_F11, 151), (KEY_F12, 152)] keycode of
        None \<Rightarrow> 0
      | Some v \<Rightarrow> v)"

section \<open>The keyboard\<close>

record keyboard_state =
  kb_e0_prefix :: bool
  kb_left_shift :: bool
  kb_right_shift :: bool
  kb_left_ctrl :: bool
  kb_right_ctrl :: bool
  kb_left_alt :: bool
  kb_right_alt :: bool
  kb_caps_lock :: bool
  kb_num_lock :: bool
  kb_scroll_lock :: bool
  kb_dead_key :: u32

definition kb_cleared :: keyboard_state where
  "kb_cleared = \<lparr>kb_e0_prefix = False, kb_left_shift = False, kb_right_shift = False, kb_left_ctrl = False,
     kb_right_ctrl = False, kb_left_alt = False, kb_right_alt = False, kb_caps_lock = False, kb_num_lock = False,
     kb_scroll_lock = False, kb_dead_key = 0\<rparr>"

text \<open>The output buffer of the controller is emptied, of at most 128 bytes.\<close>

fun flush_output :: "hardware \<Rightarrow> nat \<Rightarrow> trace \<Rightarrow> trace" where
  "flush_output hw 0 tr = tr"
| "flush_output hw (Suc limit) tr =
     (let (st, tr) = inb hw 0x64 tr
      in if st AND 1 \<noteq> 0 then flush_output hw limit (snd (inb hw 0x60 tr)) else tr)"

definition keyboard_init :: "hardware \<Rightarrow> keyboard_state \<times> trace \<Rightarrow> keyboard_state \<times> trace" where
  "keyboard_init hw st = (kb_cleared, flush_output hw 128 (snd st))"

definition update_mod_state :: "u16 \<Rightarrow> bool \<Rightarrow> keyboard_state \<Rightarrow> keyboard_state" where
  "update_mod_state keycode pressed kb =
     (if keycode = KEY_LEFT_SHIFT then kb\<lparr>kb_left_shift := pressed\<rparr>
      else if keycode = KEY_RIGHT_SHIFT then kb\<lparr>kb_right_shift := pressed\<rparr>
      else if keycode = KEY_LEFT_CTRL then kb\<lparr>kb_left_ctrl := pressed\<rparr>
      else if keycode = KEY_RIGHT_CTRL then kb\<lparr>kb_right_ctrl := pressed\<rparr>
      else if keycode = KEY_LEFT_ALT then kb\<lparr>kb_left_alt := pressed\<rparr>
      else if keycode = KEY_RIGHT_ALT then kb\<lparr>kb_right_alt := pressed\<rparr>
      else if keycode = KEY_CAPS_LOCK then (if pressed then kb\<lparr>kb_caps_lock := \<not> kb_caps_lock kb\<rparr> else kb)
      else if keycode = KEY_NUM_LOCK then (if pressed then kb\<lparr>kb_num_lock := \<not> kb_num_lock kb\<rparr> else kb)
      else if keycode = KEY_SCROLL_LOCK then (if pressed then kb\<lparr>kb_scroll_lock := \<not> kb_scroll_lock kb\<rparr> else kb)
      else kb)"

definition mod_bit :: "bool \<Rightarrow> u32 \<Rightarrow> u32" where
  "mod_bit b m = (if b then m else 0)"

definition keyboard_get_modifiers :: "keyboard_state \<Rightarrow> u32" where
  "keyboard_get_modifiers kb =
     mod_bit (kb_left_shift kb \<or> kb_right_shift kb) KB_MOD_SHIFT OR mod_bit (kb_left_ctrl kb \<or> kb_right_ctrl kb) KB_MOD_CTRL OR
     mod_bit (kb_left_alt kb) KB_MOD_ALT OR mod_bit (kb_right_alt kb) KB_MOD_ALTGR OR mod_bit (kb_caps_lock kb) KB_MOD_CAPS OR
     mod_bit (kb_num_lock kb) KB_MOD_NUM OR mod_bit (kb_scroll_lock kb) KB_MOD_SCROLL"

definition keyboard_shift_pressed :: "keyboard_state \<Rightarrow> bool" where
  "keyboard_shift_pressed kb \<longleftrightarrow> keyboard_get_modifiers kb AND KB_MOD_SHIFT \<noteq> 0"

definition keyboard_ctrl_pressed :: "keyboard_state \<Rightarrow> bool" where
  "keyboard_ctrl_pressed kb \<longleftrightarrow> keyboard_get_modifiers kb AND KB_MOD_CTRL \<noteq> 0"

record keyboard_event =
  ev_keycode :: u16
  ev_codepoint :: u32
  ev_mods :: u32
  ev_pressed :: bool
  ev_repeat :: bool
  ev_is_text :: bool

type_synonym kbd = "keyboard_state \<times> keymap"

text \<open>The text of a pressed key; a dead key and the character behind it are joined.\<close>

definition press_key :: "keyboard_event \<Rightarrow> kbd \<Rightarrow> (bool \<times> keyboard_event \<times> kbd) option" where
  "press_key ev st = do {
     let (kb, km) = st;
     (r, km) \<leftarrow> keymap_translate_keycode (ev_keycode ev) (ev_mods ev) km;
     Some (if r_is_dead r then (True, ev, kb\<lparr>kb_dead_key := r_codepoint r\<rparr>, km)
           else if r_is_text r
           then let cp = r_codepoint r;
                    (cp, kb) = (if kb_dead_key kb \<noteq> 0
                                then let composed = keymap_compose (kb_dead_key kb) cp
                                     in (if composed \<noteq> 0 then composed else cp, kb\<lparr>kb_dead_key := 0\<rparr>)
                                else (cp, kb))
                in (True, ev\<lparr>ev_codepoint := cp, ev_is_text := True\<rparr>, kb, km)
           else (True, ev, kb, km))
   }"

definition keyboard_handle_set1_scancode :: "u8 \<Rightarrow> kbd \<Rightarrow> (bool \<times> keyboard_event \<times> kbd) option" where
  "keyboard_handle_set1_scancode scancode st =
     (let (kb, km) = st;
          ev = \<lparr>ev_keycode = KEY_NONE, ev_codepoint = 0, ev_mods = keyboard_get_modifiers kb, ev_pressed = False,
                ev_repeat = False, ev_is_text = False\<rparr> in
      if scancode = 0xE0 then Some (False, ev, kb\<lparr>kb_e0_prefix := True\<rparr>, km)
      else if scancode = 0xE1 then Some (False, ev, kb\<lparr>kb_e0_prefix := False\<rparr>, km)
      else let release = (scancode AND 0x80 \<noteq> 0); base = scancode AND 0x7F;
               keycode = keyboard_keycode_from_set1 base (kb_e0_prefix kb);
               kb = kb\<lparr>kb_e0_prefix := False\<rparr> in
        if keycode = KEY_NONE then Some (False, ev, kb, km)
        else let pressed = \<not> release; kb = update_mod_state keycode pressed kb;
                 ev = ev\<lparr>ev_keycode := keycode, ev_pressed := pressed, ev_mods := keyboard_get_modifiers kb\<rparr>
             in if \<not> pressed then Some (True, ev, kb, km) else press_key ev (kb, km))"

end
