(* ===== verification/BosKeyboardLaws.thy ===== *)
theory BosKeyboardLaws
  imports BosKeyboard
begin

text \<open>
  What the keyboard promises: each key has one scan code, the modifiers are the keys that are held,
  and the text is that of the layout with dead keys joined to the next character.
\<close>

section \<open>Scan codes and keys\<close>

definition key_codes :: "u16 list" where
  "key_codes = map snd set1_base @ map snd set1_ext"

lemma scan_codes_low: "list_all (\<lambda>(sc, k). sc < 128) (set1_base @ set1_ext)"
  by (simp add: set1_base_def set1_ext_def)

lemma scan_codes_distinct: "distinct (map fst set1_base)" "distinct (map fst set1_ext)"
  by (simp_all add: set1_base_def set1_ext_def)

lemma key_codes_sorted: "sort (map unat key_codes) = [1..<unat KEY_MAX]"
  by code_simp

lemma key_codes_distinct: "distinct key_codes"
proof -
  have "distinct (sort (map unat key_codes))" by (simp only: key_codes_sorted distinct_upt)
  then show ?thesis by (simp add: distinct_map)
qed

lemma key_codes_set: "k \<in> set key_codes \<longleftrightarrow> 0 < k \<and> k < KEY_MAX"
proof -
  have "unat ` set key_codes = set (sort (map unat key_codes))" by simp
  also have "\<dots> = {1..<unat KEY_MAX}" by (simp only: key_codes_sorted set_upt)
  finally have s: "unat ` set key_codes = {1..<unat KEY_MAX}" .
  have "k \<in> set key_codes \<longleftrightarrow> unat k \<in> unat ` set key_codes" by (auto dest: word_unat_eq_iff [THEN iffD2])
  then show ?thesis by (simp add: s word_less_nat_alt Suc_le_eq)
qed

lemma table_key_iff:
  assumes "distinct (map fst t)" and "k \<noteq> KEY_NONE"
  shows "table_key t sc = k \<longleftrightarrow> (sc, k) \<in> set t"
proof -
  have "table_key t sc = k \<longleftrightarrow> map_of t sc = Some k" using assms(2) by (auto simp: table_key_def split: option.splits)
  then show ?thesis using assms(1) by simp
qed

text \<open>The fact \<open>each_key_one_code\<close>: the two tables of scan codes are one table of the keys: every key code but \<^verbatim>\<open>KEY_NONE\<close> is
  what exactly one scan code gives, with or without the prefix.\<close>

theorem each_key_one_code:
  assumes "0 < k" and "k < KEY_MAX"
  shows "\<exists>!(sc, ext). sc < 128 \<and> keyboard_keycode_from_set1 sc ext = k"
proof -
  have k: "k \<noteq> KEY_NONE" using assms(1) by simp
  have low: "(sc, k) \<in> set (if ext then set1_ext else set1_base) \<Longrightarrow> sc < 128" for sc k ext
    using scan_codes_low by (auto simp: list_all_iff split: if_splits)
  have code: "sc < 128 \<and> keyboard_keycode_from_set1 sc ext = k \<longleftrightarrow> (sc, k) \<in> set (if ext then set1_ext else set1_base)" for sc ext
    using low [of sc k ext] k table_key_iff [OF scan_codes_distinct(1) k] table_key_iff [OF scan_codes_distinct(2) k]
    by (cases "sc < 128") (auto simp: keyboard_keycode_from_set1_def)
  have "distinct (map snd set1_base @ map snd set1_ext)" using key_codes_distinct by (simp add: key_codes_def)
  then have d: "distinct (map snd set1_base)" "distinct (map snd set1_ext)" "set (map snd set1_base) \<inter> set (map snd set1_ext) = {}"
    by auto
  have one: "(sc, k) \<in> set t \<Longrightarrow> (sc', k) \<in> set t \<Longrightarrow> distinct (map snd t) \<Longrightarrow> sc = sc'" for sc sc' t
    by (metis distinct_map fst_conv inj_onD snd_conv)
  have "k \<in> set key_codes" using assms by (simp add: key_codes_set)
  then consider (base) sc where "(sc, k) \<in> set set1_base" | (ext) sc where "(sc, k) \<in> set set1_ext"
    by (auto simp: key_codes_def)
  then obtain sc ext where sc: "(sc, k) \<in> set (if ext then set1_ext else set1_base)"
  proof cases
    case base
    then show ?thesis using that [of _ False] by simp
  next
    case ext
    then show ?thesis using that [of _ True] by simp
  qed
  have uniq: "sc' = sc \<and> ext' = ext" if "(sc', k) \<in> set (if ext' then set1_ext else set1_base)" for sc' ext'
  proof -
    have "k \<in> set (map snd (if ext then set1_ext else set1_base))" "k \<in> set (map snd (if ext' then set1_ext else set1_base))"
      using sc that by (force split: if_splits)+
    then have "ext' = ext" using d(3) by (auto split: if_splits)
    then show ?thesis using one [OF that] sc d(1,2) by (cases ext) auto
  qed
  show ?thesis unfolding code
  proof (rule ex1I)
    show "case (sc, ext) of (sc, ext) \<Rightarrow> (sc, k) \<in> set (if ext then set1_ext else set1_base)" using sc by simp
    fix y assume "case y of (sc, ext) \<Rightarrow> (sc, k) \<in> set (if ext then set1_ext else set1_base)"
    then have "(fst y, k) \<in> set (if snd y then set1_ext else set1_base)" by (simp add: case_prod_unfold)
    from uniq [OF this] show "y = (sc, ext)" by (simp add: prod_eq_iff)
  qed
qed

theorem each_key_one_code_witness: "\<exists>!(sc, ext). sc < 128 \<and> keyboard_keycode_from_set1 sc ext = KEY_DELETE"
  using each_key_one_code [of KEY_DELETE] by simp

lemma keycode_range: "keyboard_keycode_from_set1 sc ext < KEY_MAX"
proof -
  have "table_key t sc < KEY_MAX" if "t \<in> {set1_base, set1_ext}" for t
  proof (cases "table_key t sc = KEY_NONE")
    case False
    then have "table_key t sc \<in> set key_codes"
      using that by (auto simp: table_key_def key_codes_def split: option.splits dest: map_of_SomeD intro: rev_image_eqI)
    then show ?thesis by (simp add: key_codes_set)
  qed simp
  then show ?thesis by (simp add: keyboard_keycode_from_set1_def)
qed

section \<open>The keys that are held\<close>

text \<open>The presses and releases that a stream of scan codes stands for.\<close>

fun decoded :: "bool \<Rightarrow> u8 list \<Rightarrow> (u16 \<times> bool) list" where
  "decoded pre [] = []"
| "decoded pre (b # bs) =
     (if b = 0xE0 then decoded True bs
      else if b = 0xE1 then decoded False bs
      else let k = keyboard_keycode_from_set1 (b AND 0x7F) pre
           in (if k = KEY_NONE then [] else [(k, b < 128)]) @ decoded False bs)"

definition key_down :: "u16 \<Rightarrow> (u16 \<times> bool) list \<Rightarrow> bool" where
  "key_down k es = (case find (\<lambda>e. fst e = k) (rev es) of None \<Rightarrow> False | Some e \<Rightarrow> snd e)"

definition toggled :: "u16 \<Rightarrow> (u16 \<times> bool) list \<Rightarrow> bool" where
  "toggled k es = odd (length (filter (\<lambda>e. e = (k, True)) es))"

definition held_modifiers :: "(u16 \<times> bool) list \<Rightarrow> u32" where
  "held_modifiers es =
     mod_bit (key_down KEY_LEFT_SHIFT es \<or> key_down KEY_RIGHT_SHIFT es) KB_MOD_SHIFT OR
     mod_bit (key_down KEY_LEFT_CTRL es \<or> key_down KEY_RIGHT_CTRL es) KB_MOD_CTRL OR
     mod_bit (key_down KEY_LEFT_ALT es) KB_MOD_ALT OR mod_bit (key_down KEY_RIGHT_ALT es) KB_MOD_ALTGR OR
     mod_bit (toggled KEY_CAPS_LOCK es) KB_MOD_CAPS OR mod_bit (toggled KEY_NUM_LOCK es) KB_MOD_NUM OR
     mod_bit (toggled KEY_SCROLL_LOCK es) KB_MOD_SCROLL"

lemma key_down_simps [simp]:
  "\<not> key_down k []" "key_down k (es @ [(j, p)]) = (if j = k then p else key_down k es)"
  by (simp_all add: key_down_def)

lemma toggled_simps [simp]:
  "\<not> toggled k []" "toggled k (es @ [(j, p)]) = (if j = k \<and> p then \<not> toggled k es else toggled k es)"
  by (simp_all add: toggled_def)

definition tracks :: "(u16 \<times> bool) list \<Rightarrow> keyboard_state \<Rightarrow> bool" where
  "tracks es kb \<longleftrightarrow>
     kb_left_shift kb = key_down KEY_LEFT_SHIFT es \<and> kb_right_shift kb = key_down KEY_RIGHT_SHIFT es \<and>
     kb_left_ctrl kb = key_down KEY_LEFT_CTRL es \<and> kb_right_ctrl kb = key_down KEY_RIGHT_CTRL es \<and>
     kb_left_alt kb = key_down KEY_LEFT_ALT es \<and> kb_right_alt kb = key_down KEY_RIGHT_ALT es \<and>
     kb_caps_lock kb = toggled KEY_CAPS_LOCK es \<and> kb_num_lock kb = toggled KEY_NUM_LOCK es \<and>
     kb_scroll_lock kb = toggled KEY_SCROLL_LOCK es \<and> kb_dead_key kb = 0"

lemma tracks_boot: "tracks [] kb_cleared"
  by (simp add: tracks_def kb_cleared_def)

lemma tracks_modifiers: "tracks es kb \<Longrightarrow> keyboard_get_modifiers kb = held_modifiers es"
  by (simp add: tracks_def keyboard_get_modifiers_def held_modifiers_def)

lemma tracks_prefix [simp]: "tracks es (kb\<lparr>kb_e0_prefix := b\<rparr>) = tracks es kb"
  by (simp add: tracks_def)

lemma tracks_update: "tracks es kb \<Longrightarrow> tracks (es @ [(k, p)]) (update_mod_state k p kb)"
  unfolding update_mod_state_def by (simp add: tracks_def)

lemma update_prefix [simp]: "kb_e0_prefix (update_mod_state k p kb) = kb_e0_prefix kb"
  by (simp add: update_mod_state_def)

section \<open>The text that is typed\<close>

text \<open>
  The code point of a key and whether it is a dead one, and the text of a row of them: an accent waits
  for the next character, and stays out when the two do not go together.
\<close>

definition glyph :: "keyboard_layout \<Rightarrow> u16 \<Rightarrow> u32 \<Rightarrow> u32 \<times> bool" where
  "glyph l k mods = (let e = layout_key l k; (cp, bit) = pick_code e mods in (cp, ke_dead_mask e AND bit \<noteq> 0))"

fun accented :: "u32 \<Rightarrow> (u32 \<times> bool) list \<Rightarrow> u32 list" where
  "accented d [] = []"
| "accented d ((c, dead) # gs) =
     (if c = 0 then accented d gs
      else if dead then accented c gs
      else (if d \<noteq> 0 \<and> keymap_compose d c \<noteq> 0 then keymap_compose d c else c) # accented 0 gs)"

fun pressed_glyphs :: "keyboard_layout \<Rightarrow> (u16 \<times> bool) list \<Rightarrow> (u16 \<times> bool) list \<Rightarrow> (u32 \<times> bool) list" where
  "pressed_glyphs l past [] = []"
| "pressed_glyphs l past ((k, p) # es) =
     (if p then [glyph l k (held_modifiers (past @ [(k, p)]))] else []) @ pressed_glyphs l (past @ [(k, p)]) es"

text \<open>A stream of scan codes, one interrupt after the other.\<close>

fun kbd_run :: "u8 list \<Rightarrow> kbd \<Rightarrow> (keyboard_event list \<times> kbd) option" where
  "kbd_run [] st = Some ([], st)"
| "kbd_run (b # bs) st = do {
     (ok, ev, st) \<leftarrow> keyboard_handle_set1_scancode b st;
     (evs, st) \<leftarrow> kbd_run bs st;
     Some ((if ok then [ev] else []) @ evs, st)
   }"

definition typed_text :: "keyboard_event list \<Rightarrow> u32 list" where
  "typed_text evs = map ev_codepoint (filter ev_is_text evs)"

definition event_keys :: "keyboard_event list \<Rightarrow> (u16 \<times> bool) list" where
  "event_keys evs = map (\<lambda>e. (ev_keycode e, ev_pressed e)) evs"

lemma pick_code_blank:
  "ke_normal e = 0 \<Longrightarrow> ke_shift e = 0 \<Longrightarrow> ke_altgr e = 0 \<Longrightarrow> ke_shift_altgr e = 0 \<Longrightarrow> fst (pick_code e mods) = 0"
  by (simp add: pick_code_def Let_def)

lemma translate_law:
  assumes "0 < k" and "k < KEY_MAX" and "g_current km < length g_layouts"
  shows "keymap_translate_keycode k mods km =
    (let (c, dead) = glyph (g_layouts ! g_current km) k mods; d = g_active_dead km in
     if c = 0 then Some (make_result 0 False, km)
     else if dead then Some (make_result 0 True, km\<lparr>g_active_dead := c\<rparr>)
     else Some (make_result (if d \<noteq> 0 \<and> keymap_compose d c \<noteq> 0 then keymap_compose d c else c) False, km\<lparr>g_active_dead := 0\<rparr>))"
proof -
  let ?e = "layout_key (g_layouts ! g_current km) k"
  obtain c bit where p: "pick_code ?e mods = (c, bit)" by fastforce
  have k: "\<not> (k \<le> 0 \<or> k \<ge> KEY_MAX)" using assms(1,2) by (simp add: not_le word_neq_0_conv)
  have blank: "ke_normal ?e = 0 \<and> ke_shift ?e = 0 \<and> ke_altgr ?e = 0 \<and> ke_shift_altgr ?e = 0 \<Longrightarrow> c = 0"
    using pick_code_blank [of ?e mods] p by simp
  have same: "g_active_dead km = 0 \<Longrightarrow> km\<lparr>g_active_dead := 0\<rparr> = km" by simp
  show ?thesis
  proof (cases "c = 0")
    case True
    then show ?thesis using k assms(3) p by (simp add: keymap_translate_keycode_def glyph_def Let_def)
  next
    case False
    then have "\<not> (ke_normal ?e = 0 \<and> ke_shift ?e = 0 \<and> ke_altgr ?e = 0 \<and> ke_shift_altgr ?e = 0)" using blank by blast
    then show ?thesis using k assms(3) p False same by (auto simp: keymap_translate_keycode_def glyph_def Let_def)
  qed
qed


text \<open>What one scan code does, for a keyboard that tracks the keys and has no dead key of its own.\<close>

definition handled :: "u8 \<Rightarrow> bool \<Rightarrow> (u16 \<times> bool) list" where
  "handled b pre =
     (if b = 0xE0 \<or> b = 0xE1 then []
      else let k = keyboard_keycode_from_set1 (b AND 0x7F) pre in if k = KEY_NONE then [] else [(k, b < 128)])"

lemma decoded_Cons: "decoded pre (b # bs) = handled b pre @ decoded (b = 0xE0) bs"
  by (simp add: handled_def Let_def)

lemma high_bit: "(b :: u8) AND 0x80 = 0 \<longleftrightarrow> b < 128"
proof -
  have "b AND 2 ^ 7 = 0 \<longleftrightarrow> \<not> bit b 7" by (rule and_exp_eq_0_iff_not_bit)
  also have "bit b 7 \<longleftrightarrow> bit (unat b) 7" by (simp add: bit_unsigned_iff)
  also have "bit (unat b) 7 \<longleftrightarrow> odd (unat b div 128)" by (simp add: bit_iff_odd)
  also have "odd (unat b div 128) \<longleftrightarrow> \<not> unat b < 128"
  proof -
    have "unat b < 256" using unsigned_less [of b, where ?'a = nat] by simp
    then have "unat b div 128 = (if unat b < 128 then 0 else 1)" by auto
    then show ?thesis by simp
  qed
  finally show ?thesis by (simp add: word_less_nat_alt)
qed

definition joined :: "u32 \<Rightarrow> u32 \<Rightarrow> u32" where
  "joined d c = (if d \<noteq> 0 \<and> keymap_compose d c \<noteq> 0 then keymap_compose d c else c)"

lemma press_law:
  assumes "0 < ev_keycode ev" and "ev_keycode ev < KEY_MAX" and "g_current km < length g_layouts"
    and "glyph (g_layouts ! g_current km) (ev_keycode ev) (ev_mods ev) = (c, dead)" and "kb_dead_key kb = 0"
  shows "press_key ev (kb, km) = Some (True,
    (if c = 0 \<or> dead then ev else ev\<lparr>ev_codepoint := joined (g_active_dead km) c, ev_is_text := True\<rparr>),
    kb, if c = 0 then km else km\<lparr>g_active_dead := if dead then c else 0\<rparr>)"
proof -
  have cleared: "kb\<lparr>kb_dead_key := 0\<rparr> = kb" using assms(5) by simp
  have "keymap_translate_keycode (ev_keycode ev) (ev_mods ev) km =
    (if c = 0 then Some (make_result 0 False, km)
     else if dead then Some (make_result 0 True, km\<lparr>g_active_dead := c\<rparr>)
     else Some (make_result (joined (g_active_dead km) c) False, km\<lparr>g_active_dead := 0\<rparr>))"
    using translate_law [OF assms(1-3), of "ev_mods ev"] assms(4) by (simp add: joined_def Let_def)
  moreover have "c \<noteq> 0 \<Longrightarrow> joined (g_active_dead km) c \<noteq> 0" by (simp add: joined_def)
  ultimately show ?thesis using cleared assms(5) by (simp add: press_key_def make_result_def)
qed

lemma handle_law:
  assumes "tracks past kb" and "g_current km < length g_layouts"
  shows "\<exists>ok ev kb' km'. keyboard_handle_set1_scancode b (kb, km) = Some (ok, ev, kb', km') \<and>
    tracks (past @ handled b (kb_e0_prefix kb)) kb' \<and> kb_e0_prefix kb' = (b = 0xE0) \<and> g_current km' = g_current km \<and>
    event_keys (if ok then [ev] else []) = handled b (kb_e0_prefix kb) \<and>
    (\<forall>gs. typed_text (if ok then [ev] else []) @ accented (g_active_dead km') gs =
       accented (g_active_dead km) (pressed_glyphs (g_layouts ! g_current km) past (handled b (kb_e0_prefix kb)) @ gs))"
proof -
  let ?k = "keyboard_keycode_from_set1 (b AND 0x7F) (kb_e0_prefix kb)" and ?kb = "kb\<lparr>kb_e0_prefix := False\<rparr>"
  consider (prefix) "b = 0xE0 \<or> b = 0xE1" | (none) "b \<noteq> 0xE0" "b \<noteq> 0xE1" "?k = KEY_NONE"
    | (up) "b \<noteq> 0xE0" "b \<noteq> 0xE1" "?k \<noteq> KEY_NONE" "\<not> b < 128" | (down) "b \<noteq> 0xE0" "b \<noteq> 0xE1" "?k \<noteq> KEY_NONE" "b < 128" by blast
  then show ?thesis
  proof cases
    case prefix
    then show ?thesis using assms(1)
      by (auto simp: keyboard_handle_set1_scancode_def handled_def event_keys_def typed_text_def Let_def)
  next
    case none
    then show ?thesis using assms(1)
      by (auto simp: keyboard_handle_set1_scancode_def handled_def event_keys_def typed_text_def Let_def)
  next
    case up
    then show ?thesis using tracks_update [of past ?kb ?k False] assms(1)
      by (auto simp: keyboard_handle_set1_scancode_def handled_def event_keys_def typed_text_def Let_def high_bit)
  next
    case down
    let ?u = "update_mod_state ?k True ?kb"
    have t: "tracks (past @ [(?k, True)]) ?u" using tracks_update [of past ?kb ?k True] assms(1) by simp
    then have m: "keyboard_get_modifiers ?u = held_modifiers (past @ [(?k, True)])" and d: "kb_dead_key ?u = 0"
      by (simp_all add: tracks_modifiers) (simp add: tracks_def)
    have k: "0 < ?k" "?k < KEY_MAX" using down(3) keycode_range by (simp_all add: word_gt_0)
    obtain c dead where g: "glyph (g_layouts ! g_current km) ?k (held_modifiers (past @ [(?k, True)])) = (c, dead)" by fastforce
    let ?ev = "\<lparr>ev_keycode = ?k, ev_codepoint = 0, ev_mods = held_modifiers (past @ [(?k, True)]), ev_pressed = True,
                ev_repeat = False, ev_is_text = False\<rparr>"
    have "keyboard_handle_set1_scancode b (kb, km) = press_key ?ev (?u, km)"
      using down m by (simp add: keyboard_handle_set1_scancode_def Let_def high_bit)
    also have "\<dots> = Some (True, (if c = 0 \<or> dead then ?ev
        else ?ev\<lparr>ev_codepoint := joined (g_active_dead km) c, ev_is_text := True\<rparr>),
      ?u, if c = 0 then km else km\<lparr>g_active_dead := if dead then c else 0\<rparr>)"
      using press_law [of ?ev km c dead ?u] k assms(2) g d by simp
    finally have run: "keyboard_handle_set1_scancode b (kb, km) = \<dots>" .
    have "\<exists>ev kb' km'. keyboard_handle_set1_scancode b (kb, km) = Some (True, ev, kb', km') \<and>
      tracks (past @ [(?k, True)]) kb' \<and> \<not> kb_e0_prefix kb' \<and> g_current km' = g_current km \<and> event_keys [ev] = [(?k, True)] \<and>
      (\<forall>gs. typed_text [ev] @ accented (g_active_dead km') gs = accented (g_active_dead km) ((c, dead) # gs))"
      unfolding run using t by (simp add: event_keys_def typed_text_def joined_def)
    then show ?thesis using down g by (intro exI [of _ True]) (simp add: handled_def)
  qed
qed

lemma pressed_glyphs_append:
  "pressed_glyphs l past (xs @ ys) = pressed_glyphs l past xs @ pressed_glyphs l (past @ xs) ys"
  by (induction xs arbitrary: past) auto

lemma kbd_run_law:
  assumes "tracks past kb" and "g_current km < length g_layouts"
  shows "\<exists>evs kb' km'. kbd_run bs (kb, km) = Some (evs, kb', km') \<and>
    tracks (past @ decoded (kb_e0_prefix kb) bs) kb' \<and> g_current km' = g_current km \<and>
    event_keys evs = decoded (kb_e0_prefix kb) bs \<and>
    typed_text evs = accented (g_active_dead km) (pressed_glyphs (g_layouts ! g_current km) past (decoded (kb_e0_prefix kb) bs))"
  using assms
proof (induction bs arbitrary: past kb km)
  case Nil
  then show ?case by (simp add: event_keys_def typed_text_def)
next
  case (Cons b bs)
  let ?now = "handled b (kb_e0_prefix kb)" and ?l = "g_layouts ! g_current km"
  obtain ok ev kb1 km1 where one: "keyboard_handle_set1_scancode b (kb, km) = Some (ok, ev, kb1, km1)"
    and t: "tracks (past @ ?now) kb1" "kb_e0_prefix kb1 = (b = 0xE0)" "g_current km1 = g_current km"
    and keys: "event_keys (if ok then [ev] else []) = ?now"
    and typed: "\<And>gs. typed_text (if ok then [ev] else []) @ accented (g_active_dead km1) gs =
       accented (g_active_dead km) (pressed_glyphs ?l past ?now @ gs)"
    using handle_law [OF Cons.prems, of b] by blast
  have "g_current km1 < length g_layouts" using t(3) Cons.prems(2) by simp
  from Cons.IH [OF t(1) this] t obtain evs kb' km' where rest: "kbd_run bs (kb1, km1) = Some (evs, kb', km')"
    "tracks ((past @ ?now) @ decoded (b = 0xE0) bs) kb'" "g_current km' = g_current km"
    "event_keys evs = decoded (b = 0xE0) bs"
    "typed_text evs = accented (g_active_dead km1) (pressed_glyphs ?l (past @ ?now) (decoded (b = 0xE0) bs))" by auto
  let ?evs = "(if ok then [ev] else []) @ evs"
  have "kbd_run (b # bs) (kb, km) = Some (?evs, kb', km')" using one rest(1) by simp
  moreover have "event_keys ?evs = decoded (kb_e0_prefix kb) (b # bs)"
    using keys rest(4) unfolding decoded_Cons by (simp add: event_keys_def)
  moreover have "typed_text ?evs = accented (g_active_dead km) (pressed_glyphs ?l past (decoded (kb_e0_prefix kb) (b # bs)))"
    using typed rest(5) unfolding decoded_Cons pressed_glyphs_append by (simp add: typed_text_def)
  moreover have "tracks (past @ decoded (kb_e0_prefix kb) (b # bs)) kb'" using rest(2) unfolding decoded_Cons by simp
  ultimately show ?case using rest(3) by blast
qed

text \<open>C34 (keyboard_types): from the cleared keyboard, with any of the layouts, every stream of scan codes is handled: the
  events are the presses and releases the stream stands for, the modifiers are those of the keys that
  are held or toggled, and the text is that of the layout, each accent joined to the character behind
  it. The keyboard's own dead key stays 0.\<close>

theorem keyboard_types:
  assumes "i < length g_layouts"
  shows "\<exists>evs kb km. kbd_run bs (kb_cleared, \<lparr>g_current = i, g_active_dead = 0\<rparr>) = Some (evs, kb, km) \<and>
    event_keys evs = decoded False bs \<and> keyboard_get_modifiers kb = held_modifiers (decoded False bs) \<and>
    typed_text evs = accented 0 (pressed_glyphs (g_layouts ! i) [] (decoded False bs)) \<and> kb_dead_key kb = 0"
proof -
  have "g_current \<lparr>g_current = i, g_active_dead = 0\<rparr> < length g_layouts" using assms by simp
  from kbd_run_law [OF tracks_boot this, of bs] obtain evs kb km where r:
    "kbd_run bs (kb_cleared, \<lparr>g_current = i, g_active_dead = 0\<rparr>) = Some (evs, kb, km)" "tracks (decoded False bs) kb"
    "event_keys evs = decoded False bs" "typed_text evs = accented 0 (pressed_glyphs (g_layouts ! i) [] (decoded False bs))"
    by (auto simp: kb_cleared_def)
  moreover have "kb_dead_key kb = 0" using r(2) by (simp add: tracks_def)
  ultimately show ?thesis using tracks_modifiers by blast
qed

text \<open>On the French layout: the circumflex, \<^verbatim>\<open>e\<close>, and \<^verbatim>\<open>e\<close> with the left shift key held.\<close>

lemma french_keys:
  "decoded False [0x1A, 0x9A, 0x12, 0x92, 0x2A, 0x12] =
     [(KEY_LBRACKET, True), (KEY_LBRACKET, False), (KEY_E, True), (KEY_E, False), (KEY_LEFT_SHIFT, True), (KEY_E, True)]"
  by code_simp

lemma french_text:
  "accented 0 (pressed_glyphs (g_layouts ! 1) [] [(KEY_LBRACKET, True), (KEY_LBRACKET, False), (KEY_E, True), (KEY_E, False),
     (KEY_LEFT_SHIFT, True), (KEY_E, True)]) = [0xEA, 0x45]"
  by code_simp

theorem keyboard_types_witness:
  "\<exists>evs st. kbd_run [0x1A, 0x9A, 0x12, 0x92, 0x2A, 0x12] (kb_cleared, \<lparr>g_current = 1, g_active_dead = 0\<rparr>) = Some (evs, st) \<and>
     typed_text evs = [0xEA, 0x45]"
proof -
  have "1 < length g_layouts" by (simp add: g_layouts_def)
  from keyboard_types [OF this, of "[0x1A, 0x9A, 0x12, 0x92, 0x2A, 0x12]"] show ?thesis
    unfolding french_keys french_text by blast
qed

section \<open>What the layouts can type\<close>

text \<open>The fact \<open>shift_is_upper_case\<close>: on every layout the shifted character of a letter key is the upper case of its plain one.\<close>

theorem shift_is_upper_case:
  "list_all (\<lambda>l. list_all (\<lambda>(k, e). ke_alpha e \<longrightarrow> ke_normal e = ke_shift e + 32) (snd l)) g_layouts"
  by code_simp

definition texts_of_key :: "keymap_entry \<Rightarrow> u32 list" where
  "texts_of_key e =
     map fst (filter (\<lambda>(c, bit). ke_dead_mask e AND bit = 0)
       [(ke_normal e, DEAD_NORMAL), (ke_shift e, DEAD_SHIFT), (ke_altgr e, DEAD_ALTGR), (ke_shift_altgr e, DEAD_SHIFT_ALTGR)])"

text \<open>The printable characters of ASCII that no key gives, with or without the shift and AltGr keys.\<close>

definition missing :: "int list \<Rightarrow> int list" where
  "missing cs = filter (\<lambda>c. c \<notin> set cs) [32..126]"

definition untypable :: "keyboard_layout \<Rightarrow> int list" where
  "untypable l = missing (map uint (concat (map (texts_of_key o snd) (snd l))))"

text \<open>The fact \<open>layouts_type_ascii\<close>: the American and the Dvorak layout type all of printable ASCII; the French one has no key for the
  two angle brackets, and the German one none for those, the circumflex and the vertical bar.\<close>

theorem layouts_type_ascii:
  "map untypable g_layouts = [[], [60, 62], [60, 62, 94, 124], []]"
  by code_simp

end
