(* ===== verification/BosUtf8.thy ===== *)
theory BosUtf8
  imports CString
begin

text \<open>
  UTF-8 in BoredOS (\<^verbatim>\<open>wm/utf-8.c\<close>): decoding and encoding one code point, stepping over characters and
  counting them. A text is the list of its bytes up to its terminator, and a pointer into it is what
  is left of it; where the code goes back, it is a position. Null pointers are left out.
\<close>

section \<open>The routines\<close>

definition byte_at :: "u8 list \<Rightarrow> nat \<Rightarrow> u8" where
  "byte_at s i = (if i < length s then s ! i else 0)"

definition utf8_write_replacement :: "u8 list" where
  "utf8_write_replacement = [0xEF, 0xBF, 0xBD]"

text \<open>The code point at the front and the number of bytes it takes.\<close>

definition text_decode_utf8 :: "u8 list \<Rightarrow> u32 \<times> nat" where
  "text_decode_utf8 s =
     (let u = byte_at s; v = (\<lambda>i m. ucast (u i AND m) :: u32) in
      if u 0 = 0 then (0, 0)
      else if u 0 AND 0x80 = 0 then (ucast (u 0), 1)
      else if u 0 AND 0xE0 = 0xC0 \<and> u 1 AND 0xC0 = 0x80
      then (push_bit 6 (v 0 0x1F) OR v 1 0x3F, 2)
      else if u 0 AND 0xF0 = 0xE0 \<and> u 1 AND 0xC0 = 0x80 \<and> u 2 AND 0xC0 = 0x80
      then (push_bit 12 (v 0 0x0F) OR push_bit 6 (v 1 0x3F) OR v 2 0x3F, 3)
      else if u 0 AND 0xF8 = 0xF0 \<and> u 1 AND 0xC0 = 0x80 \<and> u 2 AND 0xC0 = 0x80 \<and> u 3 AND 0xC0 = 0x80
      then (push_bit 18 (v 0 0x07) OR push_bit 12 (v 1 0x3F) OR push_bit 6 (v 2 0x3F) OR v 3 0x3F, 4)
      else (0xFFFD, 1))"

text \<open>The bytes that are written; the result of the code is their number.\<close>

definition text_encode_utf8 :: "u32 \<Rightarrow> u8 list" where
  "text_encode_utf8 cp =
     (if cp \<le> 0x7F then [ucast cp]
      else if cp \<le> 0x7FF then [ucast (0xC0 OR drop_bit 6 cp), ucast (0x80 OR (cp AND 0x3F))]
      else if cp \<le> 0xFFFF
      then [ucast (0xE0 OR drop_bit 12 cp), ucast (0x80 OR (drop_bit 6 cp AND 0x3F)), ucast (0x80 OR (cp AND 0x3F))]
      else if cp \<le> 0x10FFFF
      then [ucast (0xF0 OR drop_bit 18 cp), ucast (0x80 OR (drop_bit 12 cp AND 0x3F)),
            ucast (0x80 OR (drop_bit 6 cp AND 0x3F)), ucast (0x80 OR (cp AND 0x3F))]
      else utf8_write_replacement)"

definition text_next_utf8 :: "u8 list \<Rightarrow> u8 list" where
  "text_next_utf8 s = (if byte_at s 0 = 0 then s else drop (snd (text_decode_utf8 s)) s)"

fun back_over :: "u8 list \<Rightarrow> nat \<Rightarrow> nat" where
  "back_over s 0 = 0"
| "back_over s (Suc i) = (if byte_at s (Suc i) AND 0xC0 = 0x80 then back_over s i else Suc i)"

definition text_prev_utf8 :: "u8 list \<Rightarrow> nat \<Rightarrow> nat" where
  "text_prev_utf8 s i = (if i = 0 then 0 else back_over s (i - 1))"

lemma decode_advances: "byte_at s 0 \<noteq> 0 \<Longrightarrow> 0 < snd (text_decode_utf8 s)"
  by (simp add: text_decode_utf8_def Let_def)

lemma byte_at_nonempty: "byte_at s 0 \<noteq> 0 \<Longrightarrow> s \<noteq> []"
  by (auto simp: byte_at_def)

lemma byte_at_Nil [simp]: "byte_at [] i = 0"
  by (simp add: byte_at_def)

function text_strlen_utf8 :: "u8 list \<Rightarrow> nat" where
  "text_strlen_utf8 s =
     (if byte_at s 0 = 0 then 0 else text_strlen_utf8 (drop (snd (text_decode_utf8 s)) s) + 1)"
  by pat_completeness auto
termination
proof (relation "measure length")
  fix s assume "byte_at s 0 \<noteq> 0"
  then have "0 < snd (text_decode_utf8 s)" "0 < length s" using decode_advances byte_at_nonempty by auto
  then show "(drop (snd (text_decode_utf8 s)) s, s) \<in> measure length" by simp
qed simp

declare text_strlen_utf8.simps [simp del]

section \<open>Bytes and numbers\<close>

text \<open>A mask of the upper bits cuts off the lower ones.\<close>

lemma and_top:
  assumes "k \<le> 8" and "m = push_bit k (mask (8 - k))"
  shows "unat ((b :: u8) AND m) = unat b div 2 ^ k * 2 ^ k"
proof -
  have "unat b < 2 ^ 8" using unsigned_less [of b, where ?'a = nat] by simp
  then have self: "take_bit 8 (unat b) = unat b" by (rule take_bit_nat_eq_self)
  have "b AND m = push_bit k (drop_bit k b)"
    unfolding assms(2) by (rule bit_word_eqI) (auto simp: bit_simps)
  then have "unat (b AND m) = take_bit 8 (push_bit k (drop_bit k (unat b)))"
    by (simp add: unsigned_push_bit_eq unsigned_drop_bit_eq self)
  also have "push_bit k (drop_bit k (unat b)) = unat b div 2 ^ k * 2 ^ k" by (simp add: push_bit_eq_mult drop_bit_eq_div)
  also have "take_bit 8 (unat b div 2 ^ k * 2 ^ k) = unat b div 2 ^ k * 2 ^ k"
  proof -
    have "unat b < 2 ^ 8" using unsigned_less [of b, where ?'a = nat] by simp
    with div_times_less_eq_dividend [of "unat b" "2 ^ k"] show ?thesis by (intro take_bit_nat_eq_self) (rule le_less_trans)
  qed
  finally show ?thesis .
qed

lemma div_range:
  "0 < d \<Longrightarrow> (n :: nat) div d * d = c * d \<longleftrightarrow> c * d \<le> n \<and> n < Suc c * d"
proof -
  assume d: "0 < d"
  then have "n div d * d = c * d \<longleftrightarrow> c \<le> n div d \<and> n div d < Suc c" by auto
  then show ?thesis using d by (simp only: div_less_iff_less_mult less_eq_div_iff_mult_less_eq)
qed

lemma masks:
  "(0x80 :: u8) = push_bit 7 (mask (8 - 7))" "(0xC0 :: u8) = push_bit 6 (mask (8 - 6))" "(0xE0 :: u8) = push_bit 5 (mask (8 - 5))"
  "(0xF0 :: u8) = push_bit 4 (mask (8 - 4))" "(0xF8 :: u8) = push_bit 3 (mask (8 - 3))"
  by (simp_all add: push_bit_eq_mult mask_eq_exp_minus_1)

lemma byte_test:
  assumes "k \<le> 8" and "m = push_bit k (mask (8 - k))" and "unat (v :: u8) = c * 2 ^ k"
  shows "b AND m = v \<longleftrightarrow> c * 2 ^ k \<le> unat b \<and> unat b < Suc c * 2 ^ k"
  using div_range [of "2 ^ k" "unat b" c] by (simp only: word_unat_eq_iff and_top [OF assms(1,2)] assms(3)) simp

lemma byte_tests:
  "(b :: u8) AND 0x80 = 0 \<longleftrightarrow> unat b < 0x80" "b AND 0xC0 = 0x80 \<longleftrightarrow> 0x80 \<le> unat b \<and> unat b < 0xC0"
  "b AND 0xE0 = 0xC0 \<longleftrightarrow> 0xC0 \<le> unat b \<and> unat b < 0xE0" "b AND 0xF0 = 0xE0 \<longleftrightarrow> 0xE0 \<le> unat b \<and> unat b < 0xF0"
  "b AND 0xF8 = 0xF0 \<longleftrightarrow> 0xF0 \<le> unat b \<and> unat b < 0xF8"
  using byte_test [OF _ masks(1), of 0 0 b] byte_test [OF _ masks(2), of "0x80" 2 b] byte_test [OF _ masks(3), of "0xC0" 6 b]
    byte_test [OF _ masks(4), of "0xE0" 14 b] byte_test [OF _ masks(5), of "0xF0" 30 b] by simp_all

lemma shift_or:
  assumes "unat (y :: u32) < 2 ^ k" and "Suc (unat x) * 2 ^ k \<le> 2 ^ 32"
  shows "unat (push_bit k x OR y) = unat x * 2 ^ k + unat y"
proof -
  have y: "y = take_bit k y" using assms(1) by (simp add: word_unat_eq_iff unsigned_take_bit_eq take_bit_nat_eq_self)
  have "\<not> bit (push_bit k x) n \<or> \<not> bit y n" for n
    using y by (metis bit_push_bit_iff bit_take_bit_iff not_le)
  then have s: "push_bit k x OR y = push_bit k x + y" by (simp add: disjunctive_add)
  have "0 < (2 :: nat) ^ k" by simp
  then have lt: "unat x * 2 ^ k < 2 ^ 32" using assms(2) by (simp only: mult_Suc)
  have "unat (push_bit k x) = take_bit 32 (push_bit k (unat x))" by (simp add: unsigned_push_bit_eq)
  also have "\<dots> = unat x * 2 ^ k" using lt by (simp add: push_bit_eq_mult take_bit_nat_eq_self)
  finally have p: "unat (push_bit k x) = unat x * 2 ^ k" .
  have "unat x * 2 ^ k + unat y < 2 ^ 32" using assms by simp
  then show ?thesis unfolding s by (simp add: unat_word_ariths(1) p)
qed


section \<open>Round trips\<close>

lemma low_bits: "unat (w AND 0x3F :: u32) = unat w mod 64"
proof -
  have "w AND 0x3F = take_bit 6 w" by (simp add: take_bit_eq_mask mask_eq_exp_minus_1)
  then have "unat (w AND 0x3F) = take_bit 6 (unat w)" by (simp add: unsigned_take_bit_eq)
  then show ?thesis by (simp add: take_bit_eq_mod)
qed

lemma byte_bits:
  assumes "m = mask k" and "k \<le> 8"
  shows "unat (ucast (b AND m :: u8) :: u32) = unat b mod 2 ^ k"
proof -
  have "b AND m = take_bit k b" by (simp add: take_bit_eq_mask assms(1))
  then have "unat (ucast (b AND m) :: u32) = take_bit k (unat b)" by (simp add: unat_ucast_up unsigned_take_bit_eq)
  then show ?thesis by (simp add: take_bit_eq_mod)
qed

lemma byte_values:
  "unat (ucast (b AND 0x3F :: u8) :: u32) = unat b mod 64" "unat (ucast (b AND 0x1F :: u8) :: u32) = unat b mod 32"
  "unat (ucast (b AND 0x0F :: u8) :: u32) = unat b mod 16" "unat (ucast (b AND 0x07 :: u8) :: u32) = unat b mod 8"
  using byte_bits [of "0x3F" 6 b] byte_bits [of "0x1F" 5 b] byte_bits [of "0x0F" 4 b] byte_bits [of "0x07" 3 b]
  by (simp_all add: mask_eq_exp_minus_1)

lemma tag_byte:
  assumes "unat (y :: u32) < 2 ^ k" and "Suc c * 2 ^ k \<le> 256" and "(t :: u32) = push_bit k (of_nat c)"
  shows "unat (ucast (t OR y) :: u8) = c * 2 ^ k + unat y"
proof -
  have "Suc c * 1 \<le> Suc c * 2 ^ k" by (rule mult_le_mono2) simp
  then have c: "unat (of_nat c :: u32) = c" using assms(2) by (simp add: unat_of_nat)
  have s: "unat (t OR y) = c * 2 ^ k + unat y"
    using shift_or [OF assms(1), of "of_nat c"] assms(2) unfolding assms(3) c by simp
  moreover have "c * 2 ^ k + unat y < 2 ^ 8" using assms(1,2) by (simp only: mult_Suc) simp
  ultimately show ?thesis by (simp add: unsigned_ucast_eq take_bit_nat_eq_self)
qed

text \<open>The bytes of a code point as numbers.\<close>

lemma encode_bytes:
  "map unat (text_encode_utf8 cp) =
    (let n = unat cp in
     if n < 0x80 then [n]
     else if n < 0x800 then [0xC0 + n div 64, 0x80 + n mod 64]
     else if n < 0x10000 then [0xE0 + n div 4096, 0x80 + n div 64 mod 64, 0x80 + n mod 64]
     else if n < 0x110000 then [0xF0 + n div 262144, 0x80 + n div 4096 mod 64, 0x80 + n div 64 mod 64, 0x80 + n mod 64]
     else [0xEF, 0xBF, 0xBD])"
proof -
  let ?n = "unat cp"
  have le: "cp \<le> 0x7F \<longleftrightarrow> ?n < 0x80" "cp \<le> 0x7FF \<longleftrightarrow> ?n < 0x800" "cp \<le> 0xFFFF \<longleftrightarrow> ?n < 0x10000" "cp \<le> 0x10FFFF \<longleftrightarrow> ?n < 0x110000"
    by (simp_all add: word_le_nat_alt) arith+
  have d: "unat (drop_bit k cp) = ?n div 2 ^ k" for k
  proof -
    have "take_bit 32 (unat cp) = unat cp" using unsigned_less [of cp, where ?'a = nat] by (intro take_bit_nat_eq_self) simp
    then have "unat (drop_bit k cp) = drop_bit k (unat cp)" by (simp add: unsigned_drop_bit_eq)
    then show ?thesis by (simp add: drop_bit_eq_div)
  qed
  have plain: "?n < 0x80 \<Longrightarrow> unat (ucast cp :: u8) = ?n" by (simp add: unsigned_ucast_eq take_bit_nat_eq_self)
  have cont: "unat (ucast (0x80 OR (w AND 0x3F)) :: u8) = 0x80 + unat w mod 64" for w :: u32
    using tag_byte [of "w AND 0x3F" 6 2 "0x80"] by (simp add: low_bits push_bit_eq_mult)
  have two: "?n < 0x800 \<Longrightarrow> unat (ucast (0xC0 OR drop_bit 6 cp) :: u8) = 0xC0 + ?n div 64"
    using tag_byte [of "drop_bit 6 cp" 5 6 "0xC0"] by (simp add: d push_bit_eq_mult less_mult_imp_div_less)
  have three: "?n < 0x10000 \<Longrightarrow> unat (ucast (0xE0 OR drop_bit 12 cp) :: u8) = 0xE0 + ?n div 4096"
    using tag_byte [of "drop_bit 12 cp" 4 14 "0xE0"] by (simp add: d push_bit_eq_mult less_mult_imp_div_less)
  have four: "?n < 0x110000 \<Longrightarrow> unat (ucast (0xF0 OR drop_bit 18 cp) :: u8) = 0xF0 + ?n div 262144"
    using tag_byte [of "drop_bit 18 cp" 3 30 "0xF0"] by (simp add: d push_bit_eq_mult less_mult_imp_div_less)
  show ?thesis
    using plain two three four by (simp add: text_encode_utf8_def le cont d Let_def utf8_write_replacement_def)
qed

definition is_cont :: "nat \<Rightarrow> bool" where
  "is_cont b \<longleftrightarrow> 0x80 \<le> b \<and> b < 0xC0"

lemma decode_numbers:
  fixes s defines "u \<equiv> \<lambda>i. unat (byte_at s i)"
  shows "0 < u 0 \<Longrightarrow> u 0 < 0x80 \<Longrightarrow> text_decode_utf8 s = (of_nat (u 0), 1)"
    and "0xC0 \<le> u 0 \<Longrightarrow> u 0 < 0xE0 \<Longrightarrow> is_cont (u 1) \<Longrightarrow> text_decode_utf8 s = (of_nat (u 0 mod 32 * 64 + u 1 mod 64), 2)"
    and "0xE0 \<le> u 0 \<Longrightarrow> u 0 < 0xF0 \<Longrightarrow> is_cont (u 1) \<Longrightarrow> is_cont (u 2) \<Longrightarrow>
      text_decode_utf8 s = (of_nat (u 0 mod 16 * 4096 + u 1 mod 64 * 64 + u 2 mod 64), 3)"
    and "0xF0 \<le> u 0 \<Longrightarrow> u 0 < 0xF8 \<Longrightarrow> is_cont (u 1) \<Longrightarrow> is_cont (u 2) \<Longrightarrow> is_cont (u 3) \<Longrightarrow>
      text_decode_utf8 s = (of_nat (u 0 mod 8 * 262144 + u 1 mod 64 * 4096 + u 2 mod 64 * 64 + u 3 mod 64), 4)"
proof -
  have nz: "byte_at s 0 = 0 \<longleftrightarrow> u 0 = 0" by (simp add: u_def unat_eq_0)
  have eqI: "unat w = n \<Longrightarrow> w = of_nat n" for w :: u32 and n by (metis of_nat_unat ucast_id)
  let ?v = "\<lambda>i m. ucast (byte_at s i AND m) :: u32"
  have v: "unat (?v i 0x3F) = u i mod 64" "unat (?v i 0x1F) = u i mod 32" "unat (?v i 0x0F) = u i mod 16" "unat (?v i 0x07) = u i mod 8" for i
    by (simp_all add: byte_values u_def)
  have two: "unat (push_bit 6 x OR ?v i 0x3F) = unat x * 64 + u i mod 64" if "unat x < 2 ^ 20" for i and x :: u32
    using shift_or [of "?v i 0x3F" 6 x] that by (simp add: v)
  have three: "unat (push_bit 12 x OR push_bit 6 (?v i 0x3F) OR ?v j 0x3F) = unat x * 4096 + u i mod 64 * 64 + u j mod 64"
    if "unat x < 2 ^ 10" for i j and x :: u32
  proof -
    have "u i mod 64 * 64 + u j mod 64 < 4096" using mod_less_divisor [of 64 "u i"] mod_less_divisor [of 64 "u j"] by linarith
    then show ?thesis using shift_or [of "push_bit 6 (?v i 0x3F) OR ?v j 0x3F" 12 x] two [of "?v i 0x3F" j] that
      by (simp add: v or.assoc)
  qed
  have four: "unat (push_bit 18 x OR push_bit 12 (?v i 0x3F) OR push_bit 6 (?v j 0x3F) OR ?v k 0x3F) =
      unat x * 262144 + u i mod 64 * 4096 + u j mod 64 * 64 + u k mod 64" if "unat x < 2 ^ 10" for i j k and x :: u32
  proof -
    have "u i mod 64 * 4096 + u j mod 64 * 64 + u k mod 64 < 262144"
      using mod_less_divisor [of 64 "u i"] mod_less_divisor [of 64 "u j"] mod_less_divisor [of 64 "u k"] by linarith
    then show ?thesis
      using shift_or [of "push_bit 12 (?v i 0x3F) OR push_bit 6 (?v j 0x3F) OR ?v k 0x3F" 18 x] three [of "?v i 0x3F" j k] that
      by (simp add: v or.assoc)
  qed
  note d = text_decode_utf8_def Let_def nz byte_tests
  { assume "0 < u 0" "u 0 < 0x80"
    then show "text_decode_utf8 s = (of_nat (u 0), 1)" by (simp add: d u_def eqI unat_ucast_up) }
  { assume "0xC0 \<le> u 0" "u 0 < 0xE0" "is_cont (u 1)"
    then show "text_decode_utf8 s = (of_nat (u 0 mod 32 * 64 + u 1 mod 64), 2)"
      using eqI [OF two [of "?v 0 0x1F" 1]] by (simp add: d v is_cont_def) (simp add: u_def) }
  { assume "0xE0 \<le> u 0" "u 0 < 0xF0" "is_cont (u 1)" "is_cont (u 2)"
    then show "text_decode_utf8 s = (of_nat (u 0 mod 16 * 4096 + u 1 mod 64 * 64 + u 2 mod 64), 3)"
      using eqI [OF three [of "?v 0 0x0F" 1 2]] by (simp add: d v is_cont_def) (simp add: u_def) }
  { assume "0xF0 \<le> u 0" "u 0 < 0xF8" "is_cont (u 1)" "is_cont (u 2)" "is_cont (u 3)"
    then show "text_decode_utf8 s = (of_nat (u 0 mod 8 * 262144 + u 1 mod 64 * 4096 + u 2 mod 64 * 64 + u 3 mod 64), 4)"
      using eqI [OF four [of "?v 0 0x07" 1 2 3]] by (simp add: d v is_cont_def) (simp add: u_def) }
qed

text \<open>Behind the first byte of a character come continuation bytes, and a character ends in front of a byte that is none.\<close>

definition code_point :: "u32 \<Rightarrow> bool" where
  "code_point cp \<longleftrightarrow> 0 < cp \<and> cp \<le> 0x10FFFF"

lemma code_point_iff: "code_point cp \<longleftrightarrow> 0 < unat cp \<and> unat cp < 0x110000"
  by (simp add: code_point_def word_less_nat_alt word_le_nat_alt) arith

lemma length_encode: "length (text_encode_utf8 cp) = length (map unat (text_encode_utf8 cp))"
  by simp

lemma encode_length:
  "length (text_encode_utf8 cp) =
    (let n = unat cp in if n < 0x80 then 1 else if n < 0x800 then 2 else if n < 0x10000 then 3 else if n < 0x110000 then 4 else 3)"
  by (subst length_encode, subst encode_bytes) (simp add: Let_def)

lemma encode_nth:
  "i < length (text_encode_utf8 cp) \<Longrightarrow> unat (byte_at (text_encode_utf8 cp @ rest) i) = map unat (text_encode_utf8 cp) ! i"
  by (simp add: byte_at_def nth_append)

lemma split_64:
  fixes n :: nat
  shows "n div 64 * 64 + n mod 64 = n" "n div 4096 * 64 + n div 64 mod 64 = n div 64" "n div 262144 * 64 + n div 4096 mod 64 = n div 4096"
  using div_mult_mod_eq [of n 64] div_mult_mod_eq [of "n div 64" 64] div_mult_mod_eq [of "n div 4096" 64]
  by (simp_all add: div_mult2_eq [symmetric])

lemma mod_tag: "x < m \<Longrightarrow> (c * m + x) mod m = (x :: nat)"
  by simp

lemma cont_mod: "(0x80 + n mod 64) mod 64 = n mod (64 :: nat)"
  using mod_tag [of "n mod 64" 64 2] by simp

lemma decode_encode:
  assumes "code_point cp"
  shows "text_decode_utf8 (text_encode_utf8 cp @ rest) = (cp, length (text_encode_utf8 cp))"
proof -
  let ?n = "unat cp" and ?s = "text_encode_utf8 cp @ rest"
  have n: "0 < ?n" "?n < 0x110000" using assms by (simp_all add: code_point_iff)
  note b = encode_nth [of _ cp rest]
  note s64 = split_64 [of ?n]
  consider (one) "?n < 0x80" | (two) "0x80 \<le> ?n" "?n < 0x800" | (three) "0x800 \<le> ?n" "?n < 0x10000" | (four) "0x10000 \<le> ?n"
    by linarith
  then show ?thesis
  proof cases
    case one
    then show ?thesis using n b [of 0] encode_bytes [of cp] encode_length [of cp] decode_numbers(1) [of ?s] by (simp add: Let_def)
  next
    case two
    then have "?n div 64 < 32" by (simp add: less_mult_imp_div_less)
    then have m: "(0xC0 + ?n div 64) mod 32 = ?n div 64" "(0x80 + ?n mod 64) mod 64 = ?n mod 64"
      using mod_tag [of "?n div 64" 32 6] cont_mod by simp_all
    have nums: "map unat (text_encode_utf8 cp) = [0xC0 + ?n div 64, 0x80 + ?n mod 64]" and len: "length (text_encode_utf8 cp) = 2"
      using encode_bytes [of cp] encode_length [of cp] two n(2) by (simp_all add: Let_def)
    have u: "unat (byte_at ?s 0) = 0xC0 + ?n div 64"
      "unat (byte_at ?s 1) = 0x80 + ?n mod 64"
      using b [of 0] b [of 1] by (simp_all add: nums len)
    have "text_decode_utf8 ?s = (of_nat (?n div 64 * 64 + ?n mod 64), 2)"
      using decode_numbers(2) [of ?s] unfolding u m is_cont_def using \<open>?n div 64 < 32\<close> by simp
    then show ?thesis by (simp add: s64(1) len)
  next
    case three
    then have d: "?n div 4096 < 16" by (simp add: less_mult_imp_div_less)
    then have m: "(0xE0 + ?n div 4096) mod 16 = ?n div 4096" "(0x80 + ?n div 64 mod 64) mod 64 = ?n div 64 mod 64"
      "(0x80 + ?n mod 64) mod 64 = ?n mod 64" using mod_tag [of "?n div 4096" 16 14] cont_mod by simp_all
    have v: "?n div 4096 * 4096 + ?n div 64 mod 64 * 64 + ?n mod 64 = ?n" using s64 by linarith
    have nums: "map unat (text_encode_utf8 cp) = [0xE0 + ?n div 4096, 0x80 + ?n div 64 mod 64, 0x80 + ?n mod 64]" and len: "length (text_encode_utf8 cp) = 3"
      using encode_bytes [of cp] encode_length [of cp] three n(2) by (simp_all add: Let_def)
    have u: "unat (byte_at ?s 0) = 0xE0 + ?n div 4096"
      "unat (byte_at ?s 1) = 0x80 + ?n div 64 mod 64"
      "unat (byte_at ?s 2) = 0x80 + ?n mod 64"
      using b [of 0] b [of 1] b [of 2] by (simp_all add: nums len)
    have "text_decode_utf8 ?s = (of_nat (?n div 4096 * 4096 + ?n div 64 mod 64 * 64 + ?n mod 64), 3)"
      using decode_numbers(3) [of ?s] unfolding u m is_cont_def using d by simp
    then show ?thesis by (simp add: v len)
  next
    case four
    then have d: "?n div 262144 < 8" using n(2) by (simp add: less_mult_imp_div_less)
    then have m: "(0xF0 + ?n div 262144) mod 8 = ?n div 262144" "(0x80 + ?n div 4096 mod 64) mod 64 = ?n div 4096 mod 64"
      "(0x80 + ?n div 64 mod 64) mod 64 = ?n div 64 mod 64" "(0x80 + ?n mod 64) mod 64 = ?n mod 64"
      using mod_tag [of "?n div 262144" 8 30] cont_mod by simp_all
    have v: "?n div 262144 * 262144 + ?n div 4096 mod 64 * 4096 + ?n div 64 mod 64 * 64 + ?n mod 64 = ?n" using s64 by linarith
    have nums: "map unat (text_encode_utf8 cp) = [0xF0 + ?n div 262144, 0x80 + ?n div 4096 mod 64, 0x80 + ?n div 64 mod 64, 0x80 + ?n mod 64]" and len: "length (text_encode_utf8 cp) = 4"
      using encode_bytes [of cp] encode_length [of cp] four n(2) by (simp_all add: Let_def)
    have u: "unat (byte_at ?s 0) = 0xF0 + ?n div 262144"
      "unat (byte_at ?s 1) = 0x80 + ?n div 4096 mod 64"
      "unat (byte_at ?s 2) = 0x80 + ?n div 64 mod 64"
      "unat (byte_at ?s 3) = 0x80 + ?n mod 64"
      using b [of 0] b [of 1] b [of 2] b [of 3] by (simp_all add: nums len)
    have "text_decode_utf8 ?s = (of_nat (?n div 262144 * 262144 + ?n div 4096 mod 64 * 4096 + ?n div 64 mod 64 * 64 + ?n mod 64), 4)"
      using decode_numbers(4) [of ?s] unfolding u m is_cont_def using d by simp
    then show ?thesis by (simp add: v len)
  qed
qed

text \<open>C35 (utf8_roundtrip): the decoder reads back every code point but 0 that the encoder writes, whatever follows it, and says how
  many bytes it took.\<close>

theorem utf8_roundtrip:
  assumes "code_point cp"
  shows "text_decode_utf8 (text_encode_utf8 cp @ rest) = (cp, length (text_encode_utf8 cp))"
  using decode_encode [OF assms] .

theorem utf8_roundtrip_witness: "text_decode_utf8 (text_encode_utf8 0x20AC @ [0x21]) = (0x20AC, 3)"
  using utf8_roundtrip [of "0x20AC" "[0x21]"] encode_length [of "0x20AC"] by (simp add: code_point_def)

section \<open>Texts\<close>

definition utf8_text :: "u32 list \<Rightarrow> u8 list" where
  "utf8_text cps = concat (map text_encode_utf8 cps)"

lemma utf8_text_simps [simp]:
  "utf8_text [] = []" "utf8_text (c # cs) = text_encode_utf8 c @ utf8_text cs" "utf8_text (xs @ ys) = utf8_text xs @ utf8_text ys"
  by (simp_all add: utf8_text_def)

lemma encode_starts: "code_point cp \<Longrightarrow> byte_at (text_encode_utf8 cp @ rest) 0 \<noteq> 0"
  using decode_encode [of cp rest] by (auto simp: text_decode_utf8_def code_point_def)

lemma next_skips: "code_point c \<Longrightarrow> text_next_utf8 (text_encode_utf8 c @ rest) = rest"
  by (simp add: text_next_utf8_def encode_starts decode_encode)

text \<open>The bytes of a character: the first one starts it, and the others are continuations.\<close>

lemma encode_cont:
  assumes "i < length (text_encode_utf8 c)" and "code_point c"
  shows "byte_at (text_encode_utf8 c @ rest) i AND 0xC0 = 0x80 \<longleftrightarrow> 0 < i"
proof -
  have n: "unat c < 0x110000" using assms(2) by (simp add: code_point_iff)
  then show ?thesis using encode_nth [OF assms(1), of rest] assms(1) encode_bytes [of c] encode_length [of c]
    unfolding byte_tests by (auto simp: Let_def nth_Cons' split: if_splits)
qed

lemma byte_at_append: "byte_at (xs @ ys) (length xs + i) = byte_at ys i"
  by (simp add: byte_at_def nth_append)

lemma prev_back:
  assumes "code_point c" and "i < length (text_encode_utf8 c)"
  shows "back_over (xs @ text_encode_utf8 c @ rest) (length xs + i) = length xs"
  using assms(2)
proof (induction i)
  case 0
  then show ?case
    using encode_cont [OF _ assms(1), of 0 rest] byte_at_append [of xs "text_encode_utf8 c @ rest" 0] by (cases "length xs") simp_all
next
  case (Suc i)
  then show ?case
    using encode_cont [OF _ assms(1), of "Suc i" rest] byte_at_append [of xs "text_encode_utf8 c @ rest" "Suc i"] by simp
qed

text \<open>C36 (utf8_steps): in a text of encoded characters a step forward goes over one character, a step back undoes it, and the
  length is the number of the characters.\<close>

theorem utf8_steps:
  assumes "list_all code_point (xs @ c # ys)"
  shows "text_next_utf8 (utf8_text (c # ys)) = utf8_text ys \<and>
    text_prev_utf8 (utf8_text (xs @ c # ys)) (length (utf8_text (xs @ [c]))) = length (utf8_text xs) \<and>
    text_strlen_utf8 (utf8_text (xs @ c # ys)) = length (xs @ c # ys)"
proof -
  have c: "code_point c" using assms by simp
  have count: "list_all code_point cs \<Longrightarrow> text_strlen_utf8 (utf8_text cs) = length cs" for cs
    by (induction cs) (subst text_strlen_utf8.simps, simp add: encode_starts decode_encode)+
  have "0 < length (text_encode_utf8 c)" using encode_length [of c] by (simp add: Let_def)
  then have "text_prev_utf8 (utf8_text (xs @ c # ys)) (length (utf8_text (xs @ [c]))) = length (utf8_text xs)"
    using prev_back [OF c, of "length (text_encode_utf8 c) - 1" "utf8_text xs" "utf8_text ys"]
    by (simp add: text_prev_utf8_def Nat.add_diff_assoc Suc_le_eq)
  then show ?thesis using next_skips [OF c] count [OF assms] by simp
qed

theorem utf8_steps_witness:
  "text_prev_utf8 (utf8_text [0x61, 0xE9, 0x20AC]) 6 = 3 \<and> text_strlen_utf8 (utf8_text [0x61, 0xE9, 0x20AC]) = 3"
proof -
  have l: "length (utf8_text ([0x61, 0xE9] @ [0x20AC])) = 6" "length (utf8_text [0x61, 0xE9]) = 3" by (simp_all add: encode_length)
  show ?thesis using utf8_steps [of "[0x61, 0xE9]" "0x20AC" "[]"] unfolding l by (simp add: code_point_def)
qed

text \<open>C37 (utf8_in_bounds): whatever the bytes are, the decoder steps over at least one byte and never past the end of the text, and
  there are at most as many characters as bytes.\<close>

theorem utf8_in_bounds:
  assumes "byte_at s 0 \<noteq> 0"
  shows "0 < snd (text_decode_utf8 s) \<and> snd (text_decode_utf8 s) \<le> length s \<and> text_strlen_utf8 s \<le> length s"
proof -
  have adv: "snd (text_decode_utf8 t) \<le> length t" for t
  proof -
    have "byte_at t i AND 0xC0 = 0x80 \<Longrightarrow> i < length t" for i by (cases "i < length t") (simp_all add: byte_at_def)
    from this [of 1] this [of 2] this [of 3] show ?thesis
      using byte_at_nonempty [of t] by (cases "t = []") (auto simp: text_decode_utf8_def Let_def byte_at_def Suc_le_eq)
  qed
  have "text_strlen_utf8 t \<le> length t" for t
  proof (induction t rule: text_strlen_utf8.induct)
    case (1 t)
    then show ?case using decode_advances [of t] adv [of t] by (subst text_strlen_utf8.simps) auto
  qed
  then show ?thesis using decode_advances [OF assms] adv [of s] by simp
qed

theorem utf8_in_bounds_witness: "snd (text_decode_utf8 [0xE2, 0x82]) \<le> 2 \<and> text_strlen_utf8 [0xE2, 0x82] \<le> 2"
  using utf8_in_bounds [of "[0xE2, 0x82]"] by (simp add: byte_at_def)

text \<open>The fact \<open>overlong_accepted\<close>: a NUL of two bytes, half of a surrogate pair and a number behind the last code point are decoded as
  if they were characters.\<close>

theorem overlong_accepted:
  "text_decode_utf8 [0xC0, 0x80] = (0, 2) \<and> text_decode_utf8 [0xED, 0xA0, 0x80] = (0xD800, 3) \<and>
   text_decode_utf8 [0xF7, 0xBF, 0xBF, 0xBF] = (0x1FFFFF, 4)"
  by (simp add: text_decode_utf8_def byte_at_def push_bit_eq_mult)

end
