(* ===== verification/Spec2Isabelle.thy ===== *)
theory Spec2Isabelle
  imports ShellRuns BootRuns BosVfsLaws BosQueues BosSlabRuns BosHeapGrow BosKeyboardLaws BosUtf8
begin

text \<open>
  A verified model of Onken OS, a 64-bit kernel with a graphical shell: its memory, tasks, timer
  and drivers, the RAM disk, the frame buffer and window manager, the nine applications, and the
  shell's loop that ties them together; and of the parts of BoredOS, the system whose sources the
  project keeps under \<^verbatim>\<open>reference\<close>, that hold its files, queues and memory and read its keyboard.

  \<^bold>\<open>The program.\<close> \<^verbatim>\<open>kernel/kernel.c\<close> starts on what the Limine loader hands over, sets up memory
  (\<^verbatim>\<open>kernel/mm.c\<close>), buffers (\<^verbatim>\<open>gui/fb.c\<close>), interrupts (\<^verbatim>\<open>kernel/interrupts\<close>), the timer
  (\<^verbatim>\<open>kernel/time\<close>), the task list (\<^verbatim>\<open>kernel/scheduler\<close>) and the PS/2 controller (\<^verbatim>\<open>drivers/ps2.c\<close>),
  and ends in \<^verbatim>\<open>shell_loop\<close> (\<^verbatim>\<open>shell/shell.c\<close>). A turn of that loop reads the keyboard and mouse state
  that the interrupt handlers leave, moves icons and windows, launches applications through the
  registry (\<^verbatim>\<open>kernel/tasking/app.c\<close>), passes a key to the application behind the active window,
  composes the picture and sleeps 5 ms. There is one thread; the interrupt handlers run while the
  processor is halted in \<^verbatim>\<open>sleep\<close>.

  \<^bold>\<open>Theories and sources.\<close>
  \<^item> \<open>Prelude\<close>: loops as \<open>for_up\<close>, stores with a bounds check, the collection \<open>keeps_intros\<close>.
  \<^item> \<open>CString\<close>: \<^verbatim>\<open>kernel/string.c\<close> - copying, comparing, \<^verbatim>\<open>strtok\<close>, \<^verbatim>\<open>xsprintf\<close>.
  \<^item> \<open>HeapMem\<close>: \<^verbatim>\<open>kernel/mm.c\<close>. \<open>RamFS\<close>: \<^verbatim>\<open>kernel/fs.c\<close>. \<open>Sched\<close>: \<^verbatim>\<open>kernel/scheduler\<close>, with pointers as
    indices of cells.
  \<^item> \<open>PortIO\<close>: \<^verbatim>\<open>inb\<close> and \<^verbatim>\<open>outb\<close>, the serial log, the interrupt tables. \<open>Timer\<close>: \<^verbatim>\<open>kernel/time/pit.c\<close> and
    \<^verbatim>\<open>drivers/sound.c\<close>. \<open>Rtc\<close>, \<open>Pci\<close>, \<open>Cpuid\<close>, \<open>Ps2\<close>: the drivers of those names.
  \<^item> \<open>Framebuf\<close>, \<open>Pixels\<close>: \<^verbatim>\<open>gui/fb.c\<close>, operations and laws. \<open>Windows\<close>: \<^verbatim>\<open>gui/window.c\<close>.
  \<^item> \<open>KernelState\<close>: the record \<open>kernel\<close> with one field per module that keeps statics, the values at
    the start, the registry, the system calls, and \<open>sleep\<close> over a list of interrupts.
  \<^item> \<open>TextField\<close>: the locales \<open>text_field\<close> and \<open>bounded_log\<close> that the editor, the command line and the
    scroll-back interpret.
  \<^item> \<open>Apps\<close>, \<open>Yano\<close>, \<open>Terminal\<close>: \<^verbatim>\<open>apps/\<close>. \<open>TerminalLaws\<close>, \<open>TerminalTab\<close>, \<open>TerminalFiles\<close>: what the terminal
    promises about its lines, completion and file commands.
  \<^item> \<open>Shell\<close>: \<^verbatim>\<open>shell/shell.c\<close>, one definition per block of the loop. \<open>Boot\<close>: \<^verbatim>\<open>kernel_main\<close>.
  \<^item> \<open>KernelTypes\<close>, \<open>ShellTypes\<close>: the shape of the whole state, kept by every command, key, click,
    drawing and interrupt. \<open>ShellRuns\<close>: turns of the loop that end with every store inside its array. \<open>BootRuns\<close>: the start runs from \<^verbatim>\<open>kernel_main\<close> to the shell's loop.
  \<^item> Of \<^verbatim>\<open>reference/BoredOS-26.6.0-RC1/src\<close>: \<open>BosPath\<close>, \<open>BosVfs\<close>, \<open>BosVfsLaws\<close>: \<^verbatim>\<open>fs/vfs.c\<close>, paths, mounts
    and open files. \<open>BosQueues\<close>: \<^verbatim>\<open>sys/work_queue.c\<close> and \<^verbatim>\<open>sys/tty.c\<close>. \<open>BosHeap\<close>, \<open>BosHeapLaws\<close>, \<open>BosHeapGrow\<close>: the
    block list of \<^verbatim>\<open>mem/memory_manager.c\<close>, its start, its growth. \<open>BosSlab\<close>, \<open>BosSlabLaws\<close>, \<open>BosSlabRuns\<close>: its slab
    caches and its calls. \<open>BosKeyboard\<close>, \<open>BosKeyboardLaws\<close>: \<^verbatim>\<open>input/keyboard.c\<close> and \<^verbatim>\<open>input/keymap.c\<close>. \<open>BosUtf8\<close>:
    \<^verbatim>\<open>wm/utf-8.c\<close>. \<open>BosHandles\<close>: the contract of a table that hands out and takes back handles,
    which the open files and the blocks of the heap interpret.

  \<^bold>\<open>Conventions.\<close> \<^verbatim>\<open>uint32_t\<close> and the other fixed widths are words; \<^verbatim>\<open>int\<close> is \<open>int\<close> where the code keeps it
  small and \<open>sint\<close> of the word where it converts. A string is a character list and \<open>cstr\<close> its part in
  front of the first NUL; a static array is a list whose length never changes. A result \<open>None\<close> is
  a store outside an array, an undefined conversion, a division by zero or a busy loop that never
  ends; error returns are the integers the code returns. Function pointers are the datatypes
  \<open>draw_fn\<close> and \<open>app_id\<close>; a \<^verbatim>\<open>window_t*\<close> is an index. The hardware is a parameter: what a port delivers
  after a trace of accesses; the code's effect on it is the trace.

  \<^bold>\<open>What is shown.\<close> Each module's laws are proved once as a contract (\<open>bump_allocator\<close>, \<open>file_store\<close>,
  \<open>process_table\<close>, \<open>bounded_queue\<close>, \<open>effect_log\<close>, \<open>text_field\<close>, \<open>bounded_log\<close>) and interpreted on the
  module's own definitions: allocated blocks are disjoint, the file table is a map from names to
  contents, the task list a list of pids, the note queue a queue. Pixels and frames stay in the
  buffer, a swap shows the picture, the cursor leaves no trail. Windows are only permuted, the mouse
  stays on the screen, the clock shows the chip's time. The scroll-back keeps the last 40 lines,
  keys edit the texts, \<^verbatim>\<open>cp\<close>, \<^verbatim>\<open>wc\<close> and \<^verbatim>\<open>hexdump\<close> do what they say, a single match completes. For the
  whole kernel: the boot sequence reaches the shell on devices that answer; any number of turns with any interrupts that end keep the shape of the
  state, a turn with a key other than return and no new click does end on plain windows, and a key
  reaches the application that draws the active window. Of BoredOS: a path is normalised to its
  components and resolved to the longest mount, open files and live blocks are distinct, an
  allocation carves a block out of a free one and freeing it restores the list (all three while the
  list of blocks has room and need not grow), a slot comes back,
  the ring buffers are queues (\<open>fifo_queue\<close>, \<open>handle_table\<close>), a stream of scan codes types the text of the
  layout, and UTF-8 is read back and stepped over. Several theorems pin down behaviour the
  code does not intend: a long command line overruns its array, long file names are cut, two
  windows can be marked active, an unmount strands the files of later mounts, a shrinking
  \<^verbatim>\<open>krealloc\<close> overruns its slot, a growing block list loses its order.

  \<^bold>\<open>Loops and fuel.\<close> Counted loops are \<open>for_up\<close> or structural recursion. Busy waits without a bound
  (\<open>serial_wait\<close>, \<open>rtc_wait\<close>, \<open>rtc_stable\<close>) are partial functions, with theorems that they return on
  devices that answer; \<open>sleep_until\<close> recurses on the interrupts and \<open>sleep_returns\<close> says when it ends.
  \<open>last_cell\<close> and \<open>destroy_after\<close> take the number of task cells as fuel, which a list without cycles
  never exhausts. The search of the block heap has three turns per block of its capacity as fuel, and
  \<open>heap_search_ends\<close> says that this is enough. The chains of slab pages are partial functions. \<open>shell_turns\<close> bounds the number of turns of the endless loop by its fuel.

  \<^bold>\<open>Not modelled.\<close> The boot loader protocol, the assembly stubs and the image decoder
  \<^verbatim>\<open>gui/stb_image.h\<close> are parameters. \<^verbatim>\<open>fb_init\<close>, the multiboot variant of \<^verbatim>\<open>fb_init_raw\<close>, and \<^verbatim>\<open>inw\<close> are
  not called. Interrupts that arrive outside \<^verbatim>\<open>sleep\<close> are not interleaved with a turn of the loop.
  The rest of \<^verbatim>\<open>reference/BoredOS-26.6.0-RC1\<close>, another system's source that nothing of Onken OS
  includes: its drivers, file systems, processes, system calls, window manager and programs. Its
  locks are not modelled: its operations run one after the other.
\<close>

end
